(* ===== verification/Prelude.thy ===== *)
theory Prelude
  imports Main "HOL-Library.AList" "HOL-Library.Sublist" "HOL-Library.Multiset"
begin

text \<open>
  Shared vocabulary of the development: Python dictionaries, slices, \<open>max\<close> and \<open>sort\<close> with a
  key, dynamic values with their truth value and \<open>str\<close>, and the string methods the program
  uses.  Every component theory imports this one.

  A Python \<open>dict\<close> keeps insertion order, so it is an association list whose keys are
  distinct; assignment to an existing key keeps its place and a new key goes to the end, which
  is what \<open>AList.update\<close> does.  Text is a list of (ASCII) characters.
\<close>

named_theorems dict_simps "rewrite rules for Python dictionaries"
named_theorems str_simps "rewrite rules for Python string methods"


section \<open>Results of fallible operations\<close>

text \<open>The exceptions the modelled code can raise, with the data a handler looks at.\<close>

datatype py_exc =
    KeyError string
  | IndexError
  | ValueError string
  | TypeError
  | AttributeError string
  | ValidationError
  | HTTPException int
  | WebSocketException int
  | Exception string

type_synonym 'a result = "py_exc + 'a"

text \<open>A function that may raise over a list: the first exception ends the loop.\<close>

fun map_result :: "('a \<Rightarrow> 'b result) \<Rightarrow> 'a list \<Rightarrow> 'b list result" where
  "map_result f [] = Inr []"
| "map_result f (x # xs) =
     (case f x of
        Inl e \<Rightarrow> Inl e
      | Inr y \<Rightarrow> (case map_result f xs of Inl e \<Rightarrow> Inl e | Inr ys \<Rightarrow> Inr (y # ys)))"


section \<open>Dictionaries\<close>

type_synonym ('k, 'v) dict = "('k \<times> 'v) list"

abbreviation dict_get :: "('k, 'v) dict \<Rightarrow> 'k \<Rightarrow> 'v option" where
  "dict_get d k \<equiv> map_of d k"

abbreviation dict_set :: "'k \<Rightarrow> 'v \<Rightarrow> ('k, 'v) dict \<Rightarrow> ('k, 'v) dict" where
  "dict_set k v d \<equiv> AList.update k v d"

abbreviation dict_del :: "'k \<Rightarrow> ('k, 'v) dict \<Rightarrow> ('k, 'v) dict" where
  "dict_del k d \<equiv> AList.delete k d"

abbreviation dict_keys :: "('k, 'v) dict \<Rightarrow> 'k list" where
  "dict_keys d \<equiv> map fst d"

abbreviation dict_ok :: "('k, 'v) dict \<Rightarrow> bool" where
  "dict_ok d \<equiv> distinct (map fst d)"

text \<open>\<open>d1 | d2\<close> and \<open>{**d1, **d2}\<close>: the entries of \<open>d2\<close> are written over \<open>d1\<close> in their order.\<close>

definition dict_merge :: "('k, 'v) dict \<Rightarrow> ('k, 'v) dict \<Rightarrow> ('k, 'v) dict" where
  "dict_merge d1 d2 = fold (\<lambda>(k, v) d. dict_set k v d) d2 d1"

lemma dict_get_set [simp, dict_simps]: "dict_get (dict_set k v d) = (dict_get d)(k \<mapsto> v)"
  by (simp add: update_conv' fun_eq_iff)

lemma dict_get_del [simp, dict_simps]: "dict_get (dict_del k d) = (dict_get d)(k := None)"
  by (simp add: delete_conv' fun_eq_iff)

lemma dict_ok_set [simp, intro]: "dict_ok d \<Longrightarrow> dict_ok (dict_set k v d)"
  by (rule distinct_update)

lemma dict_ok_del [simp, intro]: "dict_ok d \<Longrightarrow> dict_ok (dict_del k d)"
  by (simp add: distinct_delete)

lemma dict_keys_set [dict_simps]:
  "set (dict_keys (dict_set k v d)) = insert k (set (dict_keys d))"
  by (simp add: dom_update flip: dom_map_of_conv_image_fst)

lemma dict_keys_del [dict_simps]: "set (dict_keys (dict_del k d)) = set (dict_keys d) - {k}"
  by (auto simp: delete_keys)

lemma dict_fst_set [simp, dict_simps]: "fst ` set (dict_set k v d) = insert k (fst ` set d)"
  using dict_keys_set [of k v d] by simp

lemma dict_del_filter: "dict_del k d = filter (\<lambda>p. fst p \<noteq> k) d"
  by (auto simp: AList.delete_eq case_prod_unfold intro!: filter_cong)

lemma dict_del_absent: "k \<notin> set (dict_keys d) \<Longrightarrow> dict_del k d = d"
  by (auto simp: dict_del_filter filter_id_conv)

lemma dict_set_absent: "k \<notin> set (dict_keys d) \<Longrightarrow> dict_set k v d = d @ [(k, v)]"
  by (induction d) auto

lemma dict_set_mem: "(k', w) \<in> set (dict_set k v d) \<Longrightarrow> (k', w) = (k, v) \<or> (k', w) \<in> set d"
  by (induction d) (auto split: if_splits)

lemma set_dict_set:
  "dict_ok d \<Longrightarrow> set (dict_set k v d) = insert (k, v) {x \<in> set d. fst x \<noteq> k}"
  by (induction d) (force split: if_splits)+

lemma dict_get_mem: "dict_ok d \<Longrightarrow> dict_get d k = Some v \<longleftrightarrow> (k, v) \<in> set d"
  by (rule map_of_eq_Some_iff)

lemma length_dict_set:
  "length (dict_set k v d) = (if k \<in> set (dict_keys d) then length d else Suc (length d))"
  by (induction d) auto

lemma dict_get_merge:
  "dict_ok d2 \<Longrightarrow> dict_get (dict_merge d1 d2) = dict_get d1 ++ dict_get d2"
proof (induction d2 arbitrary: d1)
  case Nil
  then show ?case by (simp add: dict_merge_def)
next
  case (Cons p d2)
  obtain k v where p: "p = (k, v)" by (cases p)
  from Cons.prems p have k: "dict_get d2 k = None"
    by (simp add: map_of_eq_None_iff)
  have "dict_get (dict_merge d1 (p # d2)) = dict_get (dict_merge (dict_set k v d1) d2)"
    by (simp add: dict_merge_def p)
  also have "\<dots> = (dict_get d1)(k \<mapsto> v) ++ dict_get d2"
    using Cons by simp
  also have "\<dots> = dict_get d1 ++ dict_get (p # d2)"
    using k by (auto simp: p map_add_def fun_eq_iff split: option.splits)
  finally show ?case .
qed

lemma dict_ok_merge: "dict_ok d1 \<Longrightarrow> dict_ok (dict_merge d1 d2)"
  unfolding dict_merge_def
  by (induction d2 arbitrary: d1) (auto simp: distinct_update split: prod.splits)


section \<open>Sequences\<close>

text \<open>\<open>xs[-n:]\<close> for \<open>n > 0\<close>; \<open>xs[-0:]\<close> is \<open>xs[0:]\<close>, the whole list.\<close>

definition last_n :: "nat \<Rightarrow> 'a list \<Rightarrow> 'a list" where
  "last_n n xs = (if n = 0 then xs else drop (length xs - n) xs)"

lemma length_last_n: "0 < n \<Longrightarrow> length (last_n n xs) = min n (length xs)"
  by (simp add: last_n_def)

lemma suffix_last_n: "suffix (last_n n xs) xs"
  by (simp add: last_n_def suffix_drop)

text \<open>\<open>max(xs, key=f)\<close>: the first of the elements with the greatest key.\<close>

fun max_by_from :: "('a \<Rightarrow> 'b::linorder) \<Rightarrow> 'a \<Rightarrow> 'a list \<Rightarrow> 'a" where
  "max_by_from f best [] = best"
| "max_by_from f best (x # xs) = max_by_from f (if f best < f x then x else best) xs"

fun max_by :: "('a \<Rightarrow> 'b::linorder) \<Rightarrow> 'a list \<Rightarrow> 'a option" where
  "max_by f [] = None"
| "max_by f (x # xs) = Some (max_by_from f x xs)"

lemma max_by_from_mem: "max_by_from f b xs \<in> insert b (set xs)"
proof (induction xs arbitrary: b)
  case Nil
  then show ?case by simp
next
  case (Cons x xs)
  from Cons [of "if f b < f x then x else b"] show ?case by (auto split: if_splits)
qed

lemma max_by_from_self: "f b \<le> f (max_by_from f b xs)"
proof (induction xs arbitrary: b)
  case Nil
  then show ?case by simp
next
  case (Cons x xs)
  have "f b \<le> f (if f b < f x then x else b)" by (simp add: less_imp_le)
  also have "\<dots> \<le> f (max_by_from f (if f b < f x then x else b) xs)" by (rule Cons)
  finally show ?case by simp
qed

lemma max_by_from_ge: "y \<in> insert b (set xs) \<Longrightarrow> f y \<le> f (max_by_from f b xs)"
proof (induction xs arbitrary: b)
  case Nil
  then show ?case by simp
next
  case (Cons x xs)
  let ?b = "if f b < f x then x else b"
  show ?case
  proof (cases "y \<in> set xs")
    case True
    then show ?thesis using Cons.IH [of ?b] by simp
  next
    case False
    with Cons.prems have "f y \<le> f ?b" by auto
    also have "\<dots> \<le> f (max_by_from f ?b xs)"
      by (rule max_by_from_self)
    finally show ?thesis by simp
  qed
qed

lemma max_by_mem: "max_by f xs = Some m \<Longrightarrow> m \<in> set xs"
  using max_by_from_mem [of f "hd xs" "tl xs"] by (cases xs) auto

lemma max_by_ge: "max_by f xs = Some m \<Longrightarrow> y \<in> set xs \<Longrightarrow> f y \<le> f m"
  by (cases xs) (auto intro: max_by_from_ge)

lemma max_by_None [simp]: "max_by f xs = None \<longleftrightarrow> xs = []"
  by (cases xs) auto

text \<open>When the greatest element is unique, \<open>max\<close> returns it whatever the order of the list.\<close>

lemma max_by_unique:
  assumes "m \<in> set xs" and "\<And>y. y \<in> set xs \<Longrightarrow> y \<noteq> m \<Longrightarrow> f y < f m"
  shows "max_by f xs = Some m"
proof -
  from assms(1) obtain k where k: "max_by f xs = Some k"
    using max_by_None [of f xs] by (cases "max_by f xs") auto
  have "k \<in> set xs" and "f m \<le> f k"
    using k assms(1) by (auto intro: max_by_mem max_by_ge)
  with assms(2) [of k] have "k = m" by (metis linorder_not_less)
  with k show ?thesis by simp
qed

text \<open>\<open>sort(key=f, reverse=True)\<close> for an integer key: descending, equal keys in their old order.\<close>

definition sort_desc :: "('a \<Rightarrow> int) \<Rightarrow> 'a list \<Rightarrow> 'a list" where
  "sort_desc f xs = sort_key (\<lambda>x. - f x) xs"

lemma mset_sort_desc [simp]: "mset (sort_desc f xs) = mset xs"
  by (simp add: sort_desc_def)

lemma set_sort_desc [simp]: "set (sort_desc f xs) = set xs"
  by (simp add: sort_desc_def)

lemma sort_desc_sorted: "sorted_wrt (\<lambda>x y. f y \<le> f x) (sort_desc f xs)"
proof -
  have "sorted (map (\<lambda>x. - f x) (sort_desc f xs))"
    by (simp add: sort_desc_def)
  then show ?thesis by (simp add: sorted_map)
qed

lemma sort_desc_stable: "filter (\<lambda>x. f x = k) (sort_desc f xs) = filter (\<lambda>x. f x = k) xs"
proof -
  have "filter (\<lambda>x. - f x = - k) (sort_key (\<lambda>x. - f x) xs) = filter (\<lambda>x. - f x = - k) xs"
    using sort_key_stable [of "\<lambda>x. - f x" "- k" xs] by simp
  then show ?thesis by (simp add: sort_desc_def)
qed

end
