(* ===== verification/Py_Text.thy ===== *)
theory Py_Text
  imports Prelude
begin

text \<open>
  The string methods of the source (\<open>strip\<close>, \<open>lower\<close>, \<open>split\<close>, \<open>join\<close>, \<open>find\<close>, \<open>in\<close>,
  \<open>replace\<close>, \<open>startswith\<close>) and the formatting of integers, over ASCII text; and the dynamic
  values (\<open>None\<close>, booleans, integers, strings, lists, dictionaries) with their truth value and
  \<open>str\<close>.  Decoded JSON numbers are integers here; floating point numbers are left out.
\<close>


section \<open>Characters and stripping\<close>

definition is_space :: "char \<Rightarrow> bool" where
  "is_space c = (let n = (of_char c :: nat) in 9 \<le> n \<and> n \<le> 13 \<or> 28 \<le> n \<and> n \<le> 32)"

definition is_digit :: "char \<Rightarrow> bool" where
  "is_digit c = (let n = (of_char c :: nat) in 48 \<le> n \<and> n \<le> 57)"

definition lower_char :: "char \<Rightarrow> char" where
  "lower_char c =
     (let n = (of_char c :: nat) in if 65 \<le> n \<and> n \<le> 90 then char_of (n + 32) else c)"

definition upper_char :: "char \<Rightarrow> char" where
  "upper_char c = (let n = (of_char c :: nat) in if 97 \<le> n \<and> n \<le> 122 then char_of (n - 32) else c)"

definition lower :: "string \<Rightarrow> string" where
  "lower s = map lower_char s"

text \<open>\<open>s.strip(chars)\<close> for a set of characters given by a predicate; \<open>s.strip()\<close> strips white space.\<close>

definition strip_of :: "(char \<Rightarrow> bool) \<Rightarrow> string \<Rightarrow> string" where
  "strip_of p s = rev (dropWhile p (rev (dropWhile p s)))"

definition strip :: "string \<Rightarrow> string" where
  "strip s = strip_of is_space s"

lemma strip_of_ends:
  "strip_of p s = [] \<or> \<not> p (hd (strip_of p s)) \<and> \<not> p (last (strip_of p s))"
proof -
  let ?t = "dropWhile p s" and ?u = "dropWhile p (rev (dropWhile p s))"
  show ?thesis
  proof (cases "?u = []")
    case True
    then show ?thesis by (simp add: strip_of_def)
  next
    case False
    then have "\<not> p (hd ?u)" by (rule hd_dropWhile)
    moreover obtain pre where pre: "rev ?t = pre @ ?u"
      by (metis takeWhile_dropWhile_id)
    then have t: "?t = rev ?u @ rev pre" by (metis rev_append rev_rev_ident)
    moreover from t False have "?t \<noteq> []" by (metis append_is_Nil_conv rev_is_Nil_conv)
    then have "\<not> p (hd ?t)" by (rule hd_dropWhile)
    ultimately have "\<not> p (hd (rev ?u))" using False by (metis hd_append2 rev_is_Nil_conv)
    with \<open>\<not> p (hd ?u)\<close> False show ?thesis
      by (simp add: strip_of_def last_rev)
  qed
qed

lemma strip_of_subset: "set (strip_of p s) \<subseteq> set s"
  by (auto simp: strip_of_def dest!: set_dropWhileD)

lemma strip_of_id: "s = [] \<or> \<not> p (hd s) \<and> \<not> p (last s) \<Longrightarrow> strip_of p s = s"
proof -
  assume "s = [] \<or> \<not> p (hd s) \<and> \<not> p (last s)"
  then have "dropWhile p s = s" and "dropWhile p (rev s) = rev s"
    by (cases s; auto; fail) (use \<open>_ \<or> _\<close> in \<open>cases s rule: rev_cases; auto\<close>)
  then show ?thesis by (simp add: strip_of_def)
qed

lemma strip_of_idem [simp]: "strip_of p (strip_of p s) = strip_of p s"
  by (rule strip_of_id) (rule strip_of_ends)

lemma strip_of_Nil_iff: "strip_of p s = [] \<longleftrightarrow> (\<forall>c \<in> set s. p c)"
proof
  assume "strip_of p s = []"
  then have "\<forall>c \<in> set (dropWhile p s). p c" by (simp add: strip_of_def)
  then have "dropWhile p s = []" by (metis hd_dropWhile list.set_sel(1))
  then show "\<forall>c \<in> set s. p c" by (simp add: dropWhile_eq_Nil_conv)
next
  assume "\<forall>c \<in> set s. p c"
  then have "dropWhile p s = []" by (simp add: dropWhile_eq_Nil_conv)
  then show "strip_of p s = []" by (simp add: strip_of_def del: dropWhile_eq_Nil_conv)
qed

lemma strip_idem [simp]: "strip (strip s) = strip s"
  by (simp add: strip_def)


section \<open>Splitting and joining\<close>

text \<open>\<open>s.split(c)\<close> for a one-character separator.\<close>

fun split_on :: "char \<Rightarrow> string \<Rightarrow> string list" where
  "split_on c [] = [[]]"
| "split_on c (x # xs) =
     (if x = c then [] # split_on c xs
      else (case split_on c xs of [] \<Rightarrow> [[x]] | w # ws \<Rightarrow> (x # w) # ws))"

text \<open>\<open>sep.join(parts)\<close>.\<close>

fun join_with :: "string \<Rightarrow> string list \<Rightarrow> string" where
  "join_with sep [] = []"
| "join_with sep [w] = w"
| "join_with sep (w # v # ws) = w @ sep @ join_with sep (v # ws)"

lemma split_on_nonempty [simp]: "split_on c s \<noteq> []"
  by (induction s) (auto split: list.splits)

lemma split_on_parts: "w \<in> set (split_on c s) \<Longrightarrow> c \<notin> set w"
  by (induction s arbitrary: w) (auto split: list.splits if_splits)

lemma join_split [simp]: "join_with [c] (split_on c s) = s"
proof (induction s)
  case Nil
  then show ?case by simp
next
  case (Cons x xs)
  obtain w ws where "split_on c xs = w # ws" by (cases "split_on c xs") auto
  with Cons show ?case by (cases ws) auto
qed

lemma split_on_free: "c \<notin> set w \<Longrightarrow> split_on c w = [w]"
  by (induction w) auto

lemma split_on_append: "c \<notin> set w \<Longrightarrow> split_on c (w @ c # s) = w # split_on c s"
  by (induction w) auto

lemma split_join: "ws \<noteq> [] \<Longrightarrow> \<forall>w \<in> set ws. c \<notin> set w \<Longrightarrow> split_on c (join_with [c] ws) = ws"
  by (induction ws rule: induct_list012) (auto simp: split_on_free split_on_append)


section \<open>Searching and replacing\<close>

text \<open>\<open>s.find(p)\<close> with \<open>None\<close> for \<open>-1\<close>.\<close>

fun find_sub :: "string \<Rightarrow> string \<Rightarrow> nat option" where
  "find_sub p [] = (if p = [] then Some 0 else None)"
| "find_sub p (x # xs) =
     (if prefix p (x # xs) then Some 0 else map_option Suc (find_sub p xs))"

text \<open>\<open>p in s\<close>.\<close>

definition contains :: "string \<Rightarrow> string \<Rightarrow> bool" where
  "contains p s = (find_sub p s \<noteq> None)"

lemma contains_sublist: "contains p s \<longleftrightarrow> sublist p s"
  unfolding contains_def
  by (induction s) (auto simp: sublist_Cons_right)

lemma find_sub_Some: "find_sub p s = Some i \<Longrightarrow> \<exists>r. s = take i s @ p @ r"
proof (induction s arbitrary: i)
  case Nil
  then show ?case by (auto split: if_splits)
next
  case (Cons x xs)
  show ?case
  proof (cases "prefix p (x # xs)")
    case True
    with Cons.prems show ?thesis by (auto simp: prefix_def)
  next
    case False
    with Cons.prems obtain j where "i = Suc j" "find_sub p xs = Some j" by auto
    with Cons.IH show ?thesis by simp
  qed
qed

text \<open>The position found depends only on the text up to the end of the first occurrence.\<close>

lemma prefix_in_front: "prefix p (a @ p @ r) \<longleftrightarrow> take (length p) (a @ p) = p"
proof -
  have "prefix p u \<longleftrightarrow> take (length p) u = p" for u :: "'a list"
    by (metis append_eq_conv_conj append_take_drop_id prefix_def)
  then show ?thesis by simp
qed

lemma find_sub_same_start: "find_sub p s = Some i \<Longrightarrow> find_sub p (take i s @ p @ r) = Some i"
proof (induction i arbitrary: s)
  case 0
  have "prefix p (p @ r) \<Longrightarrow> find_sub p (p @ r) = Some 0" by (cases "p @ r") auto
  then show ?case by simp
next
  case (Suc i)
  then obtain x xs where s: "s = x # xs" by (cases s) (auto split: if_splits)
  with Suc.prems have xs: "\<not> prefix p (x # xs)" "find_sub p xs = Some i" by (auto split: if_splits)
  then obtain r' where r': "xs = take i xs @ p @ r'" using find_sub_Some by blast
  have "prefix p ((x # take i xs) @ p @ r') \<longleftrightarrow> prefix p ((x # take i xs) @ p @ r)"
    by (simp only: prefix_in_front)
  with r' xs(1) have "\<not> prefix p (x # take i xs @ p @ r)" by simp
  with Suc.IH [OF xs(2)] s show ?case by simp
qed

lemma find_sub_le: "find_sub p s = Some i \<Longrightarrow> i + length p \<le> length s"
  by (induction s arbitrary: i) (auto simp: prefix_length_le split: if_splits dest: prefix_length_le)

lemma find_sub_drop: "find_sub p s = Some i \<Longrightarrow> prefix p (drop i s)"
  by (induction s arbitrary: i) (auto split: if_splits)

text \<open>An occurrence cannot straddle the start of the next one when the first character does not repeat.\<close>

lemma find_sub_next:
  assumes "x \<notin> set q" and "\<not> contains (x # q) t"
  shows "find_sub (x # q) (t @ (x # q) @ r) = Some (length t)"
  using assms(2)
proof (induction t)
  case Nil
  then show ?case by simp
next
  case (Cons y t)
  then have t: "\<not> prefix (x # q) (y # t)" "\<not> contains (x # q) t"
    by (auto simp: contains_sublist sublist_Cons_right)
  have "\<not> prefix (x # q) ((y # t) @ (x # q) @ r)"
  proof
    assume "prefix (x # q) ((y # t) @ (x # q) @ r)"
    then obtain u where u: "x # q = (y # t) @ u" "prefix u ((x # q) @ r)"
      using t(1) unfolding prefix_append by blast
    with t(1) have "u \<noteq> []" by auto
    with u(2) have "hd u = x" by (cases u) auto
    with u(1) \<open>u \<noteq> []\<close> have "x \<in> set q" by (cases u) auto
    with assms(1) show False by contradiction
  qed
  with Cons.IH [OF t(2)] show ?case by simp
qed

lemma find_sub_None: "find_sub p s = None \<longleftrightarrow> \<not> contains p s"
  by (simp add: contains_def)

text \<open>\<open>s.replace(p, r)\<close> for a non-empty \<open>p\<close>: leftmost, non-overlapping occurrences.\<close>

function replace_all :: "string \<Rightarrow> string \<Rightarrow> string \<Rightarrow> string" where
  "replace_all p r s =
     (if p = [] \<or> s = [] then s
      else if prefix p s then r @ replace_all p r (drop (length p) s)
      else hd s # replace_all p r (tl s))"
  by pat_completeness auto
termination
  by (relation "measure (\<lambda>(p, r, s). length s)") auto

declare replace_all.simps [simp del]

lemma replace_all_id: "\<not> contains p s \<Longrightarrow> replace_all p r s = s"
proof (induction s)
  case Nil
  then show ?case by (simp add: replace_all.simps)
next
  case (Cons x xs)
  from Cons.prems have "\<not> prefix p (x # xs)" and "\<not> contains p xs"
    by (auto simp: contains_sublist sublist_Cons_right)
  with Cons.IH show ?case by (simp add: replace_all.simps [of p r "x # xs"])
qed

text \<open>A one-character \<open>replace\<close> works character by character.\<close>

lemma replace_all_char: "replace_all [c] r s = concat (map (\<lambda>x. if x = c then r else [x]) s)"
proof (induction s)
  case Nil
  then show ?case by (simp add: replace_all.simps)
next
  case (Cons x xs)
  have "replace_all [c] r (x # xs) =
      (if x = c then r @ replace_all [c] r xs else x # replace_all [c] r xs)"
    by (subst replace_all.simps) auto
  with Cons show ?case by simp
qed


section \<open>Numbers\<close>

fun show_nat :: "nat \<Rightarrow> string" where
  "show_nat n =
     (if n < 10 then [char_of (48 + n)] else show_nat (n div 10) @ [char_of (48 + n mod 10)])"

declare show_nat.simps [simp del]

definition show_int :: "int \<Rightarrow> string" where
  "show_int i = (if i < 0 then CHR ''-'' # show_nat (nat (- i)) else show_nat (nat i))"

definition read_digit :: "char \<Rightarrow> nat" where
  "read_digit c = of_char c - 48"

definition read_nat :: "string \<Rightarrow> nat" where
  "read_nat s = foldl (\<lambda>n c. 10 * n + read_digit c) 0 s"

lemma read_show_nat [simp]: "read_nat (show_nat n) = n"
proof (induction n rule: show_nat.induct)
  case (1 n)
  show ?case
  proof (cases "n < 10")
    case True
    then show ?thesis by (simp add: show_nat.simps [of n] read_nat_def read_digit_def)
  next
    case False
    with 1 show ?thesis
      by (simp add: show_nat.simps [of n] read_nat_def read_digit_def)
  qed
qed

lemma show_nat_digits: "c \<in> set (show_nat n) \<Longrightarrow> is_digit c"
proof (induction n rule: show_nat.induct)
  case (1 n)
  have d: "is_digit (char_of (48 + k))" if "k < 10" for k :: nat
    using that by (simp add: is_digit_def)
  show ?case
  proof (cases "n < 10")
    case True
    with "1.prems" d show ?thesis by (simp add: show_nat.simps [of n])
  next
    case False
    with "1.prems" "1.IH" d [of "n mod 10"] show ?thesis
      by (auto simp: show_nat.simps [of n])
  qed
qed

lemma show_nat_nonempty [simp]: "show_nat n \<noteq> []"
  by (subst show_nat.simps) simp

lemma show_nat_inj: "show_nat m = show_nat n \<Longrightarrow> m = n"
  by (metis read_show_nat)

text \<open>\<open>f"{i:02d}"\<close> and \<open>f"{i:03d}"\<close>: zero padded to a total width, the sign first.\<close>

definition pad_int :: "nat \<Rightarrow> int \<Rightarrow> string" where
  "pad_int w i =
     (let digits = show_nat (nat \<bar>i\<bar>);
          sign = (if i < 0 then ''-'' else '''')
      in sign @ replicate (w - length sign - length digits) (CHR ''0'') @ digits)"

lemma read_nat_zeros: "read_nat (replicate k (CHR ''0'') @ s) = read_nat s"
  by (induction k) (simp_all add: read_nat_def read_digit_def)

lemma pad_int_inj: "0 \<le> i \<Longrightarrow> 0 \<le> j \<Longrightarrow> pad_int w i = pad_int w j \<Longrightarrow> i = j"
proof -
  assume "0 \<le> i" "0 \<le> j" "pad_int w i = pad_int w j"
  have r: "read_nat (pad_int w k) = nat k" if "0 \<le> k" for k
    using that by (simp add: pad_int_def Let_def read_nat_zeros)
  from r [OF \<open>0 \<le> i\<close>] r [OF \<open>0 \<le> j\<close>] \<open>pad_int w i = pad_int w j\<close> have "nat i = nat j" by simp
  with \<open>0 \<le> i\<close> \<open>0 \<le> j\<close> show "i = j" by simp
qed

lemma pad_int_digits: "0 \<le> i \<Longrightarrow> c \<in> set (pad_int w i) \<Longrightarrow> is_digit c"
  by (auto simp: pad_int_def Let_def is_digit_def dest: show_nat_digits)


text \<open>\<open>os.path.basename\<close>\<close>

definition basename :: "string \<Rightarrow> string" where
  "basename path = last (split_on CHR ''/'' path)"


section \<open>Dynamic values\<close>

datatype pyval =
    PNone
  | PBool bool
  | PInt int
  | PStr string
  | PList "pyval list"
  | PDict "(string \<times> pyval) list"

fun truthy :: "pyval \<Rightarrow> bool" where
  "truthy PNone = False"
| "truthy (PBool b) = b"
| "truthy (PInt i) = (i \<noteq> 0)"
| "truthy (PStr s) = (s \<noteq> [])"
| "truthy (PList xs) = (xs \<noteq> [])"
| "truthy (PDict d) = (d \<noteq> [])"

text \<open>What may be a key of a dictionary or an element of a set.\<close>

fun hashable :: "pyval \<Rightarrow> bool" where
  "hashable (PList _) = False"
| "hashable (PDict _) = False"
| "hashable _ = True"

text \<open>\<open>repr\<close> of text: single quotes unless the text has a single quote and no double quote.\<close>

definition hex_digit :: "nat \<Rightarrow> char" where
  "hex_digit n = (if n < 10 then char_of (48 + n) else char_of (87 + n))"

definition repr_char :: "char \<Rightarrow> char \<Rightarrow> string" where
  "repr_char q c =
     (let n = (of_char c :: nat) in
      if c = q \<or> n = 92 then [char_of (92 :: nat), c]
      else if n = 10 then [char_of (92 :: nat), CHR ''n'']
      else if n = 13 then [char_of (92 :: nat), CHR ''r'']
      else if n = 9 then [char_of (92 :: nat), CHR ''t'']
      else if n < 32 \<or> 127 \<le> n then [char_of (92 :: nat), CHR ''x'', hex_digit (n div 16), hex_digit (n mod 16)]
      else [c])"

definition repr_str :: "string \<Rightarrow> string" where
  "repr_str s =
     (let q = (if char_of (39 :: nat) \<in> set s \<and> char_of (34 :: nat) \<notin> set s
               then char_of (34 :: nat) else char_of (39 :: nat))
      in [q] @ concat (map (repr_char q) s) @ [q])"

fun py_repr :: "pyval \<Rightarrow> string" where
  "py_repr PNone = ''None''"
| "py_repr (PBool b) = (if b then ''True'' else ''False'')"
| "py_repr (PInt i) = show_int i"
| "py_repr (PStr s) = repr_str s"
| "py_repr (PList xs) = ''['' @ join_with '', '' (map py_repr xs) @ '']''"
| "py_repr (PDict d) =
     ''{'' @ join_with '', '' (map (\<lambda>kv. repr_str (fst kv) @ '': '' @ py_repr (snd kv)) d) @ ''}''"

text \<open>\<open>str(v)\<close>.\<close>

definition py_str :: "pyval \<Rightarrow> string" where
  "py_str v = (case v of PStr s \<Rightarrow> s | _ \<Rightarrow> py_repr v)"


section \<open>Addresses\<close>

text \<open>
  \<open>urlparse\<close> of Python 3.10.11 on ASCII text, as far as scheme, network location and path go: tabs and line ends are removed, a scheme is a
  prefix of admitted characters before the first colon, a lone bracket in the network location raises, and for the schemes that
  have parameters these are cut off the last segment of the path.
\<close>

definition scheme_char :: "char \<Rightarrow> bool" where
  "scheme_char c \<longleftrightarrow> c \<in> set ''abcdefghijklmnopqrstuvwxyzABCDEFGHIJKLMNOPQRSTUVWXYZ0123456789+-.''"

definition split_scheme :: "string \<Rightarrow> string \<times> string" where
  "split_scheme url =
     (let p = takeWhile (\<lambda>c. c \<noteq> CHR '':'') url
      in if p \<noteq> [] \<and> p \<noteq> url \<and> (\<forall>c \<in> set p. scheme_char c) then (p, drop (Suc (length p)) url) else ([], url))"

definition url_schemes_with_params :: "string list" where
  "url_schemes_with_params =
     [[], ''ftp'', ''hdl'', ''prospero'', ''http'', ''https'', ''shttp'', ''rtsp'', ''rtspu'', ''sip'', ''sips'', ''mms'', ''sftp'', ''tel'']"

definition cut_params :: "string \<Rightarrow> string" where
  "cut_params path =
     (let segment = rev (takeWhile (\<lambda>c. c \<noteq> CHR ''/'') (rev path))
      in take (length path - length segment) path @ takeWhile (\<lambda>c. c \<noteq> CHR '';'') segment)"

definition urlparse :: "string \<Rightarrow> (string \<times> string \<times> string) result" where
  "urlparse url =
     (case split_scheme (filter (\<lambda>c. c \<noteq> CHR 0x09 \<and> c \<noteq> CHR 0x0D \<and> c \<noteq> CHR 0x0A) url) of
        (scheme, rest) \<Rightarrow>
          (let netloc = (if take 2 rest = ''//'' then takeWhile (\<lambda>c. c \<notin> set ''/?#'') (drop 2 rest) else []);
               rest = (if take 2 rest = ''//'' then dropWhile (\<lambda>c. c \<notin> set ''/?#'') (drop 2 rest) else rest);
               path = takeWhile (\<lambda>c. c \<notin> set ''?#'') rest
           in if (CHR ''['' \<in> set netloc) \<noteq> (CHR '']'' \<in> set netloc) then Inl (ValueError ''Invalid IPv6 URL'')
              else Inr (lower scheme, netloc, if lower scheme \<in> set url_schemes_with_params then cut_params path else path)))"

end
