(* ===== verification/Settings_Db.thy ===== *)
theory Settings_Db
  imports Py_Text
begin

text \<open>
  The settings of the metadata database (\<open>db/models.py\<close>, \<open>db/crud.py\<close>) and the users kept in one of them.

  The document database is a third-party package: its four operations are the fields of the
  argument \<open>tinydb\<close>, and \<open>tinydb_laws\<close> states their documented behaviour over the list of the stored documents
  (\<open>search\<close> returns the matching documents in order, \<open>insert\<close> appends one, \<open>update\<close>
  writes the given fields into the matching ones, \<open>remove\<close> drops them).  Password hashing is the argument \<open>crypto\<close>;
  the identifiers, salts and clock readings that a call consumes are the record \<open>fresh\<close>.
\<close>


section \<open>Permissions and users\<close>

datatype auth_resource =
    STATUS | MEMORY | CONVERSATION | SETTINGS | LLM | EMBEDDER | AUTH_HANDLER | USERS | UPLOAD | PLUGINS | STATIC

datatype auth_permission = WRITE | EDIT | LIST | READ | DELETE

type_synonym permissions = "(auth_resource, auth_permission list) dict"

definition get_full_permissions :: permissions where
  "get_full_permissions =
     map (\<lambda>res. (res, [WRITE, EDIT, LIST, READ, DELETE]))
       [STATUS, MEMORY, CONVERSATION, SETTINGS, LLM, EMBEDDER, AUTH_HANDLER, USERS, UPLOAD, PLUGINS, STATIC]"

definition get_base_permissions :: permissions where
  "get_base_permissions =
     [(STATUS, [READ]), (MEMORY, [READ, LIST]), (CONVERSATION, [WRITE, EDIT, LIST, READ, DELETE]), (STATIC, [READ])]"

record user =
  u_id :: string
  u_username :: string
  u_password :: string
  u_permissions :: permissions

type_synonym users = "(string, user) dict"


section \<open>models.py\<close>

text \<open>
  The value of a setting: a dictionary of users or anything else.  The
  setting \<open>users\<close> has a value of the first kind unless a client stores another one under that
  name; what then reads it fails, which is the exception \<open>TypeError\<close> here.
\<close>

datatype 'x setting_value = UsersValue users | OtherValue 'x

record 'x setting =
  s_name :: string
  s_value :: "'x setting_value"
  s_category :: "string option"
  s_setting_id :: string
  s_updated_at :: int

definition new_setting :: "string \<Rightarrow> 'x setting_value \<Rightarrow> string option \<Rightarrow> string \<Rightarrow> int \<Rightarrow> 'x setting" where
  "new_setting name value category uuid now =
     \<lparr>s_name = name, s_value = value, s_category = category, s_setting_id = uuid, s_updated_at = now\<rparr>"


section \<open>The document database\<close>

record ('x, 'db) tinydb =
  db_search :: "('x setting \<Rightarrow> bool) \<Rightarrow> 'db \<Rightarrow> 'x setting list"
  db_insert :: "'x setting \<Rightarrow> 'db \<Rightarrow> 'db"
  db_update :: "'x setting \<Rightarrow> ('x setting \<Rightarrow> bool) \<Rightarrow> 'db \<Rightarrow> 'db"
  db_remove :: "('x setting \<Rightarrow> bool) \<Rightarrow> 'db \<Rightarrow> 'db"

definition tinydb_laws :: "('x, 'db) tinydb \<Rightarrow> ('db \<Rightarrow> 'x setting list) \<Rightarrow> bool" where
  "tinydb_laws T docs \<longleftrightarrow>
     (\<forall>p db. db_search T p db = filter p (docs db)) \<and>
     (\<forall>d db. docs (db_insert T d db) = docs db @ [d]) \<and>
     (\<forall>d p db. docs (db_update T d p db) = map (\<lambda>x. if p x then d else x) (docs db)) \<and>
     (\<forall>p db. docs (db_remove T p db) = filter (\<lambda>x. \<not> p x) (docs db))"


section \<open>crud.py\<close>

text \<open>\<open>matches\<close> is the regular expression test of a query.\<close>

definition get_settings ::
  "('x, 'db) tinydb \<Rightarrow> (string \<Rightarrow> string \<Rightarrow> bool) \<Rightarrow> string \<Rightarrow> 'db \<Rightarrow> 'x setting list" where
  "get_settings T matches search db =
     filter (\<lambda>s. s_name s \<noteq> ''users'') (db_search T (\<lambda>s. matches search (s_name s)) db)"

definition get_settings_by_category :: "('x, 'db) tinydb \<Rightarrow> string option \<Rightarrow> 'db \<Rightarrow> 'x setting list" where
  "get_settings_by_category T category db = db_search T (\<lambda>s. s_category s = category) db"

definition get_setting_by_name :: "('x, 'db) tinydb \<Rightarrow> string \<Rightarrow> 'db \<Rightarrow> 'x setting option" where
  "get_setting_by_name T name db =
     (case db_search T (\<lambda>s. s_name s = name) db of [] \<Rightarrow> None | s # _ \<Rightarrow> Some s)"

definition get_setting_by_id :: "('x, 'db) tinydb \<Rightarrow> string \<Rightarrow> 'db \<Rightarrow> 'x setting option" where
  "get_setting_by_id T i db =
     (case db_search T (\<lambda>s. s_setting_id s = i) db of [] \<Rightarrow> None | s # _ \<Rightarrow> Some s)"

definition create_setting :: "('x, 'db) tinydb \<Rightarrow> 'x setting \<Rightarrow> 'db \<Rightarrow> 'x setting option \<times> 'db" where
  "create_setting T payload db =
     (let db = db_insert T payload db in (get_setting_by_id T (s_setting_id payload) db, db))"

definition delete_setting_by_id :: "('x, 'db) tinydb \<Rightarrow> string \<Rightarrow> 'db \<Rightarrow> 'db" where
  "delete_setting_by_id T i db = db_remove T (\<lambda>s. s_setting_id s = i) db"

definition delete_settings_by_category :: "('x, 'db) tinydb \<Rightarrow> string option \<Rightarrow> 'db \<Rightarrow> 'db" where
  "delete_settings_by_category T category db = db_remove T (\<lambda>s. s_category s = category) db"

definition update_setting_by_id :: "('x, 'db) tinydb \<Rightarrow> 'x setting \<Rightarrow> 'db \<Rightarrow> 'x setting option \<times> 'db" where
  "update_setting_by_id T payload db =
     (let db = db_update T payload (\<lambda>s. s_setting_id s = s_setting_id payload) db
      in (get_setting_by_id T (s_setting_id payload) db, db))"

definition upsert_setting_by_name :: "('x, 'db) tinydb \<Rightarrow> 'x setting \<Rightarrow> 'db \<Rightarrow> 'x setting option \<times> 'db" where
  "upsert_setting_by_name T payload db =
     (let db = (case get_setting_by_name T (s_name payload) db of
                  None \<Rightarrow> snd (create_setting T payload db)
                | Some _ \<Rightarrow> db_update T payload (\<lambda>s. s_name s = s_name payload) db)
      in (get_setting_by_name T (s_name payload) db, db))"


section \<open>Passwords (auth\_utils.py)\<close>

text \<open>Hashing takes the salt it draws; a password that cannot be hashed becomes another salt.\<close>

record crypto =
  hashpw :: "string \<Rightarrow> string \<Rightarrow> string result"
  checkpw :: "string \<Rightarrow> string \<Rightarrow> bool result"

record fresh =
  f_admin_id :: string
  f_user_id :: string
  f_admin_salt :: string
  f_user_salt :: string
  f_setting_id :: string
  f_spare_salt :: string
  f_now :: int

definition hash_password :: "crypto \<Rightarrow> string \<Rightarrow> string \<Rightarrow> string \<Rightarrow> string" where
  "hash_password K password salt spare = (case hashpw K password salt of Inr h \<Rightarrow> h | Inl _ \<Rightarrow> spare)"

definition check_password :: "crypto \<Rightarrow> string \<Rightarrow> string \<Rightarrow> bool" where
  "check_password K password hashed = (case checkpw K password hashed of Inr b \<Rightarrow> b | Inl _ \<Rightarrow> False)"


section \<open>Users in crud.py\<close>

definition update_users :: "('x, 'db) tinydb \<Rightarrow> fresh \<Rightarrow> users \<Rightarrow> 'db \<Rightarrow> 'db" where
  "update_users T F us db =
     snd (upsert_setting_by_name T (new_setting ''users'' (UsersValue us) None (f_setting_id F) (f_now F)) db)"

definition default_users :: "crypto \<Rightarrow> fresh \<Rightarrow> users" where
  "default_users K F =
     dict_set (f_user_id F)
       \<lparr>u_id = f_user_id F, u_username = ''user'', u_password = hash_password K ''user'' (f_user_salt F) (f_spare_salt F),
        u_permissions = get_base_permissions\<rparr>
       [(f_admin_id F,
         \<lparr>u_id = f_admin_id F, u_username = ''admin'', u_password = hash_password K ''admin'' (f_admin_salt F) (f_spare_salt F),
          u_permissions = get_full_permissions\<rparr>)]"

definition get_users :: "('x, 'db) tinydb \<Rightarrow> crypto \<Rightarrow> fresh \<Rightarrow> 'db \<Rightarrow> users result \<times> 'db" where
  "get_users T K F db =
     (let db = (case get_setting_by_name T ''users'' db of
                  None \<Rightarrow> update_users T F (default_users K F) db
                | Some _ \<Rightarrow> db)
      in (case get_setting_by_name T ''users'' db of
            None \<Rightarrow> Inl TypeError
          | Some s \<Rightarrow> (case s_value s of UsersValue us \<Rightarrow> Inr us | _ \<Rightarrow> Inl TypeError), db))"

section \<open>Lemmas\<close>

lemma lawsD:
  assumes "tinydb_laws T docs"
  shows "db_search T p db = filter p (docs db)" "docs (db_insert T d db) = docs db @ [d]"
    "docs (db_update T d p db) = map (\<lambda>x. if p x then d else x) (docs db)"
    "docs (db_remove T p db) = filter (\<lambda>x. \<not> p x) (docs db)"
  using assms by (simp_all add: tinydb_laws_def)

lemma find_filter: "(case filter p xs of [] \<Rightarrow> None | x # _ \<Rightarrow> Some x) = List.find p xs"
  by (induction xs) auto

lemma get_setting_docs:
  assumes "tinydb_laws T docs"
  shows "get_setting_by_name T n db = List.find (\<lambda>s. s_name s = n) (docs db)"
    and "get_setting_by_id T i db = List.find (\<lambda>s. s_setting_id s = i) (docs db)"
  by (simp_all add: get_setting_by_name_def get_setting_by_id_def lawsD [OF assms] find_filter)

lemma find_append: "List.find p (xs @ ys) = (case List.find p xs of Some x \<Rightarrow> Some x | None \<Rightarrow> List.find p ys)"
  by (induction xs) auto

text \<open>Overwriting every element that has a key by one that has it too.\<close>

lemma find_overwrite:
  "List.find (\<lambda>x. f x = k) (map (\<lambda>x. if f x = f d then d else x) xs) =
     (if k = f d then (if f d \<in> f ` set xs then Some d else None) else List.find (\<lambda>x. f x = k) xs)"
  by (induction xs) auto

lemma find_None_key: "List.find (\<lambda>x. f x = k) xs = None \<longleftrightarrow> k \<notin> f ` set xs"
  by (auto simp: find_None_iff)

lemma upsert_docs:
  assumes "tinydb_laws T docs"
  shows "docs (snd (upsert_setting_by_name T d db)) =
    (if s_name d \<in> s_name ` set (docs db) then map (\<lambda>x. if s_name x = s_name d then d else x) (docs db) else docs db @ [d])"
  using find_None_key [of s_name "s_name d" "docs db"]
  by (auto simp: upsert_setting_by_name_def create_setting_def Let_def get_setting_docs [OF assms] lawsD [OF assms]
      split: option.splits)

lemma upsert_get:
  assumes "tinydb_laws T docs"
  shows "get_setting_by_name T n (snd (upsert_setting_by_name T d db)) =
    (if n = s_name d then Some d else get_setting_by_name T n db)"
proof (cases "s_name d \<in> s_name ` set (docs db)")
  case True
  then show ?thesis by (simp add: get_setting_docs [OF assms] upsert_docs [OF assms] find_overwrite)
next
  case False
  then have "List.find (\<lambda>s. s_name s = s_name d) (docs db) = None" by (simp add: find_None_key)
  with False show ?thesis
    by (auto simp: get_setting_docs [OF assms] upsert_docs [OF assms] find_append split: option.split)
qed

lemma upsert_fst: "fst (upsert_setting_by_name T d db) = get_setting_by_name T (s_name d) (snd (upsert_setting_by_name T d db))"
  by (simp add: upsert_setting_by_name_def Let_def)

lemma new_setting_sel [simp]:
  "s_name (new_setting n v c i t) = n" "s_value (new_setting n v c i t) = v"
  by (simp_all add: new_setting_def)

lemma update_users_get:
  assumes "tinydb_laws T docs"
  shows "get_setting_by_name T n (update_users T F us db) =
    (if n = ''users'' then Some (new_setting ''users'' (UsersValue us) None (f_setting_id F) (f_now F))
     else get_setting_by_name T n db)"
  unfolding update_users_def upsert_get [OF assms] new_setting_sel(1) ..

lemma get_users_after_update:
  assumes "tinydb_laws T docs"
  shows "get_users T K F' (update_users T F us db) = (Inr us, update_users T F us db)"
  by (simp add: get_users_def Let_def update_users_get [OF assms])

lemma get_users_cases:
  assumes "tinydb_laws T docs"
  shows "get_users T K F db =
    (case get_setting_by_name T ''users'' db of
       None \<Rightarrow> (Inr (default_users K F), update_users T F (default_users K F) db)
     | Some s \<Rightarrow> (case s_value s of UsersValue us \<Rightarrow> Inr us | _ \<Rightarrow> Inl TypeError, db))"
  by (simp add: get_users_def Let_def update_users_get [OF assms] split: option.split)


section \<open>Properties\<close>

text \<open>The database kept as the list of its documents, for concrete runs.\<close>

definition list_db :: "('x, 'x setting list) tinydb" where
  "list_db = \<lparr>db_search = filter, db_insert = (\<lambda>d ds. ds @ [d]),
     db_update = (\<lambda>d p. map (\<lambda>x. if p x then d else x)), db_remove = (\<lambda>p. filter (\<lambda>x. \<not> p x))\<rparr>"

lemma list_db_laws: "tinydb_laws list_db id"
  by (simp add: tinydb_laws_def list_db_def)

text \<open>
  Upserting a setting by name returns it and makes it the value of its name, leaves the
  setting of every other name alone, keeps names unique, and adds a document exactly when the name was new.
\<close>
theorem upsert_setting_round_trip:
  assumes "tinydb_laws T docs" and "upsert_setting_by_name T d db = (r, db')"
  shows "r = Some d \<and> get_setting_by_name T (s_name d) db' = Some d \<and>
         (\<forall>n. n \<noteq> s_name d \<longrightarrow> get_setting_by_name T n db' = get_setting_by_name T n db) \<and>
         (distinct (map s_name (docs db)) \<longrightarrow> distinct (map s_name (docs db'))) \<and>
         length (docs db') = length (docs db) + (if get_setting_by_name T (s_name d) db = None then 1 else 0)"
proof -
  have db': "db' = snd (upsert_setting_by_name T d db)" "r = fst (upsert_setting_by_name T d db)"
    using assms(2) by simp_all
  have names: "map s_name (map (\<lambda>x. if s_name x = s_name d then d else x) (docs db)) = map s_name (docs db)"
    by simp
  have "distinct (map s_name (docs db'))" if "distinct (map s_name (docs db))"
    unfolding db'(1) upsert_docs [OF assms(1)] using that names by (simp del: map_map)
  moreover have "length (docs db') = length (docs db) + (if get_setting_by_name T (s_name d) db = None then 1 else 0)"
    unfolding db'(1) upsert_docs [OF assms(1)] get_setting_docs [OF assms(1)] find_None_key by simp
  ultimately show ?thesis
    unfolding db' upsert_fst by (simp add: upsert_get [OF assms(1)])
qed

definition demo_setting :: "string \<Rightarrow> nat \<Rightarrow> string \<Rightarrow> nat setting" where
  "demo_setting n v i = new_setting n (OtherValue v) None i 0"

theorem upsert_setting_round_trip_witness:
  "get_setting_by_name list_db ''llm'' (snd (upsert_setting_by_name list_db (demo_setting ''llm'' 2 ''b'') [demo_setting ''llm'' 1 ''a''])) =
     Some (demo_setting ''llm'' 2 ''b'')"
proof -
  have "upsert_setting_by_name list_db (demo_setting ''llm'' 2 ''b'') [demo_setting ''llm'' 1 ''a''] =
      (Some (demo_setting ''llm'' 2 ''b''), [demo_setting ''llm'' 2 ''b''])" by code_simp
  from upsert_setting_round_trip [OF list_db_laws this] this show ?thesis by (simp add: demo_setting_def)
qed

text \<open>
  Users are created once and kept.  The first request for the users of a database without them
  stores an administrator with every permission and an ordinary user without administrative ones; from then on, whatever fresh
  identifiers are offered, the stored users are returned and nothing is written, also after the users were
  replaced; the users never appear in the list of settings, and no other setting changes.
\<close>
theorem users_created_once:
  assumes "tinydb_laws T docs" and "get_setting_by_name T ''users'' db = None"
    and "get_users T K F db = (r, db1)" and "f_admin_id F \<noteq> f_user_id F"
  shows "(\<exists>us. r = Inr us \<and> map fst us = [f_admin_id F, f_user_id F] \<and>
            map (\<lambda>(_, u). (u_username u, u_permissions u)) us =
              [(''admin'', get_full_permissions), (''user'', get_base_permissions)] \<and>
            get_users T K F' db1 = (Inr us, db1)) \<and>
         get_users T K F' (update_users T F2 us' db1) = (Inr us', update_users T F2 us' db1) \<and>
         (\<forall>n. n \<noteq> ''users'' \<longrightarrow> get_setting_by_name T n db1 = get_setting_by_name T n db) \<and>
         (\<forall>m q. \<forall>s \<in> set (get_settings T m q db1). s_name s \<noteq> ''users'')"
proof -
  let ?us = "default_users K F"
  have r: "r = Inr ?us" "db1 = update_users T F ?us db"
    using assms(2,3) get_users_cases [OF assms(1), of K F db] by simp_all
  have "map fst ?us = [f_admin_id F, f_user_id F]"
    "map (\<lambda>(_, u). (u_username u, u_permissions u)) ?us = [(''admin'', get_full_permissions), (''user'', get_base_permissions)]"
    using assms(4) by (simp_all add: default_users_def)
  moreover have "get_users T K F' db1 = (Inr ?us, db1)"
    unfolding r(2) by (rule get_users_after_update [OF assms(1)])
  moreover have "get_setting_by_name T n db1 = get_setting_by_name T n db" if "n \<noteq> ''users''" for n
    unfolding r(2) update_users_get [OF assms(1)] using that by simp
  moreover have "s_name s \<noteq> ''users''" if "s \<in> set (get_settings T m q db1)" for m q s
    using that unfolding get_settings_def by simp
  moreover have "get_users T K F' (update_users T F2 us' db1) = (Inr us', update_users T F2 us' db1)"
    by (rule get_users_after_update [OF assms(1)])
  ultimately show ?thesis
    using r(1) by (intro conjI exI [of _ ?us]) simp_all
qed

definition demo_crypto :: crypto where
  "demo_crypto = \<lparr>hashpw = (\<lambda>p salt. Inr (salt @ p)), checkpw = (\<lambda>p h. Inr (drop 1 h = p))\<rparr>"

definition demo_fresh :: "string \<Rightarrow> fresh" where
  "demo_fresh x = \<lparr>f_admin_id = CHR ''a'' # x, f_user_id = CHR ''u'' # x, f_admin_salt = ''1'', f_user_salt = ''2'',
     f_setting_id = CHR ''s'' # x, f_spare_salt = ''3'', f_now = 0\<rparr>"

theorem users_created_once_witness:
  "fst (get_users list_db demo_crypto (demo_fresh ''2'') (snd (get_users list_db demo_crypto (demo_fresh ''1'') ([] :: nat setting list)))) =
     fst (get_users list_db demo_crypto (demo_fresh ''1'') ([] :: nat setting list))"
proof -
  let ?r = "get_users list_db demo_crypto (demo_fresh ''1'') ([] :: nat setting list)"
  have n: "get_setting_by_name list_db ''users'' ([] :: nat setting list) = None"
    by (simp add: get_setting_by_name_def list_db_def)
  have "?r = (fst ?r, snd ?r)" "f_admin_id (demo_fresh ''1'') \<noteq> f_user_id (demo_fresh ''1'')"
    by (simp_all add: demo_fresh_def)
  from users_created_once [OF list_db_laws n this, of "demo_fresh ''2''"]
  obtain us where "fst ?r = Inr us" "get_users list_db demo_crypto (demo_fresh ''2'') (snd ?r) = (Inr us, snd ?r)"
    by blast
  then show ?thesis by simp
qed

end
