(* ===== verification/Auth.thy ===== *)
theory Auth
  imports Settings_Db "HOL-Library.Countable"
begin

text \<open>
  Authentication and authorisation: credentials of a connection (\<open>auth/connection.py\<close>), the core handler and
  the default handler (\<open>factory/custom_auth_handler.py\<close>), login, and the administration of users
  (\<open>routes/users.py\<close>).

  The token library is the argument \<open>jwt_lib\<close>; \<open>jwt_laws\<close> states what the code relies on.  A
  custom handler installed by a plugin is a value of type \<open>auth_handler\<close>.  The header and query dictionaries have
  the keys the code looks up.
\<close>


section \<open>Tokens and environment\<close>

text \<open>A decoded token may lack the claims that the code reads.\<close>

record jwt_claims =
  c_sub :: "string option"
  c_username :: "string option"
  c_permissions :: permissions
  c_exp :: int

record jwt_lib =
  jwt_peek :: "string \<Rightarrow> bool"
  jwt_encode :: "jwt_claims \<Rightarrow> string \<Rightarrow> string \<Rightarrow> string"
  jwt_decode :: "string \<Rightarrow> string \<Rightarrow> string \<Rightarrow> int \<Rightarrow> jwt_claims result"

definition jwt_laws :: "jwt_lib \<Rightarrow> bool" where
  "jwt_laws J \<longleftrightarrow>
     (\<forall>c secret alg. jwt_peek J (jwt_encode J c secret alg)) \<and>
     (\<forall>c secret alg now. now < c_exp c \<longrightarrow> jwt_decode J (jwt_encode J c secret alg) secret alg now = Inr c) \<and>
     (\<forall>c secret alg now. c_exp c \<le> now \<longrightarrow> (\<exists>e. jwt_decode J (jwt_encode J c secret alg) secret alg now = Inl e))"

record env =
  e_api_key :: "string option"
  e_api_key_ws :: "string option"
  e_jwt_secret :: string
  e_jwt_algorithm :: string
  e_jwt_expire_seconds :: int

definition is_jwt :: "jwt_lib \<Rightarrow> string option \<Rightarrow> bool" where
  "is_jwt J credential = (case credential of None \<Rightarrow> False | Some token \<Rightarrow> jwt_peek J token)"


section \<open>Handlers\<close>

datatype protocol = Http | Websocket

record auth_user =
  a_id :: string
  a_name :: string
  a_permissions :: permissions
  a_extra :: "user option"

record 'db auth_handler =
  ah_jwt :: "string \<Rightarrow> auth_resource \<Rightarrow> auth_permission \<Rightarrow> 'db \<Rightarrow> auth_user option \<times> 'db"
  ah_key :: "protocol \<Rightarrow> string \<Rightarrow> string option \<Rightarrow> auth_resource \<Rightarrow> auth_permission \<Rightarrow> auth_user option"

definition authorize_user_from_credential ::
  "jwt_lib \<Rightarrow> 'db auth_handler \<Rightarrow> protocol \<Rightarrow> string option \<Rightarrow> auth_resource \<Rightarrow> auth_permission \<Rightarrow> string \<Rightarrow> 'db \<Rightarrow>
   auth_user option \<times> 'db" where
  "authorize_user_from_credential J h protocol credential res perm user_id db =
     (if is_jwt J credential then ah_jwt h (the credential) res perm db
      else (ah_key h protocol user_id credential res perm, db))"

definition authorize_http_key :: "string \<Rightarrow> string option \<Rightarrow> string option \<Rightarrow> auth_user option" where
  "authorize_http_key user_id api_key http_key =
     (if api_key = http_key
      then Some \<lparr>a_id = user_id, a_name = user_id, a_permissions = get_full_permissions, a_extra = None\<rparr> else None)"

definition authorize_websocket_key :: "string \<Rightarrow> string option \<Rightarrow> string option \<Rightarrow> auth_user option" where
  "authorize_websocket_key user_id api_key ws_key =
     (if api_key = ws_key
      then Some \<lparr>a_id = user_id, a_name = user_id, a_permissions = get_base_permissions, a_extra = None\<rparr> else None)"

definition key_unset :: "string option \<Rightarrow> bool" where
  "key_unset k \<longleftrightarrow> k = None \<or> k = Some []"

definition authorize_user_from_key ::
  "env \<Rightarrow> protocol \<Rightarrow> string \<Rightarrow> string option \<Rightarrow> auth_resource \<Rightarrow> auth_permission \<Rightarrow> auth_user option" where
  "authorize_user_from_key E protocol user_id api_key res perm =
     (if key_unset (e_api_key E) \<and> key_unset (e_api_key_ws E)
      then Some \<lparr>a_id = user_id, a_name = user_id, a_permissions = get_full_permissions, a_extra = None\<rparr>
      else case protocol of
             Websocket \<Rightarrow> authorize_websocket_key user_id api_key (e_api_key_ws E)
           | Http \<Rightarrow> authorize_http_key user_id api_key (e_api_key E))"

definition authorize_user_from_jwt ::
  "jwt_lib \<Rightarrow> env \<Rightarrow> ('x, 'db) tinydb \<Rightarrow> crypto \<Rightarrow> fresh \<Rightarrow> string \<Rightarrow> auth_resource \<Rightarrow> auth_permission \<Rightarrow> 'db \<Rightarrow>
   auth_user option \<times> 'db" where
  "authorize_user_from_jwt J E T K F token res perm db =
     (case jwt_decode J token (e_jwt_secret E) (e_jwt_algorithm E) (f_now F) of
        Inl _ \<Rightarrow> (None, db)
      | Inr payload \<Rightarrow>
          (case get_users T K F db of
             (Inl _, db) \<Rightarrow> (None, db)
           | (Inr users, db) \<Rightarrow>
               (case c_sub payload of
                  None \<Rightarrow> (None, db)
                | Some sub \<Rightarrow>
                    (case dict_get users sub of
                       None \<Rightarrow> (None, db)
                     | Some user \<Rightarrow>
                         (case dict_get (u_permissions user) res of
                            None \<Rightarrow> (None, db)
                          | Some perms \<Rightarrow>
                              if perm \<in> set perms then
                                (case c_username payload of
                                   None \<Rightarrow> (None, db)
                                 | Some name \<Rightarrow>
                                     (Some \<lparr>a_id = sub, a_name = name, a_permissions = u_permissions user,
                                            a_extra = Some user\<rparr>, db))
                              else (None, db))))))"

definition core_auth_handler ::
  "jwt_lib \<Rightarrow> env \<Rightarrow> ('x, 'db) tinydb \<Rightarrow> crypto \<Rightarrow> fresh \<Rightarrow> 'db auth_handler" where
  "core_auth_handler J E T K F =
     \<lparr>ah_jwt = authorize_user_from_jwt J E T K F, ah_key = authorize_user_from_key E\<rparr>"

definition core_only_auth_handler :: "'db auth_handler" where
  "core_only_auth_handler = \<lparr>ah_jwt = (\<lambda>_ _ _ db. (None, db)), ah_key = (\<lambda>_ _ _ _ _. None)\<rparr>"

definition issue_jwt ::
  "jwt_lib \<Rightarrow> env \<Rightarrow> ('x, 'db) tinydb \<Rightarrow> crypto \<Rightarrow> fresh \<Rightarrow> string \<Rightarrow> string \<Rightarrow> 'db \<Rightarrow> string option result \<times> 'db" where
  "issue_jwt J E T K F username password db =
     (case get_users T K F db of
        (Inl e, db) \<Rightarrow> (Inl e, db)
      | (Inr users, db) \<Rightarrow>
          (case List.find (\<lambda>(_, user). u_username user = username \<and> check_password K password (u_password user)) users of
             None \<Rightarrow> (Inr None, db)
           | Some (user_id, user) \<Rightarrow>
               (Inr (Some (jwt_encode J
                  \<lparr>c_sub = Some user_id, c_username = Some username, c_permissions = u_permissions user,
                   c_exp = f_now F + e_jwt_expire_seconds E\<rparr> (e_jwt_secret E) (e_jwt_algorithm E))), db)))"


section \<open>Connections\<close>

record connection =
  co_headers :: "(string, string) dict"
  co_path_params :: "(string, string) dict"
  co_query_params :: "(string, string) dict"
  co_cookies :: "(string, string) dict"

datatype auth_kind = HTTPAuth | WebSocketAuth | CoreFrontendAuth

definition get_or :: "(string, string) dict \<Rightarrow> string \<Rightarrow> string \<Rightarrow> string" where
  "get_or d k v = (case dict_get d k of Some x \<Rightarrow> x | None \<Rightarrow> v)"

definition extract_http :: "connection \<Rightarrow> string \<times> string option" where
  "extract_http c =
     (let token = (case dict_get (co_headers c) ''Authorization'' of
                     None \<Rightarrow> None
                   | Some t \<Rightarrow> Some (if contains ''Bearer '' t then replace_all ''Bearer '' [] t else t));
          token = (if token = None \<or> token = Some [] then dict_get (co_headers c) ''access_token'' else token)
      in (get_or (co_headers c) ''user_id'' ''user'', if token = Some [] then None else token))"

definition extract_websocket :: "connection \<Rightarrow> string \<times> string option" where
  "extract_websocket c = (get_or (co_path_params c) ''user_id'' ''user'', dict_get (co_query_params c) ''token'')"

definition extract_frontend :: "connection \<Rightarrow> (string \<times> string option) result" where
  "extract_frontend c =
     (case dict_get (co_cookies c) ''ccat_user_token'' of
        None \<Rightarrow> Inl (HTTPException 307)
      | Some t \<Rightarrow> if t = [] then Inl (HTTPException 307) else Inr (''user'', Some t))"

definition extract_credentials :: "auth_kind \<Rightarrow> connection \<Rightarrow> (string \<times> string option) result" where
  "extract_credentials kind c =
     (case kind of
        HTTPAuth \<Rightarrow> Inr (extract_http c)
      | WebSocketAuth \<Rightarrow> Inr (extract_websocket c)
      | CoreFrontendAuth \<Rightarrow> extract_frontend c)"

definition not_allowed :: "auth_kind \<Rightarrow> py_exc" where
  "not_allowed kind =
     (case kind of HTTPAuth \<Rightarrow> HTTPException 403 | WebSocketAuth \<Rightarrow> WebSocketException 1004 | CoreFrontendAuth \<Rightarrow> HTTPException 307)"

definition protocol_of :: "auth_kind \<Rightarrow> protocol" where
  "protocol_of kind = (case kind of WebSocketAuth \<Rightarrow> Websocket | _ \<Rightarrow> Http)"

fun try_handlers ::
  "jwt_lib \<Rightarrow> protocol \<Rightarrow> string option \<Rightarrow> auth_resource \<Rightarrow> auth_permission \<Rightarrow> string \<Rightarrow> 'db auth_handler list \<Rightarrow> 'db \<Rightarrow>
   auth_user option \<times> 'db" where
  "try_handlers J protocol cred res perm uid [] db = (None, db)"
| "try_handlers J protocol cred res perm uid (h # hs) db =
     (case authorize_user_from_credential J h protocol cred res perm uid db of
        (Some user, db) \<Rightarrow> (Some user, db)
      | (None, db) \<Rightarrow> try_handlers J protocol cred res perm uid hs db)"

text \<open>The call of a connection's authentication: the user whose session the endpoint gets, or the refusal.\<close>

definition connection_auth ::
  "jwt_lib \<Rightarrow> 'db auth_handler list \<Rightarrow> auth_kind \<Rightarrow> auth_resource \<Rightarrow> auth_permission \<Rightarrow> connection \<Rightarrow> 'db \<Rightarrow>
   auth_user result \<times> 'db" where
  "connection_auth J handlers kind res perm c db =
     (case extract_credentials kind c of
        Inl e \<Rightarrow> (Inl e, db)
      | Inr (user_id, credential) \<Rightarrow>
          (case try_handlers J (protocol_of kind) credential res perm user_id handlers db of
             (Some user, db) \<Rightarrow> (Inr user, db)
           | (None, db) \<Rightarrow> (Inl (not_allowed kind), db)))"

section \<open>Administration of users (routes/users.py)\<close>

record user_create =
  uc_username :: string
  uc_password :: string
  uc_permissions :: permissions

record user_update =
  uu_username :: "string option"
  uu_password :: "string option"
  uu_permissions :: "permissions option"

text \<open>The salts of a call and the identifier of a new user.\<close>

record user_fresh =
  n_user_id :: string
  n_salt :: string
  n_spare :: string

definition valid_user_create :: "user_create \<Rightarrow> bool" where
  "valid_user_create n \<longleftrightarrow> 2 \<le> length (uc_username n) \<and> 5 \<le> length (uc_password n)"

definition valid_user_update :: "user_update \<Rightarrow> bool" where
  "valid_user_update n \<longleftrightarrow>
     (case uu_username n of None \<Rightarrow> True | Some x \<Rightarrow> 2 \<le> length x) \<and>
     (case uu_password n of None \<Rightarrow> True | Some x \<Rightarrow> 4 \<le> length x)"

definition create_user ::
  "('x, 'db) tinydb \<Rightarrow> crypto \<Rightarrow> fresh \<Rightarrow> user_fresh \<Rightarrow> user_create \<Rightarrow> users \<Rightarrow> 'db \<Rightarrow> user result \<times> 'db" where
  "create_user T K F N new_user users_db db =
     (if \<not> valid_user_create new_user then (Inl (HTTPException 422), db)
      else if \<exists>(_, u) \<in> set users_db. u_username u = uc_username new_user then (Inl (HTTPException 403), db)
      else
        (let u = \<lparr>u_id = n_user_id N, u_username = uc_username new_user,
                  u_password = hash_password K (uc_password new_user) (n_salt N) (n_spare N),
                  u_permissions = uc_permissions new_user\<rparr>
         in (Inr u, update_users T F (dict_set (n_user_id N) u users_db) db)))"

text \<open>\<open>l[a:b]\<close> with Python's treatment of negative bounds.\<close>

definition py_bound :: "'a list \<Rightarrow> int \<Rightarrow> nat" where
  "py_bound l i = nat (if i < 0 then max 0 (i + int (length l)) else min i (int (length l)))"

definition py_slice :: "int \<Rightarrow> int \<Rightarrow> 'a list \<Rightarrow> 'a list" where
  "py_slice a b l = drop (py_bound l a) (take (py_bound l b) l)"

definition read_users :: "int \<Rightarrow> int \<Rightarrow> users \<Rightarrow> user list" where
  "read_users skip limit users_db = py_slice skip (skip + limit) (map snd users_db)"

definition read_user :: "string \<Rightarrow> users \<Rightarrow> user result" where
  "read_user user_id users_db =
     (case dict_get users_db user_id of None \<Rightarrow> Inl (HTTPException 404) | Some u \<Rightarrow> Inr u)"

definition updated_user :: "crypto \<Rightarrow> user_fresh \<Rightarrow> user_update \<Rightarrow> user \<Rightarrow> user" where
  "updated_user K N upd u =
     u\<lparr>u_username := (case uu_username upd of Some x \<Rightarrow> x | None \<Rightarrow> u_username u),
       u_password := (case uu_password upd of Some x \<Rightarrow> hash_password K x (n_salt N) (n_spare N) | None \<Rightarrow> u_password u),
       u_permissions := (case uu_permissions upd of Some x \<Rightarrow> x | None \<Rightarrow> u_permissions u)\<rparr>"

definition update_user ::
  "('x, 'db) tinydb \<Rightarrow> crypto \<Rightarrow> fresh \<Rightarrow> user_fresh \<Rightarrow> string \<Rightarrow> user_update \<Rightarrow> users \<Rightarrow> 'db \<Rightarrow> user result \<times> 'db" where
  "update_user T K F N user_id upd users_db db =
     (if \<not> valid_user_update upd then (Inl (HTTPException 422), db)
      else case dict_get users_db user_id of
             None \<Rightarrow> (Inl (HTTPException 404), db)
           | Some stored \<Rightarrow>
               (let u = updated_user K N upd stored
                in (Inr u, update_users T F (dict_set user_id u users_db) db)))"

definition delete_user ::
  "('x, 'db) tinydb \<Rightarrow> fresh \<Rightarrow> string \<Rightarrow> users \<Rightarrow> 'db \<Rightarrow> user result \<times> 'db" where
  "delete_user T F user_id users_db db =
     (case dict_get users_db user_id of
        None \<Rightarrow> (Inl (HTTPException 404), db)
      | Some u \<Rightarrow> (Inr u, update_users T F (dict_del user_id users_db) db))"

text \<open>
  An endpoint: the users are read, the connection is checked against the permission declared for the endpoint, and only then the
  body runs.
\<close>

datatype users_call =
    CreateUser user_create user_fresh
  | ReadUsers int int
  | ReadUser string
  | UpdateUser string user_update user_fresh
  | DeleteUser string

datatype users_reply = OneUser user | ManyUsers "user list"

definition needed_permission :: "users_call \<Rightarrow> auth_permission" where
  "needed_permission call =
     (case call of CreateUser _ _ \<Rightarrow> WRITE | ReadUsers _ _ \<Rightarrow> LIST | ReadUser _ \<Rightarrow> READ
      | UpdateUser _ _ _ \<Rightarrow> EDIT | DeleteUser _ \<Rightarrow> DELETE)"

definition users_body ::
  "('x, 'db) tinydb \<Rightarrow> crypto \<Rightarrow> fresh \<Rightarrow> users_call \<Rightarrow> users \<Rightarrow> 'db \<Rightarrow> users_reply result \<times> 'db" where
  "users_body T K F call us db =
     (case call of
        CreateUser n N \<Rightarrow> apfst (map_sum id OneUser) (create_user T K F N n us db)
      | ReadUsers skip limit \<Rightarrow> (Inr (ManyUsers (read_users skip limit us)), db)
      | ReadUser i \<Rightarrow> (map_sum id OneUser (read_user i us), db)
      | UpdateUser i u N \<Rightarrow> apfst (map_sum id OneUser) (update_user T K F N i u us db)
      | DeleteUser i \<Rightarrow> apfst (map_sum id OneUser) (delete_user T F i us db))"

definition users_endpoint ::
  "jwt_lib \<Rightarrow> env \<Rightarrow> ('x, 'db) tinydb \<Rightarrow> crypto \<Rightarrow> fresh \<Rightarrow> 'db auth_handler \<Rightarrow> connection \<Rightarrow> users_call \<Rightarrow> 'db \<Rightarrow>
   users_reply result \<times> 'db" where
  "users_endpoint J E T K F custom c call db =
     (case get_users T K F db of
        (Inl e, db) \<Rightarrow> (Inl e, db)
      | (Inr us, db) \<Rightarrow>
          (case connection_auth J [custom, core_auth_handler J E T K F] HTTPAuth USERS (needed_permission call) c db of
             (Inl e, db) \<Rightarrow> (Inl e, db)
           | (Inr _, db) \<Rightarrow> users_body T K F call us db))"

section \<open>Lemmas\<close>

lemma core_only_skipped:
  "try_handlers J protocol cred res perm uid (core_only_auth_handler # hs) db = try_handlers J protocol cred res perm uid hs db"
  by (simp add: authorize_user_from_credential_def core_only_auth_handler_def)

lemma try_core:
  "try_handlers J protocol cred res perm uid [core_auth_handler J E T K F] db =
     (if is_jwt J cred then authorize_user_from_jwt J E T K F (the cred) res perm db
      else (authorize_user_from_key E protocol uid cred res perm, db))"
  by (simp add: authorize_user_from_credential_def core_auth_handler_def split: option.split prod.split)

definition granted :: "user \<Rightarrow> auth_resource \<Rightarrow> auth_permission \<Rightarrow> bool" where
  "granted u res perm \<longleftrightarrow> (case dict_get (u_permissions u) res of None \<Rightarrow> False | Some ps \<Rightarrow> perm \<in> set ps)"

lemma get_users_stable:
  assumes "tinydb_laws T docs" and "get_users T K F db = (r, db1)"
  shows "get_users T K F' db1 = (r, db1)"
proof (cases "get_setting_by_name T ''users'' db")
  case None
  with assms(2) have "r = Inr (default_users K F)" "db1 = update_users T F (default_users K F) db"
    by (simp_all add: get_users_cases [OF assms(1)])
  then show ?thesis using get_users_after_update [OF assms(1)] by blast
next
  case (Some s)
  with assms(2) show ?thesis by (auto simp: get_users_cases [OF assms(1)])
qed

lemma jwt_authorized:
  assumes "get_users T K F db = (Inr us, db0)"
    and "jwt_decode J token (e_jwt_secret E) (e_jwt_algorithm E) (f_now F) = Inr p"
  shows "authorize_user_from_jwt J E T K F token res perm db =
    (case (c_sub p, c_username p) of
       (Some sub, Some name) \<Rightarrow>
         (case dict_get us sub of
            None \<Rightarrow> None
          | Some u \<Rightarrow>
              if granted u res perm
              then Some \<lparr>a_id = sub, a_name = name, a_permissions = u_permissions u, a_extra = Some u\<rparr> else None)
     | _ \<Rightarrow> None, db0)"
  by (simp add: authorize_user_from_jwt_def assms granted_def split: option.split)

lemma connection_auth_core:
  assumes "extract_credentials kind c = Inr (uid, cred)"
  shows "connection_auth J [core_only_auth_handler, core_auth_handler J E T K F] kind res perm c db =
    (case (if is_jwt J cred then authorize_user_from_jwt J E T K F (the cred) res perm db
           else (authorize_user_from_key E (protocol_of kind) uid cred res perm, db)) of
       (Some user, db) \<Rightarrow> (Inr user, db) | (None, db) \<Rightarrow> (Inl (not_allowed kind), db))"
  by (simp add: connection_auth_def assms core_only_skipped try_core del: try_handlers.simps)

lemma jwt_admission:
  assumes "extract_credentials kind c = Inr (uid, Some token)" and "jwt_peek J token"
    and "get_users T K F db = (Inr us, db0)"
  shows "fst (connection_auth J [core_only_auth_handler, core_auth_handler J E T K F] kind res perm c db) =
    (case jwt_decode J token (e_jwt_secret E) (e_jwt_algorithm E) (f_now F) of
       Inl _ \<Rightarrow> Inl (not_allowed kind)
     | Inr p \<Rightarrow>
         (case (c_sub p, c_username p) of
            (Some sub, Some name) \<Rightarrow>
              (case dict_get us sub of
                 None \<Rightarrow> Inl (not_allowed kind)
               | Some u \<Rightarrow>
                   if granted u res perm
                   then Inr \<lparr>a_id = sub, a_name = name, a_permissions = u_permissions u, a_extra = Some u\<rparr>
                   else Inl (not_allowed kind))
          | _ \<Rightarrow> Inl (not_allowed kind)))"
proof (cases "jwt_decode J token (e_jwt_secret E) (e_jwt_algorithm E) (f_now F)")
  case (Inl e)
  then show ?thesis
    by (simp add: connection_auth_core [OF assms(1)] is_jwt_def assms(2) authorize_user_from_jwt_def)
next
  case (Inr p)
  then show ?thesis
    by (simp add: connection_auth_core [OF assms(1)] is_jwt_def assms(2) jwt_authorized [OF assms(3)] split: option.split)
qed

lemma issue_jwt_token:
  assumes "get_users T K F db = (Inr us, db0)" and "issue_jwt J E T K F name pw db = (Inr (Some token), db2)"
  obtains i u where "(i, u) \<in> set us" "u_username u = name" "check_password K pw (u_password u)"
    "token = jwt_encode J \<lparr>c_sub = Some i, c_username = Some name, c_permissions = u_permissions u,
       c_exp = f_now F + e_jwt_expire_seconds E\<rparr> (e_jwt_secret E) (e_jwt_algorithm E)"
proof -
  from assms obtain i u where f: "List.find (\<lambda>(_, user). u_username user = name \<and> check_password K pw (u_password user)) us = Some (i, u)"
    and t: "token = jwt_encode J \<lparr>c_sub = Some i, c_username = Some name, c_permissions = u_permissions u,
       c_exp = f_now F + e_jwt_expire_seconds E\<rparr> (e_jwt_secret E) (e_jwt_algorithm E)"
    by (auto simp: issue_jwt_def split: option.splits)
  from f have "(i, u) \<in> set us \<and> u_username u = name \<and> check_password K pw (u_password u)"
    unfolding find_Some_iff by (metis (mono_tags, lifting) case_prod_conv nth_mem)
  with t that show ?thesis by blast
qed

section \<open>Properties\<close>

text \<open>
  C6. A session token is worth what the database says now.  A token issued at login is the token of a stored
  user with that name and password.  Presented before it expires, it admits the connection as that user
  exactly when the user is still stored and the permission is granted to it in the database at that moment, whatever
  permissions the token carries; afterwards, it is refused.
\<close>
theorem session_token_follows_database:
  assumes "jwt_laws J" and "get_users T K F db = (Inr us, db1)"
    and "issue_jwt J E T K F name pw db = (Inr (Some token), db2)"
    and "extract_credentials kind c = Inr (uid, Some token)"
    and "get_users T K F' db3 = (Inr us', db4)"
  shows "\<exists>i u. (i, u) \<in> set us \<and> u_username u = name \<and> check_password K pw (u_password u) \<and>
     fst (connection_auth J [core_only_auth_handler, core_auth_handler J E T K F'] kind res perm c db3) =
       (if f_now F' < f_now F + e_jwt_expire_seconds E then
          (case dict_get us' i of
             None \<Rightarrow> Inl (not_allowed kind)
           | Some u' \<Rightarrow>
               if granted u' res perm
               then Inr \<lparr>a_id = i, a_name = name, a_permissions = u_permissions u', a_extra = Some u'\<rparr>
               else Inl (not_allowed kind))
        else Inl (not_allowed kind))"
proof -
  obtain i u where u: "(i, u) \<in> set us" "u_username u = name" "check_password K pw (u_password u)"
    and t: "token = jwt_encode J \<lparr>c_sub = Some i, c_username = Some name, c_permissions = u_permissions u,
       c_exp = f_now F + e_jwt_expire_seconds E\<rparr> (e_jwt_secret E) (e_jwt_algorithm E)" (is "_ = jwt_encode J ?c _ _")
    by (rule issue_jwt_token [OF assms(2,3)])
  have peek: "jwt_peek J token" using assms(1) by (simp add: jwt_laws_def t)
  note adm = jwt_admission [OF assms(4) peek assms(5), of E res perm]
  show ?thesis
  proof (cases "f_now F' < f_now F + e_jwt_expire_seconds E")
    case True
    then have "jwt_decode J token (e_jwt_secret E) (e_jwt_algorithm E) (f_now F') = Inr ?c"
      using assms(1) by (simp add: jwt_laws_def t)
    with True u adm show ?thesis by auto
  next
    case False
    then obtain e where "jwt_decode J token (e_jwt_secret E) (e_jwt_algorithm E) (f_now F') = Inl e"
      using assms(1) unfolding jwt_laws_def t by (metis jwt_claims.select_convs(4) not_less)
    with False u adm show ?thesis by auto
  qed
qed

text \<open>
  Without a token, the key decides.  A credential that is not a token admits a connection when neither key is configured, or when
  it equals the key of the connection's protocol (no credential where that key is not configured); the user is the one the client names, with
  all permissions over HTTP and the base permissions over a web socket.  Otherwise the connection is refused.  The
  resource and permission asked for do not matter, and the database is not changed.
\<close>
theorem key_access_decision:
  assumes "extract_credentials kind c = Inr (uid, cred)" and "\<not> is_jwt J cred"
  shows "connection_auth J [core_only_auth_handler, core_auth_handler J E T K F] kind res perm c db =
    (let open = key_unset (e_api_key E) \<and> key_unset (e_api_key_ws E);
         key = (if kind = WebSocketAuth then e_api_key_ws E else e_api_key E)
     in if open \<or> cred = key
        then Inr \<lparr>a_id = uid, a_name = uid,
                  a_permissions = (if open \<or> kind \<noteq> WebSocketAuth then get_full_permissions else get_base_permissions),
                  a_extra = None\<rparr>
        else Inl (not_allowed kind), db)"
  unfolding connection_auth_core [OF assms(1)]
  using assms(2)
  by (cases kind)
    (simp_all add: authorize_user_from_key_def Let_def protocol_of_def authorize_websocket_key_def authorize_http_key_def)

text \<open>
  C17. Users are administered only with the permission for it, or with the key of the installation.
  An endpoint for users runs its body, on the users then stored, exactly when the connection is
  admitted, and otherwise answers 403 and leaves the database and the stored users as they are.  A connection whose
  credential is a token is admitted exactly when the token verifies, names a user, its subject is a stored user,
  and the database grants that user the permission of the endpoint on users.  A connection without a token is
  admitted exactly when neither key is configured or its credential is the HTTP key (no credential, where that
  key is not configured): the caller is then whoever the client says, stored or not, and has every permission.  No
  plugin has installed a handler of its own.
\<close>
theorem users_admin_guarded:
  assumes "tinydb_laws T docs" and "get_users T K F db = (Inr us, db0)"
    and "extract_http c = (uid, cred)"
  shows "users_endpoint J E T K F core_only_auth_handler c call db =
      (if (case cred of
             Some token \<Rightarrow>
               (if jwt_peek J token then
                  (case jwt_decode J token (e_jwt_secret E) (e_jwt_algorithm E) (f_now F) of
                     Inl _ \<Rightarrow> False
                   | Inr p \<Rightarrow> \<exists>i u. c_sub p = Some i \<and> c_username p \<noteq> None \<and> dict_get us i = Some u \<and>
                                granted u USERS (needed_permission call))
                else e_api_key E \<in> set [None, Some ''''] \<and> e_api_key_ws E \<in> set [None, Some ''''] \<or> e_api_key E = Some token)
           | None \<Rightarrow> e_api_key E \<in> set [None, Some ''''] \<and> e_api_key_ws E \<in> set [None, Some ''''] \<or> e_api_key E = None)
       then users_body T K F call us db0 else (Inl (HTTPException 403), db0)) \<and>
    get_users T K F' db0 = (Inr us, db0)"
proof -
  have st: "get_users T K G db0 = (Inr us, db0)" for G
    by (rule get_users_stable [OF assms(1,2)])
  have ex: "extract_credentials HTTPAuth c = Inr (uid, cred)" using assms(3) by (simp add: extract_credentials_def)
  note core = connection_auth_core [OF ex, of J E T K F USERS "needed_permission call" db0]
  have key: "connection_auth J [core_only_auth_handler, core_auth_handler J E T K F] HTTPAuth USERS
      (needed_permission call) c db0 =
      (if key_unset (e_api_key E) \<and> key_unset (e_api_key_ws E) \<or> e_api_key E = cred
       then Inr \<lparr>a_id = uid, a_name = uid, a_permissions = get_full_permissions, a_extra = None\<rparr>
       else Inl (HTTPException 403), db0)" if "\<not> is_jwt J cred"
    unfolding core using that
    by (auto simp: authorize_user_from_key_def protocol_of_def authorize_http_key_def not_allowed_def)
  have unset: "key_unset k \<longleftrightarrow> k \<in> set [None, Some '''']" for k by (simp add: key_unset_def)
  show ?thesis
  proof (cases cred)
    case None
    with key show ?thesis by (auto simp: users_endpoint_def assms(2) st unset is_jwt_def)
  next
    case (Some token)
    show ?thesis
    proof (cases "jwt_peek J token")
      case True
      with Some core show ?thesis
        by (auto simp: users_endpoint_def assms(2) st is_jwt_def authorize_user_from_jwt_def granted_def not_allowed_def
            split: sum.split option.split)
    next
      case False
      with Some key show ?thesis by (auto simp: users_endpoint_def assms(2) st unset is_jwt_def)
    qed
  qed
qed

section \<open>Concrete runs\<close>

instance auth_resource :: countable
  by countable_datatype

instance auth_permission :: countable
  by countable_datatype

text \<open>A token library that meets the laws: a token is the number of its claims, secret and algorithm, in decimal.\<close>

definition claims_tuple :: "jwt_claims \<Rightarrow> string option \<times> string option \<times> permissions \<times> int" where
  "claims_tuple c = (c_sub c, c_username c, c_permissions c, c_exp c)"

definition tuple_claims :: "string option \<times> string option \<times> permissions \<times> int \<Rightarrow> jwt_claims" where
  "tuple_claims = (\<lambda>(s, n, p, e). \<lparr>c_sub = s, c_username = n, c_permissions = p, c_exp = e\<rparr>)"

definition demo_jwt :: jwt_lib where
  "demo_jwt = \<lparr>jwt_peek = (\<lambda>t. t \<noteq> [] \<and> list_all is_digit t),
     jwt_encode = (\<lambda>c secret alg. show_nat (to_nat (claims_tuple c, secret, alg))),
     jwt_decode = (\<lambda>t secret alg now.
       case from_nat (read_nat t) of (c, s, a) \<Rightarrow>
         if s = secret \<and> a = alg \<and> now < c_exp (tuple_claims c) then Inr (tuple_claims c) else Inl (ValueError ''token''))\<rparr>"

lemma tuple_claims_inverse [simp]: "tuple_claims (claims_tuple c) = c"
  by (simp add: claims_tuple_def tuple_claims_def)

lemma demo_jwt_laws: "jwt_laws demo_jwt"
  unfolding jwt_laws_def demo_jwt_def by (simp add: list_all_iff show_nat_digits)

definition demo_env :: env where
  "demo_env = \<lparr>e_api_key = Some ''meow'', e_api_key_ws = Some ''meow2'', e_jwt_secret = ''secret'',
     e_jwt_algorithm = ''HS256'', e_jwt_expire_seconds = 86400\<rparr>"

definition demo_db :: "nat setting list" where
  "demo_db = snd (get_users list_db demo_crypto (demo_fresh ''1'') [])"

definition demo_users :: users where
  "demo_users = default_users demo_crypto (demo_fresh ''1'')"

lemma demo_get_users: "get_users list_db demo_crypto F demo_db = (Inr demo_users, demo_db)"
proof -
  have "get_users list_db demo_crypto (demo_fresh ''1'') ([] :: nat setting list) = (Inr demo_users, demo_db)"
    by (simp add: demo_users_def demo_db_def get_users_cases [OF list_db_laws] get_setting_docs [OF list_db_laws])
  then show ?thesis by (rule get_users_stable [OF list_db_laws])
qed

definition demo_claims :: jwt_claims where
  "demo_claims = \<lparr>c_sub = Some ''a1'', c_username = Some ''admin'', c_permissions = get_full_permissions, c_exp = 86400\<rparr>"

definition demo_token :: string where
  "demo_token = jwt_encode demo_jwt demo_claims ''secret'' ''HS256''"

lemma demo_login:
  "issue_jwt demo_jwt demo_env list_db demo_crypto (demo_fresh ''x'') ''admin'' ''admin'' demo_db = (Inr (Some demo_token), demo_db)"
  unfolding issue_jwt_def demo_get_users
  by (simp add: demo_users_def default_users_def demo_fresh_def demo_crypto_def hash_password_def check_password_def
      demo_token_def demo_claims_def demo_env_def)

definition demo_socket :: connection where
  "demo_socket = \<lparr>co_headers = [], co_path_params = [], co_query_params = [(''token'', demo_token)], co_cookies = []\<rparr>"

lemma demo_socket_credentials: "extract_credentials WebSocketAuth demo_socket = Inr (''user'', Some demo_token)"
  by (simp add: extract_credentials_def extract_websocket_def demo_socket_def get_or_def)

theorem session_token_follows_database_witness:
  "\<exists>i u. (i, u) \<in> set demo_users \<and> u_username u = ''admin'' \<and>
     fst (connection_auth demo_jwt [core_only_auth_handler, core_auth_handler demo_jwt demo_env list_db demo_crypto (demo_fresh ''y'')]
       WebSocketAuth CONVERSATION WRITE demo_socket demo_db) =
     (case dict_get demo_users i of
        None \<Rightarrow> Inl (not_allowed WebSocketAuth)
      | Some u' \<Rightarrow> if granted u' CONVERSATION WRITE
          then Inr \<lparr>a_id = i, a_name = ''admin'', a_permissions = u_permissions u', a_extra = Some u'\<rparr>
          else Inl (not_allowed WebSocketAuth))"
proof -
  have lt: "f_now (demo_fresh ''y'') < f_now (demo_fresh ''x'') + e_jwt_expire_seconds demo_env"
    by (simp add: demo_fresh_def demo_env_def)
  from session_token_follows_database [OF demo_jwt_laws demo_get_users demo_login demo_socket_credentials demo_get_users,
      of "demo_fresh ''y''" CONVERSATION WRITE, unfolded if_P [OF lt]]
  show ?thesis by blast
qed

theorem key_access_decision_witness:
  "fst (connection_auth demo_jwt [core_only_auth_handler, core_auth_handler demo_jwt demo_env list_db demo_crypto (demo_fresh [])]
     HTTPAuth SETTINGS DELETE \<lparr>co_headers = [(''access_token'', ''meow'')], co_path_params = [], co_query_params = [], co_cookies = []\<rparr> demo_db) =
   Inr \<lparr>a_id = ''user'', a_name = ''user'', a_permissions = get_full_permissions, a_extra = None\<rparr>"
proof -
  have e: "extract_credentials HTTPAuth \<lparr>co_headers = [(''access_token'', ''meow'')], co_path_params = [], co_query_params = [], co_cookies = []\<rparr> =
      Inr (''user'', Some ''meow'')" by code_simp
  have "\<not> is_jwt demo_jwt (Some ''meow'')" by (simp add: is_jwt_def demo_jwt_def is_digit_def)
  from key_access_decision [OF e this, of demo_env list_db demo_crypto "demo_fresh []" SETTINGS DELETE demo_db]
  show ?thesis by (simp add: demo_env_def Let_def)
qed

definition demo_admin_call :: connection where
  "demo_admin_call = \<lparr>co_headers = [(''access_token'', demo_token)], co_path_params = [], co_query_params = [], co_cookies = []\<rparr>"

lemma demo_token_peek: "jwt_peek demo_jwt demo_token"
  using demo_jwt_laws by (simp add: jwt_laws_def demo_token_def)

lemma demo_admin_credentials: "extract_http demo_admin_call = (''user'', Some demo_token)"
  using demo_token_peek by (simp add: extract_http_def demo_admin_call_def get_or_def Let_def demo_jwt_def)

definition demo_stranger :: connection where
  "demo_stranger = \<lparr>co_headers = [(''access_token'', ''guess'')], co_path_params = [], co_query_params = [], co_cookies = []\<rparr>"

lemma demo_stranger_credentials: "extract_http demo_stranger = (''user'', Some ''guess'')"
  by code_simp

lemma demo_claims_decoded: "jwt_decode demo_jwt demo_token ''secret'' ''HS256'' 0 = Inr demo_claims"
  using demo_jwt_laws by (simp add: jwt_laws_def demo_token_def demo_claims_def)

theorem users_admin_guarded_witness:
  "users_endpoint demo_jwt demo_env list_db demo_crypto (demo_fresh ''y'') core_only_auth_handler demo_admin_call
     (ReadUsers 0 100) demo_db = (Inr (ManyUsers (map snd demo_users)), demo_db) \<and>
   users_endpoint demo_jwt demo_env list_db demo_crypto (demo_fresh ''y'') core_only_auth_handler demo_stranger
     (DeleteUser ''a1'') demo_db = (Inl (HTTPException 403), demo_db)"
proof -
  have admin: "jwt_peek demo_jwt demo_token" by (rule demo_token_peek)
  have stranger: "\<not> jwt_peek demo_jwt ''guess''" by (simp add: demo_jwt_def is_digit_def)
  have "\<exists>u. dict_get demo_users ''a1'' = Some u \<and> granted u USERS LIST"
    by (simp add: demo_users_def default_users_def demo_fresh_def granted_def get_full_permissions_def)
  moreover have "read_users 0 100 demo_users = map snd demo_users" by code_simp
  ultimately show ?thesis
    using demo_claims_decoded
    users_admin_guarded [OF list_db_laws demo_get_users demo_admin_credentials, of demo_jwt demo_env "demo_fresh ''y''" "ReadUsers 0 100"]
    users_admin_guarded [OF list_db_laws demo_get_users demo_stranger_credentials, of demo_jwt demo_env "demo_fresh ''y''" "DeleteUser ''a1''"]
    by (simp add: admin stranger demo_env_def demo_fresh_def demo_claims_def needed_permission_def users_body_def)
qed

section \<open>New and renamed users\<close>

definition users_ok :: "users \<Rightarrow> bool" where
  "users_ok us \<longleftrightarrow> dict_ok us \<and> (\<forall>(i, u) \<in> set us. u_id u = i) \<and> distinct (map (u_username \<circ> snd) us)"

lemma delete_user_ok: "users_ok us \<Longrightarrow> users_ok (dict_del i us)"
  by (auto simp: users_ok_def dict_del_filter distinct_map_filter intro: inj_on_subset)

lemma created_user_stored:
  assumes "create_user T K F N n us db = (Inr u, db')" and "n_user_id N \<notin> set (dict_keys us)"
  shows "db' = update_users T F (us @ [(n_user_id N, u)]) db"
    and "u = \<lparr>u_id = n_user_id N, u_username = uc_username n,
               u_password = hash_password K (uc_password n) (n_salt N) (n_spare N), u_permissions = uc_permissions n\<rparr>"
    and "\<forall>(j, v) \<in> set us. u_username v \<noteq> uc_username n"
  using assms by (auto simp: create_user_def Let_def dict_set_absent split: if_splits)

text \<open>
  A new user can log in.  With a fresh identifier, creating a user keeps every stored user, keeps identifiers and names
  unique, and the name and password given then log in as the new user, provided that the password can be
  hashed; a name that is taken is refused and nothing is written.
\<close>
theorem created_user_logs_in:
  assumes "tinydb_laws T docs" and "users_ok us" and "n_user_id N \<notin> set (dict_keys us)"
    and "create_user T K F N n us db = (r, db')"
    and "hashpw K (uc_password n) (n_salt N) = Inr h" and "checkpw K (uc_password n) h = Inr True"
  shows "case r of
      Inl _ \<Rightarrow> db' = db
    | Inr u \<Rightarrow>
        (\<exists>us'. get_users T K F' db' = (Inr us', db') \<and> users_ok us' \<and> set us' = insert (n_user_id N, u) (set us)) \<and>
        issue_jwt J E T K F' (uc_username n) (uc_password n) db' =
          (Inr (Some (jwt_encode J \<lparr>c_sub = Some (n_user_id N), c_username = Some (uc_username n),
             c_permissions = uc_permissions n, c_exp = f_now F' + e_jwt_expire_seconds E\<rparr>
             (e_jwt_secret E) (e_jwt_algorithm E))), db')"
proof (cases r)
  case (Inl e)
  with assms(4) show ?thesis by (auto simp: create_user_def Let_def split: if_splits)
next
  case (Inr u)
  note st = created_user_stored [OF assms(4) [unfolded Inr] assms(3)]
  have g: "get_users T K F' db' = (Inr (us @ [(n_user_id N, u)]), db')"
    unfolding st(1) by (rule get_users_after_update [OF assms(1)])
  have "users_ok (us @ [(n_user_id N, u)])"
    using assms(2,3) st(2,3) by (auto simp: users_ok_def)
  moreover have "List.find (\<lambda>(_, v). u_username v = uc_username n \<and> check_password K (uc_password n) (u_password v)) us = None"
    using st(3) by (auto simp: find_None_iff)
  then have "issue_jwt J E T K F' (uc_username n) (uc_password n) db' =
          (Inr (Some (jwt_encode J \<lparr>c_sub = Some (n_user_id N), c_username = Some (uc_username n),
             c_permissions = uc_permissions n, c_exp = f_now F' + e_jwt_expire_seconds E\<rparr>
             (e_jwt_secret E) (e_jwt_algorithm E))), db')"
    using assms(5,6) by (simp add: issue_jwt_def g find_append st(2) check_password_def hash_password_def)
  ultimately show ?thesis using Inr g by auto
qed

definition demo_new :: user_create where
  "demo_new = \<lparr>uc_username = ''alice'', uc_password = ''wonder'', uc_permissions = get_base_permissions\<rparr>"

definition demo_user_fresh :: user_fresh where
  "demo_user_fresh = \<lparr>n_user_id = ''n1'', n_salt = ''4'', n_spare = ''5''\<rparr>"

lemma demo_users_ok: "users_ok demo_users"
  by (simp add: users_ok_def demo_users_def default_users_def demo_fresh_def)

theorem created_user_logs_in_witness:
  "\<exists>token. issue_jwt demo_jwt demo_env list_db demo_crypto (demo_fresh ''z'') ''alice'' ''wonder''
     (snd (create_user list_db demo_crypto (demo_fresh ''y'') demo_user_fresh demo_new demo_users demo_db)) =
     (Inr (Some token), snd (create_user list_db demo_crypto (demo_fresh ''y'') demo_user_fresh demo_new demo_users demo_db))"
proof -
  let ?r = "create_user list_db demo_crypto (demo_fresh ''y'') demo_user_fresh demo_new demo_users demo_db"
  have f: "n_user_id demo_user_fresh \<notin> set (dict_keys demo_users)"
    by (simp add: demo_user_fresh_def demo_users_def default_users_def demo_fresh_def)
  have c: "?r = (fst ?r, snd ?r)" by simp
  have h: "hashpw demo_crypto (uc_password demo_new) (n_salt demo_user_fresh) = Inr ''4wonder''"
    "checkpw demo_crypto (uc_password demo_new) ''4wonder'' = Inr True"
    by (simp_all add: demo_crypto_def demo_new_def demo_user_fresh_def)
  have "\<not> isl (fst ?r)" by code_simp
  then obtain u where u: "fst ?r = Inr u" by (cases "fst ?r") auto
  have n: "uc_username demo_new = ''alice''" "uc_password demo_new = ''wonder''" by (simp_all add: demo_new_def)
  from created_user_logs_in [OF list_db_laws demo_users_ok f c h, of "demo_fresh ''z''" demo_jwt demo_env]
  show ?thesis unfolding u sum.case n by blast
qed

text \<open>
  Names are not kept unique by an update.  A stored user can be given the name of another stored user, which creation
  refuses; two users then have the name.
\<close>
theorem update_can_duplicate_name:
  assumes "tinydb_laws T docs" and "dict_get us i = Some u" and "dict_get us j = Some v" and "i \<noteq> j"
    and "2 \<le> length (u_username v)"
    and "update_user T K F N i \<lparr>uu_username = Some (u_username v), uu_password = None, uu_permissions = None\<rparr> us db = (r, db')"
  shows "\<exists>us' u'. get_users T K F' db' = (Inr us', db') \<and> r = Inr u' \<and> dict_get us' i = Some u' \<and> dict_get us' j = Some v \<and>
           u_username u' = u_username v \<and> u_password u' = u_password u"
proof -
  let ?u = "u\<lparr>u_username := u_username v\<rparr>"
  have "r = Inr ?u" "db' = update_users T F (dict_set i ?u us) db"
    using assms(2,5,6) by (auto simp: update_user_def valid_user_update_def updated_user_def Let_def)
  then show ?thesis
    using get_users_after_update [OF assms(1), of K F' F "dict_set i ?u us" db] assms(3,4) by simp
qed

theorem update_can_duplicate_name_witness:
  "\<exists>us'. fst (get_users list_db demo_crypto (demo_fresh ''z'')
      (snd (update_user list_db demo_crypto (demo_fresh ''y'') demo_user_fresh ''u1''
        \<lparr>uu_username = Some ''admin'', uu_password = None, uu_permissions = None\<rparr> demo_users demo_db))) = Inr us' \<and>
     map_option u_username (dict_get us' ''u1'') = Some ''admin'' \<and> map_option u_username (dict_get us' ''a1'') = Some ''admin''"
proof -
  let ?a = "the (dict_get demo_users ''a1'')" and ?u = "the (dict_get demo_users ''u1'')"
  let ?r = "update_user list_db demo_crypto (demo_fresh ''y'') demo_user_fresh ''u1''
        \<lparr>uu_username = Some (u_username ?a), uu_password = None, uu_permissions = None\<rparr> demo_users demo_db"
  have d: "dict_get demo_users ''u1'' = Some ?u" "dict_get demo_users ''a1'' = Some ?a" "u_username ?a = ''admin''"
    by (simp_all add: demo_users_def default_users_def demo_fresh_def)
  have l: "2 \<le> length (u_username ?a)" "''u1'' \<noteq> ''a1''" by (simp_all add: d(3))
  from update_can_duplicate_name [OF list_db_laws d(1,2) l(2,1), of demo_crypto "demo_fresh ''y''" demo_user_fresh demo_db
      "fst ?r" "snd ?r" "demo_fresh ''z''"]
  show ?thesis unfolding d(3) using d(3) by auto
qed

end
