(* ===== verification/Login.thy ===== *)
theory Login
  imports Auth
begin

text \<open>
  The login endpoints (\<open>routes/auth.py\<close>) and the way of a visitor to the admin pages: the redirect of \<open>CoreFrontendAuth\<close>
  (\<open>auth/connection.py\<close>, \<open>routes/static/admin.py\<close>), the form, its cookie, and \<open>urlencode\<close> of the standard library, which carries
  the page to return to through the address of the form.  The interface of authentication handlers is the locale \<open>token_handler\<close>.
\<close>


section \<open>Query strings\<close>

text \<open>The bytes of a text in UTF-8, for code points below 256.\<close>

fun utf8 :: "string \<Rightarrow> nat list" where
  "utf8 [] = []"
| "utf8 (c # s) = (let n = of_char c in if n < 128 then n # utf8 s else (192 + n div 64) # (128 + n mod 64) # utf8 s)"

definition hex_digit :: "nat \<Rightarrow> char" where
  "hex_digit n = (if n < 10 then char_of (48 + n) else char_of (55 + n))"

definition unreserved :: "nat \<Rightarrow> bool" where
  "unreserved n \<longleftrightarrow> 48 \<le> n \<and> n \<le> 57 \<or> 65 \<le> n \<and> n \<le> 90 \<or> 97 \<le> n \<and> n \<le> 122 \<or> n \<in> {95, 46, 45, 126}"

definition quote_byte :: "nat \<Rightarrow> string" where
  "quote_byte n = (if unreserved n then [char_of n] else if n = 32 then ''+'' else [CHR ''%'', hex_digit (n div 16), hex_digit (n mod 16)])"

definition quote_plus :: "string \<Rightarrow> string" where
  "quote_plus s = concat (map quote_byte (utf8 s))"

definition urlencode :: "(string, string) dict \<Rightarrow> string" where
  "urlencode d = join_with ''&'' (map (\<lambda>(k, v). quote_plus k @ ''='' @ quote_plus v) d)"

text \<open>The reference for reading a query string: pairs at \<open>&\<close>, key and value at the first equals sign, both decoded.\<close>

definition hex_value :: "char \<Rightarrow> nat" where
  "hex_value c = (let n = of_char c in if n \<le> 57 then n - 48 else n - 55)"

fun unquote_bytes :: "string \<Rightarrow> nat list" where
  "unquote_bytes [] = []"
| "unquote_bytes [c] = [if c = CHR ''+'' then 32 else of_char c]"
| "unquote_bytes [c, a] = (if c = CHR ''+'' then 32 else of_char c) # unquote_bytes [a]"
| "unquote_bytes (c # a # b # s) =
     (if c = CHR ''%'' then (16 * hex_value a + hex_value b) # unquote_bytes s
      else (if c = CHR ''+'' then 32 else of_char c) # unquote_bytes (a # b # s))"

fun from_utf8 :: "nat list \<Rightarrow> string" where
  "from_utf8 [] = []"
| "from_utf8 [n] = [char_of n]"
| "from_utf8 (m # n # ns) = (if m < 128 then char_of m # from_utf8 (n # ns) else char_of ((m - 192) * 64 + (n - 128)) # from_utf8 ns)"

definition unquote_plus :: "string \<Rightarrow> string" where
  "unquote_plus s = from_utf8 (unquote_bytes s)"

definition parse_query :: "string \<Rightarrow> (string, string) dict" where
  "parse_query q = map (\<lambda>w. (unquote_plus (takeWhile (\<lambda>c. c \<noteq> CHR ''='') w), unquote_plus (tl (dropWhile (\<lambda>c. c \<noteq> CHR ''='') w)))) (split_on CHR ''&'' q)"

lemma utf8_bytes: "n \<in> set (utf8 s) \<Longrightarrow> n < 256"
proof (induction s rule: utf8.induct)
  case (2 c s)
  have "(of_char c :: nat) < 256" by simp
  then have "(of_char c :: nat) div 64 < 4" by (simp add: less_mult_imp_div_less)
  then show ?case using 2 by (auto simp: Let_def split: if_splits)
qed simp

lemma from_utf8_utf8 [simp]: "from_utf8 (utf8 s) = s"
proof (induction s)
  case (Cons c s)
  have c: "(of_char c :: nat) < 256" by simp
  show ?case
  proof (cases "(of_char c :: nat) < 128")
    case True
    then show ?thesis using Cons by (cases "utf8 s") (simp_all add: Let_def)
  next
    case False
    have "of_char c div 64 * 64 + of_char c mod 64 = (of_char c :: nat)" by (rule div_mult_mod_eq)
    with False Cons show ?thesis by (simp add: Let_def)
  qed
qed simp

lemma hex_value_digit: "n < 16 \<Longrightarrow> hex_value (hex_digit n) = n"
  by (auto simp: hex_value_def hex_digit_def Let_def take_bit_eq_mod)

lemma char_of_nat: "n < 256 \<Longrightarrow> (of_char (char_of n :: char) :: nat) = n"
  by (simp add: take_bit_eq_mod)

lemma char_of_neq:
  fixes n :: nat
  shows "n < 256 \<Longrightarrow> of_char c \<noteq> n \<Longrightarrow> char_of n \<noteq> c"
  using char_of_nat by blast

lemma unquote_plain: "c \<noteq> CHR ''%'' \<Longrightarrow> unquote_bytes (c # s) = (if c = CHR ''+'' then 32 else of_char c) # unquote_bytes s"
  by (cases "c # s" rule: unquote_bytes.cases) auto

lemma unquote_quote_byte: "n < 256 \<Longrightarrow> unquote_bytes (quote_byte n @ s) = n # unquote_bytes s"
proof -
  assume n: "n < 256"
  have "n div 16 < 16" "n mod 16 < 16" using n by (simp_all add: less_mult_imp_div_less)
  then have e: "16 * hex_value (hex_digit (n div 16)) + hex_value (hex_digit (n mod 16)) = n"
    by (simp add: hex_value_digit)
  have "char_of n \<noteq> CHR ''%'' \<and> char_of n \<noteq> CHR ''+''" if "unreserved n"
    using that by (intro conjI char_of_neq [OF n]) (auto simp: unreserved_def)
  then show ?thesis using e char_of_nat [OF n] by (simp add: quote_byte_def unquote_plain)
qed

lemma unquote_quote_plus [simp]: "unquote_plus (quote_plus s) = s"
proof -
  have "unquote_bytes (concat (map quote_byte ns)) = ns" if "\<forall>n \<in> set ns. n < 256" for ns
    using that by (induction ns) (simp_all add: unquote_quote_byte)
  then show ?thesis using utf8_bytes by (simp add: unquote_plus_def quote_plus_def)
qed

lemma quote_plus_chars: "c \<in> set (quote_plus s) \<Longrightarrow> c \<noteq> CHR ''&'' \<and> c \<noteq> CHR ''=''"
proof -
  have h: "hex_digit n \<noteq> CHR ''&'' \<and> hex_digit n \<noteq> CHR ''=''" if "n < 16" for n
    using that unfolding hex_digit_def by (cases "n < 10") (simp_all only: if_True if_False, (intro conjI char_of_neq; simp)+)
  have q: "c \<noteq> CHR ''&'' \<and> c \<noteq> CHR ''=''" if "c \<in> set (quote_byte n)" "n < 256" for n
  proof -
    have "n div 16 < 16" "n mod 16 < 16" using that(2) by (simp_all add: less_mult_imp_div_less)
    moreover have "char_of n \<noteq> CHR ''&'' \<and> char_of n \<noteq> CHR ''=''" if "unreserved n"
      using that by (intro conjI char_of_neq [OF \<open>n < 256\<close>]) (auto simp: unreserved_def)
    ultimately show ?thesis using that h by (auto simp: quote_byte_def split: if_splits)
  qed
  assume "c \<in> set (quote_plus s)"
  then show ?thesis using q utf8_bytes by (auto simp: quote_plus_def)
qed

lemma parse_urlencode: "d \<noteq> [] \<Longrightarrow> parse_query (urlencode d) = d"
proof -
  assume d: "d \<noteq> []"
  let ?w = "\<lambda>(k, v). quote_plus k @ ''='' @ quote_plus v"
  have "\<forall>w \<in> set (map ?w d). CHR ''&'' \<notin> set w" using quote_plus_chars by fastforce
  then have "split_on CHR ''&'' (urlencode d) = map ?w d" using d by (simp add: urlencode_def split_join)
  moreover have "takeWhile (\<lambda>c. c \<noteq> CHR ''='') (quote_plus k @ ''='' @ v) = quote_plus k"
    "dropWhile (\<lambda>c. c \<noteq> CHR ''='') (quote_plus k @ ''='' @ v) = ''='' @ v" for k v
    using quote_plus_chars by (auto simp: takeWhile_append dropWhile_append)
  ultimately show ?thesis by (auto simp: parse_query_def comp_def case_prod_unfold)
qed


section \<open>Handlers as an interface\<close>

text \<open>
  What a connection relies on when it asks a handler: the user of a token has the permission that was asked for, in the permissions
  the handler returns.  A handler of a plugin has to keep this too.
\<close>

definition permits :: "auth_user \<Rightarrow> auth_resource \<Rightarrow> auth_permission \<Rightarrow> bool" where
  "permits user res perm \<longleftrightarrow> (case dict_get (a_permissions user) res of None \<Rightarrow> False | Some ps \<Rightarrow> perm \<in> set ps)"

locale token_handler =
  fixes from_token :: "string \<Rightarrow> auth_resource \<Rightarrow> auth_permission \<Rightarrow> 'db \<Rightarrow> auth_user option \<times> 'db"
  assumes token_permits: "from_token token res perm db = (Some user, db') \<Longrightarrow> permits user res perm"

interpretation core_only: token_handler "ah_jwt core_only_auth_handler"
  by unfold_locales (simp add: core_only_auth_handler_def)

interpretation core: token_handler "ah_jwt (core_auth_handler J E T K F)" for J E T K F
  by unfold_locales
    (auto simp: core_auth_handler_def authorize_user_from_jwt_def permits_def split: sum.splits prod.splits option.splits if_splits)

text \<open>Two handlers asked in turn, as a connection does.\<close>

locale handler_pair = custom: token_handler "ah_jwt custom" + local: token_handler "ah_jwt local"
  for custom :: "'db auth_handler" and local :: "'db auth_handler"
begin

lemma admitted_permits:
  assumes "connection_auth J [custom, local] kind res perm c db = (Inr user, db')"
    and "extract_credentials kind c = Inr (uid, cred)" and "is_jwt J cred"
  shows "permits user res perm"
  using assms
  by (auto simp: connection_auth_def authorize_user_from_credential_def split: prod.splits option.splits
      dest: custom.token_permits local.token_permits)

end

interpretation default_pair: handler_pair core_only_auth_handler "core_auth_handler J E T K F" for J E T K F
  by unfold_locales

text \<open>So a plugin's handler that keeps the contract never widens what a token gives.\<close>

lemma token_admission_permits:
  assumes "\<And>token res perm db user db'. ah_jwt custom token res perm db = (Some user, db') \<Longrightarrow> permits user res perm"
    and "connection_auth J [custom, core_auth_handler J E T K F] kind res perm c db = (Inr user, db')"
    and "extract_credentials kind c = Inr (uid, cred)" and "is_jwt J cred"
  shows "permits user res perm"
proof -
  have "handler_pair custom (core_auth_handler J E T K F)"
    by unfold_locales (rule assms(1))
  then show ?thesis by (rule handler_pair.admitted_permits [OF _ assms(2-4)])
qed


section \<open>Endpoints\<close>

text \<open>A response to the browser: a page of the form or a redirect, with what it does to the cookie of the session.\<close>

datatype cookie_change = SetCookie string | DeleteCookie | KeepCookie

record login_page =
  lp_referer :: string
  lp_error_message :: string
  lp_show_default_passwords :: bool

datatype login_response = LoginPage login_page cookie_change | RedirectTo string cookie_change

text \<open>\<open>POST /auth/token\<close>: the token, or 403.  An empty token would be refused too.\<close>

definition auth_token ::
  "jwt_lib \<Rightarrow> env \<Rightarrow> ('x, 'db) tinydb \<Rightarrow> crypto \<Rightarrow> fresh \<Rightarrow> string \<Rightarrow> string \<Rightarrow> 'db \<Rightarrow> string result \<times> 'db" where
  "auth_token J E T K F username password db =
     (case issue_jwt J E T K F username password db of
        (Inl e, db) \<Rightarrow> (Inl e, db)
      | (Inr access_token, db) \<Rightarrow>
          (case access_token of
             None \<Rightarrow> (Inl (HTTPException 403), db)
           | Some t \<Rightarrow> (if t \<noteq> [] then Inr t else Inl (HTTPException 403), db)))"

definition auth_login_form_get ::
  "('x, 'db) tinydb \<Rightarrow> crypto \<Rightarrow> fresh \<Rightarrow> string option \<Rightarrow> int \<Rightarrow> 'db \<Rightarrow> login_response result \<times> 'db" where
  "auth_login_form_get T K F referer retry db =
     (case get_users T K F db of
        (Inl e, db) \<Rightarrow> (Inl e, db)
      | (Inr us, db) \<Rightarrow>
          (Inr (LoginPage
             \<lparr>lp_referer = (case referer of None \<Rightarrow> ''/admin/'' | Some r \<Rightarrow> r),
              lp_error_message = (if retry = 1 then ''Invalid Credentials'' else []),
              lp_show_default_passwords = (length (dict_keys us) = 2)\<rparr> DeleteCookie), db))"

definition auth_login_form_post ::
  "jwt_lib \<Rightarrow> env \<Rightarrow> ('x, 'db) tinydb \<Rightarrow> crypto \<Rightarrow> fresh \<Rightarrow> string \<Rightarrow> string \<Rightarrow> string \<Rightarrow> 'db \<Rightarrow> login_response result \<times> 'db" where
  "auth_login_form_post J E T K F username password referer db =
     (case issue_jwt J E T K F username password db of
        (Inl e, db) \<Rightarrow> (Inl e, db)
      | (Inr access_token, db) \<Rightarrow>
          (case access_token of
             Some (t # ts) \<Rightarrow> (Inr (RedirectTo referer (SetCookie (t # ts))), db)
           | _ \<Rightarrow> (Inr (RedirectTo (''/auth/login?'' @ urlencode [(''referer'', referer), (''retry'', ''1'')]) KeepCookie), db)))"

text \<open>\<open>GET /auth/available-permissions\<close>.\<close>

definition get_available_permissions ::
  "jwt_lib \<Rightarrow> 'db auth_handler list \<Rightarrow> connection \<Rightarrow> 'db \<Rightarrow> permissions result \<times> 'db" where
  "get_available_permissions J handlers c db =
     (case connection_auth J handlers HTTPAuth USERS LIST c db of
        (Inl e, db) \<Rightarrow> (Inl e, db)
      | (Inr _, db) \<Rightarrow> (Inr get_full_permissions, db))"

text \<open>Where \<open>CoreFrontendAuth\<close> sends a visitor it does not admit, and the route of the admin pages.\<close>

definition frontend_not_allowed :: "string \<Rightarrow> login_response" where
  "frontend_not_allowed path = RedirectTo (''/auth/login?'' @ urlencode [(''referer'', path)]) KeepCookie"

definition get_admin_page ::
  "jwt_lib \<Rightarrow> 'db auth_handler list \<Rightarrow> string \<Rightarrow> connection \<Rightarrow> 'db \<Rightarrow> (string + login_response) result \<times> 'db" where
  "get_admin_page J handlers path c db =
     (case connection_auth J handlers CoreFrontendAuth STATIC READ c db of
        (Inl e, db) \<Rightarrow> (if e = HTTPException 307 then Inr (Inr (frontend_not_allowed path)) else Inl e, db)
      | (Inr _, db) \<Rightarrow> (Inr (Inl ''/admin/index.html''), db))"

section \<open>Properties\<close>

text \<open>The browser at the address of a redirect to the form; the framework reads the parameters as \<open>parse_query\<close> does.\<close>

definition visit_login ::
  "('x, 'db) tinydb \<Rightarrow> crypto \<Rightarrow> fresh \<Rightarrow> string \<Rightarrow> 'db \<Rightarrow> login_response result \<times> 'db" where
  "visit_login T K F url db =
     (let q = parse_query (drop (length ''/auth/login?'') url)
      in auth_login_form_get T K F (dict_get q ''referer'') (case dict_get q ''retry'' of None \<Rightarrow> 0 | Some s \<Rightarrow> int (read_nat s)) db)"

definition login_page_of :: "users \<Rightarrow> string \<Rightarrow> string \<Rightarrow> login_response" where
  "login_page_of us referer message =
     LoginPage \<lparr>lp_referer = referer, lp_error_message = message, lp_show_default_passwords = (length (dict_keys us) = 2)\<rparr> DeleteCookie"

lemma visit_retry:
  assumes "get_users T K F db = (Inr us, db1)"
  shows "visit_login T K F (''/auth/login?'' @ urlencode [(''referer'', r), (''retry'', ''1'')]) db = (Inr (login_page_of us r ''Invalid Credentials''), db1)"
    and "visit_login T K F (''/auth/login?'' @ urlencode [(''referer'', r)]) db = (Inr (login_page_of us r []), db1)"
proof -
  have d: "drop (length ''/auth/login?'') (''/auth/login?'' @ s) = s" for s by simp
  have one: "read_nat ''1'' = 1" by code_simp
  show "visit_login T K F (''/auth/login?'' @ urlencode [(''referer'', r), (''retry'', ''1'')]) db = (Inr (login_page_of us r ''Invalid Credentials''), db1)"
    unfolding visit_login_def d by (simp add: parse_urlencode auth_login_form_get_def assms login_page_of_def one)
  show "visit_login T K F (''/auth/login?'' @ urlencode [(''referer'', r)]) db = (Inr (login_page_of us r []), db1)"
    unfolding visit_login_def d by (simp add: parse_urlencode auth_login_form_get_def assms login_page_of_def)
qed

lemma issue_jwt_db: "get_users T K F db = (Inr us, db1) \<Longrightarrow> snd (issue_jwt J E T K F name pw db) = db1"
  by (simp add: issue_jwt_def split: option.split)

lemma issue_jwt_refused:
  "get_users T K F db = (Inr us, db1) \<Longrightarrow> issue_jwt J E T K F name pw db = (Inr None, db2) \<Longrightarrow>
   (i, u) \<in> set us \<Longrightarrow> u_username u = name \<Longrightarrow> \<not> check_password K pw (u_password u)"
  by (auto simp: issue_jwt_def find_None_iff split: option.splits)

lemma admin_page_with_token:
  assumes "jwt_laws J" and "get_users T K F db = (Inr us, db)" and "dict_get us i = Some u" and "0 < e_jwt_expire_seconds E"
    and t: "t = jwt_encode J \<lparr>c_sub = Some i, c_username = Some name, c_permissions = ps, c_exp = f_now F + e_jwt_expire_seconds E\<rparr>
       (e_jwt_secret E) (e_jwt_algorithm E)" (is "_ = jwt_encode J ?claims _ _")
    and "t \<noteq> []" and "dict_get (co_cookies c) ''ccat_user_token'' = Some t"
  shows "fst (get_admin_page J [core_only_auth_handler, core_auth_handler J E T K F] path c db) =
     Inr (if granted u STATIC READ then Inl ''/admin/index.html'' else Inr (frontend_not_allowed path))"
proof -
  have ex: "extract_credentials CoreFrontendAuth c = Inr (''user'', Some t)"
    using assms(6,7) by (simp add: extract_credentials_def extract_frontend_def)
  have peek: "jwt_peek J t" using assms(1) by (simp add: jwt_laws_def t)
  have dec: "jwt_decode J t (e_jwt_secret E) (e_jwt_algorithm E) (f_now F) = Inr ?claims"
    using assms(1,4) by (simp add: jwt_laws_def t)
  let ?auth = "connection_auth J [core_only_auth_handler, core_auth_handler J E T K F] CoreFrontendAuth STATIC READ c db"
  have "fst ?auth = (if granted u STATIC READ then Inr \<lparr>a_id = i, a_name = name, a_permissions = u_permissions u, a_extra = Some u\<rparr>
      else Inl (HTTPException 307))"
    unfolding jwt_admission [OF ex peek assms(2)] dec by (simp add: assms(3) not_allowed_def)
  then show ?thesis by (cases ?auth) (auto simp: get_admin_page_def split: if_splits)
qed

text \<open>
  C15. The way through the login form.  A visitor of an admin page without cookie is sent to the form, which shows the page to return to and no
  message.  After wrong credentials the browser comes back to the form with the message and the same page, whatever characters its
  address has, and without cookie.  After right ones it goes to that page with a cookie, and the admin page is shown
  exactly if the database grants the user to read static files.
\<close>
theorem login_flow:
  assumes "jwt_laws J" and "\<forall>claims secret alg. jwt_encode J claims secret alg \<noteq> []" and "tinydb_laws T docs"
    and "get_users T K F db = (Inr us, db1)" and "dict_ok us" and "0 < e_jwt_expire_seconds E"
    and "auth_login_form_post J E T K F name pw referer db = (Inr response, db')"
  shows "(let handlers = [core_only_auth_handler, core_auth_handler J E T K F] in
     (\<forall>c path. dict_get (co_cookies c) ''ccat_user_token'' = None \<longrightarrow>
        (\<exists>url. get_admin_page J handlers path c db = (Inr (Inr (RedirectTo url KeepCookie)), db) \<and>
           fst (visit_login T K F url db) = Inr (login_page_of us path []))) \<and>
     ((\<forall>(i, u) \<in> set us. u_username u = name \<longrightarrow> \<not> check_password K pw (u_password u)) \<and>
        (\<exists>url. response = RedirectTo url KeepCookie \<and>
           fst (visit_login T K F url db') = Inr (login_page_of us referer ''Invalid Credentials''))
      \<or> (\<exists>i u t. (i, u) \<in> set us \<and> u_username u = name \<and> check_password K pw (u_password u) \<and>
           response = RedirectTo referer (SetCookie t) \<and>
           (\<forall>c path. dict_get (co_cookies c) ''ccat_user_token'' = Some t \<longrightarrow>
              fst (get_admin_page J handlers path c db') =
                Inr (if granted u STATIC READ then Inl ''/admin/index.html'' else Inr (frontend_not_allowed path))))))"
proof -
  let ?handlers = "[core_only_auth_handler, core_auth_handler J E T K F]"
  have stable: "get_users T K F db1 = (Inr us, db1)" by (rule get_users_stable [OF assms(3,4)])
  have visitor: "\<exists>url. get_admin_page J ?handlers path c db = (Inr (Inr (RedirectTo url KeepCookie)), db) \<and>
      fst (visit_login T K F url db) = Inr (login_page_of us path [])" if "dict_get (co_cookies c) ''ccat_user_token'' = None" for c path
    using that visit_retry(2) [OF assms(4), of path]
    by (simp add: get_admin_page_def connection_auth_def extract_credentials_def extract_frontend_def frontend_not_allowed_def)
  obtain r db2 where i: "issue_jwt J E T K F name pw db = (r, db2)" by fastforce
  then have db2: "db2 = db1" using issue_jwt_db [OF assms(4), of J E name pw] by simp
  from assms(7) i obtain tok where r: "r = Inr tok" "db' = db1" by (auto simp: auth_login_form_post_def db2 split: sum.splits option.splits list.splits)
  show ?thesis
  proof (cases tok)
    case None
    with i r have "response = RedirectTo (''/auth/login?'' @ urlencode [(''referer'', referer), (''retry'', ''1'')]) KeepCookie"
      using assms(7) by (simp add: auth_login_form_post_def)
    moreover have "\<forall>(i, u) \<in> set us. u_username u = name \<longrightarrow> \<not> check_password K pw (u_password u)"
      using issue_jwt_refused [OF assms(4) i [unfolded r(1) None]] by blast
    ultimately show ?thesis using visitor visit_retry(1) [OF stable, of referer] r(2) by (simp add: Let_def)
  next
    case (Some t)
    obtain j u where u: "(j, u) \<in> set us" "u_username u = name" "check_password K pw (u_password u)"
      and t: "t = jwt_encode J \<lparr>c_sub = Some j, c_username = Some name, c_permissions = u_permissions u,
         c_exp = f_now F + e_jwt_expire_seconds E\<rparr> (e_jwt_secret E) (e_jwt_algorithm E)"
      by (rule issue_jwt_token [OF assms(4) i [unfolded r(1) Some]])
    have ne: "t \<noteq> []" using assms(2) t by simp
    with i r Some assms(7) have "response = RedirectTo referer (SetCookie t)"
      by (simp add: auth_login_form_post_def split: list.splits)
    moreover have "dict_get us j = Some u" using u(1) assms(5) by simp
    note admin_page_with_token [OF assms(1) stable this assms(6) t ne]
    ultimately show ?thesis using visitor u r(2) unfolding Let_def by blast
  qed
qed

text \<open>The form answers the default administrator with a cookie, and a wrong password with the way back, the query string of the page included.\<close>

theorem login_flow_witness:
  "(\<exists>t. fst (auth_login_form_post demo_jwt demo_env list_db demo_crypto (demo_fresh ''x'') ''admin'' ''admin'' ''/admin/'' demo_db) =
      Inr (RedirectTo ''/admin/'' (SetCookie t))) \<and>
   (\<exists>url. fst (auth_login_form_post demo_jwt demo_env list_db demo_crypto (demo_fresh ''x'') ''admin'' ''guess'' ''/admin/?a=b&c'' demo_db) =
      Inr (RedirectTo url KeepCookie) \<and>
      fst (visit_login list_db demo_crypto (demo_fresh ''x'') url demo_db) = Inr (login_page_of demo_users ''/admin/?a=b&c'' ''Invalid Credentials''))"
proof -
  let ?post = "auth_login_form_post demo_jwt demo_env list_db demo_crypto (demo_fresh ''x'') ''admin''"
  have ne: "\<forall>claims secret alg. jwt_encode demo_jwt claims secret alg \<noteq> []" by (simp add: demo_jwt_def)
  have ok: "dict_ok demo_users" by (simp add: demo_users_def default_users_def demo_fresh_def)
  have exp: "0 < e_jwt_expire_seconds demo_env" by (simp add: demo_env_def)
  have stored: "u_password u = (if u_username u = ''admin'' then ''1admin'' else ''2user'')" if "(i, u) \<in> set demo_users" for i u
    using that by (auto simp: demo_users_def default_users_def demo_fresh_def demo_crypto_def hash_password_def)
  note flow = login_flow [OF demo_jwt_laws ne list_db_laws demo_get_users ok exp, unfolded Let_def]
  obtain r1 d1 where p1: "?post ''admin'' ''/admin/'' demo_db = (Inr r1, d1)"
  proof -
    have "\<exists>r d. ?post ''admin'' ''/admin/'' demo_db = (Inr r, d)"
      by (simp add: auth_login_form_post_def demo_login split: list.split)
    then show thesis using that by blast
  qed
  obtain r2 d2 where p2: "?post ''guess'' ''/admin/?a=b&c'' demo_db = (Inr r2, d2)" and d2: "d2 = demo_db"
  proof -
    have "\<exists>tok. issue_jwt demo_jwt demo_env list_db demo_crypto (demo_fresh ''x'') ''admin'' ''guess'' demo_db = (Inr tok, demo_db)"
      by (simp add: issue_jwt_def demo_get_users split: option.split)
    then have "\<exists>r. ?post ''guess'' ''/admin/?a=b&c'' demo_db = (Inr r, demo_db)"
      by (auto simp: auth_login_form_post_def split: option.split list.split)
    then show thesis using that by blast
  qed
  have "\<not> (\<forall>(i, u) \<in> set demo_users. u_username u = ''admin'' \<longrightarrow> \<not> check_password demo_crypto ''admin'' (u_password u))"
    by (simp add: demo_users_def default_users_def demo_fresh_def demo_crypto_def hash_password_def check_password_def)
  with flow [OF p1, THEN conjunct2] have "\<exists>t. r1 = RedirectTo ''/admin/'' (SetCookie t)"
    by (elim disjE conjE exE) (simp_all only: login_response.inject, blast)
  moreover have "\<not> check_password demo_crypto ''guess'' (u_password u)" if "(i, u) \<in> set demo_users" for i u
    using stored [OF that] by (simp add: check_password_def demo_crypto_def)
  with flow [OF p2, THEN conjunct2] have "\<exists>url. r2 = RedirectTo url KeepCookie \<and>
      fst (visit_login list_db demo_crypto (demo_fresh ''x'') url d2) = Inr (login_page_of demo_users ''/admin/?a=b&c'' ''Invalid Credentials'')"
    by (elim disjE conjE exE) (blast, simp)
  ultimately show ?thesis using p1 p2 d2 by simp
qed

end
