(* ===== verification/Vector_Memory.thy ===== *)
theory Vector_Memory
  imports Py_Text
begin

text \<open>
  Long term memory (\<open>memory/vector_memory_collection.py\<close>, \<open>memory/vector_memory.py\<close>), the endpoints that
  edit it (\<open>routes/memory/points.py\<close>, \<open>routes/memory/collections.py\<close>) and the embedding of
  procedures (\<open>CheshireCat.embed_procedures\<close>).

  The vector database is a third-party service: its client is the argument \<open>qdrant\<close>, and \<open>qdrant_laws\<close>
  states its documented behaviour on what \<open>view\<close> shows of it: for each collection the size of its vectors, its
  aliases and its points by identifier.  Vectors and scores are of any type; the clock, fresh identifiers and the
  embedder are arguments.
\<close>


section \<open>Points, collections and the client\<close>

type_synonym metadata = "(string, pyval) dict"

record 'e point =
  pt_id :: string
  pt_content :: string
  pt_metadata :: metadata
  pt_vector :: 'e

record 'e collection =
  co_size :: nat
  co_aliases :: "string list"
  co_points :: "string \<rightharpoonup> 'e point"

type_synonym condition = "string \<times> pyval"

datatype selector = ByIds "string list" | ByFilter "condition list option"

record ('e, 's, 'q) qdrant =
  q_get_collections :: "'q \<Rightarrow> string list"
  q_vector_size :: "string \<Rightarrow> 'q \<Rightarrow> nat"
  q_aliases :: "string \<Rightarrow> 'q \<Rightarrow> string list"
  q_create_collection :: "string \<Rightarrow> nat \<Rightarrow> 'q \<Rightarrow> py_exc option \<times> 'q"
  q_create_alias :: "string \<Rightarrow> string \<Rightarrow> 'q \<Rightarrow> py_exc option \<times> 'q"
  q_delete_collection :: "string \<Rightarrow> 'q \<Rightarrow> 'q"
  q_upsert :: "string \<Rightarrow> 'e point list \<Rightarrow> 'q \<Rightarrow> bool \<times> 'q"
  q_delete :: "string \<Rightarrow> selector \<Rightarrow> 'q \<Rightarrow> 'q"
  q_query :: "string \<Rightarrow> 'e \<Rightarrow> condition list option \<Rightarrow> nat \<Rightarrow> 's option \<Rightarrow> 'q \<Rightarrow> ('e point \<times> 's) list"
  q_retrieve :: "string \<Rightarrow> string list \<Rightarrow> 'q \<Rightarrow> 'e point list"
  q_scroll :: "string \<Rightarrow> nat \<Rightarrow> string option \<Rightarrow> 'q \<Rightarrow> 'e point list \<times> string option"
  q_matches :: "condition \<Rightarrow> 'e point \<Rightarrow> bool"

definition point_selected :: "('e, 's, 'q) qdrant \<Rightarrow> condition list option \<Rightarrow> 'e point \<Rightarrow> bool" where
  "point_selected Q f p \<longleftrightarrow> (case f of None \<Rightarrow> True | Some conds \<Rightarrow> \<forall>c \<in> set conds. q_matches Q c p)"

text \<open>
  What the code relies on; a query with a filter is the conjunction of its conditions.  These are the laws of a database that is up and used as the application
  means to use it: what it is asked to write it completes, vectors have the size of their collection, identifiers have the form of identifiers, and no
  other collection has the alias that is given.  A failing creation of a collection or alias is covered (the laws are about those that succeed); an upsert that the
  database refuses is not.
\<close>

definition qdrant_laws :: "('e, 's, 'q) qdrant \<Rightarrow> ('q \<Rightarrow> string \<rightharpoonup> 'e collection) \<Rightarrow> bool" where
  "qdrant_laws Q view \<longleftrightarrow>
     (\<forall>q. set (q_get_collections Q q) = dom (view q)) \<and>
     (\<forall>q c k. view q c = Some k \<longrightarrow> q_vector_size Q c q = co_size k \<and> q_aliases Q c q = co_aliases k) \<and>
     (\<forall>q c n q'. view q c = None \<longrightarrow> q_create_collection Q c n q = (None, q') \<longrightarrow>
        view q' = (view q)(c \<mapsto> \<lparr>co_size = n, co_aliases = [], co_points = Map.empty\<rparr>)) \<and>
     (\<forall>q c a k q'. view q c = Some k \<longrightarrow> co_aliases k = [] \<longrightarrow> q_create_alias Q c a q = (None, q') \<longrightarrow>
        view q' = (view q)(c \<mapsto> k\<lparr>co_aliases := [a]\<rparr>)) \<and>
     (\<forall>q c. view (q_delete_collection Q c q) = (view q)(c := None)) \<and>
     (\<forall>q c k p. view q c = Some k \<longrightarrow>
        (\<exists>q'. q_upsert Q c [p] q = (True, q') \<and>
           view q' = (view q)(c \<mapsto> k\<lparr>co_points := (co_points k)(pt_id p \<mapsto> p)\<rparr>))) \<and>
     (\<forall>q c k ids. view q c = Some k \<longrightarrow>
        view (q_delete Q c (ByIds ids) q) = (view q)(c \<mapsto> k\<lparr>co_points := co_points k |` (- set ids)\<rparr>)) \<and>
     (\<forall>q c k conds. view q c = Some k \<longrightarrow>
        view (q_delete Q c (ByFilter (Some conds)) q) =
          (view q)(c \<mapsto> k\<lparr>co_points :=
             (\<lambda>i. case co_points k i of None \<Rightarrow> None | Some p \<Rightarrow> if point_selected Q (Some conds) p then None else Some p)\<rparr>)) \<and>
     (\<forall>q c k v f n t. view q c = Some k \<longrightarrow>
        (\<forall>(p, s) \<in> set (q_query Q c v f n t q). co_points k (pt_id p) = Some p \<and> point_selected Q f p) \<and>
        length (q_query Q c v f n t q) \<le> n) \<and>
     (\<forall>q c k ids. view q c = Some k \<longrightarrow> set (q_retrieve Q c ids q) = {p. \<exists>i \<in> set ids. co_points k i = Some p}) \<and>
     (\<forall>q c k n. view q c = Some k \<longrightarrow>
        (case q_scroll Q c n None q of (ps, next_page) \<Rightarrow>
           set ps \<subseteq> ran (co_points k) \<and> (next_page = None \<longrightarrow> set ps = ran (co_points k))))"


section \<open>vector\_memory\_collection.py\<close>

text \<open>
  The conditions of a metadata filter: one for each value that is not a dictionary or list.  The class \<open>MatchValue\<close> takes a text, an integer or a truth value;
  for another value (None, a float) its validation raises and nothing is read or deleted.  That exception is not modelled: the filters here are those it takes.
\<close>

fun build_condition :: "string \<Rightarrow> pyval \<Rightarrow> condition list" where
  "build_condition key (PDict d) = concat (map (\<lambda>kv. build_condition (key @ ''.'' @ fst kv) (snd kv)) d)"
| "build_condition key (PList xs) =
     concat (map (\<lambda>v. build_condition (case v of PDict _ \<Rightarrow> key @ ''[]'' | _ \<Rightarrow> key) v) xs)"
| "build_condition key v = [(''metadata.'' @ key, v)]"

definition qdrant_filter_from_dict :: "metadata \<Rightarrow> condition list option" where
  "qdrant_filter_from_dict f = (if f = [] then None else Some (concat (map (\<lambda>(k, v). build_condition k v) f)))"

definition create_collection ::
  "('e, 's, 'q) qdrant \<Rightarrow> string \<Rightarrow> string \<Rightarrow> nat \<Rightarrow> 'q \<Rightarrow> py_exc option \<times> 'q" where
  "create_collection Q c embedder_name embedder_size q =
     (case q_create_collection Q c embedder_size q of
        (Some e, q) \<Rightarrow> (Some e, q_delete_collection Q c q)
      | (None, q) \<Rightarrow>
          (case q_create_alias Q c (embedder_name @ ''_'' @ c) q of
             (Some e, q) \<Rightarrow> (Some e, q_delete_collection Q c q)
           | (None, q) \<Rightarrow> (None, q)))"

definition create_db_collection_if_not_exists ::
  "('e, 's, 'q) qdrant \<Rightarrow> string \<Rightarrow> string \<Rightarrow> nat \<Rightarrow> 'q \<Rightarrow> py_exc option \<times> 'q" where
  "create_db_collection_if_not_exists Q c embedder_name embedder_size q =
     (if c \<in> set (q_get_collections Q q) then (None, q) else create_collection Q c embedder_name embedder_size q)"

text \<open>The dump that may precede the deletion only reads the collection; it and what it may raise are in \<open>Snapshots\<close>.\<close>

definition check_embedding_size ::
  "('e, 's, 'q) qdrant \<Rightarrow> string \<Rightarrow> string \<Rightarrow> nat \<Rightarrow> 'q \<Rightarrow> py_exc option \<times> 'q" where
  "check_embedding_size Q c embedder_name embedder_size q =
     (let same_size = (q_vector_size Q c q = embedder_size);
          existing_aliases = q_aliases Q c q
      in if existing_aliases \<noteq> [] \<and> embedder_name @ ''_'' @ c = hd existing_aliases \<and> same_size then (None, q)
         else create_collection Q c embedder_name embedder_size (q_delete_collection Q c q))"

definition open_collection ::
  "('e, 's, 'q) qdrant \<Rightarrow> string \<Rightarrow> string \<Rightarrow> nat \<Rightarrow> 'q \<Rightarrow> py_exc option \<times> 'q" where
  "open_collection Q c embedder_name embedder_size q =
     (case create_db_collection_if_not_exists Q c embedder_name embedder_size q of
        (Some e, q) \<Rightarrow> (Some e, q)
      | (None, q) \<Rightarrow> check_embedding_size Q c embedder_name embedder_size q)"

text \<open>An empty identifier counts as none.\<close>

definition add_point ::
  "('e, 's, 'q) qdrant \<Rightarrow> string \<Rightarrow> string \<Rightarrow> 'e \<Rightarrow> metadata \<Rightarrow> string option \<Rightarrow> string \<Rightarrow> 'q \<Rightarrow> 'e point option \<times> 'q" where
  "add_point Q c content vector metadata given_id fresh q =
     (let point = \<lparr>pt_id = (case given_id of None \<Rightarrow> fresh | Some i \<Rightarrow> if i = [] then fresh else i),
                   pt_content = content, pt_metadata = metadata, pt_vector = vector\<rparr>
      in case q_upsert Q c [point] q of
           (completed, q) \<Rightarrow> (if completed then Some point else None, q))"

definition delete_points_by_metadata_filter :: "('e, 's, 'q) qdrant \<Rightarrow> string \<Rightarrow> metadata \<Rightarrow> 'q \<Rightarrow> 'q" where
  "delete_points_by_metadata_filter Q c metadata q = q_delete Q c (ByFilter (qdrant_filter_from_dict metadata)) q"

definition delete_points :: "('e, 's, 'q) qdrant \<Rightarrow> string \<Rightarrow> string list \<Rightarrow> 'q \<Rightarrow> 'q" where
  "delete_points Q c ids q = q_delete Q c (ByIds ids) q"

text \<open>A recalled memory: document text and metadata, score, vector, identifier.\<close>

type_synonym ('e, 's) memory = "(string \<times> metadata) \<times> 's \<times> 'e \<times> string"

definition recall_memories_from_embedding ::
  "('e, 's, 'q) qdrant \<Rightarrow> string \<Rightarrow> 'e \<Rightarrow> metadata \<Rightarrow> nat \<Rightarrow> 's option \<Rightarrow> 'q \<Rightarrow> ('e, 's) memory list" where
  "recall_memories_from_embedding Q c embedding metadata k threshold q =
     map (\<lambda>(m, score). ((pt_content m, pt_metadata m), score, pt_vector m, pt_id m))
       (q_query Q c embedding (qdrant_filter_from_dict metadata) k threshold q)"

definition get_points :: "('e, 's, 'q) qdrant \<Rightarrow> string \<Rightarrow> string list \<Rightarrow> 'q \<Rightarrow> 'e point list" where
  "get_points Q c ids q = q_retrieve Q c ids q"

definition get_all_points ::
  "('e, 's, 'q) qdrant \<Rightarrow> string \<Rightarrow> nat \<Rightarrow> string option \<Rightarrow> 'q \<Rightarrow> 'e point list \<times> string option" where
  "get_all_points Q c limit offset q = q_scroll Q c limit offset q"


section \<open>vector\_memory.py\<close>

definition memory_collections :: "string list" where
  "memory_collections = [''episodic'', ''declarative'', ''procedural'']"

fun open_collections ::
  "('e, 's, 'q) qdrant \<Rightarrow> string \<Rightarrow> nat \<Rightarrow> string list \<Rightarrow> 'q \<Rightarrow> py_exc option \<times> 'q" where
  "open_collections Q embedder_name embedder_size [] q = (None, q)"
| "open_collections Q embedder_name embedder_size (c # cs) q =
     (case open_collection Q c embedder_name embedder_size q of
        (Some e, q) \<Rightarrow> (Some e, q)
      | (None, q) \<Rightarrow> open_collections Q embedder_name embedder_size cs q)"

definition vector_memory_init :: "('e, 's, 'q) qdrant \<Rightarrow> string \<Rightarrow> nat \<Rightarrow> 'q \<Rightarrow> py_exc option \<times> 'q" where
  "vector_memory_init Q embedder_name embedder_size q =
     open_collections Q embedder_name embedder_size memory_collections q"

section \<open>Embedding of procedures (cheshire\_cat.py)\<close>

record procedure =
  pr_name :: string
  pr_type :: string
  pr_triggers_map :: "(string, string list) dict"

record trigger =
  tr_source :: string
  tr_type :: string
  tr_trigger_type :: string
  tr_content :: string

definition trigger_hash :: "string \<Rightarrow> string \<Rightarrow> string \<Rightarrow> string" where
  "trigger_hash source trigger_type content = source @ ''.'' @ trigger_type @ ''.'' @ content"

text \<open>The hash of a stored point; a point without the key \<open>source\<close> raises.\<close>

definition point_hash :: "'e point \<Rightarrow> string result" where
  "point_hash ep =
     (case dict_get (pt_metadata ep) ''source'' of
        None \<Rightarrow> Inl (KeyError ''source'')
      | Some source \<Rightarrow>
          Inr (trigger_hash (py_str source)
            (case dict_get (pt_metadata ep) ''trigger_type'' of None \<Rightarrow> ''unsupported'' | Some t \<Rightarrow> py_str t) (pt_content ep)))"

fun build_embedded_procedures_hashes :: "'e point list \<Rightarrow> (string, string) dict \<Rightarrow> (string, string) dict result" where
  "build_embedded_procedures_hashes [] hashes = Inr hashes"
| "build_embedded_procedures_hashes (ep # eps) hashes =
     (case point_hash ep of
        Inl e \<Rightarrow> Inl e
      | Inr h \<Rightarrow> build_embedded_procedures_hashes eps (dict_set h (pt_id ep) hashes))"

definition procedure_triggers :: "procedure \<Rightarrow> trigger list" where
  "procedure_triggers ap =
     concat (map (\<lambda>(trigger_type, contents).
       map (\<lambda>content. \<lparr>tr_source = pr_name ap, tr_type = pr_type ap, tr_trigger_type = trigger_type, tr_content = content\<rparr>) contents)
       (pr_triggers_map ap))"

definition hash_of :: "trigger \<Rightarrow> string" where
  "hash_of t = trigger_hash (tr_source t) (tr_trigger_type t) (tr_content t)"

definition build_active_procedures_hashes :: "procedure list \<Rightarrow> (string, trigger) dict" where
  "build_active_procedures_hashes aps =
     fold (\<lambda>t hashes. dict_set (hash_of t) t hashes) (concat (map procedure_triggers aps)) []"

definition trigger_metadata :: "trigger \<Rightarrow> int \<Rightarrow> metadata" where
  "trigger_metadata t now =
     [(''source'', PStr (tr_source t)), (''type'', PStr (tr_type t)), (''trigger_type'', PStr (tr_trigger_type t)), (''when'', PInt now)]"

text \<open>Each new trigger takes the next fresh identifier; the embedder may raise.\<close>

fun embed_triggers ::
  "('e, 's, 'q) qdrant \<Rightarrow> (string \<Rightarrow> 'e result) \<Rightarrow> int \<Rightarrow> trigger list \<Rightarrow> (nat \<Rightarrow> string) \<Rightarrow> nat \<Rightarrow> 'q \<Rightarrow> py_exc option \<times> 'q" where
  "embed_triggers Q emb now [] uuid n q = (None, q)"
| "embed_triggers Q emb now (t # ts) uuid n q =
     (case emb (tr_content t) of
        Inl e \<Rightarrow> (Some e, q)
      | Inr v \<Rightarrow>
          embed_triggers Q emb now ts uuid (Suc n)
            (snd (add_point Q ''procedural'' (tr_content t) v (trigger_metadata t now) None (uuid n) q)))"

text \<open>The sets of hashes are lists here; the code iterates over sets in no particular order.\<close>

definition embed_procedures ::
  "('e, 's, 'q) qdrant \<Rightarrow> (string \<Rightarrow> 'e result) \<Rightarrow> int \<Rightarrow> procedure list \<Rightarrow> (nat \<Rightarrow> string) \<Rightarrow> 'q \<Rightarrow> py_exc option \<times> 'q" where
  "embed_procedures Q emb now procedures uuid q =
     (case build_embedded_procedures_hashes (fst (get_all_points Q ''procedural'' 10000 None q)) [] of
        Inl e \<Rightarrow> (Some e, q)
      | Inr embedded \<Rightarrow>
          (let active = build_active_procedures_hashes procedures;
               deleted_ids = map snd (filter (\<lambda>(h, i). h \<notin> set (dict_keys active)) embedded);
               new_triggers = map snd (filter (\<lambda>(h, t). h \<notin> set (dict_keys embedded)) active);
               q = (if deleted_ids = [] then q else delete_points Q ''procedural'' deleted_ids q)
           in embed_triggers Q emb now new_triggers uuid 0 q))"


section \<open>Endpoints (routes/memory)\<close>

text \<open>The session of the caller, what embedding yields, the clock and a fresh identifier.\<close>

record 'e call =
  ca_user_id :: string
  ca_embed :: "string \<Rightarrow> 'e result"
  ca_now :: int
  ca_uuid :: string

definition completed_metadata :: "'e call \<Rightarrow> metadata \<Rightarrow> metadata" where
  "completed_metadata K m =
     (let m = (case dict_get m ''source'' of
                 Some v \<Rightarrow> if truthy v then m else dict_set ''source'' (PStr (ca_user_id K)) m
               | None \<Rightarrow> dict_set ''source'' (PStr (ca_user_id K)) m)
      in (case dict_get m ''when'' of
            Some v \<Rightarrow> if truthy v then m else dict_set ''when'' (PInt (ca_now K)) m
          | None \<Rightarrow> dict_set ''when'' (PInt (ca_now K)) m))"

definition store_point ::
  "('e, 's, 'q) qdrant \<Rightarrow> 'e call \<Rightarrow> string \<Rightarrow> string \<Rightarrow> metadata \<Rightarrow> string option \<Rightarrow> 'q \<Rightarrow> 'e point result \<times> 'q" where
  "store_point Q K c content metadata given_id q =
     (case ca_embed K content of
        Inl e \<Rightarrow> (Inl e, q)
      | Inr v \<Rightarrow>
          (case add_point Q c content v (completed_metadata K metadata) given_id (ca_uuid K) q of
             (None, q) \<Rightarrow> (Inl (AttributeError ''payload''), q)
           | (Some p, q) \<Rightarrow> (Inr p, q)))"

definition create_memory_point ::
  "('e, 's, 'q) qdrant \<Rightarrow> 'e call \<Rightarrow> string \<Rightarrow> string \<Rightarrow> metadata \<Rightarrow> 'q \<Rightarrow> 'e point result \<times> 'q" where
  "create_memory_point Q K c content metadata q =
     (if c = ''procedural'' then (Inl (HTTPException 400), q)
      else if c \<notin> set memory_collections then (Inl (HTTPException 400), q)
      else store_point Q K c content metadata None q)"

definition edit_memory_point ::
  "('e, 's, 'q) qdrant \<Rightarrow> 'e call \<Rightarrow> string \<Rightarrow> string \<Rightarrow> string \<Rightarrow> metadata \<Rightarrow> 'q \<Rightarrow> 'e point result \<times> 'q" where
  "edit_memory_point Q K c point_id content metadata q =
     (if c = ''procedural'' then (Inl (HTTPException 400), q)
      else if c \<notin> set memory_collections then (Inl (HTTPException 400), q)
      else if get_points Q c [point_id] q = [] then (Inl (HTTPException 400), q)
      else store_point Q K c content metadata (Some point_id) q)"

definition delete_memory_point ::
  "('e, 's, 'q) qdrant \<Rightarrow> string \<Rightarrow> string \<Rightarrow> 'q \<Rightarrow> string result \<times> 'q" where
  "delete_memory_point Q c point_id q =
     (if c \<notin> set memory_collections then (Inl (HTTPException 400), q)
      else if get_points Q c [point_id] q = [] then (Inl (HTTPException 400), q)
      else (Inr point_id, delete_points Q c [point_id] q))"

definition delete_memory_points_by_metadata ::
  "('e, 's, 'q) qdrant \<Rightarrow> string \<Rightarrow> metadata \<Rightarrow> 'q \<Rightarrow> unit result \<times> 'q" where
  "delete_memory_points_by_metadata Q c metadata q =
     (if c \<notin> set memory_collections then (Inl (KeyError c), q)
      else (Inr (), delete_points_by_metadata_filter Q c metadata q))"

definition get_points_in_collection ::
  "('e, 's, 'q) qdrant \<Rightarrow> string \<Rightarrow> nat \<Rightarrow> string option \<Rightarrow> 'q \<Rightarrow> ('e point list \<times> string option) result" where
  "get_points_in_collection Q c limit offset q =
     (if c = ''procedural'' then Inl (HTTPException 400)
      else if c \<notin> set memory_collections then Inl (HTTPException 400)
      else Inr (get_all_points Q c limit (if offset = Some [] then None else offset) q))"

text \<open>The filter dictionary is one object that the loop over the collections changes.\<close>

fun recall_loop ::
  "('e, 's, 'q) qdrant \<Rightarrow> string \<Rightarrow> 'e \<Rightarrow> nat \<Rightarrow> string list \<Rightarrow> metadata \<Rightarrow> 'q \<Rightarrow> (string \<times> ('e, 's) memory list) list" where
  "recall_loop Q user_id v k [] metadata q = []"
| "recall_loop Q user_id v k (c # cs) metadata q =
     (let metadata = (if c = ''episodic'' then dict_set ''source'' (PStr user_id) metadata else dict_del ''source'' metadata)
      in (c, recall_memories_from_embedding Q c v metadata k None q) # recall_loop Q user_id v k cs metadata q)"

definition recall_memory_points ::
  "('e, 's, 'q) qdrant \<Rightarrow> 'e call \<Rightarrow> string \<Rightarrow> nat \<Rightarrow> metadata \<Rightarrow> 'q \<Rightarrow> (string \<times> ('e, 's) memory list) list result" where
  "recall_memory_points Q K query k metadata q =
     (case ca_embed K query of
        Inl e \<Rightarrow> Inl e
      | Inr v \<Rightarrow> Inr (recall_loop Q (ca_user_id K) v k memory_collections metadata q))"

text \<open>The deprecated GET variant takes no filter.\<close>

definition recall_memory_points_from_text ::
  "('e, 's, 'q) qdrant \<Rightarrow> 'e call \<Rightarrow> string \<Rightarrow> nat \<Rightarrow> 'q \<Rightarrow> (string \<times> ('e, 's) memory list) list result" where
  "recall_memory_points_from_text Q K query k q =
     (case ca_embed K query of
        Inl e \<Rightarrow> Inl e
      | Inr v \<Rightarrow>
          Inr (map (\<lambda>c. (c, recall_memories_from_embedding Q c v
                            (if c = ''episodic'' then [(''source'', PStr (ca_user_id K))] else []) k None q)) memory_collections))"

text \<open>After a deletion the memory is opened again and the plugins are found again; \<open>procedures\<close> are those found.\<close>

definition wipe_single_collection ::
  "('e, 's, 'q) qdrant \<Rightarrow> (string \<Rightarrow> 'e result) \<Rightarrow> int \<Rightarrow> procedure list \<Rightarrow> (nat \<Rightarrow> string) \<Rightarrow> string \<Rightarrow> nat \<Rightarrow> string \<Rightarrow> 'q \<Rightarrow>
   py_exc option \<times> 'q" where
  "wipe_single_collection Q emb now procedures uuid embedder_name embedder_size c q =
     (if c \<notin> set memory_collections then (Some (HTTPException 400), q)
      else (case vector_memory_init Q embedder_name embedder_size (q_delete_collection Q c q) of
              (Some e, q) \<Rightarrow> (Some e, q)
            | (None, q) \<Rightarrow> embed_procedures Q emb now procedures uuid q))"

definition wipe_collections ::
  "('e, 's, 'q) qdrant \<Rightarrow> (string \<Rightarrow> 'e result) \<Rightarrow> int \<Rightarrow> procedure list \<Rightarrow> (nat \<Rightarrow> string) \<Rightarrow> string \<Rightarrow> nat \<Rightarrow> 'q \<Rightarrow>
   py_exc option \<times> 'q" where
  "wipe_collections Q emb now procedures uuid embedder_name embedder_size q =
     (case vector_memory_init Q embedder_name embedder_size (fold (q_delete_collection Q) memory_collections q) of
        (Some e, q) \<Rightarrow> (Some e, q)
      | (None, q) \<Rightarrow> embed_procedures Q emb now procedures uuid q)"

section \<open>Lemmas\<close>

lemma qlaws:
  assumes "qdrant_laws Q view"
  shows "set (q_get_collections Q q) = dom (view q)"
    and "view q c = Some k \<Longrightarrow> q_vector_size Q c q = co_size k"
    and "view q c = Some k \<Longrightarrow> q_aliases Q c q = co_aliases k"
    and "view q c = None \<Longrightarrow> q_create_collection Q c n q = (None, q') \<Longrightarrow>
      view q' = (view q)(c \<mapsto> \<lparr>co_size = n, co_aliases = [], co_points = Map.empty\<rparr>)"
    and "view q c = Some k \<Longrightarrow> co_aliases k = [] \<Longrightarrow> q_create_alias Q c a q = (None, q') \<Longrightarrow>
      view q' = (view q)(c \<mapsto> k\<lparr>co_aliases := [a]\<rparr>)"
    and "view (q_delete_collection Q c q) = (view q)(c := None)"
    and "view q c = Some k \<Longrightarrow> view (q_delete Q c (ByIds ids) q) = (view q)(c \<mapsto> k\<lparr>co_points := co_points k |` (- set ids)\<rparr>)"
    and "view q c = Some k \<Longrightarrow> view (q_delete Q c (ByFilter (Some conds)) q) =
      (view q)(c \<mapsto> k\<lparr>co_points :=
         (\<lambda>i. case co_points k i of None \<Rightarrow> None | Some p \<Rightarrow> if point_selected Q (Some conds) p then None else Some p)\<rparr>)"
    and "view q c = Some k \<Longrightarrow> (p, s) \<in> set (q_query Q c v f m t q) \<Longrightarrow> co_points k (pt_id p) = Some p \<and> point_selected Q f p"
    and "view q c = Some k \<Longrightarrow> length (q_query Q c v f m t q) \<le> m"
    and "view q c = Some k \<Longrightarrow> set (q_retrieve Q c ids q) = {p. \<exists>i \<in> set ids. co_points k i = Some p}"
    and "view q c = Some k \<Longrightarrow> snd (q_scroll Q c m None q) = None \<Longrightarrow> set (fst (q_scroll Q c m None q)) = ran (co_points k)"
proof -
  note L = assms [unfolded qdrant_laws_def]
  note l1 = L [THEN conjunct1]
  note l2 = L [THEN conjunct2, THEN conjunct1]
  note l3 = L [THEN conjunct2, THEN conjunct2, THEN conjunct1]
  note l4 = L [THEN conjunct2, THEN conjunct2, THEN conjunct2, THEN conjunct1]
  note l5 = L [THEN conjunct2, THEN conjunct2, THEN conjunct2, THEN conjunct2, THEN conjunct1]
  note l6 = L [THEN conjunct2, THEN conjunct2, THEN conjunct2, THEN conjunct2, THEN conjunct2, THEN conjunct1]
  note l7 = L [THEN conjunct2, THEN conjunct2, THEN conjunct2, THEN conjunct2, THEN conjunct2, THEN conjunct2, THEN conjunct1]
  note l8 = L [THEN conjunct2, THEN conjunct2, THEN conjunct2, THEN conjunct2, THEN conjunct2, THEN conjunct2, THEN conjunct2, THEN conjunct1]
  note l9 = L [THEN conjunct2, THEN conjunct2, THEN conjunct2, THEN conjunct2, THEN conjunct2, THEN conjunct2, THEN conjunct2, THEN conjunct2, THEN conjunct1]
  note l10 = L [THEN conjunct2, THEN conjunct2, THEN conjunct2, THEN conjunct2, THEN conjunct2, THEN conjunct2, THEN conjunct2, THEN conjunct2, THEN conjunct2, THEN conjunct1]
  note l11 = L [THEN conjunct2, THEN conjunct2, THEN conjunct2, THEN conjunct2, THEN conjunct2, THEN conjunct2, THEN conjunct2, THEN conjunct2, THEN conjunct2, THEN conjunct2]
  show "set (q_get_collections Q q) = dom (view q)" using l1 by blast
  show "view q c = Some k \<Longrightarrow> q_vector_size Q c q = co_size k" "view q c = Some k \<Longrightarrow> q_aliases Q c q = co_aliases k"
    using l2 by blast+
  show "view q c = None \<Longrightarrow> q_create_collection Q c n q = (None, q') \<Longrightarrow>
      view q' = (view q)(c \<mapsto> \<lparr>co_size = n, co_aliases = [], co_points = Map.empty\<rparr>)" using l3 by blast
  show "view q c = Some k \<Longrightarrow> co_aliases k = [] \<Longrightarrow> q_create_alias Q c a q = (None, q') \<Longrightarrow>
      view q' = (view q)(c \<mapsto> k\<lparr>co_aliases := [a]\<rparr>)" using l4 by blast
  show "view (q_delete_collection Q c q) = (view q)(c := None)" using l5 by blast
  show "view q c = Some k \<Longrightarrow> view (q_delete Q c (ByIds ids) q) = (view q)(c \<mapsto> k\<lparr>co_points := co_points k |` (- set ids)\<rparr>)"
    using l7 by blast
  show "view q c = Some k \<Longrightarrow> view (q_delete Q c (ByFilter (Some conds)) q) =
      (view q)(c \<mapsto> k\<lparr>co_points :=
         (\<lambda>i. case co_points k i of None \<Rightarrow> None | Some p \<Rightarrow> if point_selected Q (Some conds) p then None else Some p)\<rparr>)"
    using l8 by blast
  show "view q c = Some k \<Longrightarrow> (p, s) \<in> set (q_query Q c v f m t q) \<Longrightarrow> co_points k (pt_id p) = Some p \<and> point_selected Q f p"
    using l9 by blast
  show "view q c = Some k \<Longrightarrow> length (q_query Q c v f m t q) \<le> m" using l9 by blast
  show "view q c = Some k \<Longrightarrow> set (q_retrieve Q c ids q) = {p. \<exists>i \<in> set ids. co_points k i = Some p}" using l10 by blast
  show "view q c = Some k \<Longrightarrow> snd (q_scroll Q c m None q) = None \<Longrightarrow> set (fst (q_scroll Q c m None q)) = ran (co_points k)"
    using l11 [rule_format, of q c k m] by (simp add: case_prod_unfold)
qed

lemma upsert_law:
  assumes "qdrant_laws Q view" and "view q c = Some k"
  obtains q' where "q_upsert Q c [p] q = (True, q')" "view q' = (view q)(c \<mapsto> k\<lparr>co_points := (co_points k)(pt_id p \<mapsto> p)\<rparr>)"
  using assms unfolding qdrant_laws_def by meson

lemma add_point_view:
  assumes "qdrant_laws Q view" and "view q c = Some k"
  shows "\<exists>q' p. add_point Q c content v m i fresh q = (Some p, q') \<and>
     p = \<lparr>pt_id = (case i of None \<Rightarrow> fresh | Some j \<Rightarrow> if j = [] then fresh else j), pt_content = content, pt_metadata = m, pt_vector = v\<rparr> \<and>
     view q' = (view q)(c \<mapsto> k\<lparr>co_points := (co_points k)(pt_id p \<mapsto> p)\<rparr>)"
proof -
  let ?p = "\<lparr>pt_id = (case i of None \<Rightarrow> fresh | Some j \<Rightarrow> if j = [] then fresh else j), pt_content = content, pt_metadata = m, pt_vector = v\<rparr>"
  obtain q' where "q_upsert Q c [?p] q = (True, q')" "view q' = (view q)(c \<mapsto> k\<lparr>co_points := (co_points k)(pt_id ?p \<mapsto> ?p)\<rparr>)"
    by (rule upsert_law [OF assms])
  then show ?thesis by (simp add: add_point_def Let_def)
qed

subsection \<open>Opening the collections\<close>

definition matches_embedder :: "string \<Rightarrow> nat \<Rightarrow> string \<Rightarrow> 'e collection \<Rightarrow> bool" where
  "matches_embedder name sz c k \<longleftrightarrow> co_size k = sz \<and> co_aliases k \<noteq> [] \<and> hd (co_aliases k) = name @ ''_'' @ c"

definition fresh_collection :: "string \<Rightarrow> nat \<Rightarrow> string \<Rightarrow> 'e collection" where
  "fresh_collection name sz c = \<lparr>co_size = sz, co_aliases = [name @ ''_'' @ c], co_points = Map.empty\<rparr>"

lemma fresh_matches [simp]: "matches_embedder name sz c (fresh_collection name sz c)"
  by (simp add: matches_embedder_def fresh_collection_def)

lemma create_collection_view:
  assumes "qdrant_laws Q view" and "view q c = None" and "create_collection Q c name sz q = (None, q')"
  shows "view q' = (view q)(c \<mapsto> fresh_collection name sz c)"
proof -
  from assms(3) obtain q1 where c: "q_create_collection Q c sz q = (None, q1)"
    and a: "q_create_alias Q c (name @ ''_'' @ c) q1 = (None, q')"
    by (auto simp: create_collection_def split: prod.splits option.splits)
  note v1 = qlaws(4) [OF assms(1,2) c]
  then have "view q1 c = Some \<lparr>co_size = sz, co_aliases = [], co_points = Map.empty\<rparr>" by simp
  from qlaws(5) [OF assms(1) this _ a] v1 show ?thesis by (simp add: fresh_collection_def fun_eq_iff)
qed

definition opened :: "string \<Rightarrow> nat \<Rightarrow> string \<Rightarrow> 'e collection option \<Rightarrow> 'e collection" where
  "opened name sz c old = (case old of Some k \<Rightarrow> if matches_embedder name sz c k then k else fresh_collection name sz c
     | None \<Rightarrow> fresh_collection name sz c)"

lemma opened_matches: "matches_embedder name sz c (opened name sz c old)"
  by (simp add: opened_def split: option.split)

lemma check_embedding_view:
  assumes "qdrant_laws Q view" and "view q c = Some k" and "check_embedding_size Q c name sz q = (None, q')"
  shows "view q' = (view q)(c \<mapsto> opened name sz c (Some k))"
proof (cases "matches_embedder name sz c k")
  case True
  with assms show ?thesis
    by (auto simp: check_embedding_size_def Let_def matches_embedder_def opened_def qlaws(2,3) [OF assms(1,2)] map_upd_triv)
next
  case False
  then have cr: "create_collection Q c name sz (q_delete_collection Q c q) = (None, q')"
    using assms(3) by (auto simp: check_embedding_size_def Let_def matches_embedder_def qlaws(2,3) [OF assms(1,2)] split: if_splits)
  have "view (q_delete_collection Q c q) c = None" by (simp add: qlaws(6) [OF assms(1)])
  from create_collection_view [OF assms(1) this cr] False show ?thesis
    by (simp add: qlaws(6) [OF assms(1)] opened_def fun_eq_iff)
qed

lemma open_collection_view:
  assumes "qdrant_laws Q view" and "open_collection Q c name sz q = (None, q')"
  shows "view q' = (view q)(c \<mapsto> opened name sz c (view q c))"
proof (cases "view q c")
  case None
  then have "c \<notin> set (q_get_collections Q q)" by (simp add: qlaws(1) [OF assms(1)] domIff)
  with assms(2) obtain q1 where cr: "create_collection Q c name sz q = (None, q1)"
    and ck: "check_embedding_size Q c name sz q1 = (None, q')"
    by (auto simp: open_collection_def create_db_collection_if_not_exists_def split: prod.splits option.splits)
  note v1 = create_collection_view [OF assms(1) None cr]
  then have "view q1 c = Some (fresh_collection name sz c)" by simp
  from check_embedding_view [OF assms(1) this ck] v1 None show ?thesis by (simp add: opened_def fun_eq_iff)
next
  case (Some k)
  then have "c \<in> set (q_get_collections Q q)" by (auto simp: qlaws(1) [OF assms(1)])
  with assms(2) have "check_embedding_size Q c name sz q = (None, q')"
    by (simp add: open_collection_def create_db_collection_if_not_exists_def)
  from check_embedding_view [OF assms(1) Some this] Some show ?thesis by simp
qed

lemma open_collections_view:
  assumes "qdrant_laws Q view" and "distinct cs" and "open_collections Q name sz cs q = (None, q')"
  shows "view q' c = (if c \<in> set cs then Some (opened name sz c (view q c)) else view q c)"
  using assms(2,3)
proof (induction cs arbitrary: q)
  case (Cons d cs)
  from Cons.prems(2) obtain q1 where o: "open_collection Q d name sz q = (None, q1)" "open_collections Q name sz cs q1 = (None, q')"
    by (auto split: prod.splits option.splits)
  from Cons.IH [OF _ o(2)] Cons.prems(1) open_collection_view [OF assms(1) o(1)] show ?case by auto
qed simp

subsection \<open>Embedding of procedures\<close>

lemma embedded_hashes_keys:
  "build_embedded_procedures_hashes eps d = Inr d' \<Longrightarrow> dict_ok d \<Longrightarrow>
   dict_ok d' \<and> set (dict_keys d') = set (dict_keys d) \<union> {h. \<exists>p \<in> set eps. point_hash p = Inr h} \<and>
   (\<forall>p \<in> set eps. \<exists>h. point_hash p = Inr h)"
proof (induction eps arbitrary: d)
  case (Cons ep eps)
  from Cons.prems obtain h where h: "point_hash ep = Inr h" "build_embedded_procedures_hashes eps (dict_set h (pt_id ep) d) = Inr d'"
    by (auto split: sum.splits)
  from Cons.IH [OF h(2)] Cons.prems(2) h(1) show ?case by (auto simp: dict_keys_set)
qed simp

text \<open>Two stored points may be equal as points of a list; their hash then has the same identifier.\<close>

lemma embedded_hashes_get:
  assumes "build_embedded_procedures_hashes eps d = Inr d'" and "dict_get d' h = Some i"
  shows "(\<exists>p \<in> set eps. point_hash p = Inr h \<and> pt_id p = i) \<or> dict_get d h = Some i"
  using assms
proof (induction eps arbitrary: d)
  case (Cons ep eps)
  from Cons.prems obtain g where g: "point_hash ep = Inr g" "build_embedded_procedures_hashes eps (dict_set g (pt_id ep) d) = Inr d'"
    by (auto split: sum.splits)
  from Cons.IH [OF g(2) Cons.prems(2)] g(1) show ?case by (auto split: if_splits)
qed simp

lemma active_hashes:
  "dict_ok (build_active_procedures_hashes aps) \<and>
   set (dict_keys (build_active_procedures_hashes aps)) = hash_of ` (\<Union>ap \<in> set aps. set (procedure_triggers ap)) \<and>
   (\<forall>(h, t) \<in> set (build_active_procedures_hashes aps). hash_of t = h)"
proof -
  have "dict_ok d \<Longrightarrow> \<forall>(h, t) \<in> set d. hash_of t = h \<Longrightarrow>
    dict_ok (fold (\<lambda>t. dict_set (hash_of t) t) ts d) \<and>
    set (dict_keys (fold (\<lambda>t. dict_set (hash_of t) t) ts d)) = set (dict_keys d) \<union> hash_of ` set ts \<and>
    (\<forall>(h, t) \<in> set (fold (\<lambda>t. dict_set (hash_of t) t) ts d). hash_of t = h)" for ts and d :: "(string, trigger) dict"
  proof (induction ts arbitrary: d)
    case (Cons t ts)
    have "\<forall>(h, u) \<in> set (dict_set (hash_of t) t d). hash_of u = h"
      using Cons.prems(2) dict_set_mem by fastforce
    with Cons.IH [of "dict_set (hash_of t) t d"] Cons.prems(1) show ?case by (auto simp: dict_keys_set)
  qed simp
  from this [of "[]" "concat (map procedure_triggers aps)"] show ?thesis
    by (simp add: build_active_procedures_hashes_def)
qed

lemma new_point_hash:
  "point_hash \<lparr>pt_id = i, pt_content = tr_content t, pt_metadata = trigger_metadata t now, pt_vector = v\<rparr> = Inr (hash_of t)"
  by (simp add: point_hash_def trigger_metadata_def hash_of_def py_str_def)

definition by_id :: "'e point list \<Rightarrow> string \<rightharpoonup> 'e point" where
  "by_id ps = map_of (map (\<lambda>p. (pt_id p, p)) ps)"

lemma embed_triggers_view:
  assumes "qdrant_laws Q view" and "inj uuid"
  shows "view q ''procedural'' = Some k \<Longrightarrow> embed_triggers Q emb now ts uuid n q = (None, q') \<Longrightarrow>
    \<exists>ps. map point_hash ps = map (\<lambda>t. Inr (hash_of t)) ts \<and> map pt_id ps = map uuid [n..<n + length ts] \<and>
      view q' = (view q)(''procedural'' \<mapsto> k\<lparr>co_points := co_points k ++ by_id ps\<rparr>)"
proof (induction ts arbitrary: n q k)
  case Nil
  then show ?case by (intro exI [of _ "[]"]) (auto simp: by_id_def fun_eq_iff)
next
  case (Cons t ts)
  from Cons.prems(2) obtain v where v: "emb (tr_content t) = Inr v" by (auto split: sum.splits)
  obtain q1 p where a: "add_point Q ''procedural'' (tr_content t) v (trigger_metadata t now) None (uuid n) q = (Some p, q1)"
    and p: "p = \<lparr>pt_id = uuid n, pt_content = tr_content t, pt_metadata = trigger_metadata t now, pt_vector = v\<rparr>"
    and v1: "view q1 = (view q)(''procedural'' \<mapsto> k\<lparr>co_points := (co_points k)(pt_id p \<mapsto> p)\<rparr>)"
    using add_point_view [OF assms(1), OF Cons.prems(1), of "tr_content t" v "trigger_metadata t now" None "uuid n"]
    unfolding option.case by blast
  let ?k = "k\<lparr>co_points := (co_points k)(pt_id p \<mapsto> p)\<rparr>"
  have "view q1 ''procedural'' = Some ?k" "embed_triggers Q emb now ts uuid (Suc n) q1 = (None, q')"
    using Cons.prems(2) v a v1 by simp_all
  from Cons.IH [OF this] obtain ps where ps: "map point_hash ps = map (\<lambda>t. Inr (hash_of t)) ts"
    "map pt_id ps = map uuid [Suc n..<Suc n + length ts]"
    "view q' = (view q1)(''procedural'' \<mapsto> ?k\<lparr>co_points := co_points ?k ++ by_id ps\<rparr>)" by blast
  have "pt_id p \<notin> pt_id ` set ps"
  proof
    assume "pt_id p \<in> pt_id ` set ps"
    then have "uuid n \<in> uuid ` set [Suc n..<Suc n + length ts]" using ps(2) p by (metis list.set_map point.select_convs(1))
    with assms(2) show False by (auto dest: injD)
  qed
  then have "by_id ps (pt_id p) = None" by (auto simp: by_id_def map_of_eq_None_iff)
  then have "co_points k ++ by_id (p # ps) = (co_points k)(pt_id p \<mapsto> p) ++ by_id ps"
    by (auto simp: by_id_def fun_eq_iff map_add_def split: option.split)
  moreover have "map pt_id (p # ps) = map uuid [n..<n + length (t # ts)]"
    using ps(2) p by (simp add: upt_conv_Cons del: upt_Suc)
  moreover have "point_hash p = Inr (hash_of t)" by (simp add: p new_point_hash)
  moreover have "view q' = (view q)(''procedural'' \<mapsto> k\<lparr>co_points := (co_points k)(pt_id p \<mapsto> p) ++ by_id ps\<rparr>)"
    unfolding ps(3) v1 fun_upd_upd by simp
  ultimately show ?case
    using ps(1) by (intro exI [of _ "p # ps"]) simp
qed

lemma by_id_ran:
  assumes "distinct (map pt_id ps)" and "dom m \<inter> pt_id ` set ps = {}"
  shows "ran (m ++ by_id ps) = ran m \<union> set ps"
proof -
  have d: "dom (by_id ps) = pt_id ` set ps" by (force simp: by_id_def dom_map_of_conv_image_fst)
  have "ran (by_id ps) = set ps"
    using assms(1) by (force simp: by_id_def ran_distinct comp_def)
  with ran_map_add [of m "by_id ps"] assms(2) d show ?thesis by auto
qed

lemma set_filter_keys: "set (map fst (filter (\<lambda>(h, t). h \<notin> S) xs)) = set (map fst xs) - S"
  by force

text \<open>Embedding in one step: what is deleted and what is added.\<close>

lemma embed_procedures_effect:
  assumes laws: "qdrant_laws Q view" and k: "view q ''procedural'' = Some k"
    and ids: "\<forall>i p. co_points k i = Some p \<longrightarrow> pt_id p = i"
    and scroll: "snd (get_all_points Q ''procedural'' 10000 None q) = None"
    and inj: "inj_on point_hash (ran (co_points k))" and uuid: "inj uuid"
    and run: "embed_procedures Q emb now procedures uuid q = (None, q')"
    and act: "A = hash_of ` (\<Union>ap \<in> set procedures. set (procedure_triggers ap))"
  shows "\<exists>ps. (\<forall>p \<in> ran (co_points k). \<exists>h. point_hash p = Inr h) \<and>
     point_hash ` set ps = Inr ` (A - {h. Inr h \<in> point_hash ` ran (co_points k)}) \<and> distinct (map point_hash ps) \<and>
     map pt_id ps = map uuid [0..<length ps] \<and>
     (\<forall>c. c \<noteq> ''procedural'' \<longrightarrow> view q' c = view q c) \<and>
     (\<exists>k'. view q' ''procedural'' = Some k' \<and>
        co_points k' = (\<lambda>i. case co_points k i of None \<Rightarrow> None | Some p \<Rightarrow> if point_hash p \<in> Inr ` A then Some p else None) ++ by_id ps)"
proof -
  let ?eps = "fst (get_all_points Q ''procedural'' 10000 None q)"
  let ?act = "build_active_procedures_hashes procedures"
  have eps: "set ?eps = ran (co_points k)"
    using qlaws(12) [OF laws, OF k] scroll by (simp add: get_all_points_def)
  obtain d where d: "build_embedded_procedures_hashes ?eps [] = Inr d"
    using run by (auto simp: embed_procedures_def split: sum.splits)
  have dk: "dict_ok d" "set (dict_keys d) = {h. Inr h \<in> point_hash ` ran (co_points k)}" "\<forall>p \<in> ran (co_points k). \<exists>h. point_hash p = Inr h"
    using embedded_hashes_keys [OF d] unfolding eps by (force simp: image_iff)+
  have dget: "dict_get d h = Some i \<longleftrightarrow> (\<exists>p. co_points k i = Some p \<and> point_hash p = Inr h)" for h i
  proof
    assume "dict_get d h = Some i"
    with embedded_hashes_get [OF d] eps obtain p where "p \<in> ran (co_points k)" "point_hash p = Inr h" "pt_id p = i" by auto
    moreover from this(1) obtain j where "co_points k j = Some p" unfolding ran_def by blast
    ultimately show "\<exists>p. co_points k i = Some p \<and> point_hash p = Inr h" using ids by metis
  next
    assume "\<exists>p. co_points k i = Some p \<and> point_hash p = Inr h"
    then obtain p where p: "co_points k i = Some p" "point_hash p = Inr h" by blast
    then have pr: "p \<in> ran (co_points k)" unfolding ran_def by blast
    then have "h \<in> set (dict_keys d)" unfolding dk(2) using p(2) by (metis image_eqI mem_Collect_eq)
    then obtain j where j: "dict_get d h = Some j" by (cases "dict_get d h") (auto simp: map_of_eq_None_iff)
    with embedded_hashes_get [OF d] eps obtain p' where p': "p' \<in> ran (co_points k)" "point_hash p' = Inr h" "pt_id p' = j" by auto
    then have "p' = p" using inj p(2) pr by (metis inj_onD)
    with p'(3) j ids p(1) show "dict_get d h = Some i" by metis
  qed
  note ak = active_hashes [of procedures]
  then have akeys: "set (dict_keys ?act) = A" using act by blast
  define dids where "dids = map snd (filter (\<lambda>(h, i). h \<notin> set (dict_keys ?act)) d)"
  define new where "new = map snd (filter (\<lambda>(h, t). h \<notin> set (dict_keys d)) ?act)"
  define q1 where "q1 = (if dids = [] then q else delete_points Q ''procedural'' dids q)"
  let ?m = "\<lambda>i. case co_points k i of None \<Rightarrow> None | Some p \<Rightarrow> if point_hash p \<in> Inr ` A then Some p else None"
  have "i \<in> set dids \<longleftrightarrow> (\<exists>p h. co_points k i = Some p \<and> point_hash p = Inr h \<and> h \<notin> A)" for i
    using dget dict_get_mem [OF dk(1)] akeys by (force simp: dids_def image_iff)
  then have dids: "i \<in> set dids \<longleftrightarrow> point_hash p \<notin> Inr ` A" if "co_points k i = Some p" for i p
    using that dk(3) ranI [of "co_points k" i p] by fastforce
  have del: "co_points k |` (- set dids) = ?m"
    by (intro ext) (auto simp: restrict_map_def dids split: option.split)
  have v1: "view q1 = (view q)(''procedural'' \<mapsto> k\<lparr>co_points := ?m\<rparr>)"
    using k del by (auto simp: q1_def delete_points_def qlaws(7) [OF laws, OF k] fun_eq_iff restrict_map_def)
  have "embed_triggers Q emb now new uuid 0 q1 = (None, q')"
    using run unfolding embed_procedures_def d sum.case Let_def dids_def new_def q1_def .
  from embed_triggers_view [OF laws uuid _ this] v1
  obtain ps where ps: "map point_hash ps = map (\<lambda>t. Inr (hash_of t)) new" "map pt_id ps = map uuid [0..<length new]"
    "view q' = (view q1)(''procedural'' \<mapsto> k\<lparr>co_points := ?m ++ by_id ps\<rparr>)" by auto
  have hn: "map hash_of new = map fst (filter (\<lambda>(h, t). h \<notin> set (dict_keys d)) ?act)"
    using ak by (auto simp: new_def)
  have "distinct (map hash_of new)" unfolding hn using ak by (simp add: distinct_map_filter)
  then have "distinct (map point_hash ps)" unfolding ps(1) by (simp add: distinct_map inj_on_def)
  moreover have "hash_of ` set new = A - set (dict_keys d)"
    unfolding akeys [symmetric] set_map [symmetric] hn by (rule set_filter_keys)
  then have "point_hash ` set ps = Inr ` (A - {h. Inr h \<in> point_hash ` ran (co_points k)})"
    using arg_cong [OF ps(1), of set] unfolding dk(2) by (simp add: image_image flip: image_image [of Inr hash_of])
  moreover have "length ps = length new" using ps(1) by (metis length_map)
  ultimately show ?thesis
    using dk(3) ps(2,3) v1 by (intro exI [of _ ps]) simp
qed

lemma hash_union:
  fixes f :: "'p \<Rightarrow> 'l + 'h"
  shows "f ` {p \<in> R. f p \<in> Inr ` A} \<union> Inr ` (A - {h. Inr h \<in> f ` R}) = Inr ` A" (is "?L = _")
proof
  show "?L \<subseteq> Inr ` A" by auto
  show "Inr ` A \<subseteq> ?L"
  proof
    fix x :: "'l + 'h"
    assume x: "x \<in> Inr ` A"
    then obtain h where h: "x = Inr h" "h \<in> A" by blast
    show "x \<in> ?L"
    proof (cases "Inr h \<in> f ` R")
      case True
      then obtain p where p: "p \<in> R" "x = f p" using h(1) by (metis imageE)
      then have "f p \<in> f ` {p \<in> R. f p \<in> Inr ` A}" using x by (intro imageI) simp
      with p(2) show ?thesis by simp
    next
      case False
      with h show ?thesis by simp
    qed
  qed
qed

lemma inj_on_two:
  "inj_on f A \<Longrightarrow> inj_on f B \<Longrightarrow> f ` A \<inter> f ` B = {} \<Longrightarrow> inj_on f (A \<union> B)"
  unfolding inj_on_def by blast

lemma hash_disjoint: "f ` {p \<in> R. f p \<in> Inr ` A} \<inter> Inr ` (A - {h. Inr h \<in> f ` R}) = {}"
  by (auto, metis imageI)

text \<open>A second run finds nothing to do.\<close>

lemma embed_procedures_stable:
  assumes "qdrant_laws Q view" and "view q ''procedural'' = Some k"
    and "snd (get_all_points Q ''procedural'' 10000 None q) = None"
    and "point_hash ` ran (co_points k) = Inr ` hash_of ` (\<Union>ap \<in> set procedures. set (procedure_triggers ap))"
  shows "embed_procedures Q emb now procedures uuid q = (None, q)"
proof -
  let ?eps = "fst (get_all_points Q ''procedural'' 10000 None q)"
  let ?act = "build_active_procedures_hashes procedures"
  have eps: "set ?eps = ran (co_points k)"
    using qlaws(12) [OF assms(1), OF assms(2)] assms(3) by (simp add: get_all_points_def)
  have hashed: "build_embedded_procedures_hashes eps d \<noteq> Inl e" if "\<forall>p \<in> set eps. \<exists>h. point_hash p = Inr h" for eps :: "'a point list" and d e
    using that by (induction eps arbitrary: d) (auto split: sum.split)
  have "\<forall>p \<in> set ?eps. \<exists>h. point_hash p = Inr h" unfolding eps using assms(4) by blast
  from hashed [OF this] obtain d where d: "build_embedded_procedures_hashes ?eps [] = Inr d" by (metis sum.exhaust)
  have "set (dict_keys d) = {h. Inr h \<in> point_hash ` ran (co_points k)}"
    using embedded_hashes_keys [OF d] unfolding eps by (force simp: image_iff)
  then have keys: "set (dict_keys d) = set (dict_keys ?act)" using active_hashes [of procedures] unfolding assms(4) by auto
  have "filter (\<lambda>(h, i). h \<notin> set (dict_keys ?act)) d = []" "filter (\<lambda>(h, t). h \<notin> set (dict_keys d)) ?act = []"
    unfolding keys [symmetric] by (force simp: filter_empty_conv) (unfold keys, force simp: filter_empty_conv)
  then show ?thesis unfolding embed_procedures_def d sum.case Let_def by simp
qed

section \<open>A client in memory\<close>

text \<open>An instance of the laws, for concrete runs: collections and points are dictionaries.\<close>

type_synonym mem_db = "(string, nat \<times> string list \<times> (string, nat point) dict) dict"

definition mem_view :: "mem_db \<Rightarrow> string \<rightharpoonup> nat collection" where
  "mem_view q c = map_option (\<lambda>(n, as, ps). \<lparr>co_size = n, co_aliases = as, co_points = dict_get ps\<rparr>) (dict_get q c)"

definition mem_points :: "string \<Rightarrow> mem_db \<Rightarrow> (string, nat point) dict" where
  "mem_points c q = (case dict_get q c of None \<Rightarrow> [] | Some (n, as, ps) \<Rightarrow> ps)"

definition set_points :: "string \<Rightarrow> (string, nat point) dict \<Rightarrow> mem_db \<Rightarrow> mem_db" where
  "set_points c ps q = (case dict_get q c of None \<Rightarrow> q | Some (n, as, _) \<Rightarrow> dict_set c (n, as, ps) q)"

definition point_list :: "(string, nat point) dict \<Rightarrow> nat point list" where
  "point_list ps = List.map_filter (dict_get ps) (remdups (dict_keys ps))"

definition mem_match :: "condition \<Rightarrow> nat point \<Rightarrow> bool" where
  "mem_match = (\<lambda>(key, v) p. dict_get (pt_metadata p) (drop 9 key) = Some v)"

definition mem_selected :: "condition list option \<Rightarrow> nat point \<Rightarrow> bool" where
  "mem_selected f p = (case f of None \<Rightarrow> True | Some cs \<Rightarrow> list_all (\<lambda>c. mem_match c p) cs)"

definition mem_qdrant :: "(nat, unit, mem_db) qdrant" where
  "mem_qdrant = \<lparr>
     q_get_collections = dict_keys,
     q_vector_size = (\<lambda>c q. case dict_get q c of None \<Rightarrow> 0 | Some (n, _, _) \<Rightarrow> n),
     q_aliases = (\<lambda>c q. case dict_get q c of None \<Rightarrow> [] | Some (_, as, _) \<Rightarrow> as),
     q_create_collection = (\<lambda>c n q. (None, dict_set c (n, [], []) q)),
     q_create_alias = (\<lambda>c a q. (None, case dict_get q c of None \<Rightarrow> q | Some (n, as, ps) \<Rightarrow> dict_set c (n, as @ [a], ps) q)),
     q_delete_collection = dict_del,
     q_upsert = (\<lambda>c ps q. (True, set_points c (fold (\<lambda>p. dict_set (pt_id p) p) ps (mem_points c q)) q)),
     q_delete = (\<lambda>c sel q. set_points c
        (case sel of
           ByIds ids \<Rightarrow> filter (\<lambda>(i, p). i \<notin> set ids) (mem_points c q)
         | ByFilter f \<Rightarrow> filter (\<lambda>(i, p). \<not> mem_selected f (the (dict_get (mem_points c q) i))) (mem_points c q)) q),
     q_query = (\<lambda>c v f n t q. take n (map (\<lambda>p. (p, ()))
        (filter (\<lambda>p. mem_selected f p \<and> dict_get (mem_points c q) (pt_id p) = Some p) (point_list (mem_points c q))))),
     q_retrieve = (\<lambda>c ids q. List.map_filter (dict_get (mem_points c q)) ids),
     q_scroll = (\<lambda>c n off q. (point_list (mem_points c q), None)),
     q_matches = mem_match\<rparr>"

lemma filter_keys_get: "dict_get (filter (\<lambda>(i, p). P i) d) i = (if P i then dict_get d i else None)"
  by (induction d) auto

lemma set_point_list: "set (point_list ps) = ran (dict_get ps)"
proof -
  have "set (point_list ps) = {p. \<exists>i \<in> set (dict_keys ps). dict_get ps i = Some p}"
    by (force simp: point_list_def List.map_filter_def)
  also have "\<dots> = ran (dict_get ps)" unfolding ran_def by (auto, metis fst_conv map_of_SomeD)
  finally show ?thesis .
qed

lemma mem_view_Some:
  "mem_view q c = Some k \<longleftrightarrow> (\<exists>n as ps. dict_get q c = Some (n, as, ps) \<and> k = \<lparr>co_size = n, co_aliases = as, co_points = dict_get ps\<rparr>)"
  by (auto simp: mem_view_def)

lemma mem_set_points:
  "dict_get q c = Some (n, as, ps0) \<Longrightarrow>
   mem_view (set_points c ps q) = (mem_view q)(c \<mapsto> \<lparr>co_size = n, co_aliases = as, co_points = dict_get ps\<rparr>)"
  by (auto simp: mem_view_def set_points_def fun_eq_iff)

lemma mem_selected_eq: "point_selected mem_qdrant = mem_selected"
  by (intro ext) (simp add: point_selected_def mem_selected_def mem_qdrant_def list_all_iff split: option.split)

lemma mem_qdrant_laws: "qdrant_laws mem_qdrant mem_view"
  unfolding qdrant_laws_def mem_selected_eq
proof (intro conjI allI impI)
  show "set (q_get_collections mem_qdrant q) = dom (mem_view q)" for q
  proof -
    have "dom (mem_view q) = dom (dict_get q)" by (auto simp: mem_view_def)
    then show ?thesis by (simp add: mem_qdrant_def dom_map_of_conv_image_fst)
  qed
  show "q_vector_size mem_qdrant c q = co_size k" "q_aliases mem_qdrant c q = co_aliases k" if "mem_view q c = Some k" for q c k
    using that by (auto simp: mem_view_Some mem_qdrant_def)
  show "mem_view q' = (mem_view q)(c \<mapsto> \<lparr>co_size = n, co_aliases = [], co_points = Map.empty\<rparr>)"
    if "q_create_collection mem_qdrant c n q = (None, q')" for q c n q'
    using that by (auto simp: mem_qdrant_def mem_view_def fun_eq_iff)
  show "mem_view q' = (mem_view q)(c \<mapsto> k\<lparr>co_aliases := [a]\<rparr>)"
    if "mem_view q c = Some k" "co_aliases k = []" "q_create_alias mem_qdrant c a q = (None, q')" for q c a k q'
    using that by (auto simp: mem_view_Some mem_qdrant_def) (auto simp: mem_view_def fun_eq_iff)
  show "mem_view (q_delete_collection mem_qdrant c q) = (mem_view q)(c := None)" for q c
    by (auto simp: mem_qdrant_def mem_view_def fun_eq_iff)
  show "\<exists>q'. q_upsert mem_qdrant c [p] q = (True, q') \<and>
      mem_view q' = (mem_view q)(c \<mapsto> k\<lparr>co_points := (co_points k)(pt_id p \<mapsto> p)\<rparr>)" if "mem_view q c = Some k" for q c k p
    using that by (auto simp: mem_view_Some mem_qdrant_def mem_points_def mem_set_points) (simp add: fun_upd_def)
  show "mem_view (q_delete mem_qdrant c (ByIds ids) q) = (mem_view q)(c \<mapsto> k\<lparr>co_points := co_points k |` (- set ids)\<rparr>)"
    if k: "mem_view q c = Some k" for q c k ids
  proof -
    obtain n as ps where g: "dict_get q c = Some (n, as, ps)" "k = \<lparr>co_size = n, co_aliases = as, co_points = dict_get ps\<rparr>"
      using k by (auto simp: mem_view_Some)
    have "dict_get (filter (\<lambda>(i, p). i \<notin> set ids) ps) = dict_get ps |` (- set ids)"
      by (intro ext) (simp add: filter_keys_get restrict_map_def)
    then show ?thesis by (simp add: mem_qdrant_def mem_points_def g mem_set_points)
  qed
  show "mem_view (q_delete mem_qdrant c (ByFilter (Some conds)) q) =
      (mem_view q)(c \<mapsto> k\<lparr>co_points :=
         (\<lambda>i. case co_points k i of None \<Rightarrow> None | Some p \<Rightarrow> if mem_selected (Some conds) p then None else Some p)\<rparr>)"
    if k: "mem_view q c = Some k" for q c k conds
  proof -
    obtain n as ps where g: "dict_get q c = Some (n, as, ps)" "k = \<lparr>co_size = n, co_aliases = as, co_points = dict_get ps\<rparr>"
      using k by (auto simp: mem_view_Some)
    have "dict_get (filter (\<lambda>(i, p). \<not> mem_selected (Some conds) (the (dict_get ps i))) ps) =
        (\<lambda>i. case dict_get ps i of None \<Rightarrow> None | Some p \<Rightarrow> if mem_selected (Some conds) p then None else Some p)"
      by (intro ext) (simp add: filter_keys_get split: option.split)
    then show ?thesis by (simp add: mem_qdrant_def mem_points_def g mem_set_points)
  qed
  show "\<forall>(p, s) \<in> set (q_query mem_qdrant c v f n t q). co_points k (pt_id p) = Some p \<and> mem_selected f p"
    "length (q_query mem_qdrant c v f n t q) \<le> n" if "mem_view q c = Some k" for q c k v f n t
    using that by (auto simp: mem_view_Some mem_qdrant_def mem_points_def dest!: in_set_takeD)
  show "set (q_retrieve mem_qdrant c ids q) = {p. \<exists>i \<in> set ids. co_points k i = Some p}" if "mem_view q c = Some k" for q c k ids
    using that by (force simp: mem_view_Some mem_qdrant_def mem_points_def List.map_filter_def)
  show "case q_scroll mem_qdrant c n None q of (ps, next_page) \<Rightarrow>
      set ps \<subseteq> ran (co_points k) \<and> (next_page = None \<longrightarrow> set ps = ran (co_points k))" if "mem_view q c = Some k" for q c k n
    using that by (auto simp: mem_view_Some mem_qdrant_def mem_points_def set_point_list)
qed

section \<open>Properties\<close>

text \<open>
  C21. Opening the long term memory.  When it does not raise, the three collections exist with the vector size and the alias of
  the current embedder.  A collection that already had them keeps its points; one of another embedder is replaced
  by an empty one.  Other collections of the database are not touched.
\<close>
theorem memory_matches_embedder:
  assumes "qdrant_laws Q view" and "vector_memory_init Q name sz q = (None, q')"
  shows "(\<forall>c \<in> set memory_collections. \<exists>k. view q' c = Some k \<and> co_size k = sz \<and> hd (co_aliases k) = name @ ''_'' @ c \<and>
            (case view q c of
               Some old \<Rightarrow> if matches_embedder name sz c old then k = old else co_points k = Map.empty
             | None \<Rightarrow> co_points k = Map.empty)) \<and>
         (\<forall>c. c \<notin> set memory_collections \<longrightarrow> view q' c = view q c)"
proof -
  have d: "distinct memory_collections" by (simp add: memory_collections_def)
  note v = open_collections_view [OF assms(1) d assms(2) [unfolded vector_memory_init_def]]
  have "\<exists>k. view q' c = Some k \<and> co_size k = sz \<and> hd (co_aliases k) = name @ ''_'' @ c \<and>
            (case view q c of
               Some old \<Rightarrow> if matches_embedder name sz c old then k = old else co_points k = Map.empty
             | None \<Rightarrow> co_points k = Map.empty)" if "c \<in> set memory_collections" for c
    using v [of c] that opened_matches [of name sz c "view q c"]
    by (auto simp: opened_def matches_embedder_def fresh_collection_def split: option.split)
  moreover have "view q' c = view q c" if "c \<notin> set memory_collections" for c
    using v [of c] that by simp
  ultimately show ?thesis by blast
qed

definition demo_point :: "nat point" where
  "demo_point = \<lparr>pt_id = ''p1'', pt_content = ''tea'', pt_metadata = [(''source'', PStr ''alice'')], pt_vector = 7\<rparr>"

definition demo_q :: mem_db where
  "demo_q = [(''episodic'', 3, [''ada_episodic''], [(''p1'', demo_point)]), (''declarative'', 2, [''old_declarative''], [(''p1'', demo_point)])]"

theorem memory_matches_embedder_witness:
  "\<exists>k. mem_view (snd (vector_memory_init mem_qdrant ''ada'' 3 demo_q)) ''declarative'' = Some k \<and> co_size k = 3"
proof -
  have "fst (vector_memory_init mem_qdrant ''ada'' 3 demo_q) = None" by code_simp
  then have "vector_memory_init mem_qdrant ''ada'' 3 demo_q = (None, snd (vector_memory_init mem_qdrant ''ada'' 3 demo_q))"
    by (metis prod.collapse)
  from memory_matches_embedder [OF mem_qdrant_laws this, THEN conjunct1, rule_format, of "''declarative''"]
  show ?thesis by (auto simp: memory_collections_def)
qed

text \<open>
  C8. The procedures in memory follow the active plugins.  When the stored triggers are readable, at most one page and have no two with
  the same hash, and the embedder does not raise, then after the synchronisation the hashes of the stored
  triggers are exactly those of the active procedures, each stored once; triggers that were stored and are still active keep their point;
  nothing else in the database changes; and synchronising again changes nothing.
\<close>
theorem procedures_synchronised:
  assumes "qdrant_laws Q view" and "view q ''procedural'' = Some k"
    and "\<forall>i p. co_points k i = Some p \<longrightarrow> pt_id p = i"
    and "snd (get_all_points Q ''procedural'' 10000 None q) = None"
    and "inj_on point_hash (ran (co_points k))" and "inj uuid" and "range uuid \<inter> dom (co_points k) = {}"
    and "embed_procedures Q emb now procedures uuid q = (None, q')"
    and "A = hash_of ` (\<Union>ap \<in> set procedures. set (procedure_triggers ap))"
  shows "\<exists>k'. view q' ''procedural'' = Some k' \<and>
           point_hash ` ran (co_points k') = Inr ` A \<and> inj_on point_hash (ran (co_points k')) \<and>
           (\<forall>i p. co_points k i = Some p \<longrightarrow> point_hash p \<in> Inr ` A \<longrightarrow> co_points k' i = Some p) \<and>
           (\<forall>c. c \<noteq> ''procedural'' \<longrightarrow> view q' c = view q c) \<and>
           (snd (get_all_points Q ''procedural'' 10000 None q') = None \<longrightarrow>
              embed_procedures Q emb' now' procedures uuid' q' = (None, q'))"
proof -
  let ?m = "\<lambda>i. case co_points k i of None \<Rightarrow> None | Some p \<Rightarrow> if point_hash p \<in> Inr ` A then Some p else None"
  obtain ps k' where e: "point_hash ` set ps = Inr ` (A - {h. Inr h \<in> point_hash ` ran (co_points k)})"
    "distinct (map point_hash ps)" "map pt_id ps = map uuid [0..<length ps]"
    "\<forall>c. c \<noteq> ''procedural'' \<longrightarrow> view q' c = view q c" "view q' ''procedural'' = Some k'" "co_points k' = ?m ++ by_id ps"
    using embed_procedures_effect [OF assms(1), OF assms(2), OF assms(3-6,8,9)] by (elim exE conjE) (rule that; assumption)
  have ids: "distinct (map pt_id ps)" unfolding e(3) by (simp add: distinct_map inj_on_subset [OF assms(6)])
  have "pt_id ` set ps \<subseteq> range uuid" using arg_cong [OF e(3), of set] by auto
  moreover have "dom ?m \<subseteq> dom (co_points k)" by (auto split: option.splits if_splits)
  ultimately have dj: "dom ?m \<inter> pt_id ` set ps = {}" using assms(7) by blast
  have rm: "ran ?m = {p \<in> ran (co_points k). point_hash p \<in> Inr ` A}"
    unfolding ran_def by (auto split: option.splits if_splits) 
  have rk: "ran (co_points k') = ran ?m \<union> set ps" unfolding e(6) by (rule by_id_ran [OF ids dj])
  have h: "point_hash ` ran (co_points k') = Inr ` A"
    unfolding rk rm image_Un e(1) by (rule hash_union)
  have cross: "point_hash ` ran ?m \<inter> point_hash ` set ps = {}" unfolding e(1) rm by (rule hash_disjoint)
  have ij: "inj_on point_hash (ran (co_points k'))"
    unfolding rk
    by (rule inj_on_two [OF _ _ cross]) (use assms(5) e(2) in \<open>auto simp: rm distinct_map intro: inj_on_subset\<close>)
  have kept: "co_points k' i = Some p" if "co_points k i = Some p" "point_hash p \<in> Inr ` A" for i p
  proof -
    have "?m i = Some p" using that by simp
    moreover from this dj have "by_id ps i = None" by (auto simp: by_id_def map_of_eq_None_iff)
    ultimately show ?thesis unfolding e(6) by (simp add: map_add_def)
  qed
  have st: "embed_procedures Q emb' now' procedures uuid' q' = (None, q')"
    if "snd (get_all_points Q ''procedural'' 10000 None q') = None"
    by (rule embed_procedures_stable [OF assms(1), OF e(5), OF that]) (use h assms(9) in blast)
  show ?thesis by (intro exI [of _ k'] conjI allI impI) (fact e(5) h ij kept e(4) [rule_format] st)+
qed

definition demo_tool :: procedure where
  "demo_tool = \<lparr>pr_name = ''clock'', pr_type = ''tool'', pr_triggers_map = [(''description'', [''tells the time'']), (''start_example'', [''what time is it''])]\<rparr>"

definition stale_point :: "nat point" where
  "stale_point = \<lparr>pt_id = ''old'', pt_content = ''gone'', pt_metadata = [(''source'', PStr ''gone'')], pt_vector = 1\<rparr>"

definition kept_point :: "nat point" where
  "kept_point = \<lparr>pt_id = ''kept'', pt_content = ''tells the time'',
     pt_metadata = [(''source'', PStr ''clock''), (''trigger_type'', PStr ''description'')], pt_vector = 2\<rparr>"

definition demo_points :: "(string, nat point) dict" where
  "demo_points = [(''old'', stale_point), (''kept'', kept_point)]"

definition demo_procedural :: mem_db where
  "demo_procedural = [(''procedural'', 3, [''ada_procedural''], demo_points)]"

definition demo_uuid :: "nat \<Rightarrow> string" where
  "demo_uuid n = CHR ''u'' # show_nat n"

theorem procedures_synchronised_witness:
  "\<exists>k'. mem_view (snd (embed_procedures mem_qdrant (\<lambda>t. Inr (length t)) 0 [demo_tool] demo_uuid demo_procedural)) ''procedural'' = Some k' \<and>
     co_points k' ''kept'' = Some kept_point \<and>
     point_hash ` ran (co_points k') = {Inr ''clock.description.tells the time'', Inr ''clock.start_example.what time is it''}"
proof -
  let ?k = "\<lparr>co_size = 3, co_aliases = [''ada_procedural''], co_points = dict_get demo_points\<rparr>"
  let ?run = "embed_procedures mem_qdrant (\<lambda>t. Inr (length t)) 0 [demo_tool] demo_uuid demo_procedural"
  have v: "mem_view demo_procedural ''procedural'' = Some ?k" by (simp add: mem_view_def demo_procedural_def)
  have i: "\<forall>i p. co_points ?k i = Some p \<longrightarrow> pt_id p = i"
  proof (intro allI impI)
    fix i p
    assume "co_points ?k i = Some p"
    then consider "i = ''old'' \<and> p = stale_point" | "i = ''kept'' \<and> p = kept_point"
      unfolding demo_points_def collection.simps map_of.simps fun_upd_apply prod.sel by (metis option.distinct(1) option.inject)
    then show "pt_id p = i" by cases (simp_all add: stale_point_def kept_point_def)
  qed
  have s: "snd (get_all_points mem_qdrant ''procedural'' 10000 None demo_procedural) = None"
    by (simp add: get_all_points_def mem_qdrant_def)
  have "distinct (map fst demo_points)" "snd ` set demo_points = {stale_point, kept_point}" by (simp_all add: demo_points_def)
  then have "ran (co_points ?k) = {stale_point, kept_point}" by (simp add: ran_distinct)
  then have j: "inj_on point_hash (ran (co_points ?k))"
    by (simp add: point_hash_def stale_point_def kept_point_def trigger_hash_def py_str_def)
  have "dom (co_points ?k) = {''old'', ''kept''}" by (simp add: dom_map_of_conv_image_fst demo_points_def del: map_of.simps)
  then have u: "inj demo_uuid" "range demo_uuid \<inter> dom (co_points ?k) = {}"
    by (auto simp: inj_def demo_uuid_def dest: show_nat_inj)
  have "fst ?run = None" by code_simp
  then have r: "?run = (None, snd ?run)" by (metis prod.collapse)
  let ?A = "hash_of ` (\<Union>ap \<in> set [demo_tool]. set (procedure_triggers ap))"
  have A: "?A = {''clock.description.tells the time'', ''clock.start_example.what time is it''}"
    by (auto simp: hash_of_def procedure_triggers_def demo_tool_def trigger_hash_def)
  obtain k' where k': "mem_view (snd ?run) ''procedural'' = Some k'" "point_hash ` ran (co_points k') = Inr ` ?A"
    "\<forall>i p. co_points ?k i = Some p \<longrightarrow> point_hash p \<in> Inr ` ?A \<longrightarrow> co_points k' i = Some p"
    using procedures_synchronised [where emb' = "\<lambda>t. Inr (length t)" and now' = 0 and uuid' = demo_uuid, OF mem_qdrant_laws, OF v, OF i s j u r refl] by (elim exE conjE) (rule that; assumption)
  have "point_hash kept_point \<in> Inr ` ?A"
    unfolding A by (simp add: point_hash_def kept_point_def trigger_hash_def py_str_def)
  with k'(3) have "co_points k' ''kept'' = Some kept_point" by (simp add: demo_points_def)
  with k'(1,2) show ?thesis unfolding A by auto
qed

subsection \<open>Properties of the endpoints\<close>

lemma create_memory_point_view:
  assumes "qdrant_laws Q view" and "view q c = Some k" and "create_memory_point Q K c content m q = (Inr p, q')"
  shows "view q' = (view q)(c \<mapsto> k\<lparr>co_points := (co_points k)(pt_id p \<mapsto> p)\<rparr>) \<and> pt_id p = ca_uuid K \<and> pt_content p = content \<and>
    pt_metadata p = completed_metadata K m \<and> c \<in> {''episodic'', ''declarative''}"
proof -
  from assms(3) obtain v where v: "ca_embed K content = Inr v" and c: "c \<in> {''episodic'', ''declarative''}"
    by (auto simp: create_memory_point_def store_point_def memory_collections_def split: if_splits sum.splits)
  obtain q1 p1 where a: "add_point Q c content v (completed_metadata K m) None (ca_uuid K) q = (Some p1, q1)"
    "p1 = \<lparr>pt_id = ca_uuid K, pt_content = content, pt_metadata = completed_metadata K m, pt_vector = v\<rparr>"
    "view q1 = (view q)(c \<mapsto> k\<lparr>co_points := (co_points k)(pt_id p1 \<mapsto> p1)\<rparr>)"
    using add_point_view [OF assms(1), OF assms(2), of content v "completed_metadata K m" None "ca_uuid K"] by auto
  have "p = p1" "q' = q1"
    using assms(3) v a(1) by (auto simp: create_memory_point_def store_point_def split: if_splits)
  with a c show ?thesis by simp
qed

lemma get_points_one:
  assumes "qdrant_laws Q view" and "view q c = Some k"
  shows "get_points Q c [i] q = [] \<longleftrightarrow> co_points k i = None"
  using qlaws(11) [OF assms(1), OF assms(2), of "[i]"] by (auto simp: get_points_def simp flip: set_empty)

lemma edit_memory_point_view:
  assumes "qdrant_laws Q view" and "view q c = Some k" and "c \<in> {''episodic'', ''declarative''}" and "i \<noteq> []"
    and "co_points k i = Some p0" and "ca_embed K content = Inr v"
  shows "\<exists>q'. edit_memory_point Q K c i content m q =
      (Inr \<lparr>pt_id = i, pt_content = content, pt_metadata = completed_metadata K m, pt_vector = v\<rparr>, q') \<and>
    view q' = (view q)(c \<mapsto> k\<lparr>co_points := (co_points k)(i \<mapsto> \<lparr>pt_id = i, pt_content = content, pt_metadata = completed_metadata K m, pt_vector = v\<rparr>)\<rparr>)"
proof -
  have "get_points Q c [i] q \<noteq> []" using get_points_one [OF assms(1), OF assms(2)] assms(5) by simp
  moreover have "c \<noteq> ''procedural''" "c \<in> set memory_collections" using assms(3) by (auto simp: memory_collections_def)
  ultimately have e: "edit_memory_point Q K c i content m q = store_point Q K c content m (Some i) q"
    by (simp add: edit_memory_point_def)
  obtain q1 where a: "add_point Q c content v (completed_metadata K m) (Some i) (ca_uuid K) q =
      (Some \<lparr>pt_id = i, pt_content = content, pt_metadata = completed_metadata K m, pt_vector = v\<rparr>, q1)"
    "view q1 = (view q)(c \<mapsto> k\<lparr>co_points := (co_points k)(i \<mapsto> \<lparr>pt_id = i, pt_content = content, pt_metadata = completed_metadata K m, pt_vector = v\<rparr>)\<rparr>)"
    using add_point_view [OF assms(1), OF assms(2), of content v "completed_metadata K m" "Some i" "ca_uuid K"] assms(4) by auto
  then show ?thesis unfolding e by (simp add: store_point_def assms(6))
qed

lemma delete_memory_point_view:
  assumes "qdrant_laws Q view" and "view q c = Some k" and "c \<in> set memory_collections" and "co_points k i = Some p0"
  shows "\<exists>q'. delete_memory_point Q c i q = (Inr i, q') \<and> view q' = (view q)(c \<mapsto> k\<lparr>co_points := (co_points k)(i := None)\<rparr>)"
proof -
  have "get_points Q c [i] q \<noteq> []" using get_points_one [OF assms(1), OF assms(2)] assms(4) by simp
  moreover have "co_points k |` (- {i}) = (co_points k)(i := None)" by (auto simp: restrict_map_def)
  ultimately show ?thesis
    using assms(3) qlaws(7) [OF assms(1), OF assms(2), of "[i]"] by (simp add: delete_memory_point_def delete_points_def)
qed

text \<open>
  C27. Points through the endpoints.  A point that was created can be edited under the identifier it was given, also
  by another caller: the edit replaces its text, vector and metadata under the same identifier, and deleting it then leaves the
  database as it was before the point was created (when the fresh identifier was not in use).
\<close>
theorem point_life_cycle:
  assumes "qdrant_laws Q view" and "view q c = Some k" and "co_points k (ca_uuid K) = None" and "ca_uuid K \<noteq> []"
    and "create_memory_point Q K c content m q = (Inr p, q1)" and "ca_embed K2 content2 = Inr v"
  shows "pt_content p = content \<and>
    (case edit_memory_point Q K2 c (pt_id p) content2 m2 q1 of (r, q2) \<Rightarrow>
       r = Inr \<lparr>pt_id = pt_id p, pt_content = content2, pt_metadata = completed_metadata K2 m2, pt_vector = v\<rparr> \<and>
       (case delete_memory_point Q c (pt_id p) q2 of (d, q3) \<Rightarrow> d = Inr (pt_id p) \<and> view q3 = view q))"
proof -
  note cr = create_memory_point_view [OF assms(1), OF assms(2), OF assms(5)]
  have c: "c \<in> {''episodic'', ''declarative''}" "c \<in> set memory_collections" using cr by (auto simp: memory_collections_def)
  let ?k1 = "k\<lparr>co_points := (co_points k)(pt_id p \<mapsto> p)\<rparr>"
  let ?p2 = "\<lparr>pt_id = pt_id p, pt_content = content2, pt_metadata = completed_metadata K2 m2, pt_vector = v\<rparr>"
  have v1: "view q1 c = Some ?k1" and n: "pt_id p \<noteq> []" using cr assms(4) by simp_all
  obtain q2 where e: "edit_memory_point Q K2 c (pt_id p) content2 m2 q1 = (Inr ?p2, q2)"
    "view q2 = (view q1)(c \<mapsto> ?k1\<lparr>co_points := (co_points ?k1)(pt_id p \<mapsto> ?p2)\<rparr>)"
    using edit_memory_point_view [OF assms(1), OF v1, OF c(1) n _ assms(6), of p] by auto
  let ?k2 = "?k1\<lparr>co_points := (co_points ?k1)(pt_id p \<mapsto> ?p2)\<rparr>"
  have v2: "view q2 c = Some ?k2" using e(2) by simp
  obtain q3 where d: "delete_memory_point Q c (pt_id p) q2 = (Inr (pt_id p), q3)"
    "view q3 = (view q2)(c \<mapsto> ?k2\<lparr>co_points := (co_points ?k2)(pt_id p := None)\<rparr>)"
    using delete_memory_point_view [OF assms(1), OF v2, OF c(2), of "pt_id p" ?p2] by auto
  have "(co_points k)(pt_id p := None) = co_points k" using cr assms(3) by (auto simp: fun_eq_iff)
  then have "view q3 = view q" using d(2) e(2) cr assms(2) by (simp add: fun_eq_iff)
  with e(1) d(1) cr show ?thesis by simp
qed

definition demo_call :: "nat call" where
  "demo_call = \<lparr>ca_user_id = ''alice'', ca_embed = (\<lambda>t. Inr (length t)), ca_now = 5, ca_uuid = ''p2''\<rparr>"

theorem point_life_cycle_witness:
  "case create_memory_point mem_qdrant demo_call ''episodic'' ''milk'' [] demo_q of (r, q1) \<Rightarrow>
     (\<exists>p. r = Inr p \<and> pt_metadata p = [(''source'', PStr ''alice''), (''when'', PInt 5)] \<and>
        (case edit_memory_point mem_qdrant demo_call ''episodic'' (pt_id p) ''oat milk'' [] q1 of (e, q2) \<Rightarrow>
           mem_view (snd (delete_memory_point mem_qdrant ''episodic'' (pt_id p) q2)) = mem_view demo_q))"
proof -
  let ?p = "\<lparr>pt_id = ''p2'', pt_content = ''milk'', pt_metadata = [(''source'', PStr ''alice''), (''when'', PInt 5)], pt_vector = (4::nat)\<rparr>"
  have "fst (create_memory_point mem_qdrant demo_call ''episodic'' ''milk'' [] demo_q) = Inr ?p" by code_simp
  then have r: "create_memory_point mem_qdrant demo_call ''episodic'' ''milk'' [] demo_q =
      (Inr ?p, snd (create_memory_point mem_qdrant demo_call ''episodic'' ''milk'' [] demo_q))" by (metis prod.collapse)
  have v: "mem_view demo_q ''episodic'' = Some \<lparr>co_size = 3, co_aliases = [''ada_episodic''], co_points = dict_get [(''p1'', demo_point)]\<rparr>"
    by (simp add: mem_view_def demo_q_def fun_eq_iff)
  have "ca_embed demo_call ''oat milk'' = Inr 8" by (simp add: demo_call_def)
  from point_life_cycle [OF mem_qdrant_laws, OF v _ _ r this, of "[]"]
  show ?thesis by (subst r) (simp add: demo_call_def case_prod_unfold)
qed

lemma recall_loop_mem:
  "(c, ms) \<in> set (recall_loop Q u v k cs m q) \<Longrightarrow>
   c \<in> set cs \<and> (\<exists>m'. ms = recall_memories_from_embedding Q c v m' k None q \<and> (c = ''episodic'' \<longrightarrow> dict_get m' ''source'' = Some (PStr u)))"
  by (induction cs arbitrary: m) (force simp: Let_def split: if_splits)+

lemma filter_has_condition:
  assumes "dict_get m key = Some (PStr u)"
  shows "\<exists>cs. qdrant_filter_from_dict m = Some cs \<and> (''metadata.'' @ key, PStr u) \<in> set cs"
proof -
  from assms have "(key, PStr u) \<in> set m" by (rule map_of_SomeD)
  moreover have "set (build_condition key (PStr u)) = {(''metadata.'' @ key, PStr u)}" by simp
  ultimately show ?thesis by (force simp: qdrant_filter_from_dict_def)
qed

text \<open>
  C20. Recall of episodic memories is confined to the caller.  Whatever metadata filter the request carries, each list
  of the answer has at most \<open>k\<close> memories, all of them stored in that collection, and each episodic memory satisfies the
  condition that its \<open>source\<close> is the calling user, also when the request names another source.
\<close>
theorem recall_is_per_user:
  assumes "qdrant_laws Q view" and "recall_memory_points Q K query k m q = Inr recalled" and "(c, ms) \<in> set recalled"
    and "view q c = Some col"
  shows "length ms \<le> k \<and>
    (\<forall>mem \<in> set ms. case mem of ((content, md), score, vec, i) \<Rightarrow>
       \<exists>p. co_points col i = Some p \<and> pt_content p = content \<and> pt_metadata p = md \<and>
         (c = ''episodic'' \<longrightarrow> q_matches Q (''metadata.source'', PStr (ca_user_id K)) p))"
proof -
  from assms(2) obtain v where "recalled = recall_loop Q (ca_user_id K) v k memory_collections m q"
    by (auto simp: recall_memory_points_def split: sum.splits)
  with assms(3) obtain m' where ms: "ms = recall_memories_from_embedding Q c v m' k None q"
    and src: "c = ''episodic'' \<longrightarrow> dict_get m' ''source'' = Some (PStr (ca_user_id K))"
    using recall_loop_mem by metis
  let ?f = "qdrant_filter_from_dict m'"
  have "length ms \<le> k" unfolding ms using qlaws(10) [OF assms(1), OF assms(4)] by (simp add: recall_memories_from_embedding_def)
  moreover have "\<exists>p. co_points col i = Some p \<and> pt_content p = content \<and> pt_metadata p = md \<and>
         (c = ''episodic'' \<longrightarrow> q_matches Q (''metadata.source'', PStr (ca_user_id K)) p)"
    if "((content, md), score, vec, i) \<in> set ms" for content md score vec i
  proof -
    from that obtain p where p: "(p, score) \<in> set (q_query Q c v ?f k None q)" "content = pt_content p" "md = pt_metadata p" "i = pt_id p"
      unfolding ms recall_memories_from_embedding_def by auto
    have st: "co_points col (pt_id p) = Some p" and sel: "point_selected Q ?f p"
      using qlaws(9) [OF assms(1), OF assms(4), OF p(1)] by simp_all
    have "q_matches Q (''metadata.source'', PStr (ca_user_id K)) p" if "c = ''episodic''"
      using filter_has_condition [of m' "''source''" "ca_user_id K"] src that sel by (auto simp: point_selected_def)
    with st p show ?thesis by blast
  qed
  ultimately show ?thesis by auto
qed

theorem recall_is_per_user_witness:
  "case recall_memory_points mem_qdrant (demo_call\<lparr>ca_user_id := ''bob''\<rparr>) ''drinks'' 5 [(''source'', PStr ''alice'')] demo_q of
     Inl e \<Rightarrow> False
   | Inr recalled \<Rightarrow> map fst recalled = [''episodic'', ''declarative'', ''procedural''] \<and> length (snd (hd recalled)) \<le> 5 \<and>
       recalled ! 0 = (''episodic'', []) \<and> length (snd (recalled ! 1)) = 1"
proof -
  let ?r = "recall_memory_points mem_qdrant (demo_call\<lparr>ca_user_id := ''bob''\<rparr>) ''drinks'' 5 [(''source'', PStr ''alice'')] demo_q"
  have r: "?r = Inr [(''episodic'', []), (''declarative'', [((''tea'', [(''source'', PStr ''alice'')]), (), 7, ''p1'')]), (''procedural'', [])]"
    by code_simp
  have v: "mem_view demo_q ''declarative'' = Some \<lparr>co_size = 2, co_aliases = [''old_declarative''], co_points = dict_get [(''p1'', demo_point)]\<rparr>"
    by (simp add: mem_view_def demo_q_def fun_eq_iff)
  have m: "(''declarative'', [((''tea'', [(''source'', PStr ''alice'')]), (), 7::nat, ''p1'')]) \<in>
    set [(''episodic'', []), (''declarative'', [((''tea'', [(''source'', PStr ''alice'')]), (), 7, ''p1'')]), (''procedural'', [])]" by simp
  have "length [((''tea'', [(''source'', PStr ''alice'')]), (), 7::nat, ''p1'')] \<le> 5"
    by (rule recall_is_per_user [OF mem_qdrant_laws, OF r, OF m, OF v, THEN conjunct1])
  then show ?thesis unfolding r by simp
qed

text \<open>Without a filter, both endpoints give the same memories.\<close>

lemma recall_from_text_eq: "recall_memory_points_from_text Q K query k q = recall_memory_points Q K query k [] q"
  by (simp add: recall_memory_points_from_text_def recall_memory_points_def memory_collections_def Let_def split: sum.split)

text \<open>
  Deletion by metadata.  The points that remain are those that fail one of the conditions the filter is flattened to.  A
  filter that is not empty but has no leaf, such as a key with an empty dictionary or list, has no condition and so deletes every
  point of the collection.
\<close>
theorem metadata_delete_leafless:
  assumes "qdrant_laws Q view" and "view q c = Some k" and "c \<in> set memory_collections" and "m \<noteq> []"
  shows "\<exists>q'. delete_memory_points_by_metadata Q c m q = (Inr (), q') \<and>
    (\<forall>c'. c' \<noteq> c \<longrightarrow> view q' c' = view q c') \<and>
    (\<exists>k'. view q' c = Some k' \<and>
       (\<forall>i p. co_points k' i = Some p \<longleftrightarrow>
          co_points k i = Some p \<and> (\<exists>(key, v) \<in> set m. \<exists>cond \<in> set (build_condition key v). \<not> q_matches Q cond p)) \<and>
       ((\<forall>(key, v) \<in> set m. v = PDict [] \<or> v = PList []) \<longrightarrow> co_points k' = Map.empty))"
proof -
  let ?conds = "concat (map (\<lambda>(k, v). build_condition k v) m)"
  let ?pts = "\<lambda>i. case co_points k i of None \<Rightarrow> None | Some p \<Rightarrow> if point_selected Q (Some ?conds) p then None else Some p"
  have "view (q_delete Q c (ByFilter (qdrant_filter_from_dict m)) q) = (view q)(c \<mapsto> k\<lparr>co_points := ?pts\<rparr>)"
    using qlaws(8) [OF assms(1), OF assms(2)] assms(4) by (simp add: qdrant_filter_from_dict_def)
  moreover have "?pts i = Some p \<longleftrightarrow>
          co_points k i = Some p \<and> (\<exists>(key, v) \<in> set m. \<exists>cond \<in> set (build_condition key v). \<not> q_matches Q cond p)" for i p
    by (auto simp: point_selected_def split: option.splits if_splits)
  moreover have "?pts = Map.empty" if "\<forall>(key, v) \<in> set m. v = PDict [] \<or> v = PList []"
  proof -
    have "set ?conds = {}" using that by force
    then show ?thesis by (auto simp: point_selected_def fun_eq_iff split: option.split)
  qed
  ultimately show ?thesis
    using assms(3) by (simp add: delete_memory_points_by_metadata_def delete_points_by_metadata_filter_def)
qed

theorem metadata_delete_leafless_witness:
  "\<exists>k'. mem_view (snd (delete_memory_points_by_metadata mem_qdrant ''episodic'' [(''topic'', PDict [])] demo_q)) ''episodic'' = Some k' \<and>
     co_points k' = Map.empty \<and> mem_view demo_q ''episodic'' \<noteq> None"
proof -
  have v: "mem_view demo_q ''episodic'' = Some \<lparr>co_size = 3, co_aliases = [''ada_episodic''], co_points = dict_get [(''p1'', demo_point)]\<rparr>"
    by (simp add: mem_view_def demo_q_def fun_eq_iff)
  from metadata_delete_leafless [OF mem_qdrant_laws, OF v, of "[(''topic'', PDict [])]"]
  show ?thesis by (auto simp: v memory_collections_def)
qed

end
