(* ===== verification/Paging.thy ===== *)
theory Paging
  imports "HOL-Library.Countable" Vector_Memory
begin

text \<open>
  Reading a whole collection page by page: the loop that the documentation of \<open>GET /memory/collections/{id}/points\<close>
  (\<open>routes/memory/points.py\<close>) gives to clients, over the model of the endpoint.  The loop has no bound of its own,
  so it is a partial function whose value is None when it does not end.
\<close>


section \<open>The database\<close>

text \<open>
  What the client library documents about scrolling: points come in the order of their identifiers, an offset is the first identifier to
  return, at most \<open>limit\<close> points are returned, and the next offset is the identifier of the first point left out.
  The order of identifiers is given by a rank.
\<close>

definition listing :: "(string \<Rightarrow> nat) \<Rightarrow> 'e collection \<Rightarrow> 'e point list \<Rightarrow> bool" where
  "listing rank k ps \<longleftrightarrow> sorted_wrt (\<lambda>p r. rank (pt_id p) < rank (pt_id r)) ps \<and> set ps = ran (co_points k)"

definition from_offset :: "(string \<Rightarrow> nat) \<Rightarrow> string option \<Rightarrow> 'e point list \<Rightarrow> 'e point list" where
  "from_offset rank offset ps = filter (\<lambda>p. case offset of None \<Rightarrow> True | Some i \<Rightarrow> rank i \<le> rank (pt_id p)) ps"

definition page :: "nat \<Rightarrow> 'e point list \<Rightarrow> 'e point list \<times> string option" where
  "page limit ps = (take limit ps, if limit < length ps then Some (pt_id (ps ! limit)) else None)"

text \<open>A collection in which every point is stored under its own identifier, which is never empty.\<close>

definition well_stored :: "'e collection \<Rightarrow> bool" where
  "well_stored k \<longleftrightarrow> (\<forall>i p. co_points k i = Some p \<longrightarrow> pt_id p = i \<and> i \<noteq> [])"

definition scroll_laws :: "('e, 's, 'q) qdrant \<Rightarrow> ('q \<Rightarrow> string \<rightharpoonup> 'e collection) \<Rightarrow> (string \<Rightarrow> nat) \<Rightarrow> bool" where
  "scroll_laws Q view rank \<longleftrightarrow>
     (\<forall>q c k. view q c = Some k \<longrightarrow> well_stored k \<longrightarrow>
        (\<exists>ps. listing rank k ps \<and>
           (\<forall>limit offset. 0 < limit \<longrightarrow> q_scroll Q c limit offset q = page limit (from_offset rank offset ps))))"


section \<open>The client\<close>

text \<open>\<open>while True\<close>: request a page, collect its points, stop when there is no next offset.  The number of requests is counted.\<close>

partial_function (option) read_pages ::
  "(string \<Rightarrow> ('e point list \<times> string option) result) \<Rightarrow> string \<Rightarrow> 'e point list \<Rightarrow> nat \<Rightarrow> ('e point list \<times> nat) result option" where
  "read_pages request next_offset collected requests =
     (case request next_offset of
        Inl e \<Rightarrow> Some (Inl e)
      | Inr (points, None) \<Rightarrow> Some (Inr (collected @ points, Suc requests))
      | Inr (points, Some i) \<Rightarrow> read_pages request i (collected @ points) (Suc requests))"

definition read_collection ::
  "('e, 's, 'q) qdrant \<Rightarrow> string \<Rightarrow> nat \<Rightarrow> 'q \<Rightarrow> ('e point list \<times> nat) result option" where
  "read_collection Q c limit q = read_pages (\<lambda>i. get_points_in_collection Q c limit (Some i) q) [] [] 0"


section \<open>Lemmas\<close>

lemma from_offset_suffix:
  assumes "sorted_wrt (\<lambda>p r. rank (pt_id p) < rank (pt_id r)) (before @ p # after)"
  shows "from_offset rank (Some (pt_id p)) (before @ p # after) = p # after"
proof -
  have "filter (\<lambda>r. rank (pt_id p) \<le> rank (pt_id r)) before = []"
    using assms by (auto simp: filter_empty_conv sorted_wrt_append)
  moreover have "filter (\<lambda>r. rank (pt_id p) \<le> rank (pt_id r)) after = after"
    using assms by (auto simp: filter_id_conv sorted_wrt_append intro: less_imp_le)
  ultimately show ?thesis by (simp add: from_offset_def)
qed

lemma ranked_distinct: "sorted_wrt (\<lambda>p r. rank (pt_id p) < rank (pt_id r)) ps \<Longrightarrow> distinct (map pt_id ps)" for rank :: "string \<Rightarrow> nat"
  by (induction ps) auto

text \<open>The number of pages of a list, at least one.\<close>

definition pages :: "nat \<Rightarrow> nat \<Rightarrow> nat" where
  "pages limit n = (if n = 0 then 1 else (n + limit - 1) div limit)"

lemma pages_step: "0 < limit \<Longrightarrow> limit < n \<Longrightarrow> pages limit n = Suc (pages limit (n - limit))"
proof -
  assume l: "0 < limit" "limit < n"
  then have "n + limit - 1 = (n - 1) + limit" "n - limit + limit - 1 = n - 1" by simp_all
  moreover have "(n - 1 + limit) div limit = Suc ((n - 1) div limit)" using l(1) by simp
  ultimately show ?thesis using l by (simp add: pages_def)
qed

lemma pages_last: "0 < limit \<Longrightarrow> n \<le> limit \<Longrightarrow> pages limit n = 1"
proof (cases "n = 0")
  case False
  moreover assume "0 < limit" "n \<le> limit"
  moreover from calculation have "n + limit - 1 = n - 1 + limit" "(n - 1) div limit = 0" by simp_all
  moreover have "(n - 1 + limit) div limit = Suc ((n - 1) div limit)" using \<open>0 < limit\<close> by simp
  ultimately show ?thesis by (simp add: pages_def)
qed (simp add: pages_def)

lemma read_pages_suffix:
  assumes "sorted_wrt (\<lambda>p r. rank (pt_id p) < rank (pt_id r)) (before @ rest)" and "0 < limit"
    and "request i = Inr (page limit rest)"
    and "\<And>j. j \<in> pt_id ` set rest \<Longrightarrow> request j = Inr (page limit (from_offset rank (Some j) (before @ rest)))"
  shows "read_pages request i collected n = Some (Inr (collected @ rest, n + pages limit (length rest)))"
  using assms(1,3,4)
proof (induction "length rest" arbitrary: before rest i collected n rule: less_induct)
  case less
  show ?case
  proof (cases "limit < length rest")
    case False
    with less.prems(2) show ?thesis
      by (subst read_pages.simps) (simp add: page_def pages_last [OF assms(2)])
  next
    case True
    define front p after where "front = take limit rest" and "p = rest ! limit" and "after = drop (Suc limit) rest"
    have rest: "rest = front @ p # after" using True by (simp add: front_def p_def after_def id_take_nth_drop)
    have sorted: "sorted_wrt (\<lambda>p r. rank (pt_id p) < rank (pt_id r)) ((before @ front) @ p # after)"
      using less.prems(1) by (simp add: rest)
    have request: "request j = Inr (page limit (from_offset rank (Some j) ((before @ front) @ p # after)))"
      if "j \<in> pt_id ` set (p # after)" for j
      using less.prems(3) [of j] that by (auto simp: rest)
    have "request (pt_id p) = Inr (page limit (p # after))"
      using request [of "pt_id p"] from_offset_suffix [OF sorted] by simp
    moreover have "length (p # after) < length rest" using True assms(2) by (simp add: after_def)
    ultimately have "read_pages request (pt_id p) (collected @ front) (Suc n) =
        Some (Inr ((collected @ front) @ p # after, Suc n + pages limit (length (p # after))))"
      using less.hyps [OF _ sorted _ request] by blast
    moreover have "length (p # after) = length rest - limit" using True by (simp add: after_def)
    ultimately show ?thesis
      using True less.prems(2)
      by (subst read_pages.simps) (simp add: page_def pages_step [OF assms(2) True] front_def [symmetric] p_def [symmetric] rest [symmetric])
  qed
qed


section \<open>Properties\<close>

text \<open>
  C14. The documented loop ends and reads everything.  For a readable collection, whatever its size, and a positive limit, the client's loop ends
  after as many requests as there are pages, and has then collected every point of the collection exactly once, in the
  order of the identifiers.  The procedural collection is refused at the first request.
\<close>
theorem paging_terminates:
  assumes "scroll_laws Q view rank" and "view q c = Some k" and "well_stored k" and "0 < limit" and "c \<in> {''episodic'', ''declarative''}"
  shows "(\<exists>ps. read_collection Q c limit q = Some (Inr (ps, pages limit (card (dom (co_points k))))) \<and>
            set ps = ran (co_points k) \<and> distinct (map pt_id ps) \<and> sorted (map (rank \<circ> pt_id) ps)) \<and>
         read_collection Q ''procedural'' limit q = Some (Inl (HTTPException 400))"
proof -
  obtain ps where ps: "listing rank k ps"
    and scroll: "\<And>offset. q_scroll Q c limit offset q = page limit (from_offset rank offset ps)"
    using assms(1-4) unfolding scroll_laws_def by blast
  have c: "c \<noteq> ''procedural''" "c \<in> set memory_collections" using assms(5) by (auto simp: memory_collections_def)
  let ?request = "\<lambda>i. get_points_in_collection Q c limit (Some i) q"
  have named: "i \<noteq> []" if "i \<in> pt_id ` set ps" for i
    using that ps assms(3) by (auto simp: listing_def well_stored_def ran_def)
  have sorted: "sorted_wrt (\<lambda>p r. rank (pt_id p) < rank (pt_id r)) ([] @ ps)" using ps by (simp add: listing_def)
  have "?request [] = Inr (page limit ps)"
    using c by (simp add: get_points_in_collection_def get_all_points_def scroll from_offset_def)
  moreover have "?request j = Inr (page limit (from_offset rank (Some j) ([] @ ps)))" if "j \<in> pt_id ` set ps" for j
    using c named [OF that] by (simp add: get_points_in_collection_def get_all_points_def scroll)
  ultimately have r: "read_collection Q c limit q = Some (Inr (ps, pages limit (length ps)))"
    using read_pages_suffix [OF sorted assms(4), of ?request "[]" "[]" 0] by (simp add: read_collection_def)
  have d: "distinct (map pt_id ps)" using ps ranked_distinct by (auto simp: listing_def)
  have "pt_id ` set ps = dom (co_points k)"
    using ps assms(3) by (force simp: listing_def well_stored_def ran_def dom_def)
  then have "length ps = card (dom (co_points k))" using distinct_card [OF d] by simp
  moreover have "sorted (map (rank \<circ> pt_id) ps)"
    using ps by (auto simp: listing_def sorted_map intro: sorted_wrt_mono_rel [rotated] less_imp_le)
  moreover have "read_collection Q ''procedural'' limit q = Some (Inl (HTTPException 400))"
    by (simp add: read_collection_def read_pages.simps get_points_in_collection_def)
  ultimately show ?thesis using r d ps by (auto simp: listing_def)
qed


section \<open>A concrete run\<close>

definition scrolling_qdrant :: "(nat, unit, mem_db) qdrant" where
  "scrolling_qdrant = mem_qdrant\<lparr>q_scroll := (\<lambda>c limit offset q.
     page limit (from_offset to_nat offset (sort_key (to_nat \<circ> pt_id) (point_list (mem_points c q)))))\<rparr>"

lemma scrolling_laws: "scroll_laws scrolling_qdrant mem_view to_nat"
  unfolding scroll_laws_def
proof (intro allI impI)
  fix q c k
  assume v: "mem_view q c = Some k" and w: "well_stored k"
  let ?ps = "sort_key (to_nat \<circ> pt_id) (point_list (mem_points c q))"
  obtain ds where k: "co_points k = dict_get ds" "mem_points c q = ds"
    using v by (auto simp: mem_view_Some mem_points_def)
  have "distinct (map pt_id (point_list ds))"
  proof -
    have "map pt_id (List.map_filter (dict_get ds) is) = filter (\<lambda>i. dict_get ds i \<noteq> None) is" for "is"
      using w by (induction "is") (auto simp: well_stored_def k List.map_filter_simps split: option.split)
    then show ?thesis by (simp add: point_list_def)
  qed
  then have "distinct (map (to_nat \<circ> pt_id) ?ps)"
    by (auto simp: distinct_map inj_on_def k(2))
  moreover have "sorted (map (to_nat \<circ> pt_id) ?ps)" by (rule sorted_sort_key)
  ultimately have "sorted_wrt (<) (map (to_nat \<circ> pt_id) ?ps)" by (simp only: strict_sorted_iff)
  then have "sorted_wrt (\<lambda>p r. to_nat (pt_id p) < to_nat (pt_id r)) ?ps" by (simp only: sorted_wrt_map comp_def)
  then have "listing to_nat k ?ps" by (simp add: listing_def k set_point_list)
  then show "\<exists>ps. listing to_nat k ps \<and> (\<forall>limit offset. 0 < limit \<longrightarrow>
      q_scroll scrolling_qdrant c limit offset q = page limit (from_offset to_nat offset ps))"
    by (intro exI [of _ ?ps]) (simp add: scrolling_qdrant_def)
qed

definition three_points :: "(string, nat point) dict" where
  "three_points = map (\<lambda>i. (i, \<lparr>pt_id = i, pt_content = i, pt_metadata = [], pt_vector = 0\<rparr>)) [''b'', ''a'', ''c'']"

theorem paging_terminates_witness:
  "\<exists>ps. read_collection scrolling_qdrant ''episodic'' 2 [(''episodic'', 3, [], three_points)] = Some (Inr (ps, 2)) \<and> length ps = 3"
proof -
  let ?q = "[(''episodic'', 3 :: nat, [] :: string list, three_points)]"
  let ?k = "\<lparr>co_size = 3, co_aliases = [], co_points = dict_get three_points\<rparr>"
  have v: "mem_view ?q ''episodic'' = Some ?k" by (simp add: mem_view_def)
  have w: "well_stored ?k" by (auto simp: well_stored_def three_points_def split: if_splits)
  have "dom (dict_get three_points) = fst ` set three_points" by (rule dom_map_of_conv_image_fst)
  then have d: "dom (co_points ?k) = {''b'', ''a'', ''c''}" by (simp add: three_points_def)
  have n: "pages 2 (card (dom (co_points ?k))) = 2" unfolding d by (simp add: pages_def)
  have l: "0 < (2 :: nat)" "''episodic'' \<in> {''episodic'', ''declarative''}" by simp_all
  from paging_terminates [where limit = 2, OF scrolling_laws, OF v w l]
  obtain ps where ps: "read_collection scrolling_qdrant ''episodic'' 2 ?q = Some (Inr (ps, 2))"
    "set ps = ran (co_points ?k)" "distinct (map pt_id ps)" unfolding n by blast
  have "set ps = snd ` set three_points"
    unfolding ps(2) by (simp add: ran_distinct three_points_def)
  then have "pt_id ` set ps = {''b'', ''a'', ''c''}" by (simp add: three_points_def image_image)
  then have "length ps = 3" using distinct_card [OF ps(3)] by simp
  with ps(1) show ?thesis by blast
qed

end
