(* ===== verification/Environment.thy ===== *)
theory Environment
  imports Py_Text
begin

text \<open>
  Configuration of the process: environment variables with their defaults and legacy names (\<open>env.py\<close>), what \<open>main.py\<close> and
  \<open>startup.py\<close> make of them, addresses (\<open>utils.py\<close>), the choice of the vector database
  (\<open>VectorMemory.connect_to_vector_memory\<close>), and the folders the plugins prepare at import (\<open>setup_workspace.py\<close> with
  \<open>get_workspace_root\<close> of \<open>config.py\<close>, and \<open>setup_folders.py\<close>).  \<open>os.environ\<close> is a dictionary; the functions that read it take it as an argument.
\<close>


section \<open>Variables (env.py)\<close>

type_synonym environ = "(string, string) dict"

definition get_supported_env_variables :: "(string, string option) dict" where
  "get_supported_env_variables =
     [(''CCAT_CORE_HOST'', Some ''localhost''),
      (''CCAT_CORE_PORT'', Some ''1865''),
      (''CCAT_CORE_USE_SECURE_PROTOCOLS'', Some []),
      (''CCAT_API_KEY'', None),
      (''CCAT_API_KEY_WS'', None),
      (''CCAT_DEBUG'', Some ''true''),
      (''CCAT_LOG_LEVEL'', Some ''INFO''),
      (''CCAT_CORS_ALLOWED_ORIGINS'', None),
      (''CCAT_QDRANT_HOST'', None),
      (''CCAT_QDRANT_PORT'', Some ''6333''),
      (''CCAT_QDRANT_API_KEY'', None),
      (''CCAT_SAVE_MEMORY_SNAPSHOTS'', Some ''false''),
      (''CCAT_METADATA_FILE'', Some ''cat/data/metadata.json''),
      (''CCAT_JWT_SECRET'', Some ''secret''),
      (''CCAT_JWT_ALGORITHM'', Some ''HS256''),
      (''CCAT_JWT_EXPIRE_MINUTES'', Some (show_nat (60 * 24))),
      (''CCAT_HTTPS_PROXY_MODE'', Some ''false''),
      (''CCAT_CORS_FORWARDED_ALLOW_IPS'', Some ''*''),
      (''CCAT_CORS_ENABLED'', Some ''true''),
      (''CCAT_CACHE_TYPE'', Some ''in_memory''),
      (''CCAT_CACHE_DIR'', Some ''/tmp''),
      (''CCAT_QDRANT_CLIENT_TIMEOUT'', None)]"

definition legacy_name :: "string \<Rightarrow> string" where
  "legacy_name name = replace_all ''CCAT_'' [] name"

definition fix_legacy_env_variables :: "environ \<Rightarrow> environ" where
  "fix_legacy_env_variables env =
     fold (\<lambda>(new_name, _) env.
             case dict_get env (legacy_name new_name) of
               None \<Rightarrow> env
             | Some v \<Rightarrow> if v \<noteq> [] then dict_set new_name v env else env)
       get_supported_env_variables env"

definition get_env :: "environ \<Rightarrow> string \<Rightarrow> string option" where
  "get_env env name =
     (let defaults = dict_merge get_supported_env_variables (map (\<lambda>(k, v). (legacy_name k, v)) get_supported_env_variables);
          default = (case dict_get defaults name of Some d \<Rightarrow> d | None \<Rightarrow> None)
      in case dict_get env name of Some v \<Rightarrow> Some v | None \<Rightarrow> default)"


section \<open>What the process makes of them\<close>

text \<open>f-strings print \<open>None\<close> where a variable has no value.\<close>

definition show_env :: "string option \<Rightarrow> string" where
  "show_env v = (case v of None \<Rightarrow> ''None'' | Some s \<Rightarrow> s)"

definition get_base_url :: "environ \<Rightarrow> string" where
  "get_base_url env =
     ''http'' @ (if get_env env ''CCAT_CORE_USE_SECURE_PROTOCOLS'' \<in> {Some ''true'', Some ''1''} then ''s'' else []) @ ''://'' @
     show_env (get_env env ''CCAT_CORE_HOST'') @ '':'' @ show_env (get_env env ''CCAT_CORE_PORT'') @ ''/''"

definition get_static_url :: "environ \<Rightarrow> string" where
  "get_static_url env = get_base_url env @ ''static/''"

text \<open>The origins of the middleware of \<open>startup.py\<close>; None when it is not installed.\<close>

definition cors_origins :: "environ \<Rightarrow> string list option" where
  "cors_origins env =
     (if get_env env ''CCAT_CORS_ENABLED'' = Some ''true''
      then Some (case get_env env ''CCAT_CORS_ALLOWED_ORIGINS'' of
                   Some (c # cs) \<Rightarrow> split_on CHR '','' (c # cs)
                 | _ \<Rightarrow> [''*''])
      else None)"

record uvicorn_config =
  uv_log_level :: string
  uv_reload :: bool
  uv_forwarded_allow_ips :: "string option option"

text \<open>\<open>main.py\<close>: the legacy variables are fixed first; a log level that is None would have no \<open>lower\<close>.\<close>

definition main_config :: "environ \<Rightarrow> uvicorn_config result \<times> environ" where
  "main_config env =
     (let env = fix_legacy_env_variables env
      in (case get_env env ''CCAT_LOG_LEVEL'' of
            None \<Rightarrow> Inl (AttributeError ''lower'')
          | Some level \<Rightarrow>
              Inr \<lparr>uv_log_level = lower level,
                   uv_reload = (get_env env ''CCAT_DEBUG'' = Some ''true''),
                   uv_forwarded_allow_ips =
                     (if get_env env ''CCAT_HTTPS_PROXY_MODE'' \<in> {Some ''1'', Some ''true''}
                      then Some (get_env env ''CCAT_CORS_FORWARDED_ALLOW_IPS'') else None)\<rparr>, env))"


section \<open>The vector database\<close>

definition is_https :: "string \<Rightarrow> bool" where
  "is_https url = (case urlparse url of Inl _ \<Rightarrow> False | Inr (scheme, _, _) \<Rightarrow> scheme = ''https'')"

definition extract_domain_from_url :: "string \<Rightarrow> string" where
  "extract_domain_from_url url = (case urlparse url of Inl _ \<Rightarrow> url | Inr (_, netloc, path) \<Rightarrow> netloc @ path)"

text \<open>
  \<open>int(s)\<close> for decimal digits with an optional sign and white space around; underscores are left out.
\<close>

definition int_of_text :: "string \<Rightarrow> int result" where
  "int_of_text s =
     (let t = strip s; sign = (case t of c # _ \<Rightarrow> if c = CHR ''-'' then -1 else 1 | [] \<Rightarrow> 1);
          digits = (case t of c # r \<Rightarrow> if c = CHR ''-'' \<or> c = CHR ''+'' then r else t | [] \<Rightarrow> [])
      in if digits \<noteq> [] \<and> list_all is_digit digits then Inr (sign * int (read_nat digits))
         else Inl (ValueError ''invalid literal for int() with base 10''))"

datatype vector_db =
    LocalClient string
  | RemoteClient string int bool "string option" "int option"

text \<open>
  \<open>responds\<close> tells whether a socket can be connected.  The local client is kept in the class for the life of the process.
  A server that does not respond ends the process.
\<close>

definition connect_to_vector_memory ::
  "environ \<Rightarrow> (string \<Rightarrow> int \<Rightarrow> bool) \<Rightarrow> vector_db option \<Rightarrow> vector_db result \<times> vector_db option" where
  "connect_to_vector_memory env responds local_vector_db =
     (case get_env env ''CCAT_QDRANT_HOST'' of
        Some (c # cs) \<Rightarrow>
          (case get_env env ''CCAT_QDRANT_PORT'' of
             None \<Rightarrow> (Inl TypeError, local_vector_db)
           | Some p \<Rightarrow>
               (case int_of_text p of
                  Inl e \<Rightarrow> (Inl e, local_vector_db)
                | Inr port \<Rightarrow>
                    (case (case get_env env ''CCAT_QDRANT_CLIENT_TIMEOUT'' of
                             None \<Rightarrow> Inr None | Some t \<Rightarrow> map_sum id Some (int_of_text t)) of
                       Inl e \<Rightarrow> (Inl e, local_vector_db)
                     | Inr timeout \<Rightarrow>
                         (let host = extract_domain_from_url (c # cs)
                          in if responds host port
                             then (Inr (RemoteClient host port (is_https (c # cs)) (get_env env ''CCAT_QDRANT_API_KEY'') timeout), local_vector_db)
                             else (Inl (Exception ''SystemExit''), local_vector_db)))))
      | _ \<Rightarrow>
          (case local_vector_db of
             Some db \<Rightarrow> (Inr db, local_vector_db)
           | None \<Rightarrow> (Inr (LocalClient ''cat/data/local_vector_memory/''), Some (LocalClient ''cat/data/local_vector_memory/''))))"


section \<open>Folders prepared at import\<close>

text \<open>Absolute paths as texts; what exists below is files and folders.  \<open>fs_refuses\<close> lists the paths the process may not create.\<close>

record disk =
  fs_folders :: "string list"
  fs_files :: "(string, string) dict"
  fs_refuses :: "string list"

definition path_exists :: "string \<Rightarrow> disk \<Rightarrow> bool" where
  "path_exists p d \<longleftrightarrow> p \<in> set (fs_folders d) \<or> p \<in> set (dict_keys (fs_files d))"

definition make_folder :: "string \<Rightarrow> disk \<Rightarrow> disk option" where
  "make_folder p d =
     (if p \<in> set (fs_refuses d) \<or> p \<in> set (dict_keys (fs_files d)) then None
      else Some (if p \<in> set (fs_folders d) then d else d\<lparr>fs_folders := fs_folders d @ [p]\<rparr>))"

definition write_file :: "string \<Rightarrow> string \<Rightarrow> disk \<Rightarrow> disk option" where
  "write_file p content d =
     (if p \<in> set (fs_refuses d) \<or> p \<in> set (fs_folders d) then None else Some (d\<lparr>fs_files := dict_set p content (fs_files d)\<rparr>))"

definition resolve_path :: "string \<Rightarrow> string \<Rightarrow> string" where
  "resolve_path repo_root p = (if take 1 p = ''/'' then p else repo_root @ ''/'' @ p)"

text \<open>The variable wins over the settings, these over the default; values that are false count as absent.\<close>

definition get_workspace_root :: "string \<Rightarrow> environ \<Rightarrow> (string, pyval) dict \<Rightarrow> string result" where
  "get_workspace_root repo_root env settings =
     (case dict_get env ''ISO26262_WORKSPACE_ROOT'' of
        Some (c # cs) \<Rightarrow> Inr (resolve_path repo_root (c # cs))
      | _ \<Rightarrow>
          (case dict_get settings ''workspace_root'' of
             Some v \<Rightarrow>
               if truthy v then (case v of PStr s \<Rightarrow> Inr (resolve_path repo_root s) | _ \<Rightarrow> Inl TypeError)
               else Inr (resolve_path repo_root ''work_products'')
           | None \<Rightarrow> Inr (resolve_path repo_root ''work_products'')))"

text \<open>\<open>readme\<close> is the fixed text of the file.  Every exception is caught and logged; what was made before it stays.\<close>

definition setup_workspace :: "string \<Rightarrow> string \<Rightarrow> disk \<Rightarrow> disk" where
  "setup_workspace readme root d =
     (case make_folder root d of
        None \<Rightarrow> d
      | Some d \<Rightarrow>
          if path_exists (root @ ''/README.txt'') d then d
          else (case write_file (root @ ''/README.txt'') readme d of None \<Rightarrow> d | Some d \<Rightarrow> d))"

definition setup_plugin_folder :: "string \<Rightarrow> string \<Rightarrow> string \<Rightarrow> disk \<Rightarrow> disk" where
  "setup_plugin_folder readme plugin_folder folder_name d =
     (let p = plugin_folder @ ''/'' @ folder_name
      in if path_exists p d then d
         else (case make_folder p d of
                 None \<Rightarrow> d
               | Some d \<Rightarrow>
                   if folder_name = ''item_definitions''
                   then (case write_file (p @ ''/README.txt'') readme d of None \<Rightarrow> d | Some d \<Rightarrow> d)
                   else d))"

definition setup_plugin_folders :: "string \<Rightarrow> string \<Rightarrow> disk \<Rightarrow> disk" where
  "setup_plugin_folders readme plugin_folder d =
     fold (setup_plugin_folder readme plugin_folder) [''item_definitions'', ''templates''] d"

section \<open>Lemmas\<close>

lemma supported_ok: "dict_ok get_supported_env_variables"
  and legacy_disjoint: "legacy_name ` set (dict_keys get_supported_env_variables) \<inter> set (dict_keys get_supported_env_variables) = {}"
proof -
  show "dict_ok get_supported_env_variables" by code_simp
  have "list_all (\<lambda>n. legacy_name n \<notin> set (dict_keys get_supported_env_variables)) (dict_keys get_supported_env_variables)" by code_simp
  then show "legacy_name ` set (dict_keys get_supported_env_variables) \<inter> set (dict_keys get_supported_env_variables) = {}"
    by (auto simp: list_all_iff)
qed

definition overridden :: "string option \<Rightarrow> string option \<Rightarrow> string option" where
  "overridden legacy own = (case legacy of Some v \<Rightarrow> if v \<noteq> [] then Some v else own | None \<Rightarrow> own)"

lemma fold_legacy:
  assumes "distinct (dict_keys l)" and "f ` set (dict_keys l) \<inter> set (dict_keys l) = {}"
  shows "dict_get (fold (\<lambda>(k, _) env. case dict_get env (f k) of None \<Rightarrow> env | Some v \<Rightarrow> if v \<noteq> [] then dict_set k v env else env) l env) n =
    (if n \<in> set (dict_keys l) then overridden (dict_get env (f n)) (dict_get env n) else dict_get env n)"
  using assms
proof (induction l arbitrary: env)
  case (Cons p l)
  obtain k d where p: "p = (k, d)" by fastforce
  let ?env = "case dict_get env (f k) of None \<Rightarrow> env | Some v \<Rightarrow> if v \<noteq> [] then dict_set k v env else env"
  have get: "dict_get ?env m = (if m = k then overridden (dict_get env (f k)) (dict_get env k) else dict_get env m)" for m
    by (simp add: overridden_def split: option.split)
  have "f n \<noteq> k" if "n \<in> set (dict_keys (p # l))" using Cons.prems(2) that by (force simp: p)
  then show ?case using Cons by (auto simp: p get)
qed simp

lemma fix_legacy_get:
  "dict_get (fix_legacy_env_variables env) n =
     (if n \<in> set (dict_keys get_supported_env_variables) then overridden (dict_get env (legacy_name n)) (dict_get env n) else dict_get env n)"
  unfolding fix_legacy_env_variables_def by (rule fold_legacy [OF supported_ok legacy_disjoint])

lemma default_env:
  assumes "(k, d) \<in> set get_supported_env_variables"
  shows "get_env env k = (case dict_get env k of Some v \<Rightarrow> Some v | None \<Rightarrow> d)"
proof -
  let ?legacy = "map (\<lambda>(k, v). (legacy_name k, v)) get_supported_env_variables"
  have "dict_ok ?legacy" by code_simp
  moreover have "dict_get ?legacy k = None"
  proof -
    have "dict_keys ?legacy = map legacy_name (dict_keys get_supported_env_variables)" by (simp add: case_prod_unfold)
    moreover have "k \<in> set (dict_keys get_supported_env_variables)" using assms by (metis fst_conv image_eqI set_map)
    then have "k \<notin> legacy_name ` set (dict_keys get_supported_env_variables)" using legacy_disjoint by blast
    ultimately show ?thesis unfolding map_of_eq_None_iff by (metis set_map)
  qed
  moreover have "dict_get get_supported_env_variables k = Some d" using assms supported_ok by simp
  ultimately have "dict_get (dict_merge get_supported_env_variables ?legacy) k = Some d"
    unfolding dict_get_merge [OF \<open>dict_ok ?legacy\<close>] by (simp only: map_add_def option.case)
  then show ?thesis by (simp only: get_env_def Let_def option.case)
qed


section \<open>Properties\<close>

text \<open>
  C38. Where a setting of the process comes from.  After the start a supported variable has the value of its legacy name, if that is set and not
  empty, even when the variable itself is set; otherwise its own value, otherwise its default.  Variables with a default always
  have a value, so computing the arguments that \<open>main.py\<close> gives to the server never raises
  (the server may still refuse a value, such as an unknown log level); other variables are as they were; fixing twice is fixing once.
\<close>
theorem environment_resolution:
  assumes "(k, d) \<in> set get_supported_env_variables"
  shows "get_env (fix_legacy_env_variables env) k =
           (case overridden (dict_get env (legacy_name k)) (dict_get env k) of Some v \<Rightarrow> Some v | None \<Rightarrow> d) \<and>
         (d \<noteq> None \<longrightarrow> get_env env k \<noteq> None) \<and>
         \<not> isl (fst (main_config env)) \<and>
         (\<forall>n. n \<notin> set (dict_keys get_supported_env_variables) \<longrightarrow> dict_get (fix_legacy_env_variables env) n = dict_get env n) \<and>
         dict_get (fix_legacy_env_variables (fix_legacy_env_variables env)) = dict_get (fix_legacy_env_variables env)"
proof -
  have k: "k \<in> set (dict_keys get_supported_env_variables)" using assms by force
  have "(''CCAT_LOG_LEVEL'', Some ''INFO'') \<in> set get_supported_env_variables" by (simp add: get_supported_env_variables_def)
  from default_env [OF this, of "fix_legacy_env_variables env"] have "\<not> isl (fst (main_config env))"
    by (auto simp: main_config_def Let_def split: option.split)
  moreover have "legacy_name n \<notin> set (dict_keys get_supported_env_variables)" if "n \<in> set (dict_keys get_supported_env_variables)" for n
    using that legacy_disjoint by blast
  then have "dict_get (fix_legacy_env_variables (fix_legacy_env_variables env)) n = dict_get (fix_legacy_env_variables env) n" for n
    by (cases "n \<in> set (dict_keys get_supported_env_variables)") (auto simp: fix_legacy_get overridden_def split: option.split)
  ultimately show ?thesis using k by (auto simp: default_env [OF assms] fix_legacy_get split: option.split)
qed

text \<open>A \<open>DEBUG\<close> of another program turns the own setting over.\<close>

theorem environment_resolution_witness:
  "get_env (fix_legacy_env_variables [(''CCAT_DEBUG'', ''true''), (''DEBUG'', ''0'')]) ''CCAT_DEBUG'' = Some ''0''"
proof -
  have k: "(''CCAT_DEBUG'', Some ''true'') \<in> set get_supported_env_variables" by (simp add: get_supported_env_variables_def)
  have l: "legacy_name ''CCAT_DEBUG'' = ''DEBUG''" by code_simp
  show ?thesis using environment_resolution [OF k, THEN conjunct1, of "[(''CCAT_DEBUG'', ''true''), (''DEBUG'', ''0'')]"]
    by (simp add: l overridden_def)
qed

text \<open>The local database is opened once: every later connection of the process gets the same client, and a remote one leaves it alone.\<close>

lemma local_client_kept:
  assumes "connect_to_vector_memory env responds l = (r, Some db)" and "get_env env' ''CCAT_QDRANT_HOST'' \<in> {None, Some []}"
  shows "connect_to_vector_memory env' responds' (Some db) = (Inr db, Some db)"
  using assms(2) by (auto simp: connect_to_vector_memory_def)

text \<open>Preparing the folders again changes nothing, and no file is overwritten or removed.\<close>

lemma setup_workspace_again:
  "setup_workspace readme root (setup_workspace readme root d) = setup_workspace readme root d"
  by (auto simp: setup_workspace_def make_folder_def write_file_def path_exists_def dict_fst_set split: option.splits if_splits)

lemma setup_workspace_keeps:
  "dict_get (fs_files d) p = Some s \<Longrightarrow> dict_get (fs_files (setup_workspace readme root d)) p = Some s"
  by (auto simp: setup_workspace_def make_folder_def write_file_def path_exists_def image_iff split: option.splits if_splits
      dest!: map_of_SomeD)

end
