(* ===== verification/Cache.thy ===== *)
theory Cache
  imports Prelude
begin

text \<open>
  The cache of \<open>core/cat/cache\<close>: \<open>CacheItem\<close>, the in-memory cache with its eviction, the
  file-system cache, and the \<open>CacheManager\<close> that selects one of them.  The abstract class
  \<open>BaseCache\<close> is the locale \<open>base_cache\<close>; both implementations interpret it.

  Clock readings are explicit arguments of an ordered number type, so that the same
  definitions serve for floating point seconds read as real numbers and for the integers of
  the witnesses.  The file system is a map from literal path names to pickled items; pickling
  an item and loading it back gives the same item, and path names are not normalised.  An insert that
  raises (a value that cannot be pickled, a key with a slash whose folder does not exist, a full disk) is not
  modelled: the statements are about runs in which every insert succeeds.
\<close>


section \<open>Cache items\<close>

record ('v, 't) cache_item =
  ci_key :: string
  ci_value :: 'v
  ci_ttl :: "'t option"
  ci_created_at :: 't

definition new_cache_item :: "'t \<Rightarrow> string \<Rightarrow> 'v \<Rightarrow> 't option \<Rightarrow> ('v, 't) cache_item" where
  "new_cache_item now k v ttl = \<lparr>ci_key = k, ci_value = v, ci_ttl = ttl, ci_created_at = now\<rparr>"

definition is_expired :: "'t::linordered_idom \<Rightarrow> ('v, 't) cache_item \<Rightarrow> bool" where
  "is_expired now it =
     (case ci_ttl it of
        None \<Rightarrow> False
      | Some ttl \<Rightarrow> if ttl = - 1 then False else ci_created_at it + ttl < now)"


section \<open>The in-memory cache\<close>

record ('v, 't) in_memory_cache =
  imc_items :: "(string, ('v, 't) cache_item) dict"
  imc_max_items :: nat

definition imc_init :: "('v, 't) in_memory_cache" where
  "imc_init = \<lparr>imc_items = [], imc_max_items = 100\<rparr>"

definition imc_delete :: "string \<Rightarrow> ('v, 't) in_memory_cache \<Rightarrow> ('v, 't) in_memory_cache" where
  "imc_delete k c =
     (if k \<in> set (dict_keys (imc_items c)) then c\<lparr>imc_items := dict_del k (imc_items c)\<rparr> else c)"

definition imc_insert ::
  "('v, 't::linordered_idom) cache_item \<Rightarrow> ('v, 't) in_memory_cache \<Rightarrow> ('v, 't) in_memory_cache" where
  "imc_insert it c =
     (let c1 = c\<lparr>imc_items := dict_set (ci_key it) it (imc_items c)\<rparr> in
      if imc_max_items c1 \<le> length (imc_items c1) then
        let sorted_items = sort_key (\<lambda>x. ci_created_at (snd x)) (imc_items c1)
        in fold (\<lambda>(k, v). imc_delete k) (take (imc_max_items c1 div 10) sorted_items) c1
      else c1)"

definition imc_get_item ::
  "'t::linordered_idom \<Rightarrow> string \<Rightarrow> ('v, 't) in_memory_cache
     \<Rightarrow> ('v, 't) cache_item option \<times> ('v, 't) in_memory_cache" where
  "imc_get_item now k c =
     (case dict_get (imc_items c) k of
        None \<Rightarrow> (None, c)
      | Some it \<Rightarrow>
          if is_expired now it then (None, c\<lparr>imc_items := dict_del k (imc_items c)\<rparr>)
          else (Some it, c))"

definition imc_get_value ::
  "'t::linordered_idom \<Rightarrow> string \<Rightarrow> ('v, 't) in_memory_cache
     \<Rightarrow> 'v option \<times> ('v, 't) in_memory_cache" where
  "imc_get_value now k c =
     (case imc_get_item now k c of
        (None, c') \<Rightarrow> (None, c')
      | (Some it, c') \<Rightarrow> (Some (ci_value it), c'))"

text \<open>The invariant: keys are distinct, items sit under their own key, and there is room.\<close>

definition imc_invar :: "('v, 't) in_memory_cache \<Rightarrow> bool" where
  "imc_invar c \<longleftrightarrow>
     dict_ok (imc_items c) \<and> imc_max_items c = 100 \<and> length (imc_items c) < 100 \<and>
     (\<forall>(k, it) \<in> set (imc_items c). ci_key it = k)"

definition imc_lookup :: "('v, 't) in_memory_cache \<Rightarrow> string \<Rightarrow> ('v, 't) cache_item option" where
  "imc_lookup c k = dict_get (imc_items c) k"


subsection \<open>Eviction\<close>

text \<open>Deleting several keys one after the other is one filter over the dictionary.\<close>

lemma imc_delete_items: "imc_delete k c = c\<lparr>imc_items := filter (\<lambda>p. fst p \<noteq> k) (imc_items c)\<rparr>"
  by (simp add: imc_delete_def dict_del_absent flip: dict_del_filter)

lemma fold_imc_delete:
  "fold (\<lambda>(k, v). imc_delete k) ps c =
     c\<lparr>imc_items := filter (\<lambda>p. fst p \<notin> fst ` set ps) (imc_items c)\<rparr>"
  by (induction ps arbitrary: c)
    (auto simp: imc_delete_items case_prod_unfold intro: filter_cong)

text \<open>Dropping the keys of the first \<open>n\<close> entries of the sorted list leaves exactly the others.\<close>

lemma mset_evict:
  assumes "dict_ok d"
  shows "mset (filter (\<lambda>p. fst p \<notin> fst ` set (take n (sort_key f d))) d) = mset (drop n (sort_key f d))"
proof -
  let ?sd = "sort_key f d" and ?P = "\<lambda>p. fst p \<notin> fst ` set (take n (sort_key f d))"
  have sd: "take n ?sd @ drop n ?sd = ?sd" by simp
  have "distinct (map fst ?sd)"
    using assms mset_eq_imp_distinct_iff [of "map fst ?sd" "map fst d"] by simp
  then have disj: "fst ` set (take n ?sd) \<inter> fst ` set (drop n ?sd) = {}"
    by (metis distinct_append list.set_map map_append sd)
  have "mset (filter ?P d) = mset (filter ?P ?sd)"
    by simp
  also have "filter ?P ?sd = filter ?P (take n ?sd) @ filter ?P (drop n ?sd)"
    by (metis filter_append sd)
  also have "filter ?P (take n ?sd) = []"
    by (simp add: filter_empty_conv)
  also have "filter ?P (drop n ?sd) = drop n ?sd"
    using disj by (auto simp: filter_id_conv)
  finally show ?thesis by simp
qed

lemma imc_insert_items:
  fixes it :: "('v, 't::linordered_idom) cache_item"
  assumes "imc_invar c"
  defines "d \<equiv> dict_set (ci_key it) it (imc_items c)"
  defines "sd \<equiv> sort_key (\<lambda>x. ci_created_at (snd x)) d"
  shows "mset (imc_items (imc_insert it c)) = (if 100 \<le> length d then mset (drop 10 sd) else mset d)"
    and "imc_max_items (imc_insert it c) = 100"
    and "set (imc_items (imc_insert it c)) \<subseteq> set d"
    and "dict_ok (imc_items (imc_insert it c))"
proof -
  let ?d' = "imc_items (imc_insert it c)"
  from assms have max: "imc_max_items c = 100" and ok: "dict_ok d"
    by (auto simp: imc_invar_def)
  have eq: "imc_insert it c =
      (if 100 \<le> length d then c\<lparr>imc_items := filter (\<lambda>p. fst p \<notin> fst ` set (take 10 sd)) d\<rparr>
       else c\<lparr>imc_items := d\<rparr>)"
    by (simp add: imc_insert_def Let_def fold_imc_delete max d_def sd_def)
  show ms: "mset ?d' = (if 100 \<le> length d then mset (drop 10 sd) else mset d)"
    using mset_evict [OF ok, of 10 "\<lambda>x. ci_created_at (snd x)"] by (simp add: eq sd_def)
  show "imc_max_items (imc_insert it c) = 100" by (simp add: eq max)
  show "set ?d' \<subseteq> set d" by (auto simp: eq)
  show "dict_ok ?d'" using ok by (simp add: eq distinct_map_filter)
qed

lemma imc_length_insert:
  assumes "imc_invar c"
  shows "length (imc_items (imc_insert it c)) < 100"
proof -
  let ?d = "dict_set (ci_key it) it (imc_items c)"
  from assms have "length ?d \<le> 100"
    by (auto simp: imc_invar_def length_dict_set)
  moreover have "length (imc_items (imc_insert it c)) = (if 100 \<le> length ?d then length ?d - 10 else length ?d)"
    using arg_cong [OF imc_insert_items(1) [OF assms, of it], of size] by (simp split: if_splits)
  ultimately show ?thesis by (auto split: if_splits)
qed

lemma imc_invar_insert: "imc_invar c \<Longrightarrow> imc_invar (imc_insert it c)"
proof -
  assume c: "imc_invar c"
  have "ci_key v = k" if "(k, v) \<in> set (imc_items (imc_insert it c))" for k v
    using that imc_insert_items(3) [OF c, of it] c dict_set_mem [of k v "ci_key it" it "imc_items c"]
    by (auto simp: imc_invar_def)
  with imc_insert_items [OF c, of it] imc_length_insert [OF c, of it] show ?thesis
    by (auto simp: imc_invar_def)
qed

lemma imc_invar_delete: "imc_invar c \<Longrightarrow> imc_invar (imc_delete k c)"
  by (auto simp: imc_invar_def imc_delete_items distinct_map_filter
      intro: le_less_trans [OF length_filter_le])

lemma imc_invar_init: "imc_invar imc_init"
  by (simp add: imc_invar_def imc_init_def)

lemma imc_lookup_delete: "imc_lookup (imc_delete k c) k' = (if k' = k then None else imc_lookup c k')"
  by (simp add: imc_lookup_def imc_delete_items flip: dict_del_filter)

lemma imc_lookup_insert:
  assumes "imc_invar c"
  shows "imc_lookup (imc_insert it c) k = None \<or>
    imc_lookup (imc_insert it c) k = (if k = ci_key it then Some it else imc_lookup c k)"
proof -
  let ?d = "dict_set (ci_key it) it (imc_items c)"
  have ok: "dict_ok ?d" using assms by (simp add: imc_invar_def)
  have sub: "dict_get (imc_items (imc_insert it c)) k = Some v \<Longrightarrow> dict_get ?d k = Some v" for v
    using imc_insert_items(3,4) [OF assms, of it] ok
    by (meson map_of_SomeD map_of_is_SomeI subsetD)
  show ?thesis
    by (cases "dict_get (imc_items (imc_insert it c)) k") (use sub in \<open>auto simp: imc_lookup_def split: if_splits\<close>)
qed


section \<open>The file-system cache\<close>

record ('v, 't) file_system_cache =
  fsc_dir :: string
  fsc_files :: "string \<rightharpoonup> ('v, 't) cache_item"

text \<open>\<open>os.path.join(folder, name)\<close>: an absolute name replaces the folder.\<close>

definition path_join :: "string \<Rightarrow> string \<Rightarrow> string" where
  "path_join folder name =
     (if name \<noteq> [] \<and> hd name = CHR ''/'' then name
      else if folder = [] \<or> last folder = CHR ''/'' then folder @ name
      else folder @ ''/'' @ name)"

definition fsc_init :: "(string \<rightharpoonup> ('v, 't) cache_item) \<Rightarrow> string \<Rightarrow> ('v, 't) file_system_cache" where
  "fsc_init files folder = \<lparr>fsc_dir = folder, fsc_files = files\<rparr>"

definition fsc_get_file_path :: "('v, 't) file_system_cache \<Rightarrow> string \<Rightarrow> string" where
  "fsc_get_file_path c k = path_join (fsc_dir c) (k @ ''.cache'')"

definition fsc_insert ::
  "('v, 't) cache_item \<Rightarrow> ('v, 't) file_system_cache \<Rightarrow> ('v, 't) file_system_cache" where
  "fsc_insert it c = c\<lparr>fsc_files := (fsc_files c)(fsc_get_file_path c (ci_key it) \<mapsto> it)\<rparr>"

definition fsc_get_item ::
  "'t::linordered_idom \<Rightarrow> string \<Rightarrow> ('v, 't) file_system_cache
     \<Rightarrow> ('v, 't) cache_item option \<times> ('v, 't) file_system_cache" where
  "fsc_get_item now k c =
     (let file_path = fsc_get_file_path c k in
      case fsc_files c file_path of
        None \<Rightarrow> (None, c)
      | Some it \<Rightarrow>
          if is_expired now it then (None, c\<lparr>fsc_files := (fsc_files c)(file_path := None)\<rparr>)
          else (Some it, c))"

definition fsc_get_value ::
  "'t::linordered_idom \<Rightarrow> string \<Rightarrow> ('v, 't) file_system_cache
     \<Rightarrow> 'v option \<times> ('v, 't) file_system_cache" where
  "fsc_get_value now k c =
     (case fsc_get_item now k c of
        (None, c') \<Rightarrow> (None, c')
      | (Some it, c') \<Rightarrow> (Some (ci_value it), c'))"

definition fsc_delete :: "string \<Rightarrow> ('v, 't) file_system_cache \<Rightarrow> ('v, 't) file_system_cache" where
  "fsc_delete k c =
     (let file_path = fsc_get_file_path c k in
      if fsc_files c file_path \<noteq> None then c\<lparr>fsc_files := (fsc_files c)(file_path := None)\<rparr>
      else c)"

text \<open>Keys that name a file of the cache folder itself.\<close>

definition plain_key :: "string \<Rightarrow> bool" where
  "plain_key k \<longleftrightarrow> CHR ''/'' \<notin> set k"

definition fsc_lookup :: "('v, 't) file_system_cache \<Rightarrow> string \<Rightarrow> ('v, 't) cache_item option" where
  "fsc_lookup c k = fsc_files c (fsc_get_file_path c k)"

lemma path_join_inj:
  "plain_key k \<Longrightarrow> plain_key k' \<Longrightarrow> path_join d (k @ ''.cache'') = path_join d (k' @ ''.cache'') \<Longrightarrow> k = k'"
proof -
  have "path_join d (j @ ''.cache'') = (if d = [] \<or> last d = CHR ''/'' then d else d @ ''/'') @ j @ ''.cache''"
    if "plain_key j" for j
    using that by (cases j) (auto simp: path_join_def plain_key_def)
  then show "plain_key k \<Longrightarrow> plain_key k' \<Longrightarrow>
      path_join d (k @ ''.cache'') = path_join d (k' @ ''.cache'') \<Longrightarrow> k = k'"
    by simp
qed

lemma fsc_path_inj:
  "plain_key k \<Longrightarrow> plain_key k' \<Longrightarrow> fsc_get_file_path c k = fsc_get_file_path c k' \<longleftrightarrow> k = k'"
  by (auto simp: fsc_get_file_path_def dest: path_join_inj)

lemma fsc_path_frame [simp]:
  "fsc_get_file_path (fsc_insert it c) k = fsc_get_file_path c k"
  "fsc_get_file_path (fsc_delete j c) k = fsc_get_file_path c k"
  by (simp_all add: fsc_get_file_path_def fsc_insert_def fsc_delete_def Let_def)

lemma fsc_lookup_insert:
  "plain_key (ci_key it) \<Longrightarrow> plain_key k \<Longrightarrow>
   fsc_lookup (fsc_insert it c) k = (if k = ci_key it then Some it else fsc_lookup c k)"
  by (simp add: fsc_lookup_def fsc_path_inj) (simp add: fsc_insert_def fsc_path_inj)

lemma fsc_lookup_delete:
  "plain_key j \<Longrightarrow> plain_key k \<Longrightarrow>
   fsc_lookup (fsc_delete j c) k = (if k = j then None else fsc_lookup c k)"
  by (simp add: fsc_lookup_def) (auto simp: fsc_delete_def fsc_path_inj Let_def)


section \<open>Selecting the cache\<close>

datatype ('v, 't) cache =
    InMemoryCache "('v, 't) in_memory_cache"
  | FileSystemCache "('v, 't) file_system_cache"

text \<open>\<open>CacheManager.__init__\<close>: the two environment values select the implementation.\<close>

definition cache_manager_init ::
  "string \<Rightarrow> string \<Rightarrow> (string \<rightharpoonup> ('v, 't) cache_item) \<Rightarrow> ('v, 't) cache result" where
  "cache_manager_init cache_type cache_dir files =
     (if cache_type = ''in_memory'' then Inr (InMemoryCache imc_init)
      else if cache_type = ''file_system'' then Inr (FileSystemCache (fsc_init files cache_dir))
      else Inl (ValueError (''Cache type '' @ cache_type @ '' not supported'')))"

text \<open>Method calls on the selected cache.\<close>

fun cache_insert :: "('v, 't::linordered_idom) cache_item \<Rightarrow> ('v, 't) cache \<Rightarrow> ('v, 't) cache" where
  "cache_insert it (InMemoryCache c) = InMemoryCache (imc_insert it c)"
| "cache_insert it (FileSystemCache c) = FileSystemCache (fsc_insert it c)"

fun cache_get_item ::
  "'t::linordered_idom \<Rightarrow> string \<Rightarrow> ('v, 't) cache \<Rightarrow> ('v, 't) cache_item option \<times> ('v, 't) cache" where
  "cache_get_item now k (InMemoryCache c) =
     (case imc_get_item now k c of (r, c') \<Rightarrow> (r, InMemoryCache c'))"
| "cache_get_item now k (FileSystemCache c) =
     (case fsc_get_item now k c of (r, c') \<Rightarrow> (r, FileSystemCache c'))"

fun cache_get_value ::
  "'t::linordered_idom \<Rightarrow> string \<Rightarrow> ('v, 't) cache \<Rightarrow> 'v option \<times> ('v, 't) cache" where
  "cache_get_value now k (InMemoryCache c) =
     (case imc_get_value now k c of (r, c') \<Rightarrow> (r, InMemoryCache c'))"
| "cache_get_value now k (FileSystemCache c) =
     (case fsc_get_value now k c of (r, c') \<Rightarrow> (r, FileSystemCache c'))"

fun cache_delete :: "string \<Rightarrow> ('v, 't) cache \<Rightarrow> ('v, 't) cache" where
  "cache_delete k (InMemoryCache c) = InMemoryCache (imc_delete k c)"
| "cache_delete k (FileSystemCache c) = FileSystemCache (fsc_delete k c)"

fun cache_invar :: "('v, 't) cache \<Rightarrow> bool" where
  "cache_invar (InMemoryCache c) = imc_invar c"
| "cache_invar (FileSystemCache c) = True"

fun cache_lookup :: "('v, 't) cache \<Rightarrow> string \<Rightarrow> ('v, 't) cache_item option" where
  "cache_lookup (InMemoryCache c) k = imc_lookup c k"
| "cache_lookup (FileSystemCache c) k = fsc_lookup c k"


section \<open>The interface BaseCache\<close>

text \<open>
  Operations a client performs, and the ideal cache they are compared with: a map that never
  loses an item.  An implementation may lose items (it evicts) but holds no other item.
\<close>

datatype ('v, 't) cache_op = CInsert "('v, 't) cache_item" | CGet 't string | CDelete string

fun ideal_step :: "('v, 't) cache_op \<Rightarrow> (string \<rightharpoonup> ('v, 't) cache_item) \<Rightarrow> (string \<rightharpoonup> ('v, 't) cache_item)" where
  "ideal_step (CInsert it) m = m(ci_key it \<mapsto> it)"
| "ideal_step (CGet now k) m = m"
| "ideal_step (CDelete k) m = m(k := None)"

fun op_key :: "('v, 't) cache_op \<Rightarrow> string" where
  "op_key (CInsert it) = ci_key it"
| "op_key (CGet now k) = k"
| "op_key (CDelete k) = k"

text \<open>One operation run on an implementation given by its methods.\<close>

fun run_cache_op ::
  "(('v, 't) cache_item \<Rightarrow> 's \<Rightarrow> 's) \<Rightarrow> ('t \<Rightarrow> string \<Rightarrow> 's \<Rightarrow> ('v, 't) cache_item option \<times> 's)
     \<Rightarrow> (string \<Rightarrow> 's \<Rightarrow> 's) \<Rightarrow> ('v, 't) cache_op \<Rightarrow> 's \<Rightarrow> 's" where
  "run_cache_op ins get del (CInsert it) s = ins it s"
| "run_cache_op ins get del (CGet now k) s = snd (get now k s)"
| "run_cache_op ins get del (CDelete k) s = del k s"

locale base_cache =
  fixes invar :: "'s \<Rightarrow> bool"
    and lookup :: "'s \<Rightarrow> string \<Rightarrow> ('v, 't::linordered_idom) cache_item option"
    and key_ok :: "string \<Rightarrow> bool"
    and insert_item :: "('v, 't) cache_item \<Rightarrow> 's \<Rightarrow> 's"
    and get_item :: "'t \<Rightarrow> string \<Rightarrow> 's \<Rightarrow> ('v, 't) cache_item option \<times> 's"
    and get_value :: "'t \<Rightarrow> string \<Rightarrow> 's \<Rightarrow> 'v option \<times> 's"
    and delete_key :: "string \<Rightarrow> 's \<Rightarrow> 's"
  assumes invar_insert: "invar s \<Longrightarrow> invar (insert_item it s)"
    and invar_delete: "invar s \<Longrightarrow> invar (delete_key k s)"
    and lookup_insert: "invar s \<Longrightarrow> key_ok (ci_key it) \<Longrightarrow> key_ok k \<Longrightarrow>
      lookup (insert_item it s) k = None \<or>
      lookup (insert_item it s) k = (if k = ci_key it then Some it else lookup s k)"
    and lookup_delete: "key_ok j \<Longrightarrow> key_ok k \<Longrightarrow>
      lookup (delete_key j s) k = (if k = j then None else lookup s k)"
    and get_item_eq: "get_item now k s =
      (case lookup s k of
         None \<Rightarrow> (None, s)
       | Some it \<Rightarrow> if is_expired now it then (None, delete_key k s) else (Some it, s))"
    and get_value_eq: "get_value now k s =
      (case get_item now k s of (None, s') \<Rightarrow> (None, s') | (Some it, s') \<Rightarrow> (Some (ci_value it), s'))"
begin

abbreviation "run_op \<equiv> run_cache_op insert_item get_item delete_key"

lemma invar_run_op: "invar s \<Longrightarrow> invar (run_op oper s)"
  by (cases oper) (auto simp: invar_insert invar_delete get_item_eq split: option.splits)

lemma invar_run: "invar s \<Longrightarrow> invar (fold run_op ops s)"
  by (induction ops arbitrary: s) (auto simp: invar_run_op)

text \<open>One step of the simulation by the ideal cache.\<close>

lemma sim_step:
  assumes "invar s" and "key_ok (op_key oper)" and "key_ok k"
    and "lookup s k = None \<or> lookup s k = m k"
  shows "lookup (run_op oper s) k = None \<or> lookup (run_op oper s) k = ideal_step oper m k"
proof (cases oper)
  case (CInsert it)
  with assms lookup_insert [of s it k] show ?thesis by (auto split: if_splits)
next
  case (CGet now j)
  with assms show ?thesis by (auto simp: get_item_eq lookup_delete split: option.splits)
next
  case (CDelete j)
  with assms show ?thesis by (auto simp: lookup_delete)
qed

lemma sim_run:
  assumes "invar s" and "\<forall>oper \<in> set ops. key_ok (op_key oper)" and "key_ok k"
    and "lookup s k = None \<or> lookup s k = m k"
  shows "lookup (fold run_op ops s) k = None \<or> lookup (fold run_op ops s) k = fold ideal_step ops m k"
  using assms
proof (induction ops arbitrary: s m)
  case Nil
  then show ?case by simp
next
  case (Cons oper ops)
  from Cons.prems have "lookup (run_op oper s) k = None \<or> lookup (run_op oper s) k = ideal_step oper m k"
    by (intro sim_step) auto
  with Cons show ?case by (simp add: invar_run_op)
qed

text \<open>
  A hit is the newest item written under the key, or one that the cache started with and nothing was done to
  since, and it has not expired.
\<close>

lemma get_value_hit:
  assumes "invar s" and "lookup s k = None \<or> lookup s k = m k" and "\<forall>oper \<in> set ops. key_ok (op_key oper)" and "key_ok k"
    and "fst (get_value now k (fold run_op ops s)) = Some v"
  shows "\<exists>it. fold ideal_step ops m k = Some it \<and> ci_value it = v \<and> \<not> is_expired now it"
proof -
  have "lookup (fold run_op ops s) k = None \<or> lookup (fold run_op ops s) k = fold ideal_step ops m k"
    by (rule sim_run) (use assms in auto)
  with assms(5) show ?thesis
    by (auto simp: get_value_eq get_item_eq split: option.splits if_splits)
qed

text \<open>A read is idempotent: reading again at the same time gives the same answer and state.\<close>

lemma get_item_idem: "key_ok k \<Longrightarrow> get_item now k (snd (get_item now k s)) = get_item now k s"
  by (auto simp: get_item_eq lookup_delete split: option.splits)

lemma get_value_deleted: "key_ok k \<Longrightarrow> get_value now k (delete_key k s) = (None, delete_key k s)"
  by (simp add: get_value_eq get_item_eq lookup_delete)

end

lemma imc_get_item_eq: "imc_get_item now k c =
    (case imc_lookup c k of
       None \<Rightarrow> (None, c)
     | Some it \<Rightarrow> if is_expired now it then (None, imc_delete k c) else (Some it, c))"
  by (simp add: imc_get_item_def imc_lookup_def imc_delete_items dict_del_filter split: option.splits)

interpretation imc: base_cache imc_invar imc_lookup "\<lambda>_. True" imc_insert imc_get_item imc_get_value imc_delete
  by unfold_locales
    (simp_all only: imc_invar_insert imc_invar_delete imc_lookup_delete imc_get_item_eq imc_get_value_def
       imc_lookup_insert)

lemma fsc_get_item_eq: "fsc_get_item now k c =
    (case fsc_lookup c k of
       None \<Rightarrow> (None, c)
     | Some it \<Rightarrow> if is_expired now it then (None, fsc_delete k c) else (Some it, c))"
  by (simp add: fsc_get_item_def fsc_lookup_def fsc_delete_def Let_def split: option.splits)

interpretation fsc: base_cache "\<lambda>_. True" fsc_lookup plain_key fsc_insert fsc_get_item fsc_get_value fsc_delete
  by unfold_locales
    (simp_all only: fsc_lookup_insert fsc_lookup_delete fsc_get_item_eq fsc_get_value_def simp_thms)

interpretation selected: base_cache cache_invar cache_lookup plain_key
  cache_insert cache_get_item cache_get_value cache_delete
proof
  fix s :: "('v, 't::linordered_idom) cache" and it k j now
  show "cache_invar s \<Longrightarrow> cache_invar (cache_insert it s)"
    by (cases s) (auto simp: imc_invar_insert)
  show "cache_invar s \<Longrightarrow> cache_invar (cache_delete k s)"
    by (cases s) (auto simp: imc_invar_delete)
  show "cache_invar s \<Longrightarrow> plain_key (ci_key it) \<Longrightarrow> plain_key k \<Longrightarrow>
      cache_lookup (cache_insert it s) k = None \<or>
      cache_lookup (cache_insert it s) k = (if k = ci_key it then Some it else cache_lookup s k)"
  proof (cases s)
    case (InMemoryCache c)
    then show "cache_invar s \<Longrightarrow> plain_key (ci_key it) \<Longrightarrow> plain_key k \<Longrightarrow> ?thesis"
      using imc_lookup_insert [of c it k] by (auto split: if_splits)
  qed (simp add: fsc_lookup_insert)
  show "plain_key j \<Longrightarrow> plain_key k \<Longrightarrow>
      cache_lookup (cache_delete j s) k = (if k = j then None else cache_lookup s k)"
    by (cases s) (auto simp: imc_lookup_delete fsc_lookup_delete)
  show "cache_get_item now k s =
      (case cache_lookup s k of
         None \<Rightarrow> (None, s)
       | Some it \<Rightarrow> if is_expired now it then (None, cache_delete k s) else (Some it, s))"
    by (cases s) (simp_all add: imc.get_item_eq fsc.get_item_eq split: option.splits)
  show "cache_get_value now k s =
      (case cache_get_item now k s of (None, s') \<Rightarrow> (None, s') | (Some it, s') \<Rightarrow> (Some (ci_value it), s'))"
    by (cases s) (auto simp: imc.get_value_eq fsc.get_value_eq split: option.splits prod.splits)
qed


section \<open>Properties of the caches\<close>

lemma run_in_memory:
  "fold (run_cache_op cache_insert cache_get_item cache_delete) ops (InMemoryCache c) =
     InMemoryCache (fold (run_cache_op imc_insert imc_get_item imc_delete) ops c)"
proof (induction ops arbitrary: c)
  case (Cons oper ops)
  then show ?case by (cases oper) (simp_all split: prod.split)
qed simp

text \<open>
  C4. Whatever sequence of inserts, reads and deletes ran without raising on the cache the manager selected, a value
  returned for a key is that of the item most recently inserted under that key and not deleted since, or,
  when nothing was inserted or deleted under the key, of the item the cache folder held for it at the start; and
  its time to live has not passed.  In memory, with eviction, this holds for all keys.  On disk it is about keys
  without a slash: they name different files of the cache folder, while a key with a slash can name the file of
  another key, or one outside the folder.
\<close>

theorem cache_hit_is_latest:
  fixes c :: "('v, 't::linordered_idom) cache"
  assumes "cache_manager_init cache_type cache_dir files = Inr c"
    and "cache_type = ''file_system'' \<longrightarrow> (\<forall>key \<in> insert k (op_key ` set ops). CHR ''/'' \<notin> set key)"
    and "fst (cache_get_value now k (fold (run_cache_op cache_insert cache_get_item cache_delete) ops c)) = Some v"
  shows "\<exists>it. fold ideal_step ops
             (if cache_type = ''in_memory'' then Map.empty else (\<lambda>key. files (path_join cache_dir (key @ ''.cache'')))) k = Some it \<and>
           ci_value it = v \<and> \<not> is_expired now it"
proof (cases "cache_type = ''in_memory''")
  case True
  with assms(1) have c: "c = InMemoryCache imc_init" by (simp add: cache_manager_init_def)
  have "fst (imc_get_value now k (fold (run_cache_op imc_insert imc_get_item imc_delete) ops imc_init)) = Some v"
    using assms(3) unfolding c run_in_memory by (simp split: prod.splits)
  from imc.get_value_hit [OF imc_invar_init _ _ _ this, of Map.empty] True show ?thesis
    by (simp add: imc_lookup_def imc_init_def)
next
  case False
  with assms(1) have c: "cache_type = ''file_system''" "c = FileSystemCache (fsc_init files cache_dir)"
    by (auto simp: cache_manager_init_def split: if_splits)
  have keys: "\<forall>oper \<in> set ops. plain_key (op_key oper)" "plain_key k"
    using assms(2) c(1) by (simp_all add: plain_key_def)
  let ?m = "\<lambda>key. files (path_join cache_dir (key @ ''.cache''))"
  have "cache_invar c" "cache_lookup c k = ?m k"
    by (simp_all add: c(2) fsc_lookup_def fsc_init_def fsc_get_file_path_def)
  from selected.get_value_hit [OF this(1) _ keys assms(3), of ?m] this(2) False show ?thesis by simp
qed

theorem cache_hit_is_latest_witness:
  "(\<exists>it. fold ideal_step [CInsert (new_cache_item 5 ''/u'' (1::int) (Some (10::int))), CInsert (new_cache_item 6 ''/u'' 2 (Some 10))]
      Map.empty ''/u'' = Some it \<and> ci_value it = 2 \<and> \<not> is_expired 7 it) \<and>
   (\<exists>it. [''x/u.cache'' \<mapsto> new_cache_item 5 ''u'' (1::int) (Some (10::int))] (path_join ''x'' (''u'' @ ''.cache'')) = Some it \<and>
      ci_value it = 1 \<and> \<not> is_expired 7 it)"
proof
  have m: "cache_manager_init ''in_memory'' [] Map.empty = Inr (InMemoryCache (imc_init :: (int, int) in_memory_cache))"
    by (simp add: cache_manager_init_def)
  have "fst (cache_get_value 7 ''/u'' (fold (run_cache_op cache_insert cache_get_item cache_delete)
      [CInsert (new_cache_item 5 ''/u'' (1::int) (Some (10::int))), CInsert (new_cache_item 6 ''/u'' 2 (Some 10))]
      (InMemoryCache imc_init))) = Some 2"
    by code_simp
  from cache_hit_is_latest [OF m _ this]
  show "\<exists>it. fold ideal_step [CInsert (new_cache_item 5 ''/u'' (1::int) (Some (10::int))), CInsert (new_cache_item 6 ''/u'' 2 (Some 10))]
      Map.empty ''/u'' = Some it \<and> ci_value it = 2 \<and> \<not> is_expired 7 it" by simp
  have i: "cache_manager_init ''file_system'' ''x'' [''x/u.cache'' \<mapsto> new_cache_item 5 ''u'' (1::int) (Some (10::int))] =
      Inr (FileSystemCache (fsc_init [''x/u.cache'' \<mapsto> new_cache_item 5 ''u'' 1 (Some 10)] ''x''))"
    by (simp add: cache_manager_init_def)
  show "\<exists>it. [''x/u.cache'' \<mapsto> new_cache_item 5 ''u'' (1::int) (Some (10::int))] (path_join ''x'' (''u'' @ ''.cache'')) = Some it \<and>
      ci_value it = 1 \<and> \<not> is_expired 7 it"
    using cache_hit_is_latest [OF i, of "''u''" "[]" 7 1]
    by (simp add: fsc_get_value_def fsc_get_item_def fsc_init_def fsc_get_file_path_def path_join_def is_expired_def new_cache_item_def)
qed

text \<open>
  A key that starts with a slash leaves the cache folder: it names the same file whatever folder is configured.
\<close>

lemma absolute_key_leaves_folder: "fsc_get_file_path c (CHR ''/'' # k) = CHR ''/'' # k @ ''.cache''"
  by (simp add: fsc_get_file_path_def path_join_def)

text \<open>
  The in-memory cache never holds 100 items after an operation, whatever was done to it.
\<close>

theorem imc_size_bound:
  "length (imc_items (fold (run_cache_op imc_insert imc_get_item imc_delete) ops imc_init)) < 100"
  using imc.invar_run [OF imc_invar_init, of ops] by (simp add: imc_invar_def)

text \<open>
  Eviction removes oldest items first: after an insert, an item of the full dictionary that
  is gone is no younger than any item that stayed, and exactly ten are removed.
\<close>

theorem imc_evicts_oldest:
  fixes it :: "('v, 't::linordered_idom) cache_item"
  defines "full c \<equiv> dict_set (ci_key it) it (imc_items c)"
  assumes "imc_invar c"
    and "p \<in> set (full c) - set (imc_items (imc_insert it c))" and "q \<in> set (imc_items (imc_insert it c))"
  shows "ci_created_at (snd p) \<le> ci_created_at (snd q) \<and>
    length (imc_items (imc_insert it c)) + 10 = length (full c)"
proof -
  let ?sd = "sort_key (\<lambda>x. ci_created_at (snd x)) (full c)"
  note ms = imc_insert_items(1) [OF assms(2), of it, folded full_def]
  have full: "100 \<le> length (full c)"
    using assms(3) ms by (auto split: if_splits dest: mset_eq_setD)
  with ms have mset: "mset (imc_items (imc_insert it c)) = mset (drop 10 ?sd)" by simp
  from mset have "set (imc_items (imc_insert it c)) = set (drop 10 ?sd)" by (rule mset_eq_setD)
  moreover have "set (full c) = set (take 10 ?sd) \<union> set (drop 10 ?sd)"
    by (metis append_take_drop_id set_append set_sort)
  ultimately have p: "p \<in> set (take 10 ?sd)" and q: "q \<in> set (drop 10 ?sd)"
    using assms(3,4) by auto
  have "sorted (map (\<lambda>x. ci_created_at (snd x)) (take 10 ?sd @ drop 10 ?sd))" by simp
  then have "ci_created_at (snd p) \<le> ci_created_at (snd q)"
    using p q by (simp only: map_append sorted_append) auto
  moreover have "length (imc_items (imc_insert it c)) + 10 = length (full c)"
    using arg_cong [OF mset, of size] full by simp
  ultimately show ?thesis ..
qed


definition example_item :: "nat \<Rightarrow> (nat, int) cache_item" where
  "example_item i = \<lparr>ci_key = [char_of i], ci_value = i, ci_ttl = Some (- 1), ci_created_at = int i\<rparr>"

definition example_cache :: "(nat, int) in_memory_cache" where
  "example_cache = \<lparr>imc_items = map (\<lambda>i. ([char_of i], example_item i)) [0..<99], imc_max_items = 100\<rparr>"

lemma example_item_inj: "example_item i = example_item j \<longleftrightarrow> i = j"
  by (auto simp: example_item_def)

lemma example_full:
  "dict_set (ci_key (example_item 200)) (example_item 200) (imc_items example_cache) =
     map (\<lambda>i. ([char_of i], example_item i)) ([0..<99] @ [200])"
proof -
  have "ci_key (example_item 200) \<notin> set (dict_keys (imc_items example_cache))"
    by (auto simp: example_cache_def example_item_def simp del: upt_rec_numeral
        dest!: arg_cong [of "char_of _" "char_of _" "of_char :: char \<Rightarrow> nat"])
  from dict_set_absent [OF this] show ?thesis
    by (simp add: example_cache_def example_item_def)
qed

lemma example_invar: "imc_invar example_cache"
  by (auto simp: imc_invar_def example_cache_def comp_def distinct_map inj_on_def example_item_def
      simp del: upt_rec_numeral dest!: arg_cong [of "char_of _" "char_of _" "of_char :: char \<Rightarrow> nat"])

lemma example_items:
  "set (imc_items (imc_insert (example_item 200) example_cache)) =
     (\<lambda>i. ([char_of i], example_item i)) ` (set [10..<99] \<union> {200})"
proof -
  let ?d = "map (\<lambda>i. ([char_of i], example_item i)) ([0..<99] @ [200])"
  have "sorted (map (\<lambda>x. ci_created_at (snd x)) ?d)"
    by (simp add: example_item_def comp_def sorted_append) (simp add: sorted_map sorted_wrt_upt)
  then have "sort_key (\<lambda>x. ci_created_at (snd x)) ?d = ?d" by (rule sort_key_id_if_sorted)
  then have "mset (imc_items (imc_insert (example_item 200) example_cache)) = mset (drop 10 ?d)"
    using imc_insert_items(1) [OF example_invar, of "example_item 200"] by (simp add: example_full del: upt_rec_numeral)
  from mset_eq_setD [OF this] show ?thesis by (auto simp: drop_map simp del: upt_rec_numeral)
qed

theorem imc_evicts_oldest_witness:
  "ci_created_at (snd ([char_of (3::nat)], example_item 3)) \<le> ci_created_at (snd ([char_of (50::nat)], example_item 50)) \<and>
   length (imc_items (imc_insert (example_item 200) example_cache)) + 10 =
   length (dict_set (ci_key (example_item 200)) (example_item 200) (imc_items example_cache))"
  by (rule imc_evicts_oldest [OF example_invar])
    (auto simp: example_full example_items example_item_inj simp del: upt_rec_numeral)

text \<open>
  Inserting an item strictly newer than every item under another key keeps it: the item can
  be read back whatever the cache holds, full or not.
\<close>

theorem imc_insert_newest_kept:
  fixes it :: "('v, 't::linordered_idom) cache_item"
  assumes "imc_invar c" and "\<not> is_expired now it"
    and "\<forall>(k, other) \<in> set (imc_items c). k \<noteq> ci_key it \<longrightarrow> ci_created_at other < ci_created_at it"
  shows "imc_get_value now (ci_key it) (imc_insert it c) = (Some (ci_value it), imc_insert it c)"
proof -
  let ?d = "dict_set (ci_key it) it (imc_items c)" and ?d' = "imc_items (imc_insert it c)"
  let ?sd = "sort_key (\<lambda>x. ci_created_at (snd x)) ?d" and ?p = "(ci_key it, it)"
  note ms = imc_insert_items(1,4) [OF assms(1), of it]
  have "dict_get ?d (ci_key it) = Some it" by simp
  then have "?p \<in> set ?d" by (rule map_of_SomeD)
  have newest: "q = ?p \<or> ci_created_at (snd q) < ci_created_at it" if "q \<in> set ?d" for q
  proof (cases "fst q = ci_key it")
    case True
    with that assms(1) \<open>?p \<in> set ?d\<close> have "snd q = it"
      by (metis dict_ok_set eq_key_imp_eq_value imc_invar_def prod.collapse)
    with True show ?thesis by (cases q) auto
  next
    case False
    with that dict_set_mem [of "fst q" "snd q" "ci_key it" it "imc_items c"] have "q \<in> set (imc_items c)" by auto
    with False assms(3) show ?thesis by (cases q) auto
  qed
  have "?p \<in> set ?d'"
  proof (cases "100 \<le> length ?d")
    case True
    then obtain q where q: "q \<in> set (drop 10 ?sd)" by (cases "drop 10 ?sd") (auto simp: drop_eq_Nil)
    have "sorted (map (\<lambda>x. ci_created_at (snd x)) (take 10 ?sd @ drop 10 ?sd))" by simp
    then have "?p \<in> set (take 10 ?sd) \<Longrightarrow> ci_created_at it \<le> ci_created_at (snd q)"
      using q by (simp only: map_append sorted_append) auto
    moreover have "q \<in> set ?d" using q by (metis in_set_dropD set_sort)
    moreover have "?p \<in> set (take 10 ?sd) \<union> set (drop 10 ?sd)"
      using \<open>?p \<in> set ?d\<close> by (metis append_take_drop_id set_append set_sort)
    ultimately have "?p \<in> set (drop 10 ?sd)" using newest [of q] q by auto
    with True ms(1) show ?thesis by (metis mset_eq_setD)
  next
    case False
    with ms(1) \<open>?p \<in> set ?d\<close> show ?thesis by (metis mset_eq_setD)
  qed
  with ms(2) have "imc_lookup (imc_insert it c) (ci_key it) = Some it" by (simp add: imc_lookup_def)
  with assms(2) show ?thesis by (simp add: imc.get_value_eq imc.get_item_eq)
qed

theorem imc_insert_newest_kept_witness:
  "imc_get_value 9 [char_of (200::nat)] (imc_insert (example_item 200) example_cache) =
     (Some 200, imc_insert (example_item 200) example_cache)"
proof -
  note example_invar
  moreover have "\<not> is_expired 9 (example_item 200)" by code_simp
  moreover have "\<forall>(k, other) \<in> set (imc_items example_cache).
      k \<noteq> ci_key (example_item 200) \<longrightarrow> ci_created_at other < ci_created_at (example_item 200)"
    by (auto simp: example_cache_def example_item_def simp del: upt_rec_numeral)
  ultimately have "imc_get_value 9 (ci_key (example_item 200)) (imc_insert (example_item 200) example_cache) =
     (Some (ci_value (example_item 200)), imc_insert (example_item 200) example_cache)"
    by (rule imc_insert_newest_kept)
  then show ?thesis by (simp add: example_item_def)
qed

end
