(* ===== verification/Mad_Hatter.thy ===== *)
theory Mad_Hatter
  imports Py_Text
begin

text \<open>
  The plugin manager (\<open>mad_hatter/mad_hatter.py\<close>, \<open>mad_hatter/plugin.py\<close>): discovery,
  activation, installation and removal of plugins, the caches of hooks, tools, forms and
  endpoints, the piping of hooks, and the settings file of a plugin.

  The plugins folder is the dictionary \<open>mh_disk\<close> from a plugin's folder name (its identifier) to
  what importing it yields: the decorated objects, and the exceptions its requirements and
  its \<open>activated\<close> and \<open>deactivated\<close> overrides raise.  Operations return the exception they
  raise, if any, and the state they leave.  The setting \<open>active_plugins\<close> of the metadata
  database is \<open>mh_saved\<close>; the code writes it as \<open>list(set(...))\<close>, whose order is never
  used.  The callback at the end of a synchronisation and the log are left out.
\<close>


section \<open>Hooks, plugins and the manager\<close>

text \<open>A hook function gets the arguments (the first one is piped) and the cat, and may change the cat.\<close>

record ('v, 'c) cat_hook =
  h_name :: string
  h_plugin_id :: string
  h_priority :: int
  h_function :: "'v list \<Rightarrow> 'c \<Rightarrow> 'v option result \<times> 'c"

record ('v, 'c) source =
  src_valid :: bool
  src_install :: "py_exc option"
  src_settings :: "py_exc option"
  src_hooks :: "('v, 'c) cat_hook list"
  src_tools :: "string list"
  src_forms :: "string list"
  src_endpoints :: "string list"
  src_activated :: "py_exc option"
  src_deactivated :: "py_exc option"

record ('v, 'c) plugin =
  p_id :: string
  p_active :: bool
  p_hooks :: "('v, 'c) cat_hook list"
  p_tools :: "string list"
  p_forms :: "string list"
  p_endpoints :: "string list"
  p_deactivated :: "py_exc option"

record ('v, 'c) mad_hatter =
  mh_disk :: "(string, ('v, 'c) source) dict"
  mh_plugins :: "(string, ('v, 'c) plugin) dict"
  mh_hooks :: "(string, ('v, 'c) cat_hook list) dict"
  mh_tools :: "string list"
  mh_forms :: "string list"
  mh_endpoints :: "string list"
  mh_active :: "string list"
  mh_saved :: "string list option"


section \<open>plugin.py\<close>

definition new_plugin :: "string \<Rightarrow> ('v, 'c) plugin" where
  "new_plugin i =
     \<lparr>p_id = i, p_active = False, p_hooks = [], p_tools = [], p_forms = [], p_endpoints = [],
      p_deactivated = None\<rparr>"

definition clean_hook :: "string \<Rightarrow> ('v, 'c) cat_hook \<Rightarrow> ('v, 'c) cat_hook" where
  "clean_hook i h = h\<lparr>h_plugin_id := i\<rparr>"

definition load_decorated_functions :: "('v, 'c) source \<Rightarrow> ('v, 'c) plugin \<Rightarrow> ('v, 'c) plugin" where
  "load_decorated_functions src p =
     p\<lparr>p_hooks := map (clean_hook (p_id p)) (src_hooks src), p_tools := src_tools src,
       p_forms := src_forms src, p_endpoints := src_endpoints src, p_deactivated := src_deactivated src\<rparr>"

definition plugin_activate ::
  "('v, 'c) source \<Rightarrow> ('v, 'c) plugin \<Rightarrow> py_exc option \<times> ('v, 'c) plugin" where
  "plugin_activate src p =
     (case src_install src of
        Some e \<Rightarrow> (Some e, p)
      | None \<Rightarrow>
          (let p = load_decorated_functions src p
           in case src_settings src of
                Some e \<Rightarrow> (Some e, p)
              | None \<Rightarrow> (src_activated src, p\<lparr>p_active := True\<rparr>)))"

definition plugin_deactivate :: "('v, 'c) plugin \<Rightarrow> py_exc option \<times> ('v, 'c) plugin" where
  "plugin_deactivate p =
     (case p_deactivated p of
        Some e \<Rightarrow> (Some e, p)
      | None \<Rightarrow> (None, new_plugin (p_id p)))"


section \<open>mad\_hatter.py\<close>

text \<open>Hooks are appended under their name in the order of the plugins, then sorted by priority.\<close>

definition add_hook ::
  "('v, 'c) cat_hook \<Rightarrow> (string, ('v, 'c) cat_hook list) dict \<Rightarrow> (string, ('v, 'c) cat_hook list) dict" where
  "add_hook h hooks =
     dict_set (h_name h) ((case dict_get hooks (h_name h) of Some l \<Rightarrow> l | None \<Rightarrow> []) @ [h]) hooks"

definition active_objs :: "('v, 'c) mad_hatter \<Rightarrow> ('v, 'c) plugin list" where
  "active_objs mh = filter (\<lambda>p. p_id p \<in> set (mh_active mh)) (map snd (mh_plugins mh))"

definition sync_hooks_tools_and_forms :: "('v, 'c) mad_hatter \<Rightarrow> ('v, 'c) mad_hatter" where
  "sync_hooks_tools_and_forms mh =
     (let ps = active_objs mh;
          hooks = fold (\<lambda>p. fold add_hook (p_hooks p)) ps []
      in mh\<lparr>mh_tools := concat (map p_tools ps), mh_forms := concat (map p_forms ps),
            mh_endpoints := concat (map p_endpoints ps),
            mh_hooks := map (\<lambda>(n, hs). (n, sort_desc h_priority hs)) hooks\<rparr>)"

definition plugin_exists :: "string \<Rightarrow> ('v, 'c) mad_hatter \<Rightarrow> bool" where
  "plugin_exists i mh \<longleftrightarrow> i \<in> set (dict_keys (mh_plugins mh))"

definition load_plugin :: "string \<Rightarrow> ('v, 'c) mad_hatter \<Rightarrow> ('v, 'c) mad_hatter" where
  "load_plugin i mh =
     (case dict_get (mh_disk mh) i of
        Some src \<Rightarrow> if src_valid src then mh\<lparr>mh_plugins := dict_set i (new_plugin i) (mh_plugins mh)\<rparr> else mh
      | None \<Rightarrow> mh)"

definition load_active_plugins_from_db :: "('v, 'c) mad_hatter \<Rightarrow> string list" where
  "load_active_plugins_from_db mh =
     (let active = (case mh_saved mh of None \<Rightarrow> [] | Some l \<Rightarrow> l)
      in if ''core_plugin'' \<in> set active then active else active @ [''core_plugin''])"

definition save_active_plugins_to_db :: "('v, 'c) mad_hatter \<Rightarrow> ('v, 'c) mad_hatter" where
  "save_active_plugins_to_db mh = mh\<lparr>mh_saved := Some (remdups (mh_active mh))\<rparr>"

text \<open>Activation of the object of a plugin; in a missing folder the settings file cannot be created.\<close>

definition activate_obj ::
  "string \<Rightarrow> ('v, 'c) plugin \<Rightarrow> ('v, 'c) mad_hatter \<Rightarrow> py_exc option \<times> ('v, 'c) mad_hatter" where
  "activate_obj i p mh =
     (case dict_get (mh_disk mh) i of
        None \<Rightarrow>
          (Some (Exception ''FileNotFoundError''),
           mh\<lparr>mh_plugins := dict_set i (new_plugin i\<lparr>p_active := p_active p\<rparr>) (mh_plugins mh)\<rparr>)
      | Some src \<Rightarrow>
          (let (err, p') = plugin_activate src p
           in (err, mh\<lparr>mh_plugins := dict_set i p' (mh_plugins mh)\<rparr>)))"

definition toggle_plugin ::
  "string \<Rightarrow> ('v, 'c) mad_hatter \<Rightarrow> py_exc option \<times> ('v, 'c) mad_hatter" where
  "toggle_plugin i mh =
     (case dict_get (mh_plugins mh) i of
        None \<Rightarrow> (Some (Exception ''Plugin {plugin_id} not present in plugins folder''), mh)
      | Some p \<Rightarrow>
          if i \<in> set (mh_active mh) then
            (case plugin_deactivate p of
               (Some e, _) \<Rightarrow> (Some e, mh)
             | (None, p') \<Rightarrow>
                 (None, sync_hooks_tools_and_forms (save_active_plugins_to_db
                    (mh\<lparr>mh_plugins := dict_set i p' (mh_plugins mh), mh_active := remove1 i (mh_active mh)\<rparr>))))
          else
            (case activate_obj i p mh of
               (Some e, mh') \<Rightarrow> (Some e, mh')
             | (None, mh') \<Rightarrow>
                 (None, sync_hooks_tools_and_forms (save_active_plugins_to_db
                    (mh'\<lparr>mh_active := mh_active mh' @ [i]\<rparr>)))))"

text \<open>The extracted package replaces the folder of the same name.\<close>

definition install_plugin ::
  "string \<Rightarrow> ('v, 'c) source \<Rightarrow> ('v, 'c) mad_hatter \<Rightarrow> py_exc option \<times> ('v, 'c) mad_hatter" where
  "install_plugin i src mh = toggle_plugin i (load_plugin i (mh\<lparr>mh_disk := dict_set i src (mh_disk mh)\<rparr>))"

definition uninstall_plugin ::
  "string \<Rightarrow> ('v, 'c) mad_hatter \<Rightarrow> py_exc option \<times> ('v, 'c) mad_hatter" where
  "uninstall_plugin i mh =
     (if plugin_exists i mh \<and> i \<noteq> ''core_plugin'' then
        (case (if i \<in> set (mh_active mh) then toggle_plugin i mh else (None, mh)) of
           (Some e, mh') \<Rightarrow> (Some e, mh')
         | (None, mh') \<Rightarrow>
             (None, mh'\<lparr>mh_plugins := dict_del i (mh_plugins mh'), mh_disk := dict_del i (mh_disk mh')\<rparr>))
      else (None, mh))"

text \<open>
  Discovery, folder by folder.  A plugin that is listed as active and cannot be activated is
  toggled off and the exception is raised again.
\<close>

fun discover ::
  "string list \<Rightarrow> ('v, 'c) mad_hatter \<Rightarrow> py_exc option \<times> ('v, 'c) mad_hatter" where
  "discover [] mh = (None, sync_hooks_tools_and_forms mh)"
| "discover (i # folders) mh =
     (let mh = load_plugin i mh in
      if i \<in> set (mh_active mh) then
        (case dict_get (mh_plugins mh) i of
           None \<Rightarrow> toggle_plugin i mh
         | Some p \<Rightarrow>
             (case activate_obj i p mh of
                (None, mh') \<Rightarrow> discover folders mh'
              | (Some e, mh') \<Rightarrow>
                  (case toggle_plugin i mh' of
                     (Some e', mh'') \<Rightarrow> (Some e', mh'')
                   | (None, mh'') \<Rightarrow> (Some e, mh''))))
      else discover folders mh)"

definition find_plugins :: "('v, 'c) mad_hatter \<Rightarrow> py_exc option \<times> ('v, 'c) mad_hatter" where
  "find_plugins mh =
     discover (''core_plugin'' # filter (\<lambda>i. i \<noteq> ''core_plugin'') (dict_keys (mh_disk mh)))
       (mh\<lparr>mh_plugins := [], mh_active := load_active_plugins_from_db mh\<rparr>)"


section \<open>Executing a hook\<close>

text \<open>
  A hook that raises is logged with the message of its plugin, which must be known.  The copy of the arguments that each hook gets is part of
  its call, so a copy that raises is a hook that raises; the first copy, before any hook, is taken to succeed (it raises for a first argument that cannot
  be copied, whatever the hooks are).
\<close>

fun pipe ::
  "('v, 'c) mad_hatter \<Rightarrow> 'v list \<Rightarrow> ('v, 'c) cat_hook list \<Rightarrow> 'v \<Rightarrow> 'c \<Rightarrow> 'v result \<times> 'c" where
  "pipe mh args [] cup cat = (Inr cup, cat)"
| "pipe mh args (h # hs) cup cat =
     (case h_function h (cup # args) cat of
        (Inr (Some spoon), cat) \<Rightarrow> pipe mh args hs spoon cat
      | (Inr None, cat) \<Rightarrow> pipe mh args hs cup cat
      | (Inl e, cat) \<Rightarrow>
          if plugin_exists (h_plugin_id h) mh then pipe mh args hs cup cat
          else (Inl (KeyError (h_plugin_id h)), cat))"

fun run_all :: "('v, 'c) mad_hatter \<Rightarrow> ('v, 'c) cat_hook list \<Rightarrow> 'c \<Rightarrow> unit result \<times> 'c" where
  "run_all mh [] cat = (Inr (), cat)"
| "run_all mh (h # hs) cat =
     (case h_function h [] cat of
        (Inr _, cat) \<Rightarrow> run_all mh hs cat
      | (Inl e, cat) \<Rightarrow>
          if plugin_exists (h_plugin_id h) mh then run_all mh hs cat
          else (Inl (KeyError (h_plugin_id h)), cat))"

definition execute_hook ::
  "string \<Rightarrow> 'v list \<Rightarrow> 'c \<Rightarrow> ('v, 'c) mad_hatter \<Rightarrow> 'v option result \<times> 'c" where
  "execute_hook name args cat mh =
     (case dict_get (mh_hooks mh) name of
        None \<Rightarrow> (Inl (Exception (''Hook '' @ name @ '' not present in any plugin'')), cat)
      | Some hs \<Rightarrow>
          (case args of
             [] \<Rightarrow> (case run_all mh hs cat of (r, cat) \<Rightarrow> (map_sum id (\<lambda>_. None) r, cat))
           | cup # rest \<Rightarrow> (case pipe mh rest hs cup cat of (r, cat) \<Rightarrow> (map_sum id Some r, cat))))"

definition procedures :: "('v, 'c) mad_hatter \<Rightarrow> string list" where
  "procedures mh = mh_tools mh @ mh_forms mh"

section \<open>Lemmas\<close>

subsection \<open>Synchronisation\<close>

lemma fold_add_hook:
  "dict_get (fold add_hook hs d) n =
     (let l = filter (\<lambda>h. h_name h = n) hs in
      if l = [] then dict_get d n else Some ((case dict_get d n of Some x \<Rightarrow> x | None \<Rightarrow> []) @ l))"
  by (induction hs arbitrary: d) (auto simp: add_hook_def Let_def split: option.splits)

lemma fold_plugins: "fold (\<lambda>p. fold add_hook (p_hooks p)) ps d = fold add_hook (concat (map p_hooks ps)) d"
  by (induction ps arbitrary: d) auto

text \<open>The hooks of a name of the active plugins, in the order of the plugins.\<close>

definition hooks_named :: "string \<Rightarrow> ('v, 'c) mad_hatter \<Rightarrow> ('v, 'c) cat_hook list" where
  "hooks_named n mh = filter (\<lambda>h. h_name h = n) (concat (map p_hooks (active_objs mh)))"

lemma sync_hooks_get:
  "dict_get (mh_hooks (sync_hooks_tools_and_forms mh)) n =
     (if hooks_named n mh = [] then None else Some (sort_desc h_priority (hooks_named n mh)))"
  by (simp add: hooks_named_def sync_hooks_tools_and_forms_def Let_def map_of_map fold_plugins fold_add_hook)

lemma active_objs_simps [simp]:
  "active_objs (mh\<lparr>mh_tools := t\<rparr>) = active_objs mh" "active_objs (mh\<lparr>mh_forms := f\<rparr>) = active_objs mh"
  "active_objs (mh\<lparr>mh_endpoints := e\<rparr>) = active_objs mh" "active_objs (mh\<lparr>mh_hooks := h\<rparr>) = active_objs mh"
  "active_objs (mh\<lparr>mh_saved := s\<rparr>) = active_objs mh" "active_objs (mh\<lparr>mh_disk := d\<rparr>) = active_objs mh"
  by (simp_all add: active_objs_def)

lemma sync_fields [simp]:
  "mh_plugins (sync_hooks_tools_and_forms mh) = mh_plugins mh"
  "mh_active (sync_hooks_tools_and_forms mh) = mh_active mh"
  "mh_saved (sync_hooks_tools_and_forms mh) = mh_saved mh"
  "mh_disk (sync_hooks_tools_and_forms mh) = mh_disk mh"
  "active_objs (sync_hooks_tools_and_forms mh) = active_objs mh"
  by (simp_all add: sync_hooks_tools_and_forms_def Let_def)

text \<open>The caches are those a synchronisation would compute.\<close>

definition synced :: "('v, 'c) mad_hatter \<Rightarrow> bool" where
  "synced mh \<longleftrightarrow> sync_hooks_tools_and_forms mh = mh"

lemma synced_sync [simp]: "synced (sync_hooks_tools_and_forms mh)"
  by (simp add: synced_def sync_hooks_tools_and_forms_def Let_def)

lemma synced_cong:
  "synced mh \<Longrightarrow> active_objs (f mh) = active_objs mh \<Longrightarrow>
   mh_tools (f mh) = mh_tools mh \<Longrightarrow> mh_forms (f mh) = mh_forms mh \<Longrightarrow>
   mh_endpoints (f mh) = mh_endpoints mh \<Longrightarrow> mh_hooks (f mh) = mh_hooks mh \<Longrightarrow> synced (f mh)"
proof -
  assume s: "synced mh" and eq: "active_objs (f mh) = active_objs mh"
    and fields: "mh_tools (f mh) = mh_tools mh" "mh_forms (f mh) = mh_forms mh"
      "mh_endpoints (f mh) = mh_endpoints mh" "mh_hooks (f mh) = mh_hooks mh"
  have "mh_tools mh = concat (map p_tools (active_objs mh))"
    "mh_forms mh = concat (map p_forms (active_objs mh))"
    "mh_endpoints mh = concat (map p_endpoints (active_objs mh))"
    "mh_hooks mh = map (\<lambda>(n, hs). (n, sort_desc h_priority hs)) (fold (\<lambda>p. fold add_hook (p_hooks p)) (active_objs mh) [])"
    using s [unfolded synced_def sync_hooks_tools_and_forms_def Let_def]
    by (metis (no_types, lifting) mad_hatter.select_convs mad_hatter.update_convs mad_hatter.surjective)+
  then show ?thesis
    by (simp add: synced_def sync_hooks_tools_and_forms_def Let_def eq flip: fields)
qed

subsection \<open>The invariant\<close>

definition plugin_ok :: "string \<Rightarrow> ('v, 'c) plugin \<Rightarrow> bool" where
  "plugin_ok i p \<longleftrightarrow> p_id p = i \<and> (\<forall>h \<in> set (p_hooks p). h_plugin_id h = i)"

definition plugins_ok :: "('v, 'c) mad_hatter \<Rightarrow> bool" where
  "plugins_ok mh \<longleftrightarrow>
     dict_ok (mh_plugins mh) \<and> (\<forall>(i, p) \<in> set (mh_plugins mh). plugin_ok i p) \<and> distinct (mh_active mh)"

text \<open>The saved list and the list in memory agree up to the core plugin, which a restart adds.\<close>

definition saved_ok :: "('v, 'c) mad_hatter \<Rightarrow> bool" where
  "saved_ok mh \<longleftrightarrow>
     (case mh_saved mh of
        None \<Rightarrow> set (mh_active mh) \<subseteq> {''core_plugin''}
      | Some l \<Rightarrow> insert ''core_plugin'' (set l) = insert ''core_plugin'' (set (mh_active mh)))"

definition mh_ok :: "('v, 'c) mad_hatter \<Rightarrow> bool" where
  "mh_ok mh \<longleftrightarrow> plugins_ok mh \<and> synced mh \<and> saved_ok mh"

lemma saved_ok_simps [simp]:
  "saved_ok (mh\<lparr>mh_plugins := ps\<rparr>) = saved_ok mh" "saved_ok (mh\<lparr>mh_disk := d\<rparr>) = saved_ok mh"
  by (simp_all add: saved_ok_def split: option.split)

lemma new_plugin_ok [simp]: "plugin_ok i (new_plugin i)" "plugin_ok i (new_plugin i\<lparr>p_active := a\<rparr>)"
  by (simp_all add: plugin_ok_def new_plugin_def)

lemma plugin_activate_ok: "plugin_ok i p \<Longrightarrow> plugin_activate src p = (err, p') \<Longrightarrow> plugin_ok i p'"
  by (auto simp: plugin_activate_def load_decorated_functions_def plugin_ok_def clean_hook_def Let_def split: option.splits)

lemma plugins_ok_set:
  "plugins_ok mh \<Longrightarrow> plugin_ok i p \<Longrightarrow> plugins_ok (mh\<lparr>mh_plugins := dict_set i p (mh_plugins mh)\<rparr>)"
  by (auto simp: plugins_ok_def dest!: dict_set_mem)

lemma plugins_ok_get: "plugins_ok mh \<Longrightarrow> dict_get (mh_plugins mh) i = Some p \<Longrightarrow> plugin_ok i p"
  by (auto simp: plugins_ok_def dest: map_of_SomeD)

lemma plugins_ok_simps [simp]:
  "plugins_ok (sync_hooks_tools_and_forms mh) = plugins_ok mh"
  "plugins_ok (save_active_plugins_to_db mh) = plugins_ok mh"
  "plugins_ok (mh\<lparr>mh_disk := d\<rparr>) = plugins_ok mh"
  by (simp_all add: plugins_ok_def save_active_plugins_to_db_def)

lemma saved_ok_saved: "saved_ok (sync_hooks_tools_and_forms (save_active_plugins_to_db mh))"
  by (simp add: saved_ok_def save_active_plugins_to_db_def)

text \<open>The object of an inactive plugin may change without a change of the caches.\<close>

lemma active_objs_set:
  assumes "plugins_ok mh" and "plugin_ok i p" and "i \<notin> set (mh_active mh)"
  shows "active_objs (mh\<lparr>mh_plugins := dict_set i p (mh_plugins mh)\<rparr>) = active_objs mh"
proof -
  have "filter (\<lambda>q. p_id q \<in> A) (map snd (dict_set i p d)) = filter (\<lambda>q. p_id q \<in> A) (map snd d)"
    if "\<forall>(j, q) \<in> set d. plugin_ok j q" "i \<notin> A" for d A
    using that assms(2) by (induction d) (auto simp: plugin_ok_def)
  with assms(1,3) show ?thesis by (auto simp: active_objs_def plugins_ok_def)
qed

lemma active_objs_del:
  assumes "plugins_ok mh" and "i \<notin> set (mh_active mh)"
  shows "active_objs (mh\<lparr>mh_plugins := dict_del i (mh_plugins mh)\<rparr>) = active_objs mh"
proof -
  have "filter (\<lambda>q. p_id q \<in> A) (map snd (dict_del i d)) = filter (\<lambda>q. p_id q \<in> A) (map snd d)"
    if "\<forall>(j, q) \<in> set d. plugin_ok j q" "i \<notin> A" for d A
    using that by (induction d) (auto simp: plugin_ok_def)
  with assms show ?thesis by (auto simp: active_objs_def plugins_ok_def)
qed

lemma dict_del_subset: "set (dict_del k d) \<subseteq> set d"
  by (auto simp: dict_del_filter)

lemma plugins_ok_del: "plugins_ok mh \<Longrightarrow> plugins_ok (mh\<lparr>mh_plugins := dict_del i (mh_plugins mh)\<rparr>)"
  by (auto simp: plugins_ok_def dest: subsetD [OF dict_del_subset])


lemma mh_ok_set:
  assumes "mh_ok mh" and "plugin_ok i p" and "i \<notin> set (mh_active mh)"
  shows "mh_ok (mh\<lparr>mh_plugins := dict_set i p (mh_plugins mh)\<rparr>)"
proof -
  have ok: "plugins_ok mh" "synced mh" "saved_ok mh" using assms(1) by (simp_all add: mh_ok_def)
  have "synced (mh\<lparr>mh_plugins := dict_set i p (mh_plugins mh)\<rparr>)"
    by (rule synced_cong [OF ok(2)]) (simp_all add: active_objs_set [OF ok(1) assms(2,3)])
  with plugins_ok_set [OF ok(1) assms(2)] ok(3) show ?thesis by (simp add: mh_ok_def)
qed

lemma mh_ok_disk: "mh_ok mh \<Longrightarrow> mh_ok (mh\<lparr>mh_disk := d\<rparr>)"
  using synced_cong [of mh "\<lambda>mh. mh\<lparr>mh_disk := d\<rparr>"] by (simp add: mh_ok_def)

lemma activate_obj_ok:
  assumes "plugin_ok i p" and "activate_obj i p mh = (err, mh')"
  obtains p' where "mh' = mh\<lparr>mh_plugins := dict_set i p' (mh_plugins mh)\<rparr>" and "plugin_ok i p'"
  using assms plugin_activate_ok [OF assms(1)]
  by (auto simp: activate_obj_def split: option.splits prod.splits)

text \<open>Only the plugins have to be right for a successful toggle to give a right state.\<close>

lemma toggle_success:
  assumes "plugins_ok mh" and "toggle_plugin i mh = (None, mh')"
  shows "mh_ok mh'" and "mh_active mh' = (if i \<in> set (mh_active mh) then remove1 i (mh_active mh) else mh_active mh @ [i])"
proof -
  from assms(2) obtain p where p: "dict_get (mh_plugins mh) i = Some p"
    by (auto simp: toggle_plugin_def split: option.splits)
  have pok: "plugin_ok i p" by (rule plugins_ok_get [OF assms(1) p])
  have "mh_ok mh' \<and>
      mh_active mh' = (if i \<in> set (mh_active mh) then remove1 i (mh_active mh) else mh_active mh @ [i])"
  proof (cases "i \<in> set (mh_active mh)")
    case True
    have "p_id p = i" using pok by (simp add: plugin_ok_def)
    with True assms(2) p have mh': "mh' = sync_hooks_tools_and_forms (save_active_plugins_to_db
        (mh\<lparr>mh_plugins := dict_set i (new_plugin i) (mh_plugins mh), mh_active := remove1 i (mh_active mh)\<rparr>))"
      by (auto simp: toggle_plugin_def plugin_deactivate_def split: option.splits)
    have "plugins_ok (mh\<lparr>mh_plugins := dict_set i (new_plugin i) (mh_plugins mh)\<rparr>)"
      by (rule plugins_ok_set [OF assms(1)]) simp
    then have "plugins_ok (mh\<lparr>mh_plugins := dict_set i (new_plugin i) (mh_plugins mh), mh_active := remove1 i (mh_active mh)\<rparr>)"
      by (simp add: plugins_ok_def)
    then show ?thesis
      unfolding mh' using True by (simp add: mh_ok_def saved_ok_saved) (simp add: save_active_plugins_to_db_def)
  next
    case False
    obtain err mh1 where a: "activate_obj i p mh = (err, mh1)" by fastforce
    obtain p' where mh1: "mh1 = mh\<lparr>mh_plugins := dict_set i p' (mh_plugins mh)\<rparr>" "plugin_ok i p'"
      by (rule activate_obj_ok [OF pok a])
    from False assms(2) p a have mh': "mh' = sync_hooks_tools_and_forms (save_active_plugins_to_db
        (mh1\<lparr>mh_active := mh_active mh1 @ [i]\<rparr>))"
      by (auto simp: toggle_plugin_def split: option.splits)
    have "plugins_ok mh1" unfolding mh1(1) by (rule plugins_ok_set [OF assms(1) mh1(2)])
    with False mh1 have "plugins_ok (mh1\<lparr>mh_active := mh_active mh1 @ [i]\<rparr>)" by (simp add: plugins_ok_def)
    then show ?thesis
      unfolding mh' using False mh1 by (simp add: mh_ok_def saved_ok_saved) (simp add: save_active_plugins_to_db_def)
  qed
  then show "mh_ok mh'" and "mh_active mh' = (if i \<in> set (mh_active mh) then remove1 i (mh_active mh) else mh_active mh @ [i])"
    by simp_all
qed

lemma toggle_ok:
  assumes "mh_ok mh" and "toggle_plugin i mh = (err, mh')"
  shows "mh_ok mh'"
proof (cases err)
  case None
  with assms toggle_success(1) [of mh i mh'] show ?thesis by (simp add: mh_ok_def)
next
  case (Some e)
  show ?thesis
  proof (cases "dict_get (mh_plugins mh) i")
    case None
    with assms show ?thesis by (simp add: toggle_plugin_def)
  next
    case p: (Some p)
    have pok: "plugin_ok i p" using assms(1) p by (auto simp: mh_ok_def intro: plugins_ok_get)
    show ?thesis
    proof (cases "i \<in> set (mh_active mh)")
      case True
      with assms Some p show ?thesis
        by (auto simp: toggle_plugin_def plugin_deactivate_def split: option.splits)
    next
      case False
      obtain err1 mh1 where a: "activate_obj i p mh = (err1, mh1)" by fastforce
      with False assms(2) p Some have "mh' = mh1" by (auto simp: toggle_plugin_def split: option.splits)
      with activate_obj_ok [OF pok a] mh_ok_set [OF assms(1) _ False] show ?thesis by metis
    qed
  qed
qed

lemma install_active_succeeds:
  assumes "i \<in> set (mh_active mh)" and "src_valid src" and "install_plugin i src mh = (err, mh')"
  shows "err = None" and "mh_active mh' = remove1 i (mh_active mh)"
  using assms
  by (auto simp: install_plugin_def load_plugin_def toggle_plugin_def plugin_deactivate_def new_plugin_def
      save_active_plugins_to_db_def)

lemma install_ok:
  assumes "mh_ok mh" and "install_plugin i src mh = (err, mh')"
  shows "mh_ok mh'"
proof -
  let ?d = "mh\<lparr>mh_disk := dict_set i src (mh_disk mh)\<rparr>"
  have d: "mh_ok ?d" by (rule mh_ok_disk [OF assms(1)])
  show ?thesis
  proof (cases "src_valid src")
    case valid: True
    let ?m = "?d\<lparr>mh_plugins := dict_set i (new_plugin i) (mh_plugins mh)\<rparr>"
    have l: "load_plugin i ?d = ?m" using valid by (simp add: load_plugin_def)
    have t: "toggle_plugin i ?m = (err, mh')" using assms(2) l by (simp add: install_plugin_def)
    have pm: "plugins_ok ?m" using plugins_ok_set [of ?d i "new_plugin i"] d by (simp add: mh_ok_def)
    show ?thesis
    proof (cases "i \<in> set (mh_active mh)")
      case True
      with install_active_succeeds(1) [OF True valid assms(2)] t toggle_success(1) [OF pm] show ?thesis by simp
    next
      case False
      then have "mh_ok ?m" using mh_ok_set [OF d, of i "new_plugin i"] by simp
      with t toggle_ok show ?thesis by blast
    qed
  next
    case False
    then have "load_plugin i ?d = ?d" by (simp add: load_plugin_def)
    with assms(2) d toggle_ok show ?thesis by (metis install_plugin_def)
  qed
qed

lemma uninstall_ok:
  assumes "mh_ok mh" and "uninstall_plugin i mh = (err, mh')"
  shows "mh_ok mh'"
proof (cases "plugin_exists i mh \<and> i \<noteq> ''core_plugin''")
  case False
  with assms show ?thesis by (auto simp: uninstall_plugin_def)
next
  case True
  obtain e1 m1 where t: "(if i \<in> set (mh_active mh) then toggle_plugin i mh else (None, mh)) = (e1, m1)" by fastforce
  have m1: "mh_ok m1" using t assms(1) toggle_ok by (auto split: if_splits)
  show ?thesis
  proof (cases e1)
    case (Some e)
    with True t assms(2) m1 show ?thesis by (auto simp: uninstall_plugin_def split: if_splits)
  next
    case None
    let ?m = "m1\<lparr>mh_plugins := dict_del i (mh_plugins m1), mh_disk := dict_del i (mh_disk m1)\<rparr>"
    have mh': "mh' = ?m" using True t assms(2) None by (auto simp: uninstall_plugin_def)
    have d: "distinct (mh_active mh)" "plugins_ok mh" "plugins_ok m1" "synced m1" "saved_ok m1"
      using assms(1) m1 by (simp_all add: mh_ok_def plugins_ok_def)
    have na: "i \<notin> set (mh_active m1)"
    proof (cases "i \<in> set (mh_active mh)")
      case True
      with t None have "toggle_plugin i mh = (None, m1)" by simp
      from toggle_success(2) [OF d(2) this] True d(1) show ?thesis by simp
    qed (use t in simp)
    have "active_objs ?m = active_objs m1"
      using active_objs_del [OF d(3) na] by (simp add: active_objs_def)
    then have "synced ?m" by (intro synced_cong [OF d(4)]) simp_all
    with d(3,5) show ?thesis by (simp add: mh' mh_ok_def plugins_ok_del)
  qed
qed

subsection \<open>Discovery\<close>

lemma load_plugin_keeps:
  "plugins_ok mh \<Longrightarrow> plugins_ok (load_plugin i mh)"
  "mh_active (load_plugin i mh) = mh_active mh" "mh_saved (load_plugin i mh) = mh_saved mh"
  "mh_disk (load_plugin i mh) = mh_disk mh"
  by (auto simp: load_plugin_def plugins_ok_set split: option.splits)

lemma discover_ok:
  "plugins_ok mh \<Longrightarrow> discover fs mh = (None, mh') \<Longrightarrow>
   plugins_ok mh' \<and> synced mh' \<and> mh_active mh' = mh_active mh \<and> mh_saved mh' = mh_saved mh"
proof (induction fs arbitrary: mh)
  case Nil
  then show ?case by auto
next
  case (Cons i fs)
  let ?m = "load_plugin i mh"
  note ok = load_plugin_keeps(1) [OF Cons.prems(1), of i]
  show ?case
  proof (cases "i \<in> set (mh_active ?m)")
    case False
    with Cons.prems(2) have "discover fs ?m = (None, mh')" by simp
    from Cons.IH [OF ok this] show ?thesis by (simp add: load_plugin_keeps)
  next
    case True
    show ?thesis
    proof (cases "dict_get (mh_plugins ?m) i")
      case None
      with True Cons.prems(2) show ?thesis by (simp add: toggle_plugin_def)
    next
      case (Some p)
      obtain err m1 where a: "activate_obj i p ?m = (err, m1)" by fastforce
      obtain p' where m1: "m1 = ?m\<lparr>mh_plugins := dict_set i p' (mh_plugins ?m)\<rparr>" "plugin_ok i p'"
        by (rule activate_obj_ok [OF plugins_ok_get [OF ok Some] a])
      from True Some a Cons.prems(2) have "discover fs m1 = (None, mh')"
        by (auto split: option.splits prod.splits)
      from Cons.IH [OF _ this] plugins_ok_set [OF ok m1(2)] show ?thesis
        by (simp add: m1(1) load_plugin_keeps)
    qed
  qed
qed

lemma load_active_set: "set (load_active_plugins_from_db mh) = insert ''core_plugin'' (case mh_saved mh of None \<Rightarrow> {} | Some l \<Rightarrow> set l)"
  unfolding load_active_plugins_from_db_def Let_def by (cases "mh_saved mh") auto

lemma load_active_distinct:
  "(case mh_saved mh of None \<Rightarrow> True | Some l \<Rightarrow> distinct l) \<Longrightarrow> distinct (load_active_plugins_from_db mh)"
  unfolding load_active_plugins_from_db_def Let_def by (cases "mh_saved mh") simp_all

lemma find_plugins_ok:
  assumes "case mh_saved mh of None \<Rightarrow> True | Some l \<Rightarrow> distinct l" and "find_plugins mh = (None, mh')"
  shows "mh_ok mh'" and "set (mh_active mh') = insert ''core_plugin'' (case mh_saved mh of None \<Rightarrow> {} | Some l \<Rightarrow> set l)"
proof -
  let ?m = "mh\<lparr>mh_plugins := [], mh_active := load_active_plugins_from_db mh\<rparr>"
  have "plugins_ok ?m" using load_active_distinct [OF assms(1)] by (simp add: plugins_ok_def)
  from discover_ok [OF this assms(2) [unfolded find_plugins_def]]
  have d: "plugins_ok mh'" "synced mh'" "mh_active mh' = load_active_plugins_from_db mh" "mh_saved mh' = mh_saved mh"
    by simp_all
  show a: "set (mh_active mh') = insert ''core_plugin'' (case mh_saved mh of None \<Rightarrow> {} | Some l \<Rightarrow> set l)"
    using d(3) load_active_set by metis
  have "saved_ok mh'"
    unfolding saved_ok_def a d(4) by (cases "mh_saved mh") simp_all
  with d show "mh_ok mh'" by (simp add: mh_ok_def)
qed


subsection \<open>The life of the manager\<close>

definition boot ::
  "(string, ('v, 'c) source) dict \<Rightarrow> string list option \<Rightarrow> py_exc option \<times> ('v, 'c) mad_hatter" where
  "boot disk saved =
     find_plugins \<lparr>mh_disk = disk, mh_plugins = [], mh_hooks = [], mh_tools = [], mh_forms = [],
       mh_endpoints = [], mh_active = [], mh_saved = saved\<rparr>"

text \<open>A manager that booted, and was then used in any way, failed calls included.\<close>

inductive mh_reach :: "('v, 'c) mad_hatter \<Rightarrow> bool" where
  booted: "boot disk saved = (None, mh) \<Longrightarrow> (case saved of None \<Rightarrow> True | Some l \<Rightarrow> distinct l) \<Longrightarrow> mh_reach mh"
| toggled: "mh_reach mh \<Longrightarrow> toggle_plugin i mh = (err, mh') \<Longrightarrow> mh_reach mh'"
| installed: "mh_reach mh \<Longrightarrow> install_plugin i src mh = (err, mh') \<Longrightarrow> mh_reach mh'"
| uninstalled: "mh_reach mh \<Longrightarrow> uninstall_plugin i mh = (err, mh') \<Longrightarrow> mh_reach mh'"

lemma reach_ok: "mh_reach mh \<Longrightarrow> mh_ok mh"
proof (induction rule: mh_reach.induct)
  case (booted disk saved mh)
  then show ?case unfolding boot_def using find_plugins_ok(1) by (metis mad_hatter.select_convs(8))
qed (blast intro: toggle_ok install_ok uninstall_ok)+

lemma synced_fields:
  assumes "synced mh"
  shows "mh_tools mh = concat (map p_tools (active_objs mh))"
    and "mh_forms mh = concat (map p_forms (active_objs mh))"
    and "mh_endpoints mh = concat (map p_endpoints (active_objs mh))"
    and "dict_get (mh_hooks mh) n =
      (if hooks_named n mh = [] then None else Some (sort_desc h_priority (hooks_named n mh)))"
proof -
  have s: "mh = sync_hooks_tools_and_forms mh" using assms by (simp add: synced_def)
  show "mh_tools mh = concat (map p_tools (active_objs mh))"
    by (subst s) (simp add: sync_hooks_tools_and_forms_def Let_def)
  show "mh_forms mh = concat (map p_forms (active_objs mh))"
    by (subst s) (simp add: sync_hooks_tools_and_forms_def Let_def)
  show "mh_endpoints mh = concat (map p_endpoints (active_objs mh))"
    by (subst s) (simp add: sync_hooks_tools_and_forms_def Let_def)
  show "dict_get (mh_hooks mh) n =
      (if hooks_named n mh = [] then None else Some (sort_desc h_priority (hooks_named n mh)))"
    by (subst s) (rule sync_hooks_get)
qed

lemma active_objs_known: "plugins_ok mh \<Longrightarrow> p \<in> set (active_objs mh) \<Longrightarrow> plugin_ok (p_id p) p \<and> plugin_exists (p_id p) mh \<and> p_id p \<in> set (mh_active mh)"
proof -
  assume ok: "plugins_ok mh" and p: "p \<in> set (active_objs mh)"
  then obtain j where j: "(j, p) \<in> set (mh_plugins mh)" "p_id p \<in> set (mh_active mh)"
    unfolding active_objs_def by auto
  then have "plugin_ok j p" using ok unfolding plugins_ok_def by blast
  moreover have "j \<in> set (dict_keys (mh_plugins mh))" using j(1) by force
  ultimately show ?thesis using j(2) by (simp add: plugin_ok_def plugin_exists_def)
qed

lemma cached_hook_known:
  assumes "mh_ok mh" and "dict_get (mh_hooks mh) n = Some hs" and "h \<in> set hs"
  shows "plugin_exists (h_plugin_id h) mh" and "h_plugin_id h \<in> set (mh_active mh)"
proof -
  have "synced mh" "plugins_ok mh" using assms(1) by (simp_all add: mh_ok_def)
  from synced_fields(4) [OF this(1), of n] assms(2,3)
  obtain p where "p \<in> set (active_objs mh)" "h \<in> set (p_hooks p)"
    by (auto simp: hooks_named_def split: if_splits)
  with active_objs_known [OF \<open>plugins_ok mh\<close>] show "plugin_exists (h_plugin_id h) mh" "h_plugin_id h \<in> set (mh_active mh)"
    by (auto simp: plugin_ok_def)
qed

text \<open>What a hook leaves in the tea cup: its result, or the old value when it returns nothing or raises.\<close>

definition sip :: "'v list \<Rightarrow> ('v, 'c) cat_hook \<Rightarrow> 'v \<times> 'c \<Rightarrow> 'v \<times> 'c" where
  "sip args h = (\<lambda>(cup, cat).
     case h_function h (cup # args) cat of
       (Inr (Some spoon), cat) \<Rightarrow> (spoon, cat)
     | (_, cat) \<Rightarrow> (cup, cat))"

lemma pipe_fold:
  "\<forall>h \<in> set hs. plugin_exists (h_plugin_id h) mh \<Longrightarrow>
   pipe mh args hs cup cat = (case fold (sip args) hs (cup, cat) of (cup, cat) \<Rightarrow> (Inr cup, cat))"
  by (induction hs arbitrary: cup cat) (auto simp: sip_def split: prod.splits sum.splits option.splits)

lemma run_all_fold:
  "\<forall>h \<in> set hs. plugin_exists (h_plugin_id h) mh \<Longrightarrow>
   run_all mh hs cat = (Inr (), fold (\<lambda>h cat. snd (h_function h [] cat)) hs cat)"
  by (induction hs arbitrary: cat) (auto split: prod.splits sum.splits)


section \<open>Properties of the plugin manager\<close>

definition greet :: "string \<Rightarrow> int \<Rightarrow> int \<Rightarrow> (int, unit) cat_hook" where
  "greet n k pr = \<lparr>h_name = n, h_plugin_id = [], h_priority = pr, h_function = (\<lambda>vs c. (Inr (Some (sum_list vs + k)), c))\<rparr>"

definition faulty :: "string \<Rightarrow> int \<Rightarrow> (int, unit) cat_hook" where
  "faulty n pr = \<lparr>h_name = n, h_plugin_id = [], h_priority = pr, h_function = (\<lambda>vs c. (Inl (Exception ''boom''), c))\<rparr>"

definition demo_source :: "(int, unit) cat_hook list \<Rightarrow> string list \<Rightarrow> (int, unit) source" where
  "demo_source hs ts = \<lparr>src_valid = True, src_install = None, src_settings = None, src_hooks = hs, src_tools = ts,
     src_forms = [], src_endpoints = [], src_activated = None, src_deactivated = None\<rparr>"

definition demo_disk :: "(string, (int, unit) source) dict" where
  "demo_disk = [(''core_plugin'', demo_source [greet ''fast'' 1 0] [''clock'']),
     (''hara'', demo_source [faulty ''fast'' 5, greet ''fast'' 10 3] [''table''])]"

definition demo_mh :: "(int, unit) mad_hatter" where
  "demo_mh = snd (boot demo_disk (Some [''hara'']))"

lemma demo_boot: "boot demo_disk (Some [''hara'']) = (None, demo_mh)"
proof -
  have "fst (boot demo_disk (Some [''hara''])) = None" by code_simp
  then show ?thesis by (simp add: demo_mh_def prod_eq_iff)
qed

lemma demo_reach: "mh_reach demo_mh"
  by (rule booted [OF demo_boot]) simp

text \<open>
  C5. Consistency of the plugin manager.  After a successful start and any sequence of toggles,
  installations and removals, failing ones included: the list of active plugins has no duplicates
  and differs from the list saved in the database at most by the core plugin, which a restart
  adds; tools, forms and endpoints are exactly those of the active plugins; and the hooks
  under a name are exactly the hooks of that name of the active plugins, by descending priority and, for
  equal priority, in the order of the plugins.
\<close>
theorem plugin_manager_consistent:
  assumes "mh_reach mh"
  shows "distinct (mh_active mh) \<and>
         (case mh_saved mh of
            None \<Rightarrow> set (mh_active mh) \<subseteq> {''core_plugin''}
          | Some l \<Rightarrow> insert ''core_plugin'' (set l) = insert ''core_plugin'' (set (mh_active mh))) \<and>
         mh_tools mh = concat (map p_tools (active_objs mh)) \<and>
         mh_forms mh = concat (map p_forms (active_objs mh)) \<and>
         mh_endpoints mh = concat (map p_endpoints (active_objs mh)) \<and>
         (\<forall>n. case dict_get (mh_hooks mh) n of
                None \<Rightarrow> hooks_named n mh = []
              | Some hs \<Rightarrow>
                  hooks_named n mh \<noteq> [] \<and> mset hs = mset (hooks_named n mh) \<and>
                  sorted_wrt (\<lambda>h k. h_priority k \<le> h_priority h) hs \<and>
                  (\<forall>q. filter (\<lambda>h. h_priority h = q) hs = filter (\<lambda>h. h_priority h = q) (hooks_named n mh)))"
proof -
  have ok: "plugins_ok mh" "synced mh" "saved_ok mh" using reach_ok [OF assms] by (simp_all add: mh_ok_def)
  have "distinct (mh_active mh)" using ok(1) by (simp add: plugins_ok_def)
  moreover have "case dict_get (mh_hooks mh) n of
                None \<Rightarrow> hooks_named n mh = []
              | Some hs \<Rightarrow>
                  hooks_named n mh \<noteq> [] \<and> mset hs = mset (hooks_named n mh) \<and>
                  sorted_wrt (\<lambda>h k. h_priority k \<le> h_priority h) hs \<and>
                  (\<forall>q. filter (\<lambda>h. h_priority h = q) hs = filter (\<lambda>h. h_priority h = q) (hooks_named n mh))" for n
    by (simp add: synced_fields(4) [OF ok(2)] sort_desc_sorted sort_desc_stable)
  ultimately show ?thesis
    using ok(3) [unfolded saved_ok_def] synced_fields(1-3) [OF ok(2)] by blast
qed

theorem plugin_manager_consistent_witness:
  "distinct (mh_active demo_mh) \<and> mh_tools demo_mh = [''clock'', ''table''] \<and>
   map h_priority (the (dict_get (mh_hooks demo_mh) ''fast'')) = [5, 3, 0]"
proof -
  have "map h_priority (the (dict_get (mh_hooks demo_mh) ''fast'')) = [5, 3, 0]"
    "concat (map p_tools (active_objs demo_mh)) = [''clock'', ''table'']"
    by code_simp+
  with plugin_manager_consistent [OF demo_reach] show ?thesis by metis
qed

text \<open>
  C16. Executing a hook.  In every state the manager reaches, a hook that some active plugin has never
  makes the caller fail: with arguments, the first one is piped through all hooks of that name, a
  hook that raises or returns nothing leaving it as it was, and the final value is returned; without
  arguments every hook runs.  A name that no active plugin has raises.
\<close>
theorem execute_hook_pipes:
  assumes "mh_reach mh"
  shows "case dict_get (mh_hooks mh) n of
           None \<Rightarrow> execute_hook n args cat mh = (Inl (Exception (''Hook '' @ n @ '' not present in any plugin'')), cat)
         | Some hs \<Rightarrow>
             (case args of
                [] \<Rightarrow> execute_hook n args cat mh = (Inr None, fold (\<lambda>h cat. snd (h_function h [] cat)) hs cat)
              | cup # rest \<Rightarrow>
                  (let (cup', cat') = fold (sip rest) hs (cup, cat)
                   in execute_hook n args cat mh = (Inr (Some cup'), cat')))"
proof (cases "dict_get (mh_hooks mh) n")
  case None
  then show ?thesis by (simp add: execute_hook_def)
next
  case (Some hs)
  then have known: "\<forall>h \<in> set hs. plugin_exists (h_plugin_id h) mh"
    using cached_hook_known(1) [OF reach_ok [OF assms]] by blast
  show ?thesis
  proof (cases args)
    case Nil
    with Some show ?thesis by (simp add: execute_hook_def run_all_fold [OF known])
  next
    case (Cons cup rest)
    with Some show ?thesis by (simp add: execute_hook_def pipe_fold [OF known] split: prod.split)
  qed
qed

theorem execute_hook_pipes_witness:
  "execute_hook ''fast'' [5] () demo_mh = (Inr (Some 16), ()) \<and>
   fst (execute_hook ''slow'' [5] () demo_mh) = Inl (Exception ''Hook slow not present in any plugin'')"
proof -
  have h: "case dict_get (mh_hooks demo_mh) ''fast'' of None \<Rightarrow> False | Some hs \<Rightarrow> fold (sip []) hs (5, ()) = (16, ())"
    by code_simp
  have s: "Option.is_none (dict_get (mh_hooks demo_mh) ''slow'')" by code_simp
  show ?thesis
    using h s execute_hook_pipes [OF demo_reach, of "''fast''" "[5]" "()"]
      execute_hook_pipes [OF demo_reach, of "''slow''" "[5]" "()"]
    by (auto simp: Option.is_none_def split: option.splits)
qed

lemma dict_set_twice: "dict_set k v (dict_set k w d) = dict_set k v d"
  by (induction d) auto

lemma toggle_plugins:
  assumes "plugins_ok mh" and "toggle_plugin i mh = (None, mh')"
  obtains p where "mh_plugins mh' = dict_set i p (mh_plugins mh)" and "plugin_ok i p"
proof -
  from assms(2) obtain p where p: "dict_get (mh_plugins mh) i = Some p"
    by (auto simp: toggle_plugin_def split: option.splits)
  have pok: "plugin_ok i p" by (rule plugins_ok_get [OF assms(1) p])
  show ?thesis
  proof (cases "i \<in> set (mh_active mh)")
    case True
    with assms(2) p have "mh_plugins mh' = dict_set i (new_plugin (p_id p)) (mh_plugins mh)"
      by (auto simp: toggle_plugin_def plugin_deactivate_def save_active_plugins_to_db_def split: option.splits)
    with pok that show ?thesis by (simp add: plugin_ok_def new_plugin_def)
  next
    case False
    obtain err m1 where a: "activate_obj i p mh = (err, m1)" by fastforce
    with False assms(2) p have "mh_plugins mh' = mh_plugins m1"
      by (auto simp: toggle_plugin_def save_active_plugins_to_db_def split: option.splits)
    moreover obtain p' where "m1 = mh\<lparr>mh_plugins := dict_set i p' (mh_plugins mh)\<rparr>" "plugin_ok i p'"
      by (rule activate_obj_ok [OF pok a])
    ultimately show ?thesis using that by simp
  qed
qed

lemma toggle_disk: "toggle_plugin i mh = (err, mh') \<Longrightarrow> mh_disk mh' = mh_disk mh"
  by (auto simp: toggle_plugin_def activate_obj_def save_active_plugins_to_db_def Let_def
      split: option.splits if_splits prod.splits)

text \<open>
  Activating an inactive plugin and deactivating it again leaves the active list, the
  tools, forms, endpoints and the hooks under every name as they were; the plugins folder does not change.
\<close>
theorem toggle_round_trip:
  assumes "mh_reach mh" and "i \<notin> set (mh_active mh)"
    and "toggle_plugin i mh = (None, mh1)" and "toggle_plugin i mh1 = (None, mh2)"
  shows "i \<in> set (mh_active mh1) \<and> mh_active mh2 = mh_active mh \<and> mh_disk mh2 = mh_disk mh \<and>
         mh_tools mh2 = mh_tools mh \<and> mh_forms mh2 = mh_forms mh \<and> mh_endpoints mh2 = mh_endpoints mh \<and>
         dict_get (mh_hooks mh2) = dict_get (mh_hooks mh)"
proof -
  have ok: "mh_ok mh" "mh_ok mh1" "mh_ok mh2"
    using reach_ok [OF assms(1)] toggle_ok assms(3,4) by blast+
  have p: "plugins_ok mh" "plugins_ok mh1" "synced mh" "synced mh2" using ok by (simp_all add: mh_ok_def)
  have act: "mh_active mh1 = mh_active mh @ [i]" "mh_active mh2 = mh_active mh"
    using toggle_success(2) [OF p(1) assms(3)] toggle_success(2) [OF p(2) assms(4)] assms(2)
    by (simp_all add: remove1_append)
  obtain q where q: "mh_plugins mh1 = dict_set i q (mh_plugins mh)" by (rule toggle_plugins [OF p(1) assms(3)])
  obtain r where r: "mh_plugins mh2 = dict_set i r (mh_plugins mh1)" "plugin_ok i r" by (rule toggle_plugins [OF p(2) assms(4)])
  have "active_objs mh2 = active_objs (mh\<lparr>mh_plugins := dict_set i r (mh_plugins mh)\<rparr>)"
    by (simp add: active_objs_def act q r(1) dict_set_twice)
  then have objs: "active_objs mh2 = active_objs mh" using active_objs_set [OF p(1) r(2) assms(2)] by simp
  then have "dict_get (mh_hooks mh2) n = dict_get (mh_hooks mh) n" for n
    by (simp add: synced_fields(4) [OF p(3)] synced_fields(4) [OF p(4)] hooks_named_def)
  then show ?thesis
    using act toggle_disk [OF assms(3)] toggle_disk [OF assms(4)] objs
      synced_fields(1-3) [OF p(3)] synced_fields(1-3) [OF p(4)] by auto
qed

definition demo_off :: "(int, unit) mad_hatter" where
  "demo_off = snd (boot demo_disk None)"

lemma demo_off_reach: "mh_reach demo_off"
proof -
  have "fst (boot demo_disk None) = None" by code_simp
  then have "boot demo_disk None = (None, demo_off)" by (simp add: demo_off_def prod_eq_iff)
  then show ?thesis by (rule booted) simp
qed

theorem toggle_round_trip_witness:
  "mh_tools (snd (toggle_plugin ''hara'' (snd (toggle_plugin ''hara'' demo_off)))) = mh_tools demo_off"
proof -
  let ?m1 = "snd (toggle_plugin ''hara'' demo_off)"
  have "''hara'' \<notin> set (mh_active demo_off)" by code_simp
  moreover have "fst (toggle_plugin ''hara'' demo_off) = None" "fst (toggle_plugin ''hara'' ?m1) = None" by code_simp+
  then have "toggle_plugin ''hara'' demo_off = (None, ?m1)" "toggle_plugin ''hara'' ?m1 = (None, snd (toggle_plugin ''hara'' ?m1))"
    by (metis prod.collapse)+
  ultimately show ?thesis using toggle_round_trip [OF demo_off_reach] by blast
qed

text \<open>
  Removing a plugin.  Unless it is the core plugin, a plugin that is present and whose removal does not
  raise is gone from the folder, from the dictionary of plugins and from the active list, no cached
  hook belongs to it, and the other plugins are kept; the core plugin is never removed.
\<close>
theorem uninstall_removes_plugin:
  assumes "mh_reach mh" and "plugin_exists i mh" and "uninstall_plugin i mh = (None, mh')"
  shows "if i = ''core_plugin'' then mh' = mh
         else \<not> plugin_exists i mh' \<and> i \<notin> set (mh_active mh') \<and> dict_get (mh_disk mh') i = None \<and>
           (\<forall>n hs h. dict_get (mh_hooks mh') n = Some hs \<longrightarrow> h \<in> set hs \<longrightarrow> h_plugin_id h \<noteq> i) \<and>
           (\<forall>j. j \<noteq> i \<longrightarrow> dict_get (mh_plugins mh') j = dict_get (mh_plugins mh) j \<and>
             (j \<in> set (mh_active mh') \<longleftrightarrow> j \<in> set (mh_active mh)))"
proof (cases "i = ''core_plugin''")
  case True
  with assms(3) show ?thesis by (simp add: uninstall_plugin_def)
next
  case False
  have ok: "plugins_ok mh" "distinct (mh_active mh)" using reach_ok [OF assms(1)] by (simp_all add: mh_ok_def plugins_ok_def)
  have ok': "mh_ok mh'" by (rule uninstall_ok [OF reach_ok [OF assms(1)] assms(3)])
  obtain m1 where t: "(if i \<in> set (mh_active mh) then toggle_plugin i mh else (None, mh)) = (None, m1)"
    and mh': "mh' = m1\<lparr>mh_plugins := dict_del i (mh_plugins m1), mh_disk := dict_del i (mh_disk m1)\<rparr>"
    using assms(2,3) False by (auto simp: uninstall_plugin_def split: option.splits prod.splits if_splits)
  have m1: "i \<notin> set (mh_active m1) \<and> (\<forall>j. j \<noteq> i \<longrightarrow> dict_get (mh_plugins m1) j = dict_get (mh_plugins mh) j \<and>
      (j \<in> set (mh_active m1) \<longleftrightarrow> j \<in> set (mh_active mh)))"
  proof (cases "i \<in> set (mh_active mh)")
    case True
    with t have t': "toggle_plugin i mh = (None, m1)" by simp
    obtain p where "mh_plugins m1 = dict_set i p (mh_plugins mh)" by (rule toggle_plugins [OF ok(1) t'])
    with toggle_success(2) [OF ok(1) t'] True ok(2) show ?thesis by simp
  qed (use t in simp)
  have na: "i \<notin> set (mh_active mh')" using m1 by (simp add: mh')
  have "h_plugin_id h \<noteq> i" if "dict_get (mh_hooks mh') n = Some hs" "h \<in> set hs" for n hs h
    using cached_hook_known(2) [OF ok' that] na by blast
  moreover have "\<not> plugin_exists i mh'" by (auto simp: mh' plugin_exists_def dict_del_filter)
  ultimately show ?thesis using False m1 na by (simp add: mh')
qed

theorem uninstall_removes_plugin_witness:
  "plugin_exists ''hara'' demo_mh \<and> \<not> plugin_exists ''hara'' (snd (uninstall_plugin ''hara'' demo_mh))"
proof -
  have "plugin_exists ''hara'' demo_mh" by code_simp
  moreover have "fst (uninstall_plugin ''hara'' demo_mh) = None" by code_simp
  then have "uninstall_plugin ''hara'' demo_mh = (None, snd (uninstall_plugin ''hara'' demo_mh))" by (metis prod.collapse)
  moreover have "''hara'' \<noteq> ''core_plugin''" by simp
  ultimately show ?thesis using uninstall_removes_plugin [OF demo_reach, of "''hara''"] by meson
qed

text \<open>
  Installing a new version of an active plugin switches the plugin off: the installation ends with a toggle,
  which removes an active plugin from the active list instead of activating it.  An inactive or new
  plugin is switched on when its activation does not raise.
\<close>
theorem install_toggles:
  assumes "mh_reach mh" and "src_valid src" and "install_plugin i src mh = (err, mh')"
  shows "if i \<in> set (mh_active mh) then err = None \<and> mh_active mh' = remove1 i (mh_active mh) \<and> i \<notin> set (mh_active mh')
         else err = None \<longrightarrow> mh_active mh' = mh_active mh @ [i]"
proof -
  let ?m = "load_plugin i (mh\<lparr>mh_disk := dict_set i src (mh_disk mh)\<rparr>)"
  have ok: "plugins_ok mh" "distinct (mh_active mh)" using reach_ok [OF assms(1)] by (simp_all add: mh_ok_def plugins_ok_def)
  have "plugins_ok ?m" "mh_active ?m = mh_active mh" using ok(1) by (simp_all add: load_plugin_keeps)
  moreover have "toggle_plugin i ?m = (err, mh')" using assms(3) by (simp add: install_plugin_def)
  ultimately show ?thesis
    using toggle_success(2) [of ?m i mh'] install_active_succeeds [OF _ assms(2,3)] ok(2) by auto
qed

theorem install_toggles_witness:
  "''hara'' \<in> set (mh_active demo_mh) \<and>
   ''hara'' \<notin> set (mh_active (snd (install_plugin ''hara'' (demo_source [] []) demo_mh)))"
proof -
  have a: "''hara'' \<in> set (mh_active demo_mh)" by code_simp
  have v: "src_valid (demo_source [] [])" by (simp add: demo_source_def)
  have i: "install_plugin ''hara'' (demo_source [] []) demo_mh = (fst (install_plugin ''hara'' (demo_source [] []) demo_mh), snd (install_plugin ''hara'' (demo_source [] []) demo_mh))"
    by simp
  from install_toggles [OF demo_reach v i] a show ?thesis by meson
qed

text \<open>
  The core plugin is not always active: it can be toggled off like any other, after which none of its hooks
  is left and a hook only it has raises.  The next successful start activates it again, together with the
  saved plugins, and nothing else.
\<close>
theorem core_plugin_off_until_restart:
  assumes "mh_reach mh" and "''core_plugin'' \<in> set (mh_active mh)" and "toggle_plugin ''core_plugin'' mh = (None, mh')"
    and "find_plugins mh' = (None, mh2)"
  shows "''core_plugin'' \<notin> set (mh_active mh') \<and>
         (\<forall>n. (\<forall>p \<in> set (active_objs mh). \<forall>h \<in> set (p_hooks p). h_name h = n \<longrightarrow> p_id p = ''core_plugin'') \<longrightarrow>
            execute_hook n args cat mh' = (Inl (Exception (''Hook '' @ n @ '' not present in any plugin'')), cat)) \<and>
         set (mh_active mh2) = set (mh_active mh)"
proof -
  let ?c = "''core_plugin''"
  have ok: "plugins_ok mh" "distinct (mh_active mh)" using reach_ok [OF assms(1)] by (simp_all add: mh_ok_def plugins_ok_def)
  have ok': "mh_ok mh'" "plugins_ok mh'" "synced mh'" using toggle_ok [OF reach_ok [OF assms(1)] assms(3)] by (simp_all add: mh_ok_def)
  have act: "mh_active mh' = remove1 ?c (mh_active mh)" using toggle_success(2) [OF ok(1) assms(3)] assms(2) by simp
  then have off: "?c \<notin> set (mh_active mh')" using ok(2) by simp
  obtain q where q: "mh_plugins mh' = dict_set ?c q (mh_plugins mh)" "plugin_ok ?c q" by (rule toggle_plugins [OF ok(1) assms(3)])
  have "execute_hook n args cat mh' = (Inl (Exception (''Hook '' @ n @ '' not present in any plugin'')), cat)"
    if only: "\<forall>p \<in> set (active_objs mh). \<forall>h \<in> set (p_hooks p). h_name h = n \<longrightarrow> p_id p = ?c" for n
  proof -
    have "hooks_named n mh' = []"
    proof (rule ccontr)
      assume "hooks_named n mh' \<noteq> []"
      then obtain p h where p: "p \<in> set (active_objs mh')" "h \<in> set (p_hooks p)" "h_name h = n"
        by (auto simp: hooks_named_def filter_empty_conv)
      then obtain j where "(j, p) \<in> set (dict_set ?c q (mh_plugins mh))" "p_id p \<in> set (mh_active mh')"
        by (auto simp: active_objs_def q(1))
      moreover have "p_id p \<noteq> ?c" using calculation(2) off by metis
      ultimately have "(j, p) \<in> set (mh_plugins mh)" "p_id p \<in> set (mh_active mh)"
        using q(2) dict_set_mem [of j p ?c q "mh_plugins mh"] notin_set_remove1 act by (auto simp: plugin_ok_def)
      then have "p \<in> set (active_objs mh)" by (force simp: active_objs_def)
      with only p \<open>p_id p \<noteq> ?c\<close> show False by blast
    qed
    then show ?thesis by (simp add: execute_hook_def synced_fields(4) [OF ok'(3)])
  qed
  moreover have "set (mh_active mh2) = set (mh_active mh)"
  proof -
    have sv: "mh_saved mh' = Some (remdups (mh_active mh'))"
      using assms(3) by (auto simp: toggle_plugin_def save_active_plugins_to_db_def split: option.splits if_splits prod.splits)
    with find_plugins_ok(2) [OF _ assms(4)] have "set (mh_active mh2) = insert ?c (set (mh_active mh'))" by simp
    with act assms(2) ok(2) show ?thesis by auto
  qed
  ultimately show ?thesis using off by blast
qed

theorem core_plugin_off_until_restart_witness:
  "''core_plugin'' \<in> set (mh_active demo_mh) \<and>
   ''core_plugin'' \<notin> set (mh_active (snd (toggle_plugin ''core_plugin'' demo_mh))) \<and>
   set (mh_active (snd (find_plugins (snd (toggle_plugin ''core_plugin'' demo_mh))))) = set (mh_active demo_mh)"
proof -
  let ?m = "snd (toggle_plugin ''core_plugin'' demo_mh)"
  have a: "''core_plugin'' \<in> set (mh_active demo_mh)" by code_simp
  have "fst (toggle_plugin ''core_plugin'' demo_mh) = None" "fst (find_plugins ?m) = None" by code_simp+
  then have "toggle_plugin ''core_plugin'' demo_mh = (None, ?m)" "find_plugins ?m = (None, snd (find_plugins ?m))"
    by (metis prod.collapse)+
  from core_plugin_off_until_restart [OF demo_reach a this, of "[]" "()"] a show ?thesis by blast
qed

end
