(* ===== verification/Conversation.thy ===== *)
theory Conversation
  imports Py_Text
begin

text \<open>
  The state of a conversation that the core keeps between messages: the chat history of the working
  memory (\<open>memory/working_memory.py\<close>), and conversational forms with the agent that runs them
  (\<open>experimental/form/cat_form.py\<close>, \<open>agents/form_agent.py\<close>, and \<open>parse_json\<close> of \<open>utils.py\<close>).

  The language model is a function from a prompt and its own state to an answer, so two calls with the same prompt may
  differ; a prompt is the values interpolated into its text.  The JSON parser, the validation of the form's
  data model and the \<open>submit\<close> of a form are third-party or plugin code and are arguments.
\<close>


section \<open>Chat history\<close>

record turn =
  t_who :: string
  t_text :: string

definition MAX_WORKING_HISTORY_LENGTH :: nat where
  "MAX_WORKING_HISTORY_LENGTH = 20"

definition update_history :: "'m \<Rightarrow> 'm list \<Rightarrow> 'm list" where
  "update_history message history = last_n MAX_WORKING_HISTORY_LENGTH (history @ [message])"

definition stringify_chat_history :: "nat \<Rightarrow> turn list \<Rightarrow> string" where
  "stringify_chat_history latest_n history =
     concat (map (\<lambda>turn. [char_of (10 :: nat)] @ '' - '' @ t_who turn @ '': '' @ t_text turn) (last_n latest_n history))"


section \<open>Forms\<close>

datatype form_state = INCOMPLETE | COMPLETE | WAIT_CONFIRM | CLOSED

datatype validation_error = MissingField string | InvalidField string string

type_synonym form_data = "(string, pyval) dict"

datatype submit_reply = OutputDict string | OtherReply

record form =
  fm_state :: form_state
  fm_model :: form_data
  fm_errors :: "string list"
  fm_missing :: "string list"

record 'l form_class =
  fc_name :: string
  fc_ask_confirm :: bool
  fc_stop_examples :: "string list"
  fc_fields :: "(string \<times> string \<times> string) list"
  fc_validate :: "form_data \<Rightarrow> validation_error list"
  fc_submit :: "form_data \<Rightarrow> 'l \<Rightarrow> submit_reply result \<times> 'l"

datatype form_prompt =
    ConfirmPrompt string
  | ExitPrompt "string list" string
  | ExtractionPrompt "(string \<times> string \<times> string) list" form_data string

type_synonym 'l llm = "form_prompt \<Rightarrow> 'l \<Rightarrow> string result \<times> 'l"

datatype form_reply =
    FormClosed string
  | WaitConfirm form_data "string list" "string list"
  | FormIncomplete form_data "string list" "string list"
  | InvalidState
  | Submitted submit_reply

definition new_form :: form where
  "new_form = \<lparr>fm_state = INCOMPLETE, fm_model = [], fm_errors = [], fm_missing = []\<rparr>"

text \<open>The replacements of \<open>parse_json\<close>, in order; the text from the first brace goes to the parser.\<close>

definition clean_json :: "string \<Rightarrow> string" where
  "clean_json s =
     replace_all ''}}'' ''}'' (replace_all ''{{'' ''{'' (replace_all ''None'' ''null''
       (replace_all [char_of (92 :: nat), CHR ''-''] ''-'' (replace_all [char_of (92 :: nat), CHR ''_''] ''_'' s))))"

definition parse_json :: "(string \<Rightarrow> form_data result) \<Rightarrow> string \<Rightarrow> form_data result" where
  "parse_json parser s =
     (let s = clean_json s
      in case find_sub ''{'' s of
           None \<Rightarrow> Inl (ValueError ''substring not found'')
         | Some i \<Rightarrow> parser (drop i s))"

text \<open>\<open>confirm\<close> and \<open>check_exit_intent\<close> look for \<open>true\<close> in the answer.\<close>

definition ask :: "'l llm \<Rightarrow> form_prompt \<Rightarrow> 'l \<Rightarrow> bool result \<times> 'l" where
  "ask llm p l = (case llm p l of (r, l) \<Rightarrow> (map_sum id (\<lambda>s. contains ''true'' (lower s)) r, l))"

definition confirm :: "'l llm \<Rightarrow> string \<Rightarrow> 'l \<Rightarrow> bool result \<times> 'l" where
  "confirm llm msg l = ask llm (ConfirmPrompt msg) l"

definition check_exit_intent :: "'l form_class \<Rightarrow> 'l llm \<Rightarrow> string \<Rightarrow> 'l \<Rightarrow> bool result \<times> 'l" where
  "check_exit_intent C llm msg l = ask llm (ExitPrompt (fc_stop_examples C) msg) l"

definition null_fields :: "pyval list" where
  "null_fields = [PNone, PStr [], PStr ''None'', PStr ''null'', PStr ''lower-case'', PStr ''unknown'', PStr ''missing'']"

definition sanitize :: "form_data \<Rightarrow> form_data" where
  "sanitize model = filter (\<lambda>(key, value). value \<notin> set null_fields) model"

definition form_extract ::
  "'l form_class \<Rightarrow> 'l llm \<Rightarrow> (string \<Rightarrow> form_data result) \<Rightarrow> turn list \<Rightarrow> form \<Rightarrow> 'l \<Rightarrow> form_data result \<times> 'l" where
  "form_extract C llm parser hist f l =
     (case llm (ExtractionPrompt (fc_fields C) (fm_model f) (stringify_chat_history MAX_WORKING_HISTORY_LENGTH hist)) l of
        (Inl e, l) \<Rightarrow> (Inl e, l)
      | (Inr json_str, l) \<Rightarrow> (Inr (case parse_json parser json_str of Inr d \<Rightarrow> d | Inl _ \<Rightarrow> []), l))"

text \<open>The errors of a failed validation are collected in order; an invalid field is deleted from the data.\<close>

fun collect_errors :: "validation_error list \<Rightarrow> form \<Rightarrow> py_exc option \<times> form" where
  "collect_errors [] f = (None, f\<lparr>fm_state := INCOMPLETE\<rparr>)"
| "collect_errors (MissingField n # es) f = collect_errors es (f\<lparr>fm_missing := fm_missing f @ [n]\<rparr>)"
| "collect_errors (InvalidField n msg # es) f =
     (let f = f\<lparr>fm_errors := fm_errors f @ [n @ '': '' @ msg]\<rparr>
      in if n \<in> set (dict_keys (fm_model f)) then collect_errors es (f\<lparr>fm_model := dict_del n (fm_model f)\<rparr>)
         else (Some (KeyError n), f))"

definition validate :: "'l form_class \<Rightarrow> form \<Rightarrow> py_exc option \<times> form" where
  "validate C f =
     (let f = f\<lparr>fm_missing := [], fm_errors := []\<rparr>;
          errors = fc_validate C (fm_model f)
      in if errors = [] then (None, f\<lparr>fm_state := COMPLETE\<rparr>) else collect_errors errors f)"

definition form_update ::
  "'l form_class \<Rightarrow> 'l llm \<Rightarrow> (string \<Rightarrow> form_data result) \<Rightarrow> turn list \<Rightarrow> form \<Rightarrow> 'l \<Rightarrow> py_exc option \<times> form \<times> 'l" where
  "form_update C llm parser hist f l =
     (case form_extract C llm parser hist f l of
        (Inl e, l) \<Rightarrow> (Some e, f, l)
      | (Inr d, l) \<Rightarrow>
          (case validate C (f\<lparr>fm_model := dict_merge (fm_model f) (sanitize d)\<rparr>) of (err, f) \<Rightarrow> (err, f, l)))"

definition form_message :: "'l form_class \<Rightarrow> form \<Rightarrow> form_reply" where
  "form_message C f =
     (case fm_state f of
        CLOSED \<Rightarrow> FormClosed (fc_name C)
      | WAIT_CONFIRM \<Rightarrow> WaitConfirm (fm_model f) (fm_missing f) (fm_errors f)
      | INCOMPLETE \<Rightarrow> FormIncomplete (fm_model f) (fm_missing f) (fm_errors f)
      | COMPLETE \<Rightarrow> InvalidState)"

text \<open>\<open>next\<close>, from its end: closing with a submission, the last part, the part after the confirmation, all of it.\<close>

definition submit_closed :: "'l form_class \<Rightarrow> form \<Rightarrow> 'l \<Rightarrow> form_reply result \<times> form \<times> 'l" where
  "submit_closed C f l =
     (case fc_submit C (fm_model f) l of (r, l) \<Rightarrow> (map_sum id Submitted r, f\<lparr>fm_state := CLOSED\<rparr>, l))"

definition next_end :: "'l form_class \<Rightarrow> form \<Rightarrow> 'l \<Rightarrow> form_reply result \<times> form \<times> 'l" where
  "next_end C f l =
     (if fm_state f = COMPLETE then
        if fc_ask_confirm C then (let f = f\<lparr>fm_state := WAIT_CONFIRM\<rparr> in (Inr (form_message C f), f, l))
        else submit_closed C f l
      else (Inr (form_message C f), f, l))"

definition next_open ::
  "'l form_class \<Rightarrow> 'l llm \<Rightarrow> (string \<Rightarrow> form_data result) \<Rightarrow> string \<Rightarrow> turn list \<Rightarrow> form \<Rightarrow> 'l \<Rightarrow>
   form_reply result \<times> form \<times> 'l" where
  "next_open C llm parser msg hist f l =
     (case check_exit_intent C llm msg l of
        (Inl e, l) \<Rightarrow> (Inl e, f, l)
      | (Inr exit, l) \<Rightarrow>
          (let f = (if exit then f\<lparr>fm_state := CLOSED\<rparr> else f)
           in if fm_state f = INCOMPLETE then
                (case form_update C llm parser hist f l of
                   (Some e, f, l) \<Rightarrow> (Inl e, f, l)
                 | (None, f, l) \<Rightarrow> next_end C f l)
              else next_end C f l))"

definition form_next ::
  "'l form_class \<Rightarrow> 'l llm \<Rightarrow> (string \<Rightarrow> form_data result) \<Rightarrow> string \<Rightarrow> turn list \<Rightarrow> form \<Rightarrow> 'l \<Rightarrow>
   form_reply result \<times> form \<times> 'l" where
  "form_next C llm parser msg hist f l =
     (if fm_state f = WAIT_CONFIRM then
        (case confirm llm msg l of
           (Inl e, l) \<Rightarrow> (Inl e, f, l)
         | (Inr True, l) \<Rightarrow> submit_closed C f l
         | (Inr False, l) \<Rightarrow>
             (case check_exit_intent C llm msg l of
                (Inl e, l) \<Rightarrow> (Inl e, f, l)
              | (Inr exit, l) \<Rightarrow>
                  next_open C llm parser msg hist (f\<lparr>fm_state := (if exit then CLOSED else INCOMPLETE)\<rparr>) l))
      else next_open C llm parser msg hist f l)"


section \<open>The form agent\<close>

text \<open>
  The agent's output is the form's reply, returned directly, or empty.  An exception is logged and gives an
  empty output; so does a submission that does not return a dictionary, at \<open>form_output["output"]\<close>.
\<close>

definition form_agent ::
  "'l form_class \<Rightarrow> 'l llm \<Rightarrow> (string \<Rightarrow> form_data result) \<Rightarrow> string \<Rightarrow> turn list \<Rightarrow> form option \<Rightarrow> 'l \<Rightarrow>
   form_reply option \<times> form option \<times> 'l" where
  "form_agent C llm parser msg hist active l =
     (case active of
        None \<Rightarrow> (None, None, l)
      | Some f \<Rightarrow>
          if fm_state f = CLOSED then (None, None, l)
          else (case form_next C llm parser msg hist f l of
                  (Inl _, f, l) \<Rightarrow> (None, Some f, l)
                | (Inr (Submitted OtherReply), f, l) \<Rightarrow> (None, Some f, l)
                | (Inr reply, f, l) \<Rightarrow> (Some reply, Some f, l)))"

text \<open>A conversation with an active form: one message after the other, and the replies.\<close>

fun form_turns ::
  "'l form_class \<Rightarrow> 'l llm \<Rightarrow> (string \<Rightarrow> form_data result) \<Rightarrow> (string \<times> turn list) list \<Rightarrow> form option \<Rightarrow> 'l \<Rightarrow>
   form_reply option list \<times> form option \<times> 'l" where
  "form_turns C llm parser [] active l = ([], active, l)"
| "form_turns C llm parser ((msg, hist) # ms) active l =
     (case form_agent C llm parser msg hist active l of
        (reply, active, l) \<Rightarrow>
          (case form_turns C llm parser ms active l of (rs, active, l) \<Rightarrow> (reply # rs, active, l)))"

section \<open>Lemmas on forms\<close>

lemma collect_errors_state:
  "collect_errors es f = (err, f') \<Longrightarrow> fm_state f' = (if err = None then INCOMPLETE else fm_state f)"
  by (induction es f rule: collect_errors.induct) (auto simp: Let_def split: if_splits)






lemma form_message_submit [simp]: "form_message (C\<lparr>fc_submit := S\<rparr>) f = form_message C f"
  by (cases "fm_state f") (simp_all add: form_message_def)













text \<open>The effect of collecting errors when no field is reported invalid twice.\<close>

definition missing_names :: "validation_error list \<Rightarrow> string list" where
  "missing_names es = concat (map (\<lambda>e. case e of MissingField n \<Rightarrow> [n] | _ \<Rightarrow> []) es)"

definition invalid_names :: "validation_error list \<Rightarrow> string list" where
  "invalid_names es = concat (map (\<lambda>e. case e of InvalidField n _ \<Rightarrow> [n] | _ \<Rightarrow> []) es)"

lemma names_simps [simp]:
  "missing_names [] = []" "missing_names (MissingField n # es) = n # missing_names es"
  "missing_names (InvalidField n m # es) = missing_names es"
  "invalid_names [] = []" "invalid_names (MissingField n # es) = invalid_names es"
  "invalid_names (InvalidField n m # es) = n # invalid_names es"
  by (simp_all add: missing_names_def invalid_names_def)

lemma collect_errors_result:
  "collect_errors es f = (None, f') \<Longrightarrow>
   fm_missing f' = fm_missing f @ missing_names es \<and>
   (\<forall>k. dict_get (fm_model f') k = (if k \<in> set (invalid_names es) then None else dict_get (fm_model f) k))"
  by (induction es f rule: collect_errors.induct) (auto simp: Let_def split: if_splits)

lemma collect_errors_raises:
  assumes "n \<notin> set (dict_keys (fm_model f))" and "n \<in> set (invalid_names es)"
  shows "\<exists>m. fst (collect_errors es f) = Some (KeyError m)"
  using assms
proof (induction es f rule: collect_errors.induct)
  case (3 n' msg es f)
  then show ?case
    by (auto simp: Let_def dict_keys_del dict_del_filter split: if_splits)
qed auto

lemma collect_errors_twice:
  "\<not> distinct (invalid_names es) \<Longrightarrow> \<exists>m. fst (collect_errors es f) = Some (KeyError m)"
proof (induction es f rule: collect_errors.induct)
  case (3 n msg es f)
  let ?f = "f\<lparr>fm_errors := fm_errors f @ [n @ '': '' @ msg]\<rparr>"
  let ?g = "?f\<lparr>fm_model := dict_del n (fm_model ?f)\<rparr>"
  show ?case
  proof (cases "n \<in> set (dict_keys (fm_model f))")
    case True
    have "\<exists>m. fst (collect_errors es ?g) = Some (KeyError m)"
    proof (cases "n \<in> set (invalid_names es)")
      case True
      moreover have "n \<notin> set (dict_keys (fm_model ?g))" by (auto simp: dict_del_filter)
      ultimately show ?thesis by (intro collect_errors_raises)
    next
      case False
      with "3.prems" have "\<not> distinct (invalid_names es)" by simp
      with "3.IH" [OF refl] True show ?thesis by simp
    qed
    with True show ?thesis by (simp add: Let_def)
  next
    case False
    then show ?thesis by (simp add: Let_def)
  qed
qed auto

section \<open>Properties\<close>


text \<open>
  A turn of a form keeps what is known.  When the model's answer parses and the update does not raise, every field has
  the newly extracted value if it is not one of the null values, else the value it had; fields the model class rejects are removed.
  The form is complete exactly when the class accepts the data, and else lists the missing fields.
\<close>
theorem form_update_accumulates:
  assumes "form_update C llm parser hist f l = (None, f', l')"
    and "form_extract C llm parser hist f l = (Inr d, l')" and "dict_ok d"
    and "es = fc_validate C (dict_merge (fm_model f) (sanitize d))"
  shows "(\<forall>k. dict_get (fm_model f') k =
            (if k \<in> set (invalid_names es) then None
             else case dict_get d k of
                    Some v \<Rightarrow> if v \<in> set null_fields then dict_get (fm_model f) k else Some v
                  | None \<Rightarrow> dict_get (fm_model f) k)) \<and>
         fm_state f' = (if es = [] then COMPLETE else INCOMPLETE) \<and> fm_missing f' = missing_names es"
proof -
  let ?m = "dict_merge (fm_model f) (sanitize d)"
  let ?f = "f\<lparr>fm_model := ?m\<rparr>"
  have ok: "dict_ok (sanitize d)" using assms(3) by (simp add: sanitize_def distinct_map_filter)
  have "dict_get (sanitize d) k = (case dict_get d k of Some v \<Rightarrow> if v \<in> set null_fields then None else Some v | None \<Rightarrow> None)" for k
    using assms(3) by (induction d) (auto simp: sanitize_def map_of_eq_None_iff image_iff split: option.splits)
  then have m: "dict_get ?m k = (case dict_get d k of
        Some v \<Rightarrow> if v \<in> set null_fields then dict_get (fm_model f) k else Some v
      | None \<Rightarrow> dict_get (fm_model f) k)" for k
    by (simp add: dict_get_merge [OF ok] map_add_def split: option.split)
  have v: "validate C ?f = (None, f')"
    using assms(1,2) by (simp add: form_update_def split: prod.splits)
  show ?thesis
  proof (cases "es = []")
    case True
    with v assms(4) m show ?thesis by (auto simp: validate_def Let_def)
  next
    case False
    then have c: "collect_errors es (?f\<lparr>fm_missing := [], fm_errors := []\<rparr>) = (None, f')"
      using v assms(4) by (simp add: validate_def Let_def)
    from collect_errors_result [OF c] collect_errors_state [OF c] False m show ?thesis by simp
  qed
qed

text \<open>
  Two errors in one field stop the form.  When the model class reports a field invalid twice, as it does
  for two bad elements of a list, the second deletion raises \<open>KeyError\<close>: the update fails, the form stays
  incomplete, and the agent gives no answer for the message.
\<close>
theorem double_error_raises:
  assumes "form_extract C llm parser hist f l = (Inr d, l')" and "fm_state f = INCOMPLETE"
    and "\<not> distinct (invalid_names (fc_validate C (dict_merge (fm_model f) (sanitize d))))"
  shows "\<exists>m f'. form_update C llm parser hist f l = (Some (KeyError m), f', l') \<and> fm_state f' = INCOMPLETE"
proof -
  let ?m = "dict_merge (fm_model f) (sanitize d)"
  let ?f = "f\<lparr>fm_model := ?m\<rparr>"
  have ne: "fc_validate C ?m \<noteq> []" using assms(3) by (metis distinct.simps(1) names_simps(4))
  obtain err f' where c: "collect_errors (fc_validate C ?m) (?f\<lparr>fm_missing := [], fm_errors := []\<rparr>) = (err, f')" by fastforce
  from collect_errors_twice [OF assms(3)] c obtain m where "err = Some (KeyError m)" by (metis fst_conv)
  with c ne assms(1,2) collect_errors_state [OF c] show ?thesis
    by (simp add: form_update_def validate_def Let_def)
qed

section \<open>A concrete form\<close>

definition canned :: "string list llm" where
  "canned p l = (case l of [] \<Rightarrow> (Inl (Exception ''no answer''), []) | a # as \<Rightarrow> (Inr a, as))"

definition demo_parser :: "string \<Rightarrow> form_data result" where
  "demo_parser s =
     (if s = ''{pizza}'' then Inr [(''pizza'', PStr ''margherita''), (''size'', PStr ''unknown'')]
      else if s = ''{size}'' then Inr [(''size'', PInt 2)]
      else if s = ''{bad}'' then Inr [(''size'', PList [PNone, PNone])]
      else Inl (ValueError ''json''))"

definition demo_form :: "string list form_class" where
  "demo_form = \<lparr>fc_name = ''PizzaForm'', fc_ask_confirm = True, fc_stop_examples = [], fc_fields = [],
     fc_validate = (\<lambda>d.
       (if dict_get d ''pizza'' = None then [MissingField ''pizza''] else []) @
       (case dict_get d ''size'' of
          None \<Rightarrow> [MissingField ''size'']
        | Some (PInt _) \<Rightarrow> []
        | Some (PList xs) \<Rightarrow> map (\<lambda>_. InvalidField ''size'' ''bad'') xs
        | _ \<Rightarrow> [InvalidField ''size'' ''not a number''])),
     fc_submit = (\<lambda>d l. (Inr (OutputDict ''ordered''), l))\<rparr>"

definition demo_answers :: "string list" where
  "demo_answers = [''false'', ''{{pizza}}'', ''false'', ''{size}'', ''true'']"


text \<open>The four messages: the pizza, the size, the confirmation, and one more, for which the form is gone.\<close>

lemma demo_form_run:
  "form_turns demo_form canned demo_parser [([], []), ([], []), ([], []), ([], [])] (Some new_form) demo_answers =
   ([Some (FormIncomplete [(''pizza'', PStr ''margherita'')] [''size''] []),
     Some (WaitConfirm [(''pizza'', PStr ''margherita''), (''size'', PInt 2)] [] []),
     Some (Submitted (OutputDict ''ordered'')), None], None, [])"
  by code_simp

definition demo_filled :: form where
  "demo_filled = new_form\<lparr>fm_model := [(''pizza'', PStr ''margherita'')]\<rparr>"

theorem form_update_accumulates_witness:
  "dict_get (fm_model (fst (snd (form_update demo_form canned demo_parser [] demo_filled [''{size}''])))) ''pizza'' =
   Some (PStr ''margherita'')"
proof -
  let ?u = "form_update demo_form canned demo_parser [] demo_filled [''{size}'']"
  have u: "?u = (None, \<lparr>fm_state = COMPLETE, fm_model = [(''pizza'', PStr ''margherita''), (''size'', PInt 2)], fm_errors = [], fm_missing = []\<rparr>, [])"
    by code_simp
  have e: "form_extract demo_form canned demo_parser [] demo_filled [''{size}''] = (Inr [(''size'', PInt 2)], [])" by code_simp
  have "dict_ok [(''size'', PInt 2)]" by simp
  from form_update_accumulates [OF u e this refl, THEN conjunct1, rule_format, of "''pizza''"] u show ?thesis
    by (simp add: demo_filled_def demo_form_def sanitize_def null_fields_def dict_merge_def)
qed

theorem double_error_raises_witness:
  "fst (form_update demo_form canned demo_parser [] demo_filled [''{bad}'']) = Some (KeyError ''size'')"
proof -
  have e: "form_extract demo_form canned demo_parser [] demo_filled [''{bad}''] = (Inr [(''size'', PList [PNone, PNone])], [])" by code_simp
  have i: "fm_state demo_filled = INCOMPLETE"
    "\<not> distinct (invalid_names (fc_validate demo_form (dict_merge (fm_model demo_filled) (sanitize [(''size'', PList [PNone, PNone])]))))"
    by code_simp+
  have "fst (form_update demo_form canned demo_parser [] demo_filled [''{bad}'']) \<in> {None, Some (KeyError ''size'')}" by code_simp
  with double_error_raises [OF e i] show ?thesis by auto
qed

end
