(* ===== verification/Session.thy ===== *)
theory Session
  imports Cache Mad_Hatter Vector_Memory Conversation
begin

text \<open>
  The session of a user (the state of \<open>looking_glass/stray_cat.py\<close> and \<open>memory/working_memory.py\<close>):
  messages (\<open>convo/messages.py\<close>), the working memory and its way through the cache, the open sockets
  (\<open>routes/websocket/websocket_manager.py\<close>) and what is sent over them.

  Python shares objects, and the two caches differ in that: the in-memory cache keeps the very object of the working
  memory, the file-system cache a pickled copy.  Working memories therefore live in a store \<open>c_heap\<close>, a session
  holds an address in it, and a cached value is an address or a copy.  Saving a working memory in the file-system
  cache is modelled as always succeeding; in the code it raises for a working memory that cannot be pickled (for
  one, when a plugin put such an object into it) and for a user whose name has a slash when the folder it names
  does not exist.

  The fields of \<open>env\<close> are what a session uses of other packages and of the plugins: hooks (inside the plugin
  manager), tools and forms, vector database, embedder, language model, tokenizer, JSON and prompt template library,
  download of images, random choice, the text of an exception, and the exception that sending to a socket raises, if any.
\<close>


section \<open>Computations that may raise\<close>

type_synonym ('a, 'c) act = "'c \<Rightarrow> 'a result \<times> 'c"

definition ret :: "'a \<Rightarrow> ('a, 'c) act" where
  "ret x = (\<lambda>c. (Inr x, c))"

definition raise :: "py_exc \<Rightarrow> ('a, 'c) act" where
  "raise e = (\<lambda>c. (Inl e, c))"

definition lift_result :: "'a result \<Rightarrow> ('a, 'c) act" where
  "lift_result r = (\<lambda>c. (r, c))"

definition bnd :: "('a, 'c) act \<Rightarrow> ('a \<Rightarrow> ('b, 'c) act) \<Rightarrow> ('b, 'c) act" where
  "bnd m f = (\<lambda>c. case m c of (Inl e, c) \<Rightarrow> (Inl e, c) | (Inr x, c) \<Rightarrow> f x c)"

text \<open>\<open>try: m except Exception as e: h(e)\<close>; what \<open>m\<close> did to the state stays.\<close>

definition catching :: "('a, 'c) act \<Rightarrow> (py_exc \<Rightarrow> ('a, 'c) act) \<Rightarrow> ('a, 'c) act" where
  "catching m h = (\<lambda>c. case m c of (Inl e, c) \<Rightarrow> h e c | (Inr x, c) \<Rightarrow> (Inr x, c))"

definition gets :: "('c \<Rightarrow> 'a) \<Rightarrow> ('a, 'c) act" where
  "gets f = (\<lambda>c. (Inr (f c), c))"

definition modify :: "('c \<Rightarrow> 'c) \<Rightarrow> (unit, 'c) act" where
  "modify f = (\<lambda>c. (Inr (), f c))"


section \<open>Messages (convo/messages.py)\<close>

datatype role = AI | Human

type_synonym report = "(string \<times> metadata) \<times> string"

text \<open>An intermediate step \<open>((action, action_input), output)\<close>.\<close>

definition agent_step :: "pyval \<Rightarrow> pyval \<Rightarrow> pyval \<Rightarrow> pyval" where
  "agent_step action action_input out = PList [PList [action, action_input], out]"

record agent_output =
  ao_output :: "string option"
  ao_steps :: "pyval list"
  ao_direct :: bool

datatype interaction = EmbedderInteraction string nat | LLMInteraction string

record why =
  why_input :: string
  why_steps :: "pyval list"
  why_episodic :: "report list"
  why_declarative :: "report list"
  why_procedural :: "report list"
  why_interactions :: "interaction list"
  why_output :: "agent_output option"

record message =
  m_role :: role
  m_user_id :: string
  m_who :: string
  m_text :: "string option"
  m_image :: "string option"
  m_audio :: "string option"
  m_when :: int
  m_why :: "why option"

definition cat_message :: "string \<Rightarrow> string \<Rightarrow> why option \<Rightarrow> int \<Rightarrow> message" where
  "cat_message user_id text why now =
     \<lparr>m_role = AI, m_user_id = user_id, m_who = ''AI'', m_text = Some text, m_image = None, m_audio = None, m_when = now, m_why = why\<rparr>"

text \<open>Validation of a dictionary as a \<open>UserMessage\<close>: types are checked, absent keys take their default.\<close>

definition opt_str_field :: "string \<Rightarrow> metadata \<Rightarrow> string option result" where
  "opt_str_field k d =
     (case dict_get d k of
        None \<Rightarrow> Inr None
      | Some PNone \<Rightarrow> Inr None
      | Some (PStr s) \<Rightarrow> Inr (Some s)
      | Some _ \<Rightarrow> Inl ValidationError)"

text \<open>The deprecated key \<open>message\<close> overwrites \<open>text\<close>.\<close>

definition rename_message :: "metadata \<Rightarrow> metadata" where
  "rename_message d = (case dict_get d ''message'' of None \<Rightarrow> d | Some v \<Rightarrow> dict_set ''text'' v (dict_del ''message'' d))"

definition who_field :: "metadata \<Rightarrow> string result" where
  "who_field d = (case dict_get d ''who'' of None \<Rightarrow> Inr ''Human'' | Some (PStr w) \<Rightarrow> Inr w | Some _ \<Rightarrow> Inl ValidationError)"

definition when_field :: "metadata \<Rightarrow> int \<Rightarrow> int result" where
  "when_field d now = (case dict_get d ''when'' of None \<Rightarrow> Inr now | Some (PInt t) \<Rightarrow> Inr t | Some _ \<Rightarrow> Inl ValidationError)"

definition user_message :: "metadata \<Rightarrow> int \<Rightarrow> message result" where
  "user_message d now =
     (let d = rename_message d in
      case (dict_get d ''user_id'', who_field d, when_field d now, opt_str_field ''text'' d, opt_str_field ''image'' d, opt_str_field ''audio'' d) of
        (Some (PStr u), Inr who, Inr when, Inr text, Inr img, Inr audio) \<Rightarrow>
          Inr \<lparr>m_role = Human, m_user_id = u, m_who = who, m_text = text, m_image = img, m_audio = audio, m_when = when, m_why = None\<rparr>
      | _ \<Rightarrow> Inl ValidationError)"


section \<open>Working memory and session\<close>

record active_form =
  af_id :: nat
  af_class :: string
  af_form :: form

text \<open>
  \<open>wm_agent_input\<close> is None when it is not an object with string values; \<open>wm_custom\<close> is what plugins keep.
\<close>

record ('e, 's) working_memory =
  wm_history :: "message list"
  wm_user_message_json :: "message option"
  wm_active_form :: "active_form option"
  wm_forms_made :: nat
  wm_recall_query :: string
  wm_episodic :: "('e, 's) memory list"
  wm_declarative :: "('e, 's) memory list"
  wm_procedural :: "('e, 's) memory list"
  wm_interactions :: "interaction list"
  wm_agent_input :: "(string, string) dict option"
  wm_custom :: metadata

definition new_working_memory :: "('e, 's) working_memory" where
  "new_working_memory =
     \<lparr>wm_history = [], wm_user_message_json = None, wm_active_form = None, wm_forms_made = 0, wm_recall_query = [],
      wm_episodic = [], wm_declarative = [], wm_procedural = [], wm_interactions = [], wm_agent_input = None, wm_custom = []\<rparr>"

datatype ('e, 's) cached = Ref nat | Pickled "('e, 's) working_memory"

datatype ws_json =
    WsMessage string string
  | WsError string string
  | WsChat message

record ('e, 's, 'q) cat =
  c_user_id :: string
  c_wm :: nat
  c_heap :: "('e, 's) working_memory list"
  c_cache :: "(('e, 's) cached, int) cache"
  c_db :: 'q
  c_now :: int
  c_points_made :: nat
  c_connections :: "(string, nat) dict"
  c_sent :: "(nat \<times> ws_json) list"

record ('e, 's) recall_config =
  rc_embedding :: 'e
  rc_k :: nat
  rc_threshold :: "'s option"
  rc_metadata :: metadata

text \<open>A text splitter of the library: its class and the two attributes that are set on it.\<close>

record splitter =
  sp_class :: string
  sp_chunk_size :: int
  sp_chunk_overlap :: int

text \<open>The values that are piped through hooks.\<close>

datatype ('e, 's) tea =
    TNone
  | TText string
  | TDict metadata
  | TMessage message
  | TDoc "string \<times> metadata"
  | TConfig "('e, 's) recall_config"
  | TInput "(string, string) dict"
  | TNames "pyval list"
  | TOutput agent_output
  | TParsers "(string, string) dict"
  | TSplitter splitter
  | TDocs "(string \<times> metadata) list"
  | TPoints "'e point option list"

datatype content_part = TextPart string | ImagePart string

datatype langchain_message = AIMessage string string | HumanMessage string "content_part list"

datatype prompt =
    FormPrompt form_prompt
  | ChatPrompt string "(string, string) dict" "langchain_message list"
  | PlainPrompt string

datatype 'c procedure_kind =
    CatTool "pyval \<Rightarrow> (pyval, 'c) act" bool
  | CatForm

record 'c cat_procedure =
  cp_name :: string
  cp_description :: string
  cp_examples :: "string list"
  cp_kind :: "'c procedure_kind"

record ('e, 's, 'q) env =
  e_mad_hatter :: "(('e, 's) tea, ('e, 's, 'q) cat) mad_hatter"
  e_procedures :: "('e, 's, 'q) cat cat_procedure list"
  e_forms :: "string \<Rightarrow> ('e, 's, 'q) cat form_class"
  e_qdrant :: "('e, 's, 'q) qdrant"
  e_embed :: "string \<Rightarrow> 'e result"
  e_threshold :: 's
  e_llm :: "prompt \<Rightarrow> (string, ('e, 's, 'q) cat) act"
  e_tokens :: "string \<Rightarrow> nat result"
  e_parser :: "string \<Rightarrow> form_data result"
  e_dumps :: "pyval \<Rightarrow> string"
  e_input_variables :: "string \<Rightarrow> string list result"
  e_download :: "string \<Rightarrow> string option result"
  e_choice :: "string list \<Rightarrow> string"
  e_form_text :: "form_reply \<Rightarrow> string"
  e_uuid :: "nat \<Rightarrow> string"
  e_exc_str :: "py_exc \<Rightarrow> string"
  e_exc_name :: "py_exc \<Rightarrow> string"
  e_socket :: "nat \<Rightarrow> py_exc option"

abbreviation wm :: "('e, 's, 'q) cat \<Rightarrow> ('e, 's) working_memory" where
  "wm c \<equiv> c_heap c ! c_wm c"

definition set_wm :: "(('e, 's) working_memory \<Rightarrow> ('e, 's) working_memory) \<Rightarrow> ('e, 's, 'q) cat \<Rightarrow> ('e, 's, 'q) cat" where
  "set_wm f c = c\<lparr>c_heap := (c_heap c)[c_wm c := f (wm c)]\<rparr>"


section \<open>The cache of working memories\<close>

definition wm_key :: "string \<Rightarrow> string" where
  "wm_key u = u @ ''_working_memory''"

text \<open>A value that is not found makes a new working memory; so would an empty one, but no working memory is false.\<close>

definition load_working_memory_from_cache :: "('e, 's, 'q) cat \<Rightarrow> ('e, 's, 'q) cat" where
  "load_working_memory_from_cache c =
     (case cache_get_value (c_now c) (wm_key (c_user_id c)) (c_cache c) of
        (Some (Ref a), cache) \<Rightarrow> c\<lparr>c_cache := cache, c_wm := a\<rparr>
      | (Some (Pickled w), cache) \<Rightarrow> c\<lparr>c_cache := cache, c_wm := length (c_heap c), c_heap := c_heap c @ [w]\<rparr>
      | (None, cache) \<Rightarrow> c\<lparr>c_cache := cache, c_wm := length (c_heap c), c_heap := c_heap c @ [new_working_memory]\<rparr>)"

definition cached_value :: "('e, 's, 'q) cat \<Rightarrow> ('e, 's) cached" where
  "cached_value c = (case c_cache c of InMemoryCache _ \<Rightarrow> Ref (c_wm c) | FileSystemCache _ \<Rightarrow> Pickled (wm c))"

definition update_working_memory_cache :: "('e, 's, 'q) cat \<Rightarrow> ('e, 's, 'q) cat" where
  "update_working_memory_cache c =
     c\<lparr>c_cache := cache_insert (new_cache_item (c_now c) (wm_key (c_user_id c)) (cached_value c) (Some (- 1))) (c_cache c)\<rparr>"

text \<open>\<open>StrayCat(user)\<close>, and going back to a session that was opened before.\<close>

definition stray_cat :: "string \<Rightarrow> ('e, 's, 'q) cat \<Rightarrow> ('e, 's, 'q) cat" where
  "stray_cat u c = load_working_memory_from_cache (c\<lparr>c_user_id := u\<rparr>)"

definition in_session :: "string \<Rightarrow> nat \<Rightarrow> ('e, 's, 'q) cat \<Rightarrow> ('e, 's, 'q) cat" where
  "in_session u a c = c\<lparr>c_user_id := u, c_wm := a\<rparr>"


section \<open>Sockets\<close>

definition add_connection :: "string \<Rightarrow> nat \<Rightarrow> ('e, 's, 'q) cat \<Rightarrow> ('e, 's, 'q) cat" where
  "add_connection u ws c = c\<lparr>c_connections := dict_set u ws (c_connections c)\<rparr>"

definition get_connection :: "string \<Rightarrow> ('e, 's, 'q) cat \<Rightarrow> nat option" where
  "get_connection u c = dict_get (c_connections c) u"

definition remove_connection :: "string \<Rightarrow> ('e, 's, 'q) cat \<Rightarrow> ('e, 's, 'q) cat" where
  "remove_connection u c =
     (if u \<in> set (dict_keys (c_connections c)) then c\<lparr>c_connections := dict_del u (c_connections c)\<rparr> else c)"

definition send_ws_json :: "('e, 's, 'q) env \<Rightarrow> ws_json \<Rightarrow> (unit, ('e, 's, 'q) cat) act" where
  "send_ws_json E data = (\<lambda>c.
     case get_connection (c_user_id c) c of
       None \<Rightarrow> (Inr (), c)
     | Some ws \<Rightarrow>
         (case e_socket E ws of
            Some e \<Rightarrow> (Inl e, c)
          | None \<Rightarrow> (Inr (), c\<lparr>c_sent := c_sent c @ [(ws, data)]\<rparr>)))"

definition msg_types :: "string list" where
  "msg_types = [''notification'', ''chat'', ''error'', ''chat_token'']"

definition send_ws_message :: "('e, 's, 'q) env \<Rightarrow> string \<Rightarrow> string \<Rightarrow> (unit, ('e, 's, 'q) cat) act" where
  "send_ws_message E content msg_type =
     (if msg_type \<notin> set msg_types then raise (ValueError (''The message type `'' @ msg_type @ ''` is not valid. Valid types: '' @ join_with '', '' msg_types))
      else if msg_type = ''error'' then send_ws_json E (WsError ''GenericError'' content)
      else send_ws_json E (WsMessage msg_type content))"

definition send_notification :: "('e, 's, 'q) env \<Rightarrow> string \<Rightarrow> (unit, ('e, 's, 'q) cat) act" where
  "send_notification E content = send_ws_message E content ''notification''"

text \<open>\<open>send_error\<close> of a string or of an exception.\<close>

definition send_error :: "('e, 's, 'q) env \<Rightarrow> string + py_exc \<Rightarrow> (unit, ('e, 's, 'q) cat) act" where
  "send_error E error =
     (case error of
        Inl s \<Rightarrow> send_ws_json E (WsError ''GenericError'' s)
      | Inr e \<Rightarrow> send_ws_json E (WsError (e_exc_name E e) (e_exc_str E e)))"


section \<open>Hooks\<close>

definition hook :: "('e, 's, 'q) env \<Rightarrow> string \<Rightarrow> ('e, 's) tea \<Rightarrow> (('e, 's) tea, ('e, 's, 'q) cat) act" where
  "hook E name cup = (\<lambda>c.
     case execute_hook name [cup] c (e_mad_hatter E) of
       (Inl e, c) \<Rightarrow> (Inl e, c)
     | (Inr (Some v), c) \<Rightarrow> (Inr v, c)
     | (Inr None, c) \<Rightarrow> (Inr TNone, c))"

definition hook0 :: "('e, 's, 'q) env \<Rightarrow> string \<Rightarrow> (unit, ('e, 's, 'q) cat) act" where
  "hook0 E name = (\<lambda>c. case execute_hook name [] c (e_mad_hatter E) of (r, c) \<Rightarrow> (map_sum id (\<lambda>_. ()) r, c))"


section \<open>Lemmas\<close>

text \<open>A computation \<^emph>\<open>keeps\<close> a part of the state when it ends with the value it started with, also when it raises.\<close>

definition keeps :: "('c \<Rightarrow> 'x) \<Rightarrow> ('a, 'c) act \<Rightarrow> bool" where
  "keeps f m \<longleftrightarrow> (\<forall>c. f (snd (m c)) = f c)"

named_theorems keep \<open>computations that keep a part of the state\<close>

lemma keepsD: "keeps f m \<Longrightarrow> m c = (r, c') \<Longrightarrow> f c' = f c"
  unfolding keeps_def by (metis snd_conv)

lemma keeps_basic [keep]: "keeps f (ret x)" "keeps f (raise e)" "keeps f (lift_result r)" "keeps f (gets g)"
  by (simp_all add: keeps_def ret_def raise_def lift_result_def gets_def)

lemma keeps_modify [keep]: "(\<And>c. f (g c) = f c) \<Longrightarrow> keeps f (modify g)"
  by (simp add: keeps_def modify_def)

lemma keeps_bnd [keep]: "keeps f m \<Longrightarrow> (\<And>x. keeps f (g x)) \<Longrightarrow> keeps f (bnd m g)"
  unfolding keeps_def bnd_def by (auto split: prod.splits sum.splits) (metis snd_conv)+

lemma keeps_catching [keep]: "keeps f m \<Longrightarrow> (\<And>e. keeps f (h e)) \<Longrightarrow> keeps f (catching m h)"
  unfolding keeps_def catching_def by (auto split: prod.splits sum.splits) (metis snd_conv)+

lemma keeps_send [keep]: "(\<And>c x. f (c\<lparr>c_sent := x\<rparr>) = f c) \<Longrightarrow> keeps f (send_ws_json E data)"
  by (auto simp: keeps_def send_ws_json_def split: option.splits)

lemma bnd_Inr: "m c = (Inr x, c') \<Longrightarrow> bnd m f c = f x c'"
  and bnd_Inl: "m c = (Inl e, c') \<Longrightarrow> bnd m f c = (Inl e, c')"
  by (simp_all add: bnd_def)

lemma lift_bnd: "bnd (lift_result (Inr x)) f = f x" "bnd (lift_result (Inl e)) g = raise e" "bnd (ret x) f = f x" "bnd (raise e) g = raise e"
  by (simp_all add: bnd_def lift_result_def raise_def ret_def)

subsection \<open>The cache\<close>

text \<open>
  A cache that can take the working memory of a user at a time and give it back: in memory nothing of another user is as
  young as the item to come, so that it is not evicted; on disk the key names a file of the cache folder itself.
\<close>

definition cache_ready :: "int \<Rightarrow> string \<Rightarrow> (('e, 's) cached, int) cache \<Rightarrow> bool" where
  "cache_ready now k cache \<longleftrightarrow>
     (case cache of
        InMemoryCache c \<Rightarrow> imc_invar c \<and> (\<forall>(j, other) \<in> set (imc_items c). j \<noteq> k \<longrightarrow> ci_created_at other < now)
      | FileSystemCache c \<Rightarrow> plain_key k)"

lemma insert_then_get:
  assumes "cache_ready now k cache"
  shows "cache_get_value later k (cache_insert (new_cache_item now k v (Some (- 1))) cache) =
     (Some v, cache_insert (new_cache_item now k v (Some (- 1))) cache)"
proof -
  let ?it = "new_cache_item now k v (Some (- 1))"
  have it: "ci_key ?it = k" "ci_value ?it = v" "ci_created_at ?it = now" "\<not> is_expired later ?it"
    by (simp_all add: new_cache_item_def is_expired_def)
  show ?thesis
  proof (cases cache)
    case (InMemoryCache c)
    with assms have "imc_get_value later (ci_key ?it) (imc_insert ?it c) = (Some (ci_value ?it), imc_insert ?it c)"
      by (intro imc_insert_newest_kept it) (auto simp: cache_ready_def it)
    with InMemoryCache it show ?thesis by simp
  next
    case (FileSystemCache c)
    with assms have "fsc_lookup (fsc_insert ?it c) k = Some ?it"
      by (simp add: cache_ready_def fsc_lookup_insert it)
    with it FileSystemCache show ?thesis by (simp add: fsc.get_value_eq fsc.get_item_eq)
  qed
qed

text \<open>A working memory that was saved is the one a new session of the user starts with.\<close>

lemma saved_is_loaded:
  assumes "cache_ready (c_now c) (wm_key (c_user_id c)) (c_cache c)" and "c_wm c < length (c_heap c)"
  shows "wm (stray_cat (c_user_id c) (update_working_memory_cache c)) = wm c"
    and "c_wm (stray_cat (c_user_id c) (update_working_memory_cache c)) < length (c_heap (stray_cat (c_user_id c) (update_working_memory_cache c)))"
  using insert_then_get [OF assms(1), of "c_now c" "cached_value c"] assms(2)
  by (cases "c_cache c"; simp add: stray_cat_def load_working_memory_from_cache_def update_working_memory_cache_def cached_value_def)+

end
