(* ===== verification/Floating.thy ===== *)
theory Floating
  imports Complex_Main
begin

text \<open>
  Arithmetic in double precision as far as the code turns results back into integers: quotients and products of natural numbers are rounded
  to 53 binary digits, ties to even.
\<close>

function binary_scale :: "nat \<Rightarrow> nat \<Rightarrow> nat" where
  "binary_scale p q = (if p = 0 \<or> q * 2 ^ 52 \<le> p then 0 else Suc (binary_scale (2 * p) q))"
  by auto
termination by (relation "measure (\<lambda>(p, q). q * 2 ^ 52 - p)") auto

declare binary_scale.simps [simp del]

definition round_div :: "nat \<Rightarrow> nat \<Rightarrow> nat" where
  "round_div a b = (let q = a div b; r = a mod b in if b < 2 * r \<or> b = 2 * r \<and> odd q then Suc q else q)"

lemma round_div_error:
  assumes "0 < b"
  shows "\<bar>real (round_div a b) - real a / real b\<bar> \<le> 1 / 2"
proof -
  let ?q = "a div b" and ?r = "a mod b"
  have "a = b * ?q + ?r" by simp
  then have "real a = real b * real ?q + real ?r" by (metis of_nat_add of_nat_mult)
  then have a: "real a / real b = real ?q + real ?r / real b" using assms by (simp add: field_simps)
  have r: "?r < b" using assms by simp
  show ?thesis
  proof (cases "b < 2 * ?r \<or> b = 2 * ?r \<and> odd ?q")
    case True
    then have "real b \<le> 2 * real ?r" by linarith
    then have "1 / 2 \<le> real ?r / real b" "real ?r / real b \<le> 1" using assms r by (simp_all add: field_simps)
    with True a show ?thesis by (simp add: round_div_def Let_def)
  next
    case False
    then have "2 * real ?r \<le> real b" by linarith
    then have "real ?r / real b \<le> 1 / 2" "0 \<le> real ?r / real b" using assms by (simp_all add: field_simps)
    with False a show ?thesis by (auto simp: round_div_def Let_def)
  qed
qed

lemma binary_scale_bound: "0 < p \<Longrightarrow> q * 2 ^ 52 \<le> p * 2 ^ binary_scale p q"
proof (induction p q rule: binary_scale.induct)
  case (1 p q)
  show ?case
  proof (cases "q * 2 ^ 52 \<le> p")
    case True
    then show ?thesis by (simp add: binary_scale.simps)
  next
    case False
    with 1 have "q * 2 ^ 52 \<le> 2 * p * 2 ^ binary_scale (2 * p) q" by simp
    with False 1(2) show ?thesis by (subst binary_scale.simps) simp
  qed
qed

section \<open>Six fifths of a count\<close>

text \<open>
  \<open>int(n * 1.2)\<close>: the double nearest to 1.2 is 5404319552844595 / 2^52, a little less than six fifths; the product is rounded, then cut.
\<close>

function excess_bits :: "nat \<Rightarrow> nat" where
  "excess_bits p = (if p < 2 ^ 53 then 0 else Suc (excess_bits (p div 2)))"
  by auto
termination by (relation "measure id") auto

declare excess_bits.simps [simp del]

definition six_fifths :: "nat \<Rightarrow> nat" where
  "six_fifths n = (let p = n * 5404319552844595; s = excess_bits p in round_div p (2 ^ s) * 2 ^ s div 2 ^ 52)"

lemma excess_bits_cases:
  "p < 2 ^ 53 \<Longrightarrow> excess_bits p = 0" "\<not> p < 2 ^ 53 \<Longrightarrow> excess_bits p = Suc (excess_bits (p div 2))"
  by (simp_all add: excess_bits.simps [of p])

lemma excess_bits_upper: "p < 2 ^ (53 + excess_bits p)"
proof (induction p rule: excess_bits.induct)
  case (1 p)
  show ?case
  proof (cases "p < 2 ^ 53")
    case False
    with 1 have "p div 2 < 2 ^ (53 + excess_bits (p div 2))" by blast
    then have "p < 2 * 2 ^ (53 + excess_bits (p div 2))" by (simp only: div_less_iff_less_mult zero_less_numeral mult.commute)
    then show ?thesis unfolding excess_bits_cases(2) [OF False] by (simp only: add_Suc_right power_Suc)
  qed (simp only: excess_bits_cases(1) add_0_right)
qed

lemma excess_bits_lower: "0 < excess_bits p \<Longrightarrow> 2 ^ (52 + excess_bits p) \<le> p"
proof (induction p rule: excess_bits.induct)
  case (1 p)
  have p: "\<not> p < 2 ^ 53"
  proof
    assume "p < 2 ^ 53"
    then show False using 1(2) excess_bits_cases(1) by simp
  qed
  show ?case
  proof (cases "excess_bits (p div 2)")
    case 0
    have "52 + Suc 0 = (53 :: nat)" by simp
    then show ?thesis unfolding excess_bits_cases(2) [OF p] 0 using p by (simp only: not_less)
  next
    case (Suc m)
    with 1(1) p have "2 ^ (52 + excess_bits (p div 2)) \<le> p div 2" by simp
    then have "2 * 2 ^ (52 + excess_bits (p div 2)) \<le> p" by (simp only: less_eq_div_iff_mult_less_eq zero_less_numeral mult.commute)
    then show ?thesis unfolding excess_bits_cases(2) [OF p] by (simp only: add_Suc_right power_Suc)
  qed
qed

text \<open>The product with the double nearest to 1.2, its excess bits and its rounded value.\<close>

abbreviation by_six_fifths :: "nat \<Rightarrow> nat" where "by_six_fifths n \<equiv> n * 5404319552844595"

abbreviation rounded_product :: "nat \<Rightarrow> nat" where
  "rounded_product n \<equiv> round_div (by_six_fifths n) (2 ^ excess_bits (by_six_fifths n)) * 2 ^ excess_bits (by_six_fifths n)"

lemma rounded_near:
  "real (rounded_product n) \<le> real (by_six_fifths n) + 2 ^ excess_bits (by_six_fifths n) / 2"
  "real (by_six_fifths n) - 2 ^ excess_bits (by_six_fifths n) / 2 \<le> real (rounded_product n)"
proof -
  define p s m where "p = by_six_fifths n" and "s = excess_bits p" and "m = round_div p (2 ^ s)"
  have "\<bar>real m - real p / 2 ^ s\<bar> \<le> 1 / 2" using round_div_error [of "2 ^ s" p] by (simp add: m_def)
  then have "\<bar>real m - real p / 2 ^ s\<bar> * 2 ^ s \<le> 1 / 2 * 2 ^ s" by (intro mult_right_mono) simp_all
  moreover have "real (m * 2 ^ s) - real p = (real m - real p / 2 ^ s) * 2 ^ s" by (simp add: field_simps)
  then have "\<bar>real (m * 2 ^ s) - real p\<bar> = \<bar>real m - real p / 2 ^ s\<bar> * 2 ^ s" by (simp add: abs_mult)
  ultimately have "\<bar>real (m * 2 ^ s) - real p\<bar> \<le> 2 ^ s / 2" by simp
  then have "real (m * 2 ^ s) \<le> real p + 2 ^ s / 2 \<and> real p - 2 ^ s / 2 \<le> real (m * 2 ^ s)" by linarith
  then show "real (rounded_product n) \<le> real (by_six_fifths n) + 2 ^ excess_bits (by_six_fifths n) / 2"
    "real (by_six_fifths n) - 2 ^ excess_bits (by_six_fifths n) / 2 \<le> real (rounded_product n)"
    unfolding m_def s_def p_def by blast+
qed

lemma excess_small:
  assumes "0 < n"
  shows "2 ^ excess_bits (by_six_fifths n) \<le> 6 / 5 * real n"
proof (cases "excess_bits (by_six_fifths n) = 0")
  case False
  then have "2 ^ (52 + excess_bits (by_six_fifths n)) \<le> by_six_fifths n" using excess_bits_lower by blast
  then have "real (2 ^ (52 + excess_bits (by_six_fifths n))) \<le> real (by_six_fifths n)" by (simp only: of_nat_le_iff)
  then show ?thesis by (simp add: power_add)
qed (use assms in simp)

text \<open>A multiple of five is not rounded below its six fifths.\<close>

lemma rounded_exact:
  assumes n: "0 < n" "n < 2 ^ 50" and q: "6 * n = 5 * q"
  shows "q * 2 ^ 52 \<le> rounded_product n"
proof -
  define p s m where "p = by_six_fifths n" and "s = excess_bits p" and "m = round_div p (2 ^ s)"
  have p: "real p = real q * 2 ^ 52 - real n / 5"
  proof -
    have "6 * real n = 5 * real q" using arg_cong [OF q, of real] by (simp only: of_nat_mult of_nat_numeral)
    then show ?thesis by (simp add: p_def)
  qed
  have "s \<noteq> 0"
  proof
    assume "s = 0"
    then have "p < 2 ^ 53" using excess_bits_upper [of p] by (simp add: s_def)
    then have "n < 2" by (simp add: p_def)
    with n q show False by presburger
  qed
  have "s \<le> 52"
  proof -
    have "real n < real (2 ^ 50)" using n by (simp only: of_nat_less_iff)
    then have "(2::real) ^ s < 2 ^ 52" using excess_small [OF n(1)] by (simp add: s_def p_def)
    then have "s < 52" by (rule power_less_imp_less_exp [rotated]) simp
    then show ?thesis by simp
  qed
  then have e: "(2::real) ^ 52 = 2 ^ (52 - s) * 2 ^ s" "q * 2 ^ (52 - s) * 2 ^ s = q * 2 ^ 52"
    by (simp_all only: mult.assoc power_add [symmetric] le_add_diff_inverse2)
  have "real p < real (2 ^ (53 + s))" using excess_bits_upper [of p] by (simp only: of_nat_less_iff s_def)
  then have "real n / 5 / 2 ^ s < 1 / 2" using n by (simp add: p_def power_add field_simps)
  moreover have "real q * 2 ^ 52 / 2 ^ s = real q * 2 ^ (52 - s)"
    unfolding e(1) by (simp only: mult.assoc [symmetric] nonzero_mult_div_cancel_right power_not_zero zero_neq_numeral not_False_eq_True simp_thms)
  ultimately have "real q * 2 ^ (52 - s) - 1 / 2 < real p / 2 ^ s" unfolding p diff_divide_distrib by linarith
  moreover have "\<bar>real m - real p / 2 ^ s\<bar> \<le> 1 / 2" using round_div_error [of "2 ^ s" p] by (simp add: m_def)
  ultimately have "real (q * 2 ^ (52 - s)) < real m + 1" by (simp only: of_nat_mult of_nat_power of_nat_numeral)
  then have "q * 2 ^ (52 - s) \<le> m" by linarith
  then have "q * 2 ^ (52 - s) * 2 ^ s \<le> m * 2 ^ s" by (rule mult_le_mono1)
  then have "q * 2 ^ 52 \<le> m * 2 ^ s" unfolding e(2) .
  then show ?thesis unfolding m_def s_def p_def .
qed

lemma six_fifths_eq:
  assumes n: "n < 2 ^ 50"
  shows "six_fifths n = 6 * n div 5"
proof (cases "n = 0")
  case True
  then show ?thesis by (simp add: six_fifths_def excess_bits_cases round_div_def)
next
  case False
  define q r where "q = 6 * n div 5" and "r = 6 * n mod 5"
  have six: "6 * n = 5 * q + r" unfolding q_def r_def by (rule mult_div_mod_eq [symmetric])
  have "r < 5" unfolding r_def by (rule mod_less_divisor) simp
  have "real (6 * n) = real (5 * q + r)" by (simp only: six)
  then have rq: "6 * real n = 5 * real q + real r" by (simp only: of_nat_add of_nat_mult of_nat_numeral)
  have "real n < real (2 ^ 50)" using n by (simp only: of_nat_less_iff)
  then have rn: "real n < 1125899906842624" by simp
  have p: "real (by_six_fifths n) = 5404319552844595 * real n" by simp
  have pow: "2 ^ excess_bits (by_six_fifths n) \<le> 6 / 5 * real n" using excess_small False by blast
  have "real (rounded_product n) < real q * 4503599627370496 + 4503599627370496"
    using rounded_near(1) [of n] pow rq rn p \<open>r < 5\<close> by linarith
  then have "real (rounded_product n) < real (Suc q * 2 ^ 52)" by simp
  then have upper: "rounded_product n < Suc q * 2 ^ 52" by (simp only: of_nat_less_iff)
  have "q * 2 ^ 52 \<le> rounded_product n"
  proof (cases "r = 0")
    case True
    with six False n show ?thesis by (intro rounded_exact) simp_all
  next
    case r: False
    then have "real q * 4503599627370496 \<le> real (rounded_product n)"
      using rounded_near(2) [of n] pow rq rn p by linarith
    then have "real (q * 2 ^ 52) \<le> real (rounded_product n)" by simp
    then show ?thesis by (simp only: of_nat_le_iff)
  qed
  with upper have "rounded_product n div 2 ^ 52 = q" by (intro div_nat_eqI) (simp_all only: mult.commute)
  then show ?thesis by (simp add: six_fifths_def Let_def q_def)
qed

end
