(* ===== verification/Interactions.thy ===== *)
theory Interactions
  imports Session Floating
begin

text \<open>
  The record of calls to models: \<open>convo/model_interactions.py\<close>, the callbacks that fill it (\<open>looking_glass/callbacks.py\<close>) and
  \<open>StrayCat.llm\<close>.  The list \<open>model_interactions\<close> of the working memory is a list here.  A callback has no record of its own: it writes to
  the last entry of that list, whoever made it.  Token counter, clock and language model are parameters; the library
  catches and logs what a callback raises.
\<close>


section \<open>Records\<close>

record llm_interaction =
  li_source :: string
  li_prompt :: "string list"
  li_reply :: string
  li_input_tokens :: nat
  li_output_tokens :: nat
  li_started_at :: int
  li_ended_at :: int

record 'e embedder_interaction =
  ei_source :: string
  ei_prompt :: "string list"
  ei_reply :: 'e
  ei_input_tokens :: nat
  ei_started_at :: int

datatype 'e model_interaction = LLMModelInteraction llm_interaction | EmbedderModelInteraction "'e embedder_interaction"


section \<open>Callbacks\<close>

text \<open>The content of a message: a text, or pieces, which are dictionaries with the keys of their type or bare texts.\<close>

datatype content_piece = TextPiece string | ImageUrlPiece | OtherPiece | BarePiece string

datatype message_content = PlainContent string | PieceList "content_piece list"

definition model_interaction_handler :: "string \<Rightarrow> int \<Rightarrow> 'e model_interaction list \<Rightarrow> 'e model_interaction list" where
  "model_interaction_handler source now l =
     l @ [LLMModelInteraction \<lparr>li_source = source, li_prompt = [], li_reply = [], li_input_tokens = 0, li_output_tokens = 0,
            li_started_at = now, li_ended_at = 0\<rparr>]"

fun count_pieces :: "(string \<Rightarrow> nat result) \<Rightarrow> content_piece list \<Rightarrow> nat \<Rightarrow> string list \<Rightarrow> (nat \<times> string list) result" where
  "count_pieces tok [] n prompt = Inr (n, prompt)"
| "count_pieces tok (TextPiece s # cs) n prompt =
     (case tok s of Inl e \<Rightarrow> Inl e | Inr k \<Rightarrow> count_pieces tok cs (n + k) (prompt @ [s]))"
| "count_pieces tok (ImageUrlPiece # cs) n prompt = count_pieces tok cs n (prompt @ [''(image, tokens not counted)''])"
| "count_pieces tok (OtherPiece # cs) n prompt = count_pieces tok cs n prompt"
| "count_pieces tok (BarePiece s # cs) n prompt = Inl TypeError"

fun count_messages :: "(string \<Rightarrow> nat result) \<Rightarrow> message_content list \<Rightarrow> nat \<Rightarrow> string list \<Rightarrow> (nat \<times> string list) result" where
  "count_messages tok [] n prompt = Inr (n, prompt)"
| "count_messages tok (PlainContent s # ms) n prompt =
     (case tok s of Inl e \<Rightarrow> Inl e | Inr k \<Rightarrow> count_messages tok ms (n + k) (prompt @ [s]))"
| "count_messages tok (PieceList cs # ms) n prompt =
     (case count_pieces tok cs n prompt of Inl e \<Rightarrow> Inl e | Inr (n, prompt) \<Rightarrow> count_messages tok ms n prompt)"

text \<open>\<open>self.last_interaction.x = y\<close> for the last entry.\<close>

definition on_last :: "('e model_interaction \<Rightarrow> 'e model_interaction result) \<Rightarrow> 'e model_interaction list \<Rightarrow> 'e model_interaction list result" where
  "on_last f l = (if l = [] then Inl IndexError else map_sum id (\<lambda>x. butlast l @ [x]) (f (last l)))"

text \<open>Both kinds of record have these two fields.\<close>

definition started_with :: "nat \<Rightarrow> string list \<Rightarrow> 'e model_interaction \<Rightarrow> 'e model_interaction" where
  "started_with n prompt x =
     (case x of
        LLMModelInteraction r \<Rightarrow> LLMModelInteraction (r\<lparr>li_input_tokens := n, li_prompt := prompt\<rparr>)
      | EmbedderModelInteraction r \<Rightarrow> EmbedderModelInteraction (r\<lparr>ei_input_tokens := n, ei_prompt := prompt\<rparr>))"

definition on_chat_model_start ::
  "(string \<Rightarrow> nat result) \<Rightarrow> message_content list list \<Rightarrow> 'e model_interaction list \<Rightarrow> 'e model_interaction list result" where
  "on_chat_model_start tok prompts l =
     (case prompts of
        [] \<Rightarrow> Inl IndexError
      | messages # _ \<Rightarrow>
          (case count_messages tok messages 0 [] of
             Inl e \<Rightarrow> Inl e
           | Inr (n, prompt) \<Rightarrow> on_last (\<lambda>x. Inr (started_with (six_fifths n) prompt x)) l))"

text \<open>A record of the embedder has no field for output tokens, and its class refuses new ones.\<close>

definition ended_with :: "nat \<Rightarrow> string \<Rightarrow> int \<Rightarrow> 'e model_interaction \<Rightarrow> 'e model_interaction result" where
  "ended_with n reply now x =
     (case x of
        LLMModelInteraction r \<Rightarrow> Inr (LLMModelInteraction (r\<lparr>li_output_tokens := n, li_reply := reply, li_ended_at := now\<rparr>))
      | EmbedderModelInteraction r \<Rightarrow> Inl (ValueError ''object has no field output_tokens''))"

definition on_llm_end :: "(string \<Rightarrow> nat result) \<Rightarrow> string \<Rightarrow> int \<Rightarrow> 'e model_interaction list \<Rightarrow> 'e model_interaction list result" where
  "on_llm_end tok text now l = (case tok text of Inl e \<Rightarrow> Inl e | Inr n \<Rightarrow> on_last (ended_with n text now) l)"

definition on_llm_new_token :: "('e, 's, 'q) env \<Rightarrow> string \<Rightarrow> (unit, ('e, 's, 'q) cat) act" where
  "on_llm_new_token E token = send_ws_message E token ''chat_token''"


section \<open>Calls\<close>

text \<open>What callbacks of one or several running calls do, in the order it happens; an exception leaves the list.\<close>

datatype callback =
    Created string int
  | Started "message_content list"
  | Ended string int

fun callback_step :: "(string \<Rightarrow> nat result) \<Rightarrow> callback \<Rightarrow> 'e model_interaction list \<Rightarrow> 'e model_interaction list" where
  "callback_step tok (Created source now) l = model_interaction_handler source now l"
| "callback_step tok (Started messages) l = (case on_chat_model_start tok [messages] l of Inl _ \<Rightarrow> l | Inr l' \<Rightarrow> l')"
| "callback_step tok (Ended text now) l = (case on_llm_end tok text now l of Inl _ \<Rightarrow> l | Inr l' \<Rightarrow> l')"

definition run_callbacks :: "(string \<Rightarrow> nat result) \<Rightarrow> callback list \<Rightarrow> 'e model_interaction list \<Rightarrow> 'e model_interaction list" where
  "run_callbacks tok cs l = fold (callback_step tok) cs l"

text \<open>
  \<open>StrayCat.llm\<close>: the model answers with the tokens it streams and the text; \<open>caller\<close> is None outside any function the
  inspection finds.  With \<open>stream\<close> each token is sent to the socket of the user, and what the sending raises is caught.  The library
  announces the start of a call by \<open>on_chat_model_start\<close> to the handlers of a chat model only; that of any other model (\<open>chat\<close> is False: the default
  and the custom model, the completion models) by \<open>on_llm_start\<close>, which the handler does not implement.
\<close>

definition stray_llm ::
  "('e, 's, 'q) env \<Rightarrow> (string \<Rightarrow> nat result) \<Rightarrow> (string \<Rightarrow> (string list \<times> string) result) \<Rightarrow> bool \<Rightarrow> string option \<Rightarrow> bool \<Rightarrow> string \<Rightarrow> int \<Rightarrow> int \<Rightarrow>
   ('e, 's, 'q) cat \<times> 'e model_interaction list \<Rightarrow> string result \<times> ('e, 's, 'q) cat \<times> 'e model_interaction list" where
  "stray_llm E tok model chat caller stream prompt started ended = (\<lambda>(c, l).
     (let source = (case caller of Some (x # xs) \<Rightarrow> x # xs | _ \<Rightarrow> ''StrayCat'');
          l = run_callbacks tok (Created source started # (if chat then [Started [PlainContent prompt]] else [])) l
      in case model prompt of
           Inl e \<Rightarrow> (Inl e, c, l)
         | Inr (tokens, reply) \<Rightarrow>
             (Inr reply,
              if stream then fold (\<lambda>t c. snd (on_llm_new_token E t c)) tokens c else c,
              run_callbacks tok [Ended reply ended] l)))"

text \<open>The deprecated method of the application object streams nothing and keeps no record.\<close>

definition cheshire_cat_llm :: "(string \<Rightarrow> (string list \<times> string) result) \<Rightarrow> string \<Rightarrow> string result" where
  "cheshire_cat_llm model prompt = map_sum id snd (model prompt)"

text \<open>A new turn starts with an empty list (\<open>StrayCat.__call__\<close>).\<close>

definition start_turn :: "'e model_interaction list \<Rightarrow> 'e model_interaction list" where
  "start_turn l = []"


section \<open>Lemmas\<close>

text \<open>A call of a chat model or of another one; \<open>lc_answer\<close> is None when the model raised, and otherwise the reply and its time.\<close>

record llm_call =
  lc_source :: string
  lc_chat :: bool
  lc_messages :: "message_content list"
  lc_started :: int
  lc_answer :: "(string \<times> int) option"

definition callbacks_of :: "llm_call \<Rightarrow> callback list" where
  "callbacks_of k =
     Created (lc_source k) (lc_started k) # (if lc_chat k then [Started (lc_messages k)] else []) @
     (case lc_answer k of None \<Rightarrow> [] | Some (reply, now) \<Rightarrow> [Ended reply now])"

text \<open>What is recorded: texts and marks for images, six fifths of the tokens of the texts, and the reply.\<close>

fun shown_pieces :: "content_piece list \<Rightarrow> string list" where
  "shown_pieces [] = []"
| "shown_pieces (TextPiece s # cs) = s # shown_pieces cs"
| "shown_pieces (ImageUrlPiece # cs) = ''(image, tokens not counted)'' # shown_pieces cs"
| "shown_pieces (_ # cs) = shown_pieces cs"

fun text_pieces :: "content_piece list \<Rightarrow> string list" where
  "text_pieces [] = []"
| "text_pieces (TextPiece s # cs) = s # text_pieces cs"
| "text_pieces (_ # cs) = text_pieces cs"

definition shown_content :: "message_content \<Rightarrow> string list" where
  "shown_content m = (case m of PlainContent s \<Rightarrow> [s] | PieceList cs \<Rightarrow> shown_pieces cs)"

definition text_content :: "message_content \<Rightarrow> string list" where
  "text_content m = (case m of PlainContent s \<Rightarrow> [s] | PieceList cs \<Rightarrow> text_pieces cs)"

definition no_bare :: "message_content \<Rightarrow> bool" where
  "no_bare m \<longleftrightarrow> (case m of PlainContent _ \<Rightarrow> True | PieceList cs \<Rightarrow> list_all (\<lambda>c. case c of BarePiece _ \<Rightarrow> False | _ \<Rightarrow> True) cs)"

definition prompt_texts :: "llm_call \<Rightarrow> string list" where
  "prompt_texts k = concat (map text_content (lc_messages k))"

definition tokens_of :: "(string \<Rightarrow> nat result) \<Rightarrow> string \<Rightarrow> nat" where
  "tokens_of tok s = (case tok s of Inr n \<Rightarrow> n | Inl _ \<Rightarrow> 0)"

text \<open>The prompt is recorded when the model is a chat model, no piece is a bare text, and all texts can be counted.\<close>

definition prompt_seen :: "(string \<Rightarrow> nat result) \<Rightarrow> llm_call \<Rightarrow> bool" where
  "prompt_seen tok k \<longleftrightarrow> lc_chat k \<and> list_all no_bare (lc_messages k) \<and> list_all (\<lambda>s. \<not> isl (tok s)) (prompt_texts k)"

definition recorded :: "(string \<Rightarrow> nat result) \<Rightarrow> llm_call \<Rightarrow> llm_interaction" where
  "recorded tok k =
     (case (case lc_answer k of Some (t, now) \<Rightarrow> if isl (tok t) then ([], 0) else (t, now) | None \<Rightarrow> ([], 0)) of (reply, ended) \<Rightarrow>
     \<lparr>li_source = lc_source k,
      li_prompt = (if prompt_seen tok k then concat (map shown_content (lc_messages k)) else []),
      li_reply = reply,
      li_input_tokens = (if prompt_seen tok k then 6 * sum_list (map (tokens_of tok) (prompt_texts k)) div 5 else 0),
      li_output_tokens = (case lc_answer k of None \<Rightarrow> 0 | Some (t, now) \<Rightarrow> tokens_of tok t),
      li_started_at = lc_started k, li_ended_at = ended\<rparr>)"

lemma tokens_of_Inr: "tok s = Inr n \<Longrightarrow> tokens_of tok s = n"
  by (simp add: tokens_of_def)

lemma count_pieces_eq:
  "case count_pieces tok cs n prompt of
     Inr r \<Rightarrow> list_all (\<lambda>c. case c of BarePiece _ \<Rightarrow> False | _ \<Rightarrow> True) cs \<and> list_all (\<lambda>s. \<not> isl (tok s)) (text_pieces cs) \<and>
       r = (n + sum_list (map (tokens_of tok) (text_pieces cs)), prompt @ shown_pieces cs)
   | Inl e \<Rightarrow> \<not> (list_all (\<lambda>c. case c of BarePiece _ \<Rightarrow> False | _ \<Rightarrow> True) cs \<and> list_all (\<lambda>s. \<not> isl (tok s)) (text_pieces cs))"
  by (induction tok cs n prompt rule: count_pieces.induct) (auto simp: tokens_of_Inr split: sum.splits)

lemma count_messages_eq:
  "case count_messages tok ms n prompt of
     Inr r \<Rightarrow> list_all no_bare ms \<and> list_all (\<lambda>s. \<not> isl (tok s)) (concat (map text_content ms)) \<and>
       r = (n + sum_list (map (tokens_of tok) (concat (map text_content ms))), prompt @ concat (map shown_content ms))
   | Inl e \<Rightarrow> \<not> (list_all no_bare ms \<and> list_all (\<lambda>s. \<not> isl (tok s)) (concat (map text_content ms)))"
proof (induction ms arbitrary: n prompt)
  case (Cons m ms)
  show ?case
  proof (cases m)
    case (PlainContent s)
    show ?thesis
    proof (cases "tok s")
      case (Inr k)
      then show ?thesis using Cons [of "n + k" "prompt @ [s]"] PlainContent
        by (auto simp: no_bare_def text_content_def shown_content_def tokens_of_Inr split: sum.splits)
    qed (simp add: PlainContent no_bare_def text_content_def)
  next
    case (PieceList cs)
    show ?thesis
    proof (cases "count_pieces tok cs n prompt")
      case (Inl e)
      with count_pieces_eq [where tok = tok and cs = cs and n = n and prompt = prompt] PieceList show ?thesis by (auto simp: no_bare_def text_content_def)
    next
      case (Inr r)
      with count_pieces_eq [where tok = tok and cs = cs and n = n and prompt = prompt] Cons [of "fst r" "snd r"] PieceList show ?thesis
        by (auto simp: no_bare_def text_content_def shown_content_def split: sum.splits)
    qed
  qed
qed simp

lemma on_last_append [simp]: "on_last f (l @ [x]) = map_sum id (\<lambda>y. l @ [y]) (f x)"
  by (simp add: on_last_def)

lemma run_callbacks_simps [simp]:
  "run_callbacks tok [] l = l" "run_callbacks tok (e # es) l = run_callbacks tok es (callback_step tok e l)"
  by (simp_all add: run_callbacks_def)

lemma started_step:
  assumes "sum_list (map (tokens_of tok) (prompt_texts k)) < 2 ^ 50" and "lc_chat k"
  shows "callback_step tok (Started (lc_messages k)) (l @ [LLMModelInteraction r]) =
    l @ [LLMModelInteraction (if prompt_seen tok k
      then r\<lparr>li_input_tokens := 6 * sum_list (map (tokens_of tok) (prompt_texts k)) div 5,
             li_prompt := concat (map shown_content (lc_messages k))\<rparr> else r)]"
  using count_messages_eq [where tok = tok and ms = "lc_messages k" and n = 0 and prompt = "[]"] assms(2) six_fifths_eq [OF assms(1)]
  by (auto simp: on_chat_model_start_def started_with_def prompt_seen_def prompt_texts_def split: sum.splits)

lemma run_callbacks_append [simp]: "run_callbacks tok (xs @ ys) l = run_callbacks tok ys (run_callbacks tok xs l)"
  by (simp add: run_callbacks_def)

lemma one_call:
  assumes "sum_list (map (tokens_of tok) (prompt_texts k)) < 2 ^ 50"
  shows "run_callbacks tok (callbacks_of k) l = l @ [LLMModelInteraction (recorded tok k)]"
proof -
  let ?r = "\<lparr>li_source = lc_source k, li_prompt = if prompt_seen tok k then concat (map shown_content (lc_messages k)) else [], li_reply = [],
    li_input_tokens = if prompt_seen tok k then 6 * sum_list (map (tokens_of tok) (prompt_texts k)) div 5 else 0, li_output_tokens = 0,
    li_started_at = lc_started k, li_ended_at = 0\<rparr>"
  have "run_callbacks tok (Created (lc_source k) (lc_started k) # (if lc_chat k then [Started (lc_messages k)] else [])) l =
      l @ [LLMModelInteraction ?r]"
  proof (cases "lc_chat k")
    case True
    then show ?thesis
      by (simp add: model_interaction_handler_def started_step [OF assms] del: callback_step.simps(2))
  next
    case False
    then show ?thesis by (simp add: model_interaction_handler_def prompt_seen_def)
  qed
  moreover have "run_callbacks tok (case lc_answer k of None \<Rightarrow> [] | Some (reply, now) \<Rightarrow> [Ended reply now]) (l @ [LLMModelInteraction ?r]) =
      l @ [LLMModelInteraction (recorded tok k)]"
    by (auto simp: on_llm_end_def ended_with_def recorded_def tokens_of_def split: option.split sum.split)
  ultimately show ?thesis unfolding callbacks_of_def append_Cons [symmetric] run_callbacks_append by (simp only:)
qed

text \<open>Without a new record, only the last one changes, and the others do not matter.\<close>

lemma callback_last:
  assumes "\<forall>s now. e \<noteq> Created s now"
  obtains y where "\<And>l. callback_step tok e (l @ [x]) = l @ [y]"
proof (cases e)
  case (Started ms)
  show ?thesis
    by (rule that [of "case count_messages tok ms 0 [] of Inl _ \<Rightarrow> x | Inr (n, p) \<Rightarrow> started_with (six_fifths n) p x"])
      (auto simp: Started on_chat_model_start_def split: sum.split)
next
  case (Ended t now)
  show ?thesis
    by (rule that [of "case tok t of Inl _ \<Rightarrow> x | Inr n \<Rightarrow> (case ended_with n t now x of Inl _ \<Rightarrow> x | Inr y \<Rightarrow> y)"])
      (auto simp: Ended on_llm_end_def split: sum.split)
qed (use assms in blast)

lemma run_callbacks_last:
  assumes "\<forall>e \<in> set es. \<forall>s now. e \<noteq> Created s now"
  shows "run_callbacks tok es (l @ [x]) = l @ run_callbacks tok es [x]"
  using assms
proof (induction es arbitrary: x)
  case (Cons e es)
  then obtain y where y: "\<And>l. callback_step tok e (l @ [x]) = l @ [y]" using callback_last [of e tok x] by auto
  from y [of "[]"] have "callback_step tok e [x] = [y]" by simp
  with y Cons show ?case by simp
qed simp

lemma run_one_length:
  assumes "\<forall>e \<in> set es. \<forall>s now. e \<noteq> Created s now"
  shows "length (run_callbacks tok es [x]) = 1"
  using assms
proof (induction es arbitrary: x)
  case (Cons e es)
  then obtain y where "\<And>l. callback_step tok e (l @ [x]) = l @ [y]" using callback_last [of e tok x] by auto
  from this [of "[]"] Cons show ?case by simp
qed simp


section \<open>Properties\<close>

text \<open>
  C39. What is recorded of calls to language models.  Calls that follow one another are recorded one by one, in order, with source and times.  The prompt is
  recorded for chat models only: its texts with a mark for each image, and six fifths of the tokens of the texts rounded
  down, the computation in floating point being exact; it stays empty for other models, and when a text cannot be counted or a piece is a bare text.  The reply is
  recorded with its tokens and its time, unless the model raised or the reply cannot be counted.  Calls that overlap are mixed up: once a second record exists, the
  first keeps what it held at that moment, and whatever either call reports after that goes to the second record.
\<close>
theorem llm_use_recorded:
  assumes "\<forall>k \<in> set calls. sum_list (map (tokens_of tok) (prompt_texts k)) < 2 ^ 50"
    and "\<forall>e \<in> set (es1 @ es2). \<forall>s now. e \<noteq> Created s now"
  shows "run_callbacks tok (concat (map callbacks_of calls)) l = l @ map (LLMModelInteraction \<circ> recorded tok) calls \<and>
    run_callbacks tok (Created s1 t1 # es1 @ Created s2 t2 # es2) l =
      run_callbacks tok (Created s1 t1 # es1) l @ run_callbacks tok (Created s2 t2 # es2) [] \<and>
    length (run_callbacks tok (Created s1 t1 # es1) l) = Suc (length l) \<and>
    length (run_callbacks tok (Created s2 t2 # es2) ([] :: 'e model_interaction list)) = 1"
proof -
  have es: "\<forall>e \<in> set es1. \<forall>s now. e \<noteq> Created s now" "\<forall>e \<in> set es2. \<forall>s now. e \<noteq> Created s now"
    using assms(2) by simp_all
  have "run_callbacks tok (concat (map callbacks_of calls)) l = l @ map (LLMModelInteraction \<circ> recorded tok) calls"
    using assms(1) by (induction calls arbitrary: l) (simp_all add: one_call)
  moreover have "run_callbacks tok (Created s1 t1 # es1 @ Created s2 t2 # es2) l =
      run_callbacks tok es2 (run_callbacks tok (Created s1 t1 # es1) l @ model_interaction_handler s2 t2 [])"
    by (simp add: model_interaction_handler_def)
  moreover have "\<dots> = run_callbacks tok (Created s1 t1 # es1) l @ run_callbacks tok (Created s2 t2 # es2) []"
    unfolding model_interaction_handler_def append_Nil run_callbacks_last [OF es(2)]
    by (simp add: model_interaction_handler_def)
  moreover have "length (run_callbacks tok (Created s1 t1 # es1) l) = Suc (length l)"
    by (simp add: model_interaction_handler_def run_callbacks_last [OF es(1)] run_one_length [OF es(1)])
  moreover have "length (run_callbacks tok (Created s2 t2 # es2) ([] :: 'e model_interaction list)) = 1"
    by (simp add: model_interaction_handler_def run_one_length [OF es(2)])
  ultimately show ?thesis by (simp only: simp_thms)
qed

text \<open>The second call is created when the first has reported its prompt; both replies go to the second record.\<close>

theorem llm_use_recorded_witness:
  "run_callbacks (\<lambda>s. Inr (length s))
     (callbacks_of \<lparr>lc_source = ''tea'', lc_chat = True, lc_messages = [PlainContent ''hello'', PieceList [TextPiece ''abc'', ImageUrlPiece]],
        lc_started = 1, lc_answer = Some (''hi'', 2)\<rparr>) ([] :: nat model_interaction list) =
   [LLMModelInteraction \<lparr>li_source = ''tea'', li_prompt = [''hello'', ''abc'', ''(image, tokens not counted)''], li_reply = ''hi'',
      li_input_tokens = 9, li_output_tokens = 2, li_started_at = 1, li_ended_at = 2\<rparr>] \<and>
   run_callbacks (\<lambda>s. Inr (length s))
     [Created ''one'' 1, Started [PlainContent ''hello''], Created ''two'' 2, Ended ''first'' 3, Ended ''second'' 4] ([] :: nat model_interaction list) =
   [LLMModelInteraction \<lparr>li_source = ''one'', li_prompt = [''hello''], li_reply = '''', li_input_tokens = 6, li_output_tokens = 0,
      li_started_at = 1, li_ended_at = 0\<rparr>,
    LLMModelInteraction \<lparr>li_source = ''two'', li_prompt = [], li_reply = ''second'', li_input_tokens = 0, li_output_tokens = 6,
      li_started_at = 2, li_ended_at = 4\<rparr>]"
proof -
  let ?tok = "\<lambda>s. Inr (length s) :: nat result"
  let ?k = "\<lparr>lc_source = ''tea'', lc_chat = True, lc_messages = [PlainContent ''hello'', PieceList [TextPiece ''abc'', ImageUrlPiece]],
    lc_started = 1, lc_answer = Some (''hi'', 2)\<rparr>"
    and ?k1 = "\<lparr>lc_source = ''one'', lc_chat = True, lc_messages = [PlainContent ''hello''], lc_started = 1, lc_answer = None\<rparr>"
  have small: "\<forall>k \<in> set [?k]. sum_list (map (tokens_of ?tok) (prompt_texts k)) < 2 ^ 50" "\<forall>k \<in> set [?k1]. sum_list (map (tokens_of ?tok) (prompt_texts k)) < 2 ^ 50"
    by (simp_all add: prompt_texts_def text_content_def tokens_of_def)
  have es: "\<forall>e \<in> set ([Started [PlainContent ''hello'']] @ [Ended ''first'' 3, Ended ''second'' 4]). \<forall>s now. e \<noteq> Created s now" by simp
  have "run_callbacks ?tok (callbacks_of ?k) ([] :: nat model_interaction list) = [LLMModelInteraction (recorded ?tok ?k)]"
    using llm_use_recorded [where l = "[]", OF small(1) es, THEN conjunct1]
    by (simp only: list.map concat.simps append_Nil append_Nil2 comp_apply)
  moreover have "run_callbacks ?tok (callbacks_of ?k1) ([] :: nat model_interaction list) = [LLMModelInteraction (recorded ?tok ?k1)]"
    using llm_use_recorded [where l = "[]", OF small(2) es, THEN conjunct1]
    by (simp only: list.map concat.simps append_Nil append_Nil2 comp_apply)
  moreover have "run_callbacks ?tok (Created ''one'' 1 # [Started [PlainContent ''hello'']] @ Created ''two'' 2 # [Ended ''first'' 3, Ended ''second'' 4])
      ([] :: nat model_interaction list) =
    run_callbacks ?tok (Created ''one'' 1 # [Started [PlainContent ''hello'']]) [] @
    run_callbacks ?tok (Created ''two'' 2 # [Ended ''first'' 3, Ended ''second'' 4]) []"
    using llm_use_recorded [where l = "[]", OF small(1) es] by blast
  moreover have "callbacks_of ?k1 = Created ''one'' 1 # [Started [PlainContent ''hello'']]" by (simp add: callbacks_of_def)
  moreover have "run_callbacks ?tok (Created ''two'' 2 # [Ended ''first'' 3, Ended ''second'' 4]) ([] :: nat model_interaction list) =
      [LLMModelInteraction \<lparr>li_source = ''two'', li_prompt = [], li_reply = ''second'', li_input_tokens = 0, li_output_tokens = 6,
        li_started_at = 2, li_ended_at = 4\<rparr>]"
    by (simp add: model_interaction_handler_def on_llm_end_def on_last_def ended_with_def)
  moreover have "recorded ?tok ?k = \<lparr>li_source = ''tea'', li_prompt = [''hello'', ''abc'', ''(image, tokens not counted)''], li_reply = ''hi'',
      li_input_tokens = 9, li_output_tokens = 2, li_started_at = 1, li_ended_at = 2\<rparr>"
    "recorded ?tok ?k1 = \<lparr>li_source = ''one'', li_prompt = [''hello''], li_reply = '''', li_input_tokens = 6, li_output_tokens = 0,
      li_started_at = 1, li_ended_at = 0\<rparr>"
    by (simp_all add: recorded_def prompt_seen_def prompt_texts_def no_bare_def shown_content_def text_content_def tokens_of_def)
  ultimately show ?thesis by (simp only: append_Cons append_Nil simp_thms)
qed

text \<open>One call of a session: streamed tokens reach the socket in order, and what the counter refuses leaves the record empty but not the reply.\<close>

lemma llm_streams:
  assumes "c_connections c = [(c_user_id c, ws)]" and "e_socket E ws = None" and "model prompt = Inr (tokens, reply)"
    and "stray_llm E tok model chat caller True prompt started ended (c, l) = (r, c', l')"
  shows "r = Inr reply \<and> c_sent c' = c_sent c @ map (\<lambda>t. (ws, WsMessage ''chat_token'' t)) tokens"
proof -
  have "c_sent (fold (\<lambda>t c. snd (on_llm_new_token E t c)) ts d) = c_sent d @ map (\<lambda>t. (ws, WsMessage ''chat_token'' t)) ts"
    if "c_connections d = [(c_user_id d, ws)]" for ts d
    using that
  proof (induction ts arbitrary: d)
    case (Cons t ts)
    have "snd (on_llm_new_token E t d) = d\<lparr>c_sent := c_sent d @ [(ws, WsMessage ''chat_token'' t)]\<rparr>"
      using Cons.prems assms(2)
      by (simp add: on_llm_new_token_def send_ws_message_def msg_types_def send_ws_json_def get_connection_def)
    with Cons show ?case by simp
  qed simp
  with assms show ?thesis by (auto simp: stray_llm_def Let_def)
qed

text \<open>Both methods answer the same, but only that of a session is recorded.\<close>

lemma llm_answers_agree:
  "fst (stray_llm E tok model chat caller stream prompt started ended (c, l)) = cheshire_cat_llm model prompt"
  by (simp add: stray_llm_def cheshire_cat_llm_def Let_def split: sum.split prod.split)

end
