(* ===== verification/Custom_Models.thy ===== *)
theory Custom_Models
  imports Py_Text "HOL-Library.Char_ord" "HOL-Library.List_Lexorder"
begin

text \<open>
  The models and embedders the core brings itself: the embedder used when none is configured, and the clients of self-hosted services
  (\<open>factory/custom_embedder.py\<close>, \<open>factory/custom_llm.py\<close>).  The vectorizer of scikit-learn and the HTTP client are
  parameters; entries of a vector are 0.0 or 1.0 and are natural numbers here.
\<close>


section \<open>The default embedder\<close>

definition ascii_lowercase :: string where "ascii_lowercase = ''abcdefghijklmnopqrstuvwxyz''"

definition ascii_uppercase :: string where "ascii_uppercase = ''ABCDEFGHIJKLMNOPQRSTUVWXYZ''"

text \<open>Punctuation and white space in the order of the module \<open>string\<close>.\<close>

definition symbols :: string where
  "symbols = map char_of ([33..<48] @ [58..<65] @ [91..<97] @ [123..<127] @ [32, 9, 10, 13, 11, 12 :: nat])"

definition printable_no_digits :: string where
  "printable_no_digits = ascii_lowercase @ ascii_uppercase @ symbols"

text \<open>\<open>itertools.combinations(chars, 2)\<close>, each pair as a text.\<close>

fun pairs_of :: "string \<Rightarrow> string list" where
  "pairs_of [] = []"
| "pairs_of (x # xs) = map (\<lambda>y. [x, y]) xs @ pairs_of xs"

definition vocabulary :: "string list" where
  "vocabulary = sort (remdups (pairs_of (map lower_char printable_no_digits)))"

text \<open>\<open>re.findall("..", s)\<close>: the dot matches every character but the line feed.\<close>

fun findall_pairs :: "string \<Rightarrow> string list" where
  "findall_pairs [] = []"
| "findall_pairs [c] = []"
| "findall_pairs (c # d # s) =
     (if c \<noteq> CHR 0x0A \<and> d \<noteq> CHR 0x0A then [c, d] # findall_pairs s else findall_pairs (d # s))"

text \<open>
  The vectorizer is given a vocabulary and the terms of each document; with \<open>binary=True\<close> it marks the terms that occur.
\<close>

type_synonym vectorizer = "string list \<Rightarrow> string list list \<Rightarrow> nat list list"

definition vectorizer_law :: "vectorizer \<Rightarrow> bool" where
  "vectorizer_law V \<longleftrightarrow> (\<forall>voc docs. V voc docs = map (\<lambda>terms. map (\<lambda>t. if t \<in> set terms then 1 else 0) voc) docs)"

definition dumb_embed_documents :: "vectorizer \<Rightarrow> string list \<Rightarrow> nat list list" where
  "dumb_embed_documents V texts = V vocabulary (map findall_pairs texts)"

definition dumb_embed_query :: "vectorizer \<Rightarrow> string \<Rightarrow> nat list result" where
  "dumb_embed_query V text = (case dumb_embed_documents V [text] of [] \<Rightarrow> Inl IndexError | v # _ \<Rightarrow> Inr v)"


section \<open>Clients of self-hosted services\<close>

text \<open>\<open>post\<close> sends a body to an address and gives the decoded JSON of the answer, or what it raises.\<close>

type_synonym http_post = "string \<Rightarrow> (string, pyval) dict \<Rightarrow> pyval result"

definition json_key :: "string \<Rightarrow> pyval \<Rightarrow> pyval result" where
  "json_key k v = (case v of PDict d \<Rightarrow> (case dict_get d k of None \<Rightarrow> Inl (KeyError k) | Some w \<Rightarrow> Inr w) | _ \<Rightarrow> Inl TypeError)"

text \<open>\<open>v[0]\<close> and iteration; the keys of a decoded object are texts.\<close>

fun json_first :: "pyval \<Rightarrow> pyval result" where
  "json_first (PList vs) = (case vs of [] \<Rightarrow> Inl IndexError | w # _ \<Rightarrow> Inr w)"
| "json_first (PStr s) = (case s of [] \<Rightarrow> Inl IndexError | c # _ \<Rightarrow> Inr (PStr [c]))"
| "json_first (PDict d) = Inl (KeyError ''0'')"
| "json_first _ = Inl TypeError"

fun json_items :: "pyval \<Rightarrow> pyval list result" where
  "json_items (PList vs) = Inr vs"
| "json_items (PStr s) = Inr (map (\<lambda>c. PStr [c]) s)"
| "json_items (PDict d) = Inr (map PStr (dict_keys d))"
| "json_items _ = Inl TypeError"

definition result_then :: "'a result \<Rightarrow> ('a \<Rightarrow> 'b result) \<Rightarrow> 'b result" where
  "result_then r f = (case r of Inl e \<Rightarrow> Inl e | Inr x \<Rightarrow> f x)"

definition join_path :: "string \<Rightarrow> string \<Rightarrow> string" where
  "join_path a b = (if take 1 b = ''/'' then b else if a = [] \<or> last a = CHR ''/'' then a @ b else a @ ''/'' @ b)"

definition llm_default_call :: "string \<Rightarrow> string" where
  "llm_default_call prompt = ''You did not configure a Language Model. Do it in the settings!''"

definition llm_custom_call :: "http_post \<Rightarrow> string \<Rightarrow> string \<Rightarrow> (string, pyval) dict \<Rightarrow> string \<Rightarrow> pyval result" where
  "llm_custom_call post url auth_key options prompt =
     (case post url [(''text'', PStr prompt), (''auth_key'', PStr auth_key), (''options'', PDict options)] of
        Inl _ \<Rightarrow> Inl (ValueError ''Custom LLM endpoint error during http POST request'')
      | Inr response_json \<Rightarrow> json_key ''text'' response_json)"

definition custom_ollama_kwargs :: "(string, pyval) dict \<Rightarrow> (string, pyval) dict result" where
  "custom_ollama_kwargs kwargs =
     (case dict_get kwargs ''base_url'' of
        None \<Rightarrow> Inl (KeyError ''base_url'')
      | Some (PStr u) \<Rightarrow> Inr (if u \<noteq> [] \<and> last u = CHR ''/'' then dict_set ''base_url'' (PStr (butlast u)) kwargs else kwargs)
      | Some _ \<Rightarrow> Inl (AttributeError ''endswith''))"

definition openai_embed_documents :: "http_post \<Rightarrow> string \<Rightarrow> string list \<Rightarrow> pyval list result" where
  "openai_embed_documents post url texts =
     result_then (post (join_path url ''v1/embeddings'') [(''input'', PList (map PStr texts))]) (\<lambda>ret.
     result_then (json_key ''data'' ret) (\<lambda>data.
     result_then (json_items data) (map_result (json_key ''embedding''))))"

definition openai_embed_query :: "http_post \<Rightarrow> string \<Rightarrow> string \<Rightarrow> pyval result" where
  "openai_embed_query post url text =
     result_then (post (join_path url ''v1/embeddings'') [(''input'', PStr text)]) (\<lambda>ret.
     result_then (json_key ''data'' ret) (\<lambda>data.
     result_then (json_first data) (json_key ''embedding'')))"

definition ollama_embed_documents :: "http_post \<Rightarrow> string \<Rightarrow> string \<Rightarrow> string list \<Rightarrow> pyval result" where
  "ollama_embed_documents post base_url model texts =
     result_then (post (join_path base_url ''api/embed'') [(''model'', PStr model), (''input'', PList (map PStr texts))]) (json_key ''embeddings'')"

definition ollama_embed_query :: "http_post \<Rightarrow> string \<Rightarrow> string \<Rightarrow> string \<Rightarrow> pyval result" where
  "ollama_embed_query post base_url model text =
     result_then (post (join_path base_url ''api/embed'') [(''model'', PStr model), (''input'', PStr text)]) (\<lambda>ret.
     result_then (json_key ''embeddings'' ret) json_first)"


section \<open>Lemmas\<close>

lemma set_pairs_append: "set (pairs_of (xs @ ys)) = set (pairs_of xs) \<union> (\<lambda>(x, y). [x, y]) ` (set xs \<times> set ys) \<union> set (pairs_of ys)"
  by (induction xs) auto

lemma set_pairs_subset: "set (pairs_of xs) \<subseteq> (\<lambda>(x, y). [x, y]) ` (set xs \<times> set xs)"
  by (induction xs) auto

lemma distinct_pairs: "distinct xs \<Longrightarrow> distinct (pairs_of xs)"
proof (induction xs)
  case (Cons x xs)
  then have "[x, y] \<notin> set (pairs_of xs)" for y using set_pairs_subset [of xs] by auto
  with Cons show ?case by (auto simp: distinct_map inj_on_def)
qed simp

lemma pair_order: "distinct xs \<Longrightarrow> [x, y] \<in> set (pairs_of xs) \<longleftrightarrow> (\<exists>us vs. xs = us @ x # vs \<and> y \<in> set vs)"
proof (induction xs)
  case (Cons a xs)
  show ?case
  proof (cases "x = a")
    case True
    then have "[x, y] \<notin> set (pairs_of xs)" using Cons.prems set_pairs_subset [of xs] by auto
    moreover have "us = []" if "a # xs = us @ x # vs" for us vs using that Cons.prems True by (cases us) auto
    ultimately show ?thesis using True by fastforce
  next
    case False
    then have "(\<exists>us vs. a # xs = us @ x # vs \<and> y \<in> set vs) \<longleftrightarrow> (\<exists>us vs. xs = us @ x # vs \<and> y \<in> set vs)"
      by (metis append_Cons list.sel(3) list.inject neq_Nil_conv append_Nil)
    with Cons False show ?thesis by auto
  qed
qed simp

lemma lowered: "map lower_char printable_no_digits = ascii_lowercase @ ascii_lowercase @ symbols"
  by code_simp

lemma alphabet: "distinct ascii_lowercase" "distinct symbols" "length ascii_lowercase = 26" "length symbols = 38"
  "set ascii_lowercase \<inter> set symbols = {}" "length (pairs_of symbols) = 703"
  "list_all (\<lambda>c. lower_char c \<noteq> c) ascii_uppercase" "set ascii_uppercase \<inter> set ascii_lowercase = {}" "set ascii_uppercase \<inter> set symbols = {}"
  by code_simp+

lemma set_vocabulary:
  "set vocabulary = (\<lambda>(x, y). [x, y]) ` (set ascii_lowercase \<times> (set ascii_lowercase \<union> set symbols)) \<union> set (pairs_of symbols)"
  using set_pairs_subset [of ascii_lowercase]
  by (auto simp: vocabulary_def lowered set_pairs_append)

lemma vocabulary_sorted: "sorted vocabulary" "distinct vocabulary"
  by (simp_all add: vocabulary_def)

lemma length_vocabulary: "length vocabulary = 2367"
proof -
  let ?pair = "\<lambda>(x :: char, y). [x, y]" and ?L = "set ascii_lowercase" and ?S = "set symbols"
  have "inj_on ?pair (?L \<times> (?L \<union> ?S))" by (auto simp: inj_on_def)
  then have "card (?pair ` (?L \<times> (?L \<union> ?S))) = card ?L * card (?L \<union> ?S)" by (simp add: card_image card_cartesian_product)
  also have "card (?L \<union> ?S) = card ?L + card ?S" using alphabet(5) by (intro card_Un_disjoint) simp_all
  finally have "card (?pair ` (?L \<times> (?L \<union> ?S))) = 26 * 64"
    using distinct_card [OF alphabet(1)] distinct_card [OF alphabet(2)] alphabet(3,4) by simp
  moreover have "card (set (pairs_of symbols)) = 703"
    using distinct_card [OF distinct_pairs [OF alphabet(2)]] alphabet(6) by simp
  moreover have "?pair ` (?L \<times> (?L \<union> ?S)) \<inter> set (pairs_of symbols) = {}"
    using set_pairs_subset [of symbols] alphabet(5) by auto
  ultimately have "card (set vocabulary) = 2367" unfolding set_vocabulary by (simp add: card_Un_disjoint)
  then show ?thesis using distinct_card [OF vocabulary_sorted(2)] by simp
qed

lemma findall_chars: "[x, y] \<in> set (findall_pairs s) \<Longrightarrow> x \<in> set s \<and> y \<in> set s"
  by (induction s rule: findall_pairs.induct) (auto split: if_splits)


section \<open>Properties\<close>

text \<open>
  C40. The shape of the default embedding.  Whatever the text, the embedding has 2367 entries, 0 or 1, one for each pair of the vocabulary in
  sorted order, and an entry is 1 exactly if its pair is among the adjacent, non-overlapping pairs of the text.  The vocabulary has the pairs that begin
  with a lower-case letter, and of two symbols only the order in which the module lists them; so no pair of a symbol and a letter
  counts, and a text in capital letters is embedded as zero.
\<close>
theorem dumb_embedding_shape:
  assumes "vectorizer_law V"
  shows "\<exists>v. dumb_embed_query V sentence = Inr v \<and> length v = 2367 \<and> length vocabulary = 2367 \<and> sorted vocabulary \<and> distinct vocabulary \<and>
     (\<forall>i < 2367. v ! i = (if vocabulary ! i \<in> set (findall_pairs sentence) then 1 else 0)) \<and>
     (\<forall>x y. [x, y] \<in> set vocabulary \<longleftrightarrow>
        x \<in> set ascii_lowercase \<and> y \<in> set ascii_lowercase \<union> set symbols \<or> (\<exists>us vs. symbols = us @ x # vs \<and> y \<in> set vs)) \<and>
     (set sentence \<subseteq> set ascii_uppercase \<longrightarrow> set v = {0})"
proof -
  let ?v = "map (\<lambda>t. if t \<in> set (findall_pairs sentence) then 1 else 0 :: nat) vocabulary"
  have v: "dumb_embed_query V sentence = Inr ?v"
    using assms by (simp add: dumb_embed_query_def dumb_embed_documents_def vectorizer_law_def)
  have "[x, y] \<in> set vocabulary \<longleftrightarrow>
      x \<in> set ascii_lowercase \<and> y \<in> set ascii_lowercase \<union> set symbols \<or> (\<exists>us vs. symbols = us @ x # vs \<and> y \<in> set vs)" for x y
    unfolding set_vocabulary pair_order [OF alphabet(2), symmetric] by auto
  moreover have "set ?v = {0}" if t: "set sentence \<subseteq> set ascii_uppercase"
  proof -
    have "w \<notin> set (findall_pairs sentence)" if "w \<in> set vocabulary" for w
    proof
      assume w: "w \<in> set (findall_pairs sentence)"
      from that obtain x y where xy: "w = [x, y]" "x \<in> set ascii_lowercase \<union> set symbols"
        unfolding set_vocabulary using set_pairs_subset [of symbols] by auto
      then have "x \<in> set ascii_uppercase" using findall_chars [of x y sentence] w t by auto
      with xy(2) alphabet(8,9) show False by blast
    qed
    moreover have "vocabulary \<noteq> []" using length_vocabulary by auto
    ultimately show ?thesis by (auto simp: image_iff) (metis list.set_intros(1) neq_Nil_conv)
  qed
  ultimately show ?thesis using v vocabulary_sorted length_vocabulary by (intro exI [of _ ?v]) simp
qed

theorem dumb_embedding_shape_witness:
  "\<exists>v. dumb_embed_query (\<lambda>voc docs. map (\<lambda>terms. map (\<lambda>t. if t \<in> set terms then 1 else 0) voc) docs) ''HELLO'' = Inr v \<and>
     length v = 2367 \<and> set v = {0}"
proof -
  have l: "vectorizer_law (\<lambda>voc docs. map (\<lambda>terms. map (\<lambda>t. if t \<in> set terms then 1 else 0) voc) docs)" by (simp add: vectorizer_law_def)
  have "set ''HELLO'' \<subseteq> set ascii_uppercase" by (simp add: ascii_uppercase_def)
  with dumb_embedding_shape [OF l, of "''HELLO''"] show ?thesis by (elim exE conjE) (intro exI conjI; simp)
qed

end
