(* ===== verification/Core_Plugin.thy ===== *)
theory Core_Plugin
  imports Mad_Hatter
begin

text \<open>
  The hooks of the core plugin (\<open>mad_hatter/core_plugin/hooks\<close>).  Each has priority 0 and gives its first argument back, or
  does nothing where the hook has no value to pipe.  They hold for values and cats of any type.
\<close>

definition returning_hook :: "string \<Rightarrow> ('v, 'c) cat_hook" where
  "returning_hook name =
     \<lparr>h_name = name, h_plugin_id = [], h_priority = 0,
      h_function = (\<lambda>args cat. case args of cup # _ \<Rightarrow> (Inr (Some cup), cat) | [] \<Rightarrow> (Inl TypeError, cat))\<rparr>"

definition passing_hook :: "string \<Rightarrow> ('v, 'c) cat_hook" where
  "passing_hook name = \<lparr>h_name = name, h_plugin_id = [], h_priority = 0, h_function = (\<lambda>args cat. (Inr None, cat))\<rparr>"

definition flow_hooks :: "('v, 'c) cat_hook list" where
  "flow_hooks =
     [passing_hook ''before_cat_bootstrap'', passing_hook ''after_cat_bootstrap'', returning_hook ''before_cat_reads_message'',
      returning_hook ''cat_recall_query'', passing_hook ''before_cat_recalls_memories'',
      returning_hook ''before_cat_recalls_episodic_memories'', returning_hook ''before_cat_recalls_declarative_memories'',
      returning_hook ''before_cat_recalls_procedural_memories'', passing_hook ''after_cat_recalls_memories'',
      returning_hook ''before_cat_sends_message'', returning_hook ''before_cat_stores_episodic_memory'', returning_hook ''fast_reply'']"

definition agent_hooks :: "('v, 'c) cat_hook list" where
  "agent_hooks = [returning_hook ''before_agent_starts'', returning_hook ''agent_fast_reply'', returning_hook ''agent_allowed_tools'']"

definition prompt_hooks :: "('v, 'c) cat_hook list" where
  "prompt_hooks =
     [returning_hook ''agent_prompt_prefix'', returning_hook ''agent_prompt_instructions'', returning_hook ''agent_prompt_suffix'']"

definition rabbithole_hooks :: "('v, 'c) cat_hook list" where
  "rabbithole_hooks =
     [returning_hook ''rabbithole_instantiates_parsers'', returning_hook ''rabbithole_instantiates_splitter'',
      returning_hook ''before_rabbithole_insert_memory'', returning_hook ''before_rabbithole_splits_text'',
      returning_hook ''after_rabbithole_splitted_text'', returning_hook ''before_rabbithole_stores_documents'',
      passing_hook ''after_rabbithole_stored_documents'']"

definition factory_hooks :: "('v, 'c) cat_hook list" where
  "factory_hooks =
     [returning_hook ''factory_allowed_llms'', returning_hook ''factory_allowed_embedders'', returning_hook ''factory_allowed_auth_handlers'']"

definition core_hooks :: "('v, 'c) cat_hook list" where
  "core_hooks = agent_hooks @ factory_hooks @ flow_hooks @ prompt_hooks @ rabbithole_hooks"

text \<open>The core plugin as a folder: its hooks, one tool, empty settings, and overrides that do nothing.\<close>

definition core_source :: "('v, 'c) source" where
  "core_source =
     \<lparr>src_valid = True, src_install = None, src_settings = None, src_hooks = core_hooks, src_tools = [''get_the_time''],
      src_forms = [], src_endpoints = [], src_activated = None, src_deactivated = None\<rparr>"


section \<open>Properties\<close>

lemma core_hooks_cases:
  assumes "h \<in> set core_hooks"
  obtains n where "h = returning_hook n" | n where "h = passing_hook n"
  using assms
  by (auto simp: core_hooks_def agent_hooks_def factory_hooks_def flow_hooks_def prompt_hooks_def rabbithole_hooks_def)

lemma core_function:
  assumes "h \<in> clean_hook i ` set core_hooks"
  shows "h_function h (cup # args) cat = (Inr (Some cup), cat) \<or> h_function h (cup # args) cat = (Inr None, cat)"
proof -
  from assms obtain g where g: "g \<in> set core_hooks" "h = clean_hook i g" by blast
  from g(1) show ?thesis
    by (rule core_hooks_cases) (simp_all add: g(2) clean_hook_def returning_hook_def passing_hook_def)
qed

lemma pipe_without_core:
  assumes "\<And>h. h \<in> set hs \<Longrightarrow> h_plugin_id h = core \<Longrightarrow> h \<in> clean_hook core ` set core_hooks"
  shows "pipe mh args (filter (\<lambda>h. h_plugin_id h \<noteq> core) hs) cup cat = pipe mh args hs cup cat"
  using assms
proof (induction hs arbitrary: cup cat)
  case (Cons h hs)
  note IH = Cons.IH [OF Cons.prems, OF list.set_intros(2)]
  show ?case
  proof (cases "h_plugin_id h = core")
    case True
    with Cons.prems [of h] have "h \<in> clean_hook core ` set core_hooks" by simp
    from core_function [OF this, of cup args cat] True IH show ?thesis by auto
  next
    case False
    with IH show ?thesis by (simp split: prod.split sum.split option.split)
  qed
qed simp

text \<open>
  The hooks of the core plugin are neutral.  Where the hooks cached under a name stem from the core plugin only through its
  own definitions, executing a hook with a value gives the value and the cat that the hooks of the other plugins alone give.
\<close>
theorem core_hooks_neutral:
  assumes "dict_get (mh_hooks mh) name = Some hs"
    and "\<forall>h \<in> set hs. h_plugin_id h = ''core_plugin'' \<longrightarrow> h \<in> clean_hook ''core_plugin'' ` set core_hooks"
  shows "execute_hook name (cup # args) cat mh =
     (case pipe mh args (filter (\<lambda>h. h_plugin_id h \<noteq> ''core_plugin'') hs) cup cat of (r, cat) \<Rightarrow> (map_sum id Some r, cat))"
  using assms by (simp add: execute_hook_def pipe_without_core)

definition core_disk :: "(string, ('v, 'c) source) dict" where
  "core_disk = [(''core_plugin'', core_source)]"

definition core_mad_hatter :: "('v, 'c) mad_hatter" where
  "core_mad_hatter = snd (boot core_disk None)"

lemma fold_add_hook_distinct:
  "distinct (map h_name hs) \<Longrightarrow> set (map h_name hs) \<inter> set (dict_keys d) = {} \<Longrightarrow>
   fold add_hook hs d = d @ map (\<lambda>h. (h_name h, [h])) hs"
proof (induction hs arbitrary: d)
  case (Cons h hs)
  then have new: "h_name h \<notin> set (dict_keys d)" by auto
  then have "dict_get d (h_name h) = None" by (simp add: map_of_eq_None_iff)
  with new have "add_hook h d = d @ [(h_name h, [h])]" by (simp add: add_hook_def dict_set_absent)
  with Cons show ?case by auto
qed simp

lemma clean_name [simp]: "h_name (clean_hook i h) = h_name h"
  by (simp add: clean_hook_def)

lemma core_names_distinct: "distinct (map h_name core_hooks)"
  by (simp add: core_hooks_def agent_hooks_def factory_hooks_def flow_hooks_def prompt_hooks_def rabbithole_hooks_def
      returning_hook_def passing_hook_def)

lemma core_fold:
  "fold add_hook (map (clean_hook ''core_plugin'') core_hooks) [] = map (\<lambda>h. (h_name h, [clean_hook ''core_plugin'' h])) core_hooks"
  using core_names_distinct by (subst fold_add_hook_distinct) (simp_all add: comp_def)

lemma core_mad_hatter_eval:
  "fst (boot core_disk None) = None"
  "mh_hooks core_mad_hatter = map (\<lambda>h. (h_name h, [clean_hook ''core_plugin'' h])) core_hooks"
proof -
  show "mh_hooks core_mad_hatter = map (\<lambda>h. (h_name h, [clean_hook ''core_plugin'' h])) core_hooks"
    by (simp add: core_mad_hatter_def boot_def find_plugins_def core_disk_def load_active_plugins_from_db_def load_plugin_def
        Let_def activate_obj_def plugin_activate_def sync_hooks_tools_and_forms_def active_objs_def sort_desc_def comp_def core_source_def
        load_decorated_functions_def new_plugin_def core_fold)
  show "fst (boot core_disk None) = None"
    by (simp add: boot_def find_plugins_def core_disk_def load_active_plugins_from_db_def load_plugin_def
        Let_def activate_obj_def plugin_activate_def core_source_def)
qed

lemma core_lookup:
  assumes "h \<in> set core_hooks"
  shows "dict_get (mh_hooks core_mad_hatter) (h_name h) = Some [clean_hook ''core_plugin'' h]"
proof -
  have "distinct (map fst (mh_hooks core_mad_hatter))" using core_names_distinct by (simp add: core_mad_hatter_eval(2) comp_def)
  then show ?thesis using assms by (intro map_of_is_SomeI) (auto simp: core_mad_hatter_eval(2))
qed

theorem core_hooks_neutral_witness:
  "execute_hook ''fast_reply'' [7 :: nat] ''cat'' core_mad_hatter = (Inr (Some 7), ''cat'')"
proof -
  let ?h = "returning_hook ''fast_reply'' :: (nat, string) cat_hook"
  have m: "?h \<in> set core_hooks" by (simp add: core_hooks_def flow_hooks_def)
  have l: "dict_get (mh_hooks core_mad_hatter) ''fast_reply'' = Some [clean_hook ''core_plugin'' ?h]"
    using core_lookup [OF m] by (simp add: returning_hook_def)
  from m have "\<forall>h \<in> set [clean_hook ''core_plugin'' ?h]. h_plugin_id h = ''core_plugin'' \<longrightarrow> h \<in> clean_hook ''core_plugin'' ` set core_hooks"
    by simp
  from core_hooks_neutral [OF l this, of 7 "[]" "''cat''"] show ?thesis by (simp add: clean_hook_def)
qed

end
