(* ===== verification/Agents.thy ===== *)
theory Agents
  imports Session Core_Plugin
begin

text \<open>
  The agents that answer a message: \<open>agents/main_agent.py\<close>, \<open>agents/procedures_agent.py\<close>,
  \<open>agents/memory_agent.py\<close> and \<open>agents/form_agent.py\<close>, with the prompts (\<open>looking_glass/prompts.py\<close>), the parser of the chosen
  action (\<open>looking_glass/output_parser.py\<close>) and the helpers of \<open>utils.py\<close> they use.  Times are whole seconds.
\<close>


section \<open>Helpers\<close>

definition nl :: string where
  "nl = [char_of (10 :: nat)]"

definition dq :: string where
  "dq = [char_of (34 :: nat)]"

text \<open>\<open>verbal_timedelta\<close>; a \<open>timedelta\<close> of that many seconds has these days and seconds.\<close>

definition verbal_timedelta :: "int \<Rightarrow> string" where
  "verbal_timedelta delta =
     (let days = delta div 86400; seconds = delta mod 86400;
          abs_delta =
            (if days \<noteq> 0 then
               if 7 < \<bar>days\<bar> then show_int (days div 7) @ '' weeks'' else show_int days @ '' days''
             else
               (let abs_minutes = seconds div 60 in
                if 60 < abs_minutes then show_int (abs_minutes div 60) @ '' hours'' else show_int abs_minutes @ '' minutes''))
      in abs_delta @ '' ago'')"

definition empty_output :: agent_output where
  "empty_output = \<lparr>ao_output = None, ao_steps = [], ao_direct = False\<rparr>"

text \<open>The difference of names and placeholders is removed on either side; a template may not parse.\<close>

definition match_prompt_variables ::
  "('e, 's, 'q) env \<Rightarrow> (string, string) dict \<Rightarrow> string \<Rightarrow> ((string, string) dict \<times> string) result" where
  "match_prompt_variables E vars template =
     (case e_input_variables E template of
        Inl e \<Rightarrow> Inl e
      | Inr placeholders \<Rightarrow>
          Inr (filter (\<lambda>(k, v). k \<in> set placeholders) vars,
               fold (\<lambda>m t. if m \<in> set (dict_keys vars) then t else replace_all (''{'' @ m @ ''}'') [] t) placeholders template))"


section \<open>Messages for the language model\<close>

definition langchainfy_image :: "('e, 's, 'q) env \<Rightarrow> string \<Rightarrow> content_part option result" where
  "langchainfy_image E url =
     (if take 4 url = ''http'' then map_sum id (map_option ImagePart) (e_download E url) else Inr (Some (ImagePart url)))"

definition langchainfy :: "('e, 's, 'q) env \<Rightarrow> message \<Rightarrow> langchain_message result" where
  "langchainfy E m =
     (case m_role m of
        AI \<Rightarrow> (case m_text m of None \<Rightarrow> Inl ValidationError | Some t \<Rightarrow> Inr (AIMessage (m_who m) t))
      | Human \<Rightarrow>
          (let texts = (case m_text m of None \<Rightarrow> [] | Some t \<Rightarrow> if t = [] then [] else [TextPart t])
           in case m_image m of
                None \<Rightarrow> Inr (HumanMessage (m_who m) texts)
              | Some url \<Rightarrow>
                  if url = [] then Inr (HumanMessage (m_who m) texts)
                  else (case langchainfy_image E url of
                          Inl e \<Rightarrow> Inl e
                        | Inr None \<Rightarrow> Inr (HumanMessage (m_who m) texts)
                        | Inr (Some p) \<Rightarrow> Inr (HumanMessage (m_who m) (texts @ [p])))))"

definition langchainfy_chat_history :: "('e, 's, 'q) env \<Rightarrow> ('e, 's) working_memory \<Rightarrow> langchain_message list result" where
  "langchainfy_chat_history E w = map_result (langchainfy E) (last_n MAX_WORKING_HISTORY_LENGTH (wm_history w))"

text \<open>The text of a message inside another text.\<close>

definition text_str :: "string option \<Rightarrow> string" where
  "text_str t = (case t of None \<Rightarrow> ''None'' | Some s \<Rightarrow> s)"

definition turn_of :: "message \<Rightarrow> turn" where
  "turn_of m = \<lparr>t_who = m_who m, t_text = text_str (m_text m)\<rparr>"


section \<open>The form agent\<close>

text \<open>
  The form is changed in place, so it stays the active one unless its submission put another in its place.
\<close>

definition put_form :: "active_form \<Rightarrow> form option \<Rightarrow> ('e, 's, 'q) cat \<Rightarrow> ('e, 's, 'q) cat" where
  "put_form af f c =
     (case wm_active_form (wm c) of
        None \<Rightarrow> c
      | Some now \<Rightarrow>
          if af_id now = af_id af
          then set_wm (\<lambda>w. w\<lparr>wm_active_form := map_option (\<lambda>f. af\<lparr>af_form := f\<rparr>) f\<rparr>) c
          else c)"

definition reply_text :: "('e, 's, 'q) env \<Rightarrow> form_reply \<Rightarrow> string" where
  "reply_text E r = (case r of Submitted (OutputDict s) \<Rightarrow> s | _ \<Rightarrow> e_form_text E r)"

definition run_form_agent :: "('e, 's, 'q) env \<Rightarrow> (agent_output, ('e, 's, 'q) cat) act" where
  "run_form_agent E = (\<lambda>c.
     case wm_active_form (wm c) of
       None \<Rightarrow> (Inr empty_output, c)
     | Some af \<Rightarrow>
         (let C = e_forms E (af_class af);
              msg = text_str (case wm_user_message_json (wm c) of None \<Rightarrow> None | Some m \<Rightarrow> m_text m)
          in case form_agent C (\<lambda>p. e_llm E (FormPrompt p)) (e_parser E) msg (map turn_of (wm_history (wm c))) (Some (af_form af)) c of
               (reply, f, c) \<Rightarrow>
                 (case reply of
                    None \<Rightarrow> (Inr empty_output, put_form af f c)
                  | Some r \<Rightarrow>
                      (Inr \<lparr>ao_output = Some (reply_text E r),
                            ao_steps = [agent_step (PStr (fc_name C)) (PStr []) (PStr (reply_text E r))], ao_direct = True\<rparr>,
                       put_form af f c))))"


section \<open>The procedures agent\<close>

definition TOOL_PROMPT :: string where
  "TOOL_PROMPT =
     ''Create a JSON with the correct '' @ dq @ ''action'' @ dq @ '' and '' @ dq @ ''action_input'' @ dq @ '' to help the Human.'' @ nl @
     ''You can use one of these actions:'' @ nl @
     ''{tools}'' @ nl @
     ''- '' @ dq @ ''no_action'' @ dq @ '': Use this action if no relevant action is available. Input is always null.'' @ nl @ nl @
     ''## The JSON must have the following structure:'' @ nl @ nl @
     ''```json'' @ nl @
     ''{{'' @ nl @
     ''    '' @ dq @ ''action'' @ dq @ '': // str - The name of the action to take, should be one of [{tool_names}, '' @ dq @ ''no_action'' @ dq @ '']'' @ nl @
     ''    '' @ dq @ ''action_input'' @ dq @ '': // str or null - The input to the action according to its description'' @ nl @
     ''}}'' @ nl @
     ''```'' @ nl @ nl @
     ''{examples}'' @ nl"

text \<open>Unhashable values cannot be put into a set.\<close>

fun get_recalled_procedures_names :: "('e, 's) memory list \<Rightarrow> pyval list \<Rightarrow> pyval list result" where
  "get_recalled_procedures_names [] names = Inr names"
| "get_recalled_procedures_names (((content, md), score, vec, i) # ps) names =
     (case (dict_get md ''type'', dict_get md ''trigger_type'', dict_get md ''source'') of
        (None, _, _) \<Rightarrow> Inl (KeyError ''type'')
      | (_, None, _) \<Rightarrow> Inl (KeyError ''trigger_type'')
      | (_, _, None) \<Rightarrow> Inl (KeyError ''source'')
      | (Some p_type, Some p_trigger_type, Some p_source) \<Rightarrow>
          if p_type \<in> {PStr ''tool'', PStr ''form''} \<and> p_trigger_type \<in> {PStr ''description'', PStr ''start_example''} then
            if hashable p_source then get_recalled_procedures_names ps (List.insert p_source names) else Inl TypeError
          else get_recalled_procedures_names ps names)"

text \<open>\<open>name in v\<close> for what the hook \<open>agent_allowed_tools\<close> may have returned.\<close>

fun tea_contains :: "string \<Rightarrow> ('e, 's) tea \<Rightarrow> bool result" where
  "tea_contains name (TNames ns) = Inr (PStr name \<in> set ns)"
| "tea_contains name (TText s) = Inr (contains name s)"
| "tea_contains name (TDict d) = Inr (name \<in> set (dict_keys d))"
| "tea_contains name (TInput d) = Inr (name \<in> set (dict_keys d))"
| "tea_contains name _ = Inl TypeError"

fun prepare_allowed_procedures ::
  "('e, 's) tea \<Rightarrow> 'c cat_procedure list \<Rightarrow> (string, 'c cat_procedure) dict \<Rightarrow> (string, 'c cat_procedure) dict result" where
  "prepare_allowed_procedures names [] allowed = Inr allowed"
| "prepare_allowed_procedures names (p # ps) allowed =
     (case tea_contains (cp_name p) names of
        Inl e \<Rightarrow> Inl e
      | Inr b \<Rightarrow> prepare_allowed_procedures names ps (if b then dict_set (cp_name p) p allowed else allowed))"

definition example_text :: "('e, 's, 'q) env \<Rightarrow> 'c cat_procedure \<Rightarrow> string" where
  "example_text E p =
     nl @ ''Question: '' @ e_choice E (cp_examples p) @ nl @ ''```json'' @ nl @
     nl @ ''{'' @ nl @ ''    '' @ dq @ ''action'' @ dq @ '': '' @ dq @ cp_name p @ dq @ '','' @ nl @
     ''    '' @ dq @ ''action_input'' @ dq @ '': '' @ dq @ ''...input here...'' @ dq @ nl @ ''}'' @ nl @ ''```'' @
     nl @ ''Question: I have no questions'' @ nl @ ''```json'' @ nl @ ''{'' @ nl @
     ''    '' @ dq @ ''action'' @ dq @ '': '' @ dq @ ''no_answer'' @ dq @ '','' @ nl @
     ''    '' @ dq @ ''action_input'' @ dq @ '': null'' @ nl @ ''}'' @ nl @ ''```''"

definition generate_examples :: "('e, 's, 'q) env \<Rightarrow> (string, 'c cat_procedure) dict \<Rightarrow> string" where
  "generate_examples E allowed =
     (let ps = filter (\<lambda>p. cp_examples p \<noteq> []) (map snd allowed)
      in if ps = [] then [] else ''## Here some examples:'' @ nl @ concat (map (example_text E) ps))"

text \<open>The answer as an action: text that is not JSON gives no action, and an input that is not text is dumped again.\<close>

definition parse_action :: "('e, 's, 'q) env \<Rightarrow> string \<Rightarrow> pyval \<times> pyval" where
  "parse_action E llm_output =
     (case parse_json (e_parser E) llm_output of
        Inl _ \<Rightarrow> (PNone, PNone)
      | Inr d \<Rightarrow>
          (let action = (case dict_get d ''action'' of None \<Rightarrow> PNone | Some v \<Rightarrow> v);
               action_input = (case dict_get d ''action_input'' of None \<Rightarrow> PNone | Some v \<Rightarrow> v)
           in (action, case action_input of PStr s \<Rightarrow> PStr s | v \<Rightarrow> if truthy v then PStr (e_dumps E v) else v)))"

definition chat_llm :: "('e, 's, 'q) env \<Rightarrow> string \<Rightarrow> (string, string) dict \<Rightarrow> (string, ('e, 's, 'q) cat) act" where
  "chat_llm E template vars =
     bnd (lift_result (match_prompt_variables E vars template)) (\<lambda>(vars, template).
     bnd (gets wm) (\<lambda>w.
     bnd (lift_result (langchainfy_chat_history E w)) (\<lambda>history.
     e_llm E (ChatPrompt template vars history))))"

definition execute_chain ::
  "('e, 's, 'q) env \<Rightarrow> string \<Rightarrow> (string, ('e, 's, 'q) cat cat_procedure) dict \<Rightarrow> (pyval \<times> pyval, ('e, 's, 'q) cat) act" where
  "execute_chain E template allowed =
     bnd (chat_llm E template
       [(''tools'', join_with nl (map (\<lambda>t. ''- '' @ dq @ cp_name t @ dq @ '': '' @ cp_description t) (map snd allowed))),
        (''tool_names'', dq @ join_with (dq @ '', '' @ dq) (dict_keys allowed) @ dq),
        (''examples'', generate_examples E allowed)])
     (\<lambda>answer. ret (parse_action E answer))"

text \<open>The output field takes text or None.\<close>

definition tool_output :: "pyval \<Rightarrow> pyval \<Rightarrow> bool \<Rightarrow> pyval \<Rightarrow> agent_output result" where
  "tool_output action action_input direct out =
     (case out of
        PStr s \<Rightarrow> Inr \<lparr>ao_output = Some s, ao_steps = [agent_step action action_input out], ao_direct = direct\<rparr>
      | PNone \<Rightarrow> Inr \<lparr>ao_output = None, ao_steps = [agent_step action action_input out], ao_direct = direct\<rparr>
      | _ \<Rightarrow> Inl ValidationError)"

definition start_form :: "('e, 's, 'q) env \<Rightarrow> string \<Rightarrow> (agent_output, ('e, 's, 'q) cat) act" where
  "start_form E name =
     bnd (modify (set_wm (\<lambda>w. w\<lparr>wm_active_form := Some \<lparr>af_id = wm_forms_made w, af_class = name, af_form = new_form\<rparr>,
                                wm_forms_made := Suc (wm_forms_made w)\<rparr>)))
     (\<lambda>_. run_form_agent E)"

definition execute_subagents ::
  "('e, 's, 'q) env \<Rightarrow> pyval \<times> pyval \<Rightarrow> (string, ('e, 's, 'q) cat cat_procedure) dict \<Rightarrow> (agent_output, ('e, 's, 'q) cat) act" where
  "execute_subagents E llm_action allowed =
     (case llm_action of (action, action_input) \<Rightarrow>
        if \<not> truthy action then ret (empty_output\<lparr>ao_output := Some []\<rparr>)
        else if \<not> hashable action then raise TypeError
        else (case action of
                PStr name \<Rightarrow>
                  (case dict_get allowed name of
                     None \<Rightarrow> ret (empty_output\<lparr>ao_output := Some []\<rparr>)
                   | Some p \<Rightarrow>
                       catching
                         (case cp_kind p of
                            CatTool run direct \<Rightarrow> bnd (run action_input) (\<lambda>out. lift_result (tool_output action action_input direct out))
                          | CatForm \<Rightarrow> start_form E (cp_name p))
                         (\<lambda>_. ret (empty_output\<lparr>ao_output := Some []\<rparr>)))
              | _ \<Rightarrow> ret (empty_output\<lparr>ao_output := Some []\<rparr>)))"

definition tea_text :: "('e, 's) tea \<Rightarrow> string result" where
  "tea_text v = (case v of TText s \<Rightarrow> Inr s | _ \<Rightarrow> Inl TypeError)"

definition execute_procedures :: "('e, 's, 'q) env \<Rightarrow> (agent_output, ('e, 's, 'q) cat) act" where
  "execute_procedures E =
     bnd (hook E ''agent_prompt_instructions'' (TText TOOL_PROMPT)) (\<lambda>template.
     bnd (gets (\<lambda>c. wm_procedural (wm c))) (\<lambda>memories.
     bnd (lift_result (get_recalled_procedures_names memories [])) (\<lambda>recalled.
     bnd (hook E ''agent_allowed_tools'' (TNames recalled)) (\<lambda>names.
     bnd (lift_result (prepare_allowed_procedures names (e_procedures E) [])) (\<lambda>allowed.
     bnd (lift_result (tea_text template)) (\<lambda>template.
     bnd (execute_chain E template allowed) (\<lambda>llm_action.
     execute_subagents E llm_action allowed)))))))"

text \<open>The lines about executed tools; a step of another shape raises.\<close>

definition step_line :: "pyval \<Rightarrow> string result" where
  "step_line st =
     (case st of
        PList (PList (a # _) # out # _) \<Rightarrow> Inr ('' - '' @ py_str a @ '': '' @ py_str out @ nl)
      | _ \<Rightarrow> Inl IndexError)"

definition set_tools_output :: "pyval list \<Rightarrow> (unit, ('e, 's, 'q) cat) act" where
  "set_tools_output steps =
     bnd (gets (\<lambda>c. wm_agent_input (wm c))) (\<lambda>inp.
       case inp of
         None \<Rightarrow> raise (AttributeError ''tools_output'')
       | Some d \<Rightarrow>
           bnd (lift_result (map_result step_line steps)) (\<lambda>ls.
           modify (set_wm (\<lambda>w. w\<lparr>wm_agent_input := Some (dict_set ''tools_output'' (''## Context of executed system tools: '' @ nl @ concat ls) d)\<rparr>))))"

definition run_procedures_agent :: "('e, 's, 'q) env \<Rightarrow> (agent_output, ('e, 's, 'q) cat) act" where
  "run_procedures_agent E =
     bnd (run_form_agent E) (\<lambda>form_output.
       if ao_direct form_output then ret form_output
       else
         bnd (gets (\<lambda>c. wm_procedural (wm c))) (\<lambda>memories.
           if memories = [] then ret empty_output
           else
             catching
               (bnd (execute_procedures E) (\<lambda>r.
                  if ao_direct r \<or> ao_steps r = [] then ret r
                  else bnd (set_tools_output (ao_steps r)) (\<lambda>_. ret r)))
               (\<lambda>_. ret empty_output)))"


section \<open>The memory agent\<close>

definition run_memory_agent :: "('e, 's, 'q) env \<Rightarrow> ('e, 's) tea \<Rightarrow> ('e, 's) tea \<Rightarrow> (agent_output, ('e, 's, 'q) cat) act" where
  "run_memory_agent E prompt_prefix prompt_suffix =
     bnd (gets (\<lambda>c. wm_agent_input (wm c))) (\<lambda>inp.
       case inp of
         None \<Rightarrow> raise (AttributeError ''model_dump'')
       | Some vars \<Rightarrow>
           bnd (lift_result (tea_text prompt_prefix)) (\<lambda>p.
           bnd (lift_result (tea_text prompt_suffix)) (\<lambda>s.
           bnd (chat_llm E (p @ s) vars) (\<lambda>answer.
           ret (empty_output\<lparr>ao_output := Some answer\<rparr>)))))"


section \<open>The main agent\<close>

definition MAIN_PROMPT_PREFIX :: string where
  "MAIN_PROMPT_PREFIX = ''You are the Cheshire Cat AI, an intelligent AI that passes the Turing test.''"

definition MAIN_PROMPT_SUFFIX :: string where
  "MAIN_PROMPT_SUFFIX =
     nl @ nl @ ''# Context'' @ nl @ ''{episodic_memory}'' @ nl @ nl @ ''{declarative_memory}'' @ nl @ nl @ ''{tools_output}'' @ nl"

definition flat_text :: "string \<Rightarrow> string" where
  "flat_text s = replace_all nl ''. '' s"

definition episodic_line :: "int \<Rightarrow> ('e, 's) memory \<Rightarrow> string result" where
  "episodic_line now m =
     (case m of ((content, md), _) \<Rightarrow>
        (case dict_get md ''when'' of
           None \<Rightarrow> Inl (KeyError ''when'')
         | Some (PInt t) \<Rightarrow> Inr (flat_text content @ '' ('' @ verbal_timedelta (now - t) @ '')'')
         | Some _ \<Rightarrow> Inl TypeError))"

definition declarative_line :: "('e, 's) memory \<Rightarrow> string result" where
  "declarative_line m =
     (case m of ((content, md), _) \<Rightarrow>
        (case dict_get md ''source'' of
           None \<Rightarrow> Inl (KeyError ''source'')
         | Some source \<Rightarrow> Inr (flat_text content @ '' (extracted from '' @ py_str source @ '')'')))"

definition memory_content :: "string \<Rightarrow> string list \<Rightarrow> string" where
  "memory_content title texts =
     (if texts = [] then [] else title @ nl @ ''  - '' @ join_with (nl @ ''  - '') texts)"

definition agent_prompt_episodic_memories :: "int \<Rightarrow> ('e, 's) memory list \<Rightarrow> string result" where
  "agent_prompt_episodic_memories now memory_docs =
     map_sum id (memory_content ''## Context of things the Human said in the past: '') (map_result (episodic_line now) memory_docs)"

definition agent_prompt_declarative_memories :: "('e, 's) memory list \<Rightarrow> string result" where
  "agent_prompt_declarative_memories memory_docs =
     map_sum id (memory_content ''## Context of documents containing relevant information: '') (map_result declarative_line memory_docs)"

definition format_agent_input :: "(('e, 's) tea, ('e, 's, 'q) cat) act" where
  "format_agent_input =
     bnd (gets (\<lambda>c. agent_prompt_episodic_memories (c_now c) (wm_episodic (wm c)))) (\<lambda>r. bnd (lift_result r) (\<lambda>episodic.
     bnd (gets (\<lambda>c. agent_prompt_declarative_memories (wm_declarative (wm c)))) (\<lambda>r. bnd (lift_result r) (\<lambda>declarative.
     bnd (gets wm) (\<lambda>w.
       case wm_user_message_json w of
         None \<Rightarrow> raise (AttributeError ''text'')
       | Some m \<Rightarrow>
           ret (TInput
             [(''episodic_memory'', episodic), (''declarative_memory'', declarative), (''tools_output'', []),
              (''input'', text_str (m_text m)),
              (''chat_history'', stringify_chat_history MAX_WORKING_HISTORY_LENGTH (map turn_of (wm_history w)))]))))))"

text \<open>\<open>AgentOutput(**d)\<close>: the fields are checked and have defaults.\<close>

definition agent_output_of :: "metadata \<Rightarrow> agent_output result" where
  "agent_output_of d =
     (case (dict_get d ''output'', dict_get d ''intermediate_steps'', dict_get d ''return_direct'') of (out, steps, direct) \<Rightarrow>
        (case (case out of Some (PStr s) \<Rightarrow> Inr (Some s) | Some PNone \<Rightarrow> Inr None | None \<Rightarrow> Inr None | _ \<Rightarrow> Inl ValidationError,
               case steps of Some (PList xs) \<Rightarrow> Inr xs | None \<Rightarrow> Inr [] | _ \<Rightarrow> Inl ValidationError,
               case direct of Some (PBool b) \<Rightarrow> Inr b | None \<Rightarrow> Inr False | _ \<Rightarrow> Inl ValidationError) of
           (Inr out, Inr steps, Inr direct) \<Rightarrow> Inr \<lparr>ao_output = out, ao_steps = steps, ao_direct = direct\<rparr>
         | _ \<Rightarrow> Inl ValidationError))"

text \<open>After the fast replies: prompts, procedures, and the memory agent unless a procedure returns directly.\<close>

definition run_default_agents :: "('e, 's, 'q) env \<Rightarrow> (agent_output, ('e, 's, 'q) cat) act" where
  "run_default_agents E =
     bnd (hook E ''agent_prompt_prefix'' (TText MAIN_PROMPT_PREFIX)) (\<lambda>prompt_prefix.
     bnd (hook E ''agent_prompt_suffix'' (TText MAIN_PROMPT_SUFFIX)) (\<lambda>prompt_suffix.
     bnd (run_procedures_agent E) (\<lambda>procedures_out.
       if ao_direct procedures_out then ret procedures_out
       else
         bnd (run_memory_agent E prompt_prefix prompt_suffix) (\<lambda>memory_out.
         ret (memory_out\<lparr>ao_steps := ao_steps memory_out @ ao_steps procedures_out\<rparr>)))))"

definition run_main_agent :: "('e, 's, 'q) env \<Rightarrow> (agent_output, ('e, 's, 'q) cat) act" where
  "run_main_agent E =
     bnd format_agent_input (\<lambda>agent_input.
     bnd (hook E ''before_agent_starts'' agent_input) (\<lambda>agent_input.
     bnd (modify (set_wm (\<lambda>w. w\<lparr>wm_agent_input := (case agent_input of TInput d \<Rightarrow> Some d | _ \<Rightarrow> None)\<rparr>))) (\<lambda>_.
     bnd (hook E ''agent_fast_reply'' (TDict [])) (\<lambda>fast.
       case fast of
         TOutput r \<Rightarrow> ret r
       | TDict d \<Rightarrow> if ''output'' \<in> set (dict_keys d) then lift_result (agent_output_of d) else run_default_agents E
       | _ \<Rightarrow> run_default_agents E))))"

section \<open>What the agents leave alone\<close>

lemma ask_keeps: "(\<And>p l. f (snd (llm p l)) = f l) \<Longrightarrow> f (snd (ask llm p l)) = f l"
  by (simp add: ask_def case_prod_unfold)

lemma form_update_keeps:
  assumes "\<And>p l. f (snd (llm p l)) = f l"
  shows "f (snd (snd (form_update C llm parser hist fm l))) = f l"
  using assms by (auto simp: form_update_def form_extract_def case_prod_unfold split: sum.split)

lemma next_end_keeps:
  assumes "\<And>d l. f (snd (fc_submit C d l)) = f l"
  shows "f (snd (snd (next_end C fm l))) = f l"
  using assms by (simp add: next_end_def submit_closed_def case_prod_unfold Let_def)

lemma next_open_keeps:
  assumes "\<And>p l. f (snd (llm p l)) = f l" and "\<And>d l. f (snd (fc_submit C d l)) = f l"
  shows "f (snd (snd (next_open C llm parser msg hist fm l))) = f l"
proof -
  have c: "f (snd (check_exit_intent C llm msg l)) = f l" unfolding check_exit_intent_def by (rule ask_keeps) (rule assms(1))
  show ?thesis
    by (simp add: next_open_def Let_def case_prod_unfold c form_update_keeps [where f = f and llm = llm, OF assms(1)]
        next_end_keeps [where f = f and C = C, OF assms(2)] split: sum.split option.split)
qed

lemma form_next_keeps:
  assumes "\<And>p l. f (snd (llm p l)) = f l" and "\<And>d l. f (snd (fc_submit C d l)) = f l"
  shows "f (snd (snd (form_next C llm parser msg hist fm l))) = f l"
proof -
  have c: "f (snd (check_exit_intent C llm msg l)) = f l" for l unfolding check_exit_intent_def by (rule ask_keeps) (rule assms(1))
  have k: "f (snd (confirm llm msg l)) = f l" unfolding confirm_def by (rule ask_keeps) (rule assms(1))
  have s: "f (snd (snd (submit_closed C fm l))) = f l" for l using assms(2) by (simp add: submit_closed_def case_prod_unfold)
  show ?thesis
    by (simp add: form_next_def case_prod_unfold c k s next_open_keeps [where f = f and llm = llm and C = C, OF assms]
        split: sum.split bool.split)
qed

lemma form_agent_keeps:
  assumes "\<And>p l. f (snd (llm p l)) = f l" and "\<And>d l. f (snd (fc_submit C d l)) = f l"
  shows "f (snd (snd (form_agent C llm parser msg hist active l))) = f l"
  by (simp add: form_agent_def case_prod_unfold form_next_keeps [where f = f and llm = llm and C = C, OF assms]
      split: option.split sum.split form_reply.split submit_reply.split)

text \<open>
  What a plugin would have to change on purpose: the user, the conversation, the user's message, the vector database, the
  clock and the cache.  The
  environment is calm when hooks, tools, submissions of forms and the language model leave it alone.
\<close>

definition talk ::
  "('e, 's, 'q) cat \<Rightarrow>
   string \<times> nat \<times> bool \<times> message list \<times> message option \<times> 'q \<times> nat \<times> int \<times> (('e, 's) cached, int) cache" where
  "talk c =
     (c_user_id c, c_wm c, c_wm c < length (c_heap c), wm_history (wm c), wm_user_message_json (wm c), c_db c, c_points_made c, c_now c,
      c_cache c)"

definition calm :: "('e, 's, 'q) env \<Rightarrow> bool" where
  "calm E \<longleftrightarrow>
     (\<forall>(n, hs) \<in> set (mh_hooks (e_mad_hatter E)). \<forall>h \<in> set hs. \<forall>args. keeps talk (h_function h args)) \<and>
     (\<forall>p. keeps talk (e_llm E p)) \<and>
     (\<forall>p \<in> set (e_procedures E). \<forall>run d x. cp_kind p = CatTool run d \<longrightarrow> keeps talk (run x)) \<and>
     (\<forall>n d. keeps talk (fc_submit (e_forms E n) d))"

lemma talk_set_wm:
  assumes "\<And>w. wm_history (g w) = wm_history w" and "\<And>w. wm_user_message_json (g w) = wm_user_message_json w"
  shows "talk (set_wm g c) = talk c"
  using assms by (cases "c_wm c < length (c_heap c)") (simp_all add: talk_def set_wm_def list_update_beyond)

lemma pipe_keeps: "(\<And>h args. h \<in> set hs \<Longrightarrow> keeps f (h_function h args)) \<Longrightarrow> f (snd (pipe mh args hs cup c)) = f c"
proof (induction hs arbitrary: cup c)
  case (Cons h hs)
  have "f (snd (h_function h (cup # args) c)) = f c" using Cons.prems [of h] by (simp add: keeps_def)
  with Cons show ?case by (simp add: case_prod_unfold split: sum.split option.split)
qed simp

lemma run_all_keeps: "(\<And>h args. h \<in> set hs \<Longrightarrow> keeps f (h_function h args)) \<Longrightarrow> f (snd (run_all mh hs c)) = f c"
proof (induction hs arbitrary: c)
  case (Cons h hs)
  have "f (snd (h_function h [] c)) = f c" using Cons.prems [of h] by (simp add: keeps_def)
  with Cons show ?case by (simp add: case_prod_unfold split: sum.split option.split)
qed simp

lemma keeps_hooks [keep]:
  assumes calm: "calm E"
  shows "keeps talk (hook E n v)" "keeps talk (hook0 E n)"
proof -
  have h: "keeps talk (h_function h args)" if "dict_get (mh_hooks (e_mad_hatter E)) n = Some hs" "h \<in> set hs" for hs h args
    using calm map_of_SomeD [OF that(1)] that(2) unfolding calm_def by blast
  show "keeps talk (hook E n v)"
    unfolding keeps_def
    by (auto simp: hook_def execute_hook_def case_prod_unfold pipe_keeps [where f = talk, OF h] split: option.split sum.split)
  show "keeps talk (hook0 E n)"
    unfolding keeps_def
    by (auto simp: hook0_def execute_hook_def case_prod_unfold run_all_keeps [where f = talk, OF h] split: option.split)
qed

lemma keeps_llm [keep]: "calm E \<Longrightarrow> keeps talk (e_llm E p)"
  by (simp add: calm_def)

lemma keeps_case_prod [keep]: "(\<And>a b. keeps f (g a b)) \<Longrightarrow> keeps f (case x of (a, b) \<Rightarrow> g a b)"
  by (cases x) simp

lemma keeps_if [keep]: "keeps f m \<Longrightarrow> keeps f n \<Longrightarrow> keeps f (if b then m else n)"
  by simp

lemma keeps_case_option [keep]: "keeps f m \<Longrightarrow> (\<And>y. keeps f (g y)) \<Longrightarrow> keeps f (case x of None \<Rightarrow> m | Some y \<Rightarrow> g y)"
  by (cases x) simp_all

lemma keeps_chat_llm [keep]: "calm E \<Longrightarrow> keeps talk (chat_llm E t vars)"
  unfolding chat_llm_def by (intro keep)

lemma keeps_form_agent [keep]:
  assumes calm: "calm E"
  shows "keeps talk (run_form_agent E)"
proof -
  have l: "talk (snd (e_llm E (FormPrompt p) l)) = talk l" for p l using keeps_llm [OF calm] by (simp add: keeps_def)
  have s: "talk (snd (fc_submit (e_forms E n) d l)) = talk l" for n d l using calm by (simp add: calm_def keeps_def)
  have p: "talk (put_form af fm c) = talk c" for af fm and c :: "('a, 'b, 'c) cat"
    by (auto simp: put_form_def talk_set_wm split: option.split)
  show ?thesis
    unfolding keeps_def run_form_agent_def
    by (simp add: Let_def case_prod_unfold p form_agent_keeps [where f = talk, OF l s] split: option.split)
qed

lemma keeps_subagents:
  assumes calm: "calm E" and "snd ` set allowed \<subseteq> set (e_procedures E)"
  shows "keeps talk (execute_subagents E act allowed)"
proof -
  have f: "keeps talk (start_form E n)" for n
    unfolding start_form_def by (intro keep calm talk_set_wm) simp_all
  have k: "keeps talk (catching (case cp_kind p of CatTool run direct \<Rightarrow> bnd (run x) (\<lambda>out. lift_result (g run direct out)) | CatForm \<Rightarrow> start_form E (cp_name p)) h)"
    if "dict_get allowed n = Some p" "\<And>e. keeps talk (h e)" for n p x g h
  proof (cases "cp_kind p")
    case (CatTool run d)
    have "p \<in> set (e_procedures E)" using assms(2) map_of_SomeD [OF that(1)] by force
    with CatTool calm have "keeps talk (run x)" unfolding calm_def by blast
    with CatTool that(2) show ?thesis by (auto intro!: keep)
  next
    case CatForm
    with f that(2) show ?thesis by (auto intro!: keep)
  qed
  obtain a i where act: "act = (a, i)" by fastforce
  show ?thesis
    unfolding execute_subagents_def act prod.case
    by (cases a) (auto intro!: keep k split: option.split)
qed

lemma allowed_subset:
  "prepare_allowed_procedures names ps allowed = Inr allowed' \<Longrightarrow> snd ` set allowed \<subseteq> S \<Longrightarrow> set ps \<subseteq> S \<Longrightarrow> snd ` set allowed' \<subseteq> S"
proof (induction ps arbitrary: allowed)
  case (Cons p ps)
  from Cons.prems(1) obtain b where b: "prepare_allowed_procedures names ps (if b then dict_set (cp_name p) p allowed else allowed) = Inr allowed'"
    by (auto split: sum.splits)
  have "snd ` set (dict_set (cp_name p) p allowed) \<subseteq> S"
    using dict_set_mem [of _ _ "cp_name p" p allowed] Cons.prems(2,3) by force
  then show ?case using Cons.prems(2,3) Cons.IH [OF b] by (cases b) simp_all
qed simp

lemma keeps_main_agent [keep]:
  fixes E :: "('e, 's, 'q) env"
  assumes calm: "calm E"
  shows "keeps talk (run_main_agent E)"
proof -
  have sub: "keeps talk (bnd (lift_result (prepare_allowed_procedures names (e_procedures E) [])) g)"
    if "\<And>allowed. snd ` set allowed \<subseteq> set (e_procedures E) \<Longrightarrow> keeps talk (g allowed)" for names and g :: "_ \<Rightarrow> ('x, ('e, 's, 'q) cat) act"
  proof (cases "prepare_allowed_procedures names (e_procedures E) []")
    case (Inr allowed)
    with allowed_subset [OF Inr, of "set (e_procedures E)"] that show ?thesis
      by (simp add: keeps_def bnd_def lift_result_def)
  qed (simp add: keeps_def bnd_def lift_result_def)
  have proc: "keeps talk (execute_procedures E)"
    unfolding execute_procedures_def execute_chain_def
    by (rule keep calm sub keeps_subagents | assumption)+
  have tools: "keeps talk (set_tools_output steps :: (unit, ('e, 's, 'q) cat) act)" for steps
    unfolding set_tools_output_def by (rule keep talk_set_wm | simp)+
  have pa: "keeps talk (run_procedures_agent E)"
    unfolding run_procedures_agent_def by (rule keep calm proc tools)+
  have ma: "keeps talk (run_memory_agent E a b)" for a b
    unfolding run_memory_agent_def by (rule keep calm)+
  have d: "keeps talk (run_default_agents E)"
    unfolding run_default_agents_def by (rule keep calm pa ma)+
  have fi: "keeps talk (format_agent_input :: (('e, 's) tea, ('e, 's, 'q) cat) act)"
    unfolding format_agent_input_def by (rule keep)+
  have t: "keeps talk (case v of TOutput r \<Rightarrow> ret r | TDict d \<Rightarrow> if k d then lift_result (g d) else run_default_agents E | _ \<Rightarrow> run_default_agents E)"
    for v :: "('e, 's) tea" and k g
    by (cases v) (auto intro!: keep d)
  show ?thesis
    unfolding run_main_agent_def by (rule keep calm fi t talk_set_wm | simp)+
qed

section \<open>Properties\<close>

lemma floor_bounds: "0 < n \<Longrightarrow> x div n * n \<le> x" "0 < n \<Longrightarrow> x < (x div n + 1) * (n :: int)"
  by (metis add.commute mult.commute mult.right_neutral distrib_left pos_mod_bound pos_mod_sign mult_div_mod_eq
      add_less_cancel_left le_add_same_cancel1)+

lemma coarser_unit:
  fixes x y w u k :: int
  assumes "y * u \<le> x" "x < (y + 1) * u" "w * k \<le> y" "y < (w + 1) * k" "0 < u"
  shows "w * (k * u) \<le> x \<and> x < (w + 1) * (k * u)"
proof -
  have "w * k * u \<le> y * u" "(y + 1) * u \<le> (w + 1) * k * u" using assms(3-5) by (intro mult_right_mono; simp)+
  with assms(1,2) show ?thesis by (simp add: mult.assoc)
qed

text \<open>
  Ages of memories in the prompt are rounded down: for a time that is not in the future, the number printed
  with its unit is at most the age, and one more unit would exceed it.
\<close>
theorem verbal_timedelta_rounds_down:
  assumes "0 \<le> delta"
  shows "\<exists>n unit name. (name, unit) \<in> {('' weeks'', 604800), ('' days'', 86400), ('' hours'', 3600), ('' minutes'', 60)} \<and>
     verbal_timedelta delta = show_int n @ name @ '' ago'' \<and> n * unit \<le> delta \<and> delta < (n + 1) * unit"
proof -
  define d m where "d = delta div 86400" and "m = delta mod 86400 div 60"
  have b: "d * 86400 \<le> delta" "delta < (d + 1) * 86400" "d = 0 \<Longrightarrow> m * 60 \<le> delta" "d = 0 \<Longrightarrow> delta < (m + 1) * 60"
    using floor_bounds [of 86400 delta] floor_bounds [of 60 delta] unfolding d_def m_def by (simp_all add: div_eq_0_iff)
  consider (weeks) "d \<noteq> 0" "7 < \<bar>d\<bar>" | (days) "d \<noteq> 0" "\<not> 7 < \<bar>d\<bar>" | (hours) "d = 0" "60 < m" | (minutes) "d = 0" "\<not> 60 < m"
    by blast
  then show ?thesis
  proof cases
    case weeks
    have "d div 7 * 604800 \<le> delta \<and> delta < (d div 7 + 1) * 604800" using coarser_unit [OF b(1,2) floor_bounds [of 7 d]] by simp
    with weeks show ?thesis
      by (intro exI [of _ "d div 7"] exI [of _ 604800] exI [of _ "'' weeks''"]) (simp add: verbal_timedelta_def Let_def d_def)
  next
    case days
    with b(1,2) show ?thesis by (intro exI [of _ d] exI [of _ 86400] exI [of _ "'' days''"]) (simp add: verbal_timedelta_def Let_def d_def)
  next
    case hours
    have "m div 60 * 3600 \<le> delta \<and> delta < (m div 60 + 1) * 3600" using coarser_unit [OF b(3) b(4) floor_bounds [of 60 m]] hours by simp
    with hours show ?thesis
      by (intro exI [of _ "m div 60"] exI [of _ 3600] exI [of _ "'' hours''"]) (simp add: verbal_timedelta_def Let_def d_def m_def)
  next
    case minutes
    with b(3,4) show ?thesis by (intro exI [of _ m] exI [of _ 60] exI [of _ "'' minutes''"]) (simp add: verbal_timedelta_def Let_def d_def m_def)
  qed
qed

theorem verbal_timedelta_rounds_down_witness:
  "(\<exists>n unit name. (name, unit) \<in> {('' weeks'', 604800), ('' days'', 86400), ('' hours'', 3600), ('' minutes'', 60)} \<and>
     verbal_timedelta 7300 = show_int n @ name @ '' ago'' \<and> n * unit \<le> 7300 \<and> 7300 < (n + 1) * unit) \<and>
   verbal_timedelta 7300 = ''2 hours ago''"
proof
  show "\<exists>n unit name. (name, unit) \<in> {('' weeks'', 604800), ('' days'', 86400), ('' hours'', 3600), ('' minutes'', 60)} \<and>
     verbal_timedelta 7300 = show_int n @ name @ '' ago'' \<and> n * unit \<le> 7300 \<and> 7300 < (n + 1) * unit"
    by (rule verbal_timedelta_rounds_down) simp
  show "verbal_timedelta 7300 = ''2 hours ago''" by code_simp
qed

lemma form_agent_returns: "\<exists>r c'. run_form_agent E c = (Inr r, c')"
  by (auto simp: run_form_agent_def Let_def split: option.split prod.split)

lemma catching_returns: "(\<And>e c. \<exists>y c'. h e c = (Inr y, c')) \<Longrightarrow> \<exists>x c'. catching m h c = (Inr x, c')"
  by (auto simp: catching_def split: prod.split sum.split)

text \<open>
  C26. Failures of tools and forms do not end the turn.  The procedures agent always returns an output, whatever the hooks, the
  language model, tools and forms do; a tool that raises gives an empty answer and its effects stay; without an active
  form and recalled procedures the agent does nothing.
\<close>
theorem procedures_agent_contained:
  "(\<exists>r c'. run_procedures_agent E c = (Inr r, c')) \<and>
   (wm_active_form (wm c) = None \<and> wm_procedural (wm c) = [] \<longrightarrow> run_procedures_agent E c = (Inr empty_output, c)) \<and>
   (dict_get allowed name = Some p \<and> cp_kind p = CatTool run direct \<and> name \<noteq> [] \<and> run x c = (Inl e, c') \<longrightarrow>
      execute_subagents E (PStr name, x) allowed c = (Inr \<lparr>ao_output = Some [], ao_steps = [], ao_direct = False\<rparr>, c'))"
proof -
  obtain f c1 where f: "run_form_agent E c = (Inr f, c1)" using form_agent_returns by metis
  have "\<exists>r c'. run_procedures_agent E c = (Inr r, c')"
  proof -
    have k: "\<exists>r c'. catching m (\<lambda>_. ret empty_output) c1 = (Inr r, c')" for m :: "(agent_output, ('a, 'b, 'c) cat) act"
      by (rule catching_returns) (simp add: ret_def)
    show ?thesis
      using k by (auto simp: run_procedures_agent_def bnd_def f gets_def ret_def)
  qed
  moreover have "run_procedures_agent E c = (Inr empty_output, c)" if "wm_active_form (wm c) = None" "wm_procedural (wm c) = []"
    using that by (simp add: run_procedures_agent_def run_form_agent_def bnd_def gets_def ret_def empty_output_def)
  moreover have "execute_subagents E (PStr name, x) allowed c = (Inr \<lparr>ao_output = Some [], ao_steps = [], ao_direct = False\<rparr>, c')"
    if "dict_get allowed name = Some p" "cp_kind p = CatTool run direct" "name \<noteq> []" "run x c = (Inl e, c')"
    using that by (simp add: execute_subagents_def catching_def bnd_def ret_def empty_output_def)
  ultimately show ?thesis by blast
qed

text \<open>An environment with the core plugin, two tools, a mute form and a language model that always says the same.\<close>

definition demo_form_class :: "(nat, unit, mem_db) cat form_class" where
  "demo_form_class = \<lparr>fc_name = ''order'', fc_ask_confirm = False, fc_stop_examples = [], fc_fields = [], fc_validate = (\<lambda>_. []),
     fc_submit = (\<lambda>d c. (Inr (OutputDict ''done''), c))\<rparr>"

definition clock_tool :: "'c cat_procedure" where
  "clock_tool = \<lparr>cp_name = ''clock'', cp_description = ''tells the time'', cp_examples = [''what time is it''],
     cp_kind = CatTool (\<lambda>x c. (Inr (PStr ''noon''), c)) True\<rparr>"

definition broken_tool :: "'c cat_procedure" where
  "broken_tool = \<lparr>cp_name = ''broken'', cp_description = ''raises'', cp_examples = [], cp_kind = CatTool (\<lambda>x c. (Inl IndexError, c)) False\<rparr>"

definition demo_hatter :: "((nat, unit) tea, (nat, unit, mem_db) cat) mad_hatter" where
  "demo_hatter =
     \<lparr>mh_disk = core_disk, mh_plugins = [(''core_plugin'', new_plugin ''core_plugin'')],
      mh_hooks = map (\<lambda>h. (h_name h, [clean_hook ''core_plugin'' h])) core_hooks,
      mh_tools = [''get_the_time''], mh_forms = [], mh_endpoints = [], mh_active = [''core_plugin''], mh_saved = None\<rparr>"

text \<open>These are the hooks the manager has after it started with the core plugin alone.\<close>

lemma demo_hatter_hooks: "mh_hooks demo_hatter = mh_hooks core_mad_hatter"
  by (simp add: demo_hatter_def core_mad_hatter_eval(2))

definition demo_env :: "(nat, unit, mem_db) env" where
  "demo_env =
     \<lparr>e_mad_hatter = demo_hatter, e_procedures = [clock_tool, broken_tool], e_forms = (\<lambda>_. demo_form_class),
      e_qdrant = mem_qdrant, e_embed = (\<lambda>t. Inr (length t)), e_threshold = (), e_llm = (\<lambda>p c. (Inr ''meow'', c)),
      e_tokens = (\<lambda>s. Inr (length s)), e_parser = (\<lambda>_. Inl (ValueError [])), e_dumps = (\<lambda>_. []), e_input_variables = (\<lambda>_. Inr []),
      e_download = (\<lambda>_. Inr None), e_choice = hd, e_form_text = (\<lambda>_. []), e_uuid = demo_uuid,
      e_exc_str = (\<lambda>e. case e of Exception s \<Rightarrow> s | ValueError s \<Rightarrow> s | _ \<Rightarrow> []),
      e_exc_name = (\<lambda>e. case e of AttributeError _ \<Rightarrow> ''AttributeError'' | ValueError _ \<Rightarrow> ''ValueError'' | _ \<Rightarrow> ''Exception''),
      e_socket = (\<lambda>_. None)\<rparr>"

definition demo_cat :: "(nat, unit, mem_db) cat" where
  "demo_cat =
     \<lparr>c_user_id = ''alice'', c_wm = 0, c_heap = [new_working_memory],
      c_cache = FileSystemCache \<lparr>fsc_dir = ''cache'', fsc_files = Map.empty\<rparr>,
      c_db = [(''episodic'', 3, [''ada_episodic''], []), (''declarative'', 3, [''ada_declarative''], []), (''procedural'', 3, [''ada_procedural''], [])],
      c_now = 100, c_points_made = 0, c_connections = [], c_sent = []\<rparr>"

lemma demo_calm: "calm demo_env"
proof -
  have core: "keeps talk (h_function (clean_hook i h) args)" if h: "h \<in> set core_hooks" for i args and h :: "((nat, unit) tea, (nat, unit, mem_db) cat) cat_hook"
    using h by (rule core_hooks_cases) (auto simp: keeps_def clean_hook_def returning_hook_def passing_hook_def split: list.split)
  have "\<forall>(n, hs) \<in> set (mh_hooks (e_mad_hatter demo_env)). \<forall>h \<in> set hs. \<forall>args. keeps talk (h_function h args)"
    by (auto simp: demo_env_def demo_hatter_def intro: core)
  then show ?thesis
    by (auto simp: calm_def demo_env_def keeps_def clock_tool_def broken_tool_def demo_form_class_def)
qed

theorem procedures_agent_contained_witness:
  "run_procedures_agent demo_env demo_cat = (Inr empty_output, demo_cat) \<and>
   execute_subagents demo_env (PStr ''broken'', PNone) [(''broken'', broken_tool)] demo_cat =
     (Inr \<lparr>ao_output = Some [], ao_steps = [], ao_direct = False\<rparr>, demo_cat)"
proof -
  have "wm_active_form (wm demo_cat) = None \<and> wm_procedural (wm demo_cat) = []" by (simp add: demo_cat_def new_working_memory_def)
  moreover have "dict_get [(''broken'', broken_tool)] ''broken'' = Some broken_tool \<and> cp_kind broken_tool = CatTool (\<lambda>x c. (Inl IndexError, c)) False \<and>
    ''broken'' \<noteq> [] \<and> (\<lambda>x c. (Inl IndexError, c)) PNone demo_cat = (Inl IndexError :: pyval result, demo_cat)"
    by (simp add: broken_tool_def)
  ultimately show ?thesis
    using procedures_agent_contained [of demo_env demo_cat "[(''broken'', broken_tool)]" "''broken''" broken_tool
        "\<lambda>x c. (Inl IndexError, c)" False PNone IndexError demo_cat] by blast
qed

end
