(* ===== verification/Stray_Cat.thy ===== *)
theory Stray_Cat
  imports Agents
begin

text \<open>
  The conversation turn (\<open>looking_glass/stray_cat.py\<close>): recall of memories, the answer of the main agent, storage of the
  message, and \<open>run\<close>, which catches what the turn raises; the websocket endpoint and its loop
  (\<open>routes/websocket/websocket.py\<close>), the message endpoint (\<open>routes/base.py\<close>) and the saving of the session when an endpoint is over
  (\<open>auth/connection.py\<close>).  The clock stands still during a turn.
\<close>


section \<open>Recall\<close>

definition default_recall_config :: "('e, 's, 'q) env \<Rightarrow> 'e \<Rightarrow> metadata \<Rightarrow> ('e, 's) tea" where
  "default_recall_config E v md = TConfig \<lparr>rc_embedding = v, rc_k = 3, rc_threshold = Some (e_threshold E), rc_metadata = md\<rparr>"

definition recall_collection :: "('e, 's, 'q) env \<Rightarrow> string \<Rightarrow> ('e, 's) tea \<Rightarrow> ('e, 's, 'q) cat \<Rightarrow> ('e, 's) memory list result" where
  "recall_collection E name config c =
     (case config of
        TConfig r \<Rightarrow> Inr (recall_memories_from_embedding (e_qdrant E) name (rc_embedding r) (rc_metadata r) (rc_k r) (rc_threshold r) (c_db c))
      | _ \<Rightarrow> Inl TypeError)"

definition recall_into ::
  "('e, 's, 'q) env \<Rightarrow> string \<Rightarrow> ('e, 's) tea \<Rightarrow> (('e, 's) memory list \<Rightarrow> ('e, 's) working_memory \<Rightarrow> ('e, 's) working_memory) \<Rightarrow> (unit, ('e, 's, 'q) cat) act" where
  "recall_into E name config put =
     bnd (gets (recall_collection E name config)) (\<lambda>r. bnd (lift_result r) (\<lambda>memories. modify (set_wm (put memories))))"

definition recall_query :: "string option \<Rightarrow> (('e, 's) tea, ('e, 's, 'q) cat) act" where
  "recall_query query =
     (case query of
        Some q \<Rightarrow> ret (TText q)
      | None \<Rightarrow> bnd (gets wm) (\<lambda>w.
          case wm_user_message_json w of
            None \<Rightarrow> raise (AttributeError ''text'')
          | Some m \<Rightarrow> ret (case m_text m of None \<Rightarrow> TNone | Some t \<Rightarrow> TText t)))"

text \<open>The query is noted before its tokens are counted, and the interaction after.\<close>

definition embed_recall_query :: "('e, 's, 'q) env \<Rightarrow> ('e, 's) tea \<Rightarrow> ('e, ('e, 's, 'q) cat) act" where
  "embed_recall_query E query =
     bnd (lift_result (tea_text query)) (\<lambda>q.
     bnd (lift_result (e_embed E q)) (\<lambda>v.
     bnd (modify (set_wm (\<lambda>w. w\<lparr>wm_recall_query := q\<rparr>))) (\<lambda>_.
     bnd (lift_result (e_tokens E q)) (\<lambda>n.
     bnd (modify (set_wm (\<lambda>w. w\<lparr>wm_interactions := wm_interactions w @ [EmbedderInteraction q n]\<rparr>))) (\<lambda>_.
     ret v)))))"

definition recall_relevant_memories_to_working_memory ::
  "('e, 's, 'q) env \<Rightarrow> string option \<Rightarrow> (unit, ('e, 's, 'q) cat) act" where
  "recall_relevant_memories_to_working_memory E query =
     bnd (recall_query query) (\<lambda>q.
     bnd (hook E ''cat_recall_query'' q) (\<lambda>q.
     bnd (embed_recall_query E q) (\<lambda>v.
     bnd (hook0 E ''before_cat_recalls_memories'') (\<lambda>_.
     bnd (gets c_user_id) (\<lambda>u.
     bnd (hook E ''before_cat_recalls_episodic_memories'' (default_recall_config E v [(''source'', PStr u)])) (\<lambda>ep.
     bnd (hook E ''before_cat_recalls_declarative_memories'' (default_recall_config E v [])) (\<lambda>de.
     bnd (hook E ''before_cat_recalls_procedural_memories'' (default_recall_config E v [])) (\<lambda>pr.
     bnd (recall_into E ''episodic'' ep (\<lambda>ms w. w\<lparr>wm_episodic := ms\<rparr>)) (\<lambda>_.
     bnd (recall_into E ''declarative'' de (\<lambda>ms w. w\<lparr>wm_declarative := ms\<rparr>)) (\<lambda>_.
     bnd (recall_into E ''procedural'' pr (\<lambda>ms w. w\<lparr>wm_procedural := ms\<rparr>)) (\<lambda>_.
     hook0 E ''after_cat_recalls_memories'')))))))))))"


section \<open>The turn\<close>

definition reports :: "('e, 's) memory list \<Rightarrow> report list" where
  "reports ms = map (\<lambda>(doc, score, vec, i). (doc, i)) ms"

definition build_why :: "(why, ('e, 's, 'q) cat) act" where
  "build_why =
     bnd (gets wm) (\<lambda>w.
       case wm_user_message_json w of
         None \<Rightarrow> raise (AttributeError ''text'')
       | Some m \<Rightarrow>
           (case m_text m of
              None \<Rightarrow> raise ValidationError
            | Some t \<Rightarrow>
                ret \<lparr>why_input = t, why_steps = [], why_episodic = reports (wm_episodic w), why_declarative = reports (wm_declarative w),
                     why_procedural = reports (wm_procedural w), why_interactions = wm_interactions w, why_output = None\<rparr>))"

text \<open>The text that is embedded is the user's; what is stored is the document the hook returns.\<close>

definition store_user_message_in_episodic_memory :: "('e, 's, 'q) env \<Rightarrow> string option \<Rightarrow> (unit, ('e, 's, 'q) cat) act" where
  "store_user_message_in_episodic_memory E text =
     (case text of
        None \<Rightarrow> raise ValidationError
      | Some t \<Rightarrow>
          bnd (gets (\<lambda>c. TDoc (t, [(''source'', PStr (c_user_id c)), (''when'', PInt (c_now c))]))) (\<lambda>doc.
          bnd (hook E ''before_cat_stores_episodic_memory'' doc) (\<lambda>doc.
          bnd (lift_result (e_embed E t)) (\<lambda>v.
            case doc of
              TDoc (content, md) \<Rightarrow>
                modify (\<lambda>c. c\<lparr>c_db := snd (add_point (e_qdrant E) ''episodic'' content v md None (e_uuid E (c_points_made c)) (c_db c)),
                                c_points_made := Suc (c_points_made c)\<rparr>)
            | _ \<Rightarrow> raise (AttributeError ''page_content'')))))"

definition put_history :: "message \<Rightarrow> (unit, ('e, 's, 'q) cat) act" where
  "put_history m = modify (set_wm (\<lambda>w. w\<lparr>wm_history := update_history m (wm_history w)\<rparr>))"

definition unparsable_mark :: string where
  "unparsable_mark = ''Could not parse LLM output: `''"

text \<open>What the model said although it broke the format is taken from the text of the exception.\<close>

definition agent_answer :: "('e, 's, 'q) env \<Rightarrow> (agent_output, ('e, 's, 'q) cat) act" where
  "agent_answer E =
     catching (run_main_agent E) (\<lambda>e.
       if contains unparsable_mark (e_exc_str E e)
       then ret (empty_output\<lparr>ao_output := Some (replace_all ''`'' [] (replace_all unparsable_mark [] (e_exc_str E e)))\<rparr>)
       else raise e)"

datatype reply = ReplyMessage message | ReplyError string string

text \<open>From the agent's output to the answer that is put into the history.\<close>

definition finish_turn :: "('e, 's, 'q) env \<Rightarrow> agent_output \<Rightarrow> (reply, ('e, 's, 'q) cat) act" where
  "finish_turn E out =
     bnd (gets (\<lambda>c. case wm_user_message_json (wm c) of None \<Rightarrow> None | Some m \<Rightarrow> m_text m)) (\<lambda>text.
     bnd (store_user_message_in_episodic_memory E text) (\<lambda>_.
     bnd build_why (\<lambda>why.
     bnd (gets (\<lambda>c. cat_message (c_user_id c) (text_str (ao_output out)) (Some (why\<lparr>why_steps := ao_steps out, why_output := Some out\<rparr>)) (c_now c))) (\<lambda>m.
     bnd (hook E ''before_cat_sends_message'' (TMessage m)) (\<lambda>final.
       case final of
         TMessage m \<Rightarrow> bnd (put_history m) (\<lambda>_. ret (ReplyMessage m))
       | _ \<Rightarrow> raise ValidationError)))))"

definition recall_error :: reply where
  "recall_error = ReplyError ''VectorMemoryError'' ''An error occurred while recalling relevant memories.''"

text \<open>
  The turn once no hook has replied at once.  The working memory validates what the hook returns: a dictionary is turned into a
  user message.
\<close>

definition as_user_message :: "('e, 's) tea \<Rightarrow> int \<Rightarrow> message result" where
  "as_user_message v now =
     (case v of
        TMessage m \<Rightarrow> if m_role m = Human then Inr m else Inl ValidationError
      | TDict d \<Rightarrow> user_message d now
      | _ \<Rightarrow> Inl ValidationError)"

definition full_turn :: "('e, 's, 'q) env \<Rightarrow> (reply, ('e, 's, 'q) cat) act" where
  "full_turn E =
     bnd (gets (\<lambda>c. case wm_user_message_json (wm c) of None \<Rightarrow> TNone | Some m \<Rightarrow> TMessage m)) (\<lambda>message.
     bnd (hook E ''before_cat_reads_message'' message) (\<lambda>v.
     bnd (gets (\<lambda>c. as_user_message v (c_now c))) (\<lambda>r. bnd (lift_result r) (\<lambda>m.
     bnd (modify (set_wm (\<lambda>w. w\<lparr>wm_user_message_json := Some m\<rparr>))) (\<lambda>_.
     bnd (put_history m) (\<lambda>_.
     bnd (catching (bnd (recall_relevant_memories_to_working_memory E None) (\<lambda>_. ret True)) (\<lambda>_. ret False)) (\<lambda>recalled.
       if \<not> recalled then ret recall_error
       else bnd (agent_answer E) (finish_turn E))))))))"

definition cat_call :: "('e, 's, 'q) env \<Rightarrow> metadata \<Rightarrow> (reply, ('e, 's, 'q) cat) act" where
  "cat_call E message_dict =
     bnd (gets (\<lambda>c. user_message (dict_set ''user_id'' (PStr (c_user_id c)) message_dict) (c_now c))) (\<lambda>r.
     bnd (lift_result r) (\<lambda>message.
     bnd (modify (set_wm (\<lambda>w. w\<lparr>wm_interactions := [], wm_user_message_json := Some message\<rparr>))) (\<lambda>_.
     bnd (hook E ''fast_reply'' (TDict [])) (\<lambda>fast.
     bnd (gets (\<lambda>c. (c_user_id c, c_now c))) (\<lambda>(u, now).
       case fast of
         TMessage m \<Rightarrow> if m_role m = AI then ret (ReplyMessage m) else full_turn E
       | TDict d \<Rightarrow>
           (case dict_get d ''output'' of
              Some v \<Rightarrow> ret (ReplyMessage (cat_message u (py_str v) None now))
            | None \<Rightarrow> full_turn E)
       | _ \<Rightarrow> full_turn E)))))"


section \<open>Running a turn\<close>

text \<open>\<open>send_chat_message\<close> of a text or of what the turn returned; a dictionary has no \<open>model_dump\<close>.\<close>

datatype chat = ChatText string | ChatReply reply

definition send_chat_message :: "('e, 's, 'q) env \<Rightarrow> chat \<Rightarrow> bool \<Rightarrow> (unit, ('e, 's, 'q) cat) act" where
  "send_chat_message E chat save =
     (case chat of
        ChatText t \<Rightarrow>
          bnd build_why (\<lambda>why.
          bnd (gets (\<lambda>c. cat_message (c_user_id c) t (Some why) (c_now c))) (\<lambda>m.
          bnd (if save then put_history m else ret ()) (\<lambda>_.
          send_ws_json E (WsChat m))))
      | ChatReply (ReplyMessage m) \<Rightarrow> bnd (if save then put_history m else ret ()) (\<lambda>_. send_ws_json E (WsChat m))
      | ChatReply (ReplyError _ _) \<Rightarrow> raise (if save then ValidationError else AttributeError ''model_dump''))"

datatype response = Answer reply | ErrorText string | Nothing

definition closed_ok :: py_exc where
  "closed_ok = Exception ''ConnectionClosedOK''"

definition run_turn :: "('e, 's, 'q) env \<Rightarrow> metadata \<Rightarrow> bool \<Rightarrow> (response, ('e, 's, 'q) cat) act" where
  "run_turn E user_message_json return_message =
     catching
       (bnd (cat_call E user_message_json) (\<lambda>cat_message.
        bnd (modify update_working_memory_cache) (\<lambda>_.
          if return_message then ret (Answer cat_message)
          else bnd (send_chat_message E (ChatReply cat_message) False) (\<lambda>_. ret Nothing))))
       (\<lambda>e.
          if return_message then ret (ErrorText (e_exc_str E e))
          else catching (bnd (send_error E (Inr e)) (\<lambda>_. ret Nothing)) (\<lambda>ex. if ex = closed_ok then ret Nothing else raise ex))"


section \<open>Endpoints\<close>

text \<open>
  \<open>POST /message\<close> for an admitted user: a session is made, used, and saved.  The declared response is a message of the
  cat, so the dictionaries that report an error make the server reply 500, and the session is then not saved here.
\<close>

definition message_with_cat :: "('e, 's, 'q) env \<Rightarrow> string \<Rightarrow> metadata \<Rightarrow> (message, ('e, 's, 'q) cat) act" where
  "message_with_cat E u payload = (\<lambda>c.
     case run_turn E (dict_merge [(''user_id'', PStr u)] payload) True (stray_cat u c) of
       (Inr (Answer (ReplyMessage m)), c) \<Rightarrow> (Inr m, update_working_memory_cache c)
     | (Inr _, c) \<Rightarrow> (Inl (HTTPException 500), c)
     | (Inl e, c) \<Rightarrow> (Inl e, c))"

text \<open>
  A socket: the endpoint is entered, each message is handled after the working memory was loaded again, and at the end the
  connection is removed and the session saved.  The session of the socket is its user and the address of its working memory.
\<close>

definition websocket_enter :: "string \<Rightarrow> nat \<Rightarrow> ('e, 's, 'q) cat \<Rightarrow> ('e, 's, 'q) cat" where
  "websocket_enter u ws c = add_connection u ws (stray_cat u c)"

definition handle_message :: "('e, 's, 'q) env \<Rightarrow> metadata \<Rightarrow> (response, ('e, 's, 'q) cat) act" where
  "handle_message E payload = (\<lambda>c. run_turn E payload False (load_working_memory_from_cache c))"

definition websocket_leave :: "string \<Rightarrow> nat \<Rightarrow> ('e, 's, 'q) cat \<Rightarrow> ('e, 's, 'q) cat" where
  "websocket_leave u a c = update_working_memory_cache (remove_connection u (in_session u a c))"



section \<open>Classification\<close>

datatype labels = LabelNames "string list" | LabelExamples "(string \<times> string list) list"

fun label_names :: "labels \<Rightarrow> string list" where
  "label_names (LabelNames ls) = ls"
| "label_names (LabelExamples d) = map fst d"

fun examples_list :: "labels \<Rightarrow> string" where
  "examples_list (LabelNames ls) = []"
| "examples_list (LabelExamples d) =
     nl @ nl @ ''Examples:'' @
     concat (map (\<lambda>(label, examples). concat (map (\<lambda>ex. nl @ dq @ ex @ dq @ '' -> '' @ dq @ label @ dq) examples)) d)"

definition classify_prompt :: "string \<Rightarrow> labels \<Rightarrow> string" where
  "classify_prompt sentence labels =
     ''Classify this sentence:'' @ nl @ dq @ sentence @ dq @ nl @ nl @ ''Allowed classes are:'' @ nl @
     dq @ join_with (dq @ '', '' @ dq) (label_names labels) @ dq @ examples_list labels @ nl @ nl @ dq @ sentence @ dq @ '' -> ''"

text \<open>\<open>min\<close> with a key: the first of the least.\<close>

fun closest :: "('a \<Rightarrow> 'd::linorder) \<Rightarrow> 'a \<Rightarrow> 'a list \<Rightarrow> 'a" where
  "closest f best [] = best"
| "closest f best (x # xs) = closest f (if f x < f best then x else best) xs"

definition classify ::
  "('e, 's, 'q) env \<Rightarrow> (string \<Rightarrow> string \<Rightarrow> 'd::linorder) \<Rightarrow> string \<Rightarrow> labels \<Rightarrow> 'd \<Rightarrow> (string option, ('e, 's, 'q) cat) act" where
  "classify E levenshtein_distance sentence labels score_threshold =
     bnd (e_llm E (PlainPrompt (classify_prompt sentence labels))) (\<lambda>response.
       case label_names labels of
         [] \<Rightarrow> raise (ValueError ''min() iterable argument is empty'')
       | l # ls \<Rightarrow>
           (let best_label = closest (levenshtein_distance response) l ls
            in ret (if levenshtein_distance response best_label < score_threshold then Some best_label else None)))"

section \<open>Lemmas\<close>

lemma bnd_InrE:
  assumes "bnd m f c = (Inr y, c')"
  obtains x c1 where "m c = (Inr x, c1)" "f x c1 = (Inr y, c')"
  using assms by (auto simp: bnd_def split: prod.splits sum.splits)

lemma catching_flag:
  assumes "catching (bnd m (\<lambda>_. ret True)) (\<lambda>_. ret False) c = (Inr b, c')"
  shows "\<exists>r. m c = (r, c') \<and> (b \<longleftrightarrow> (\<exists>x. r = Inr x))"
  using assms by (cases "m c"; cases "fst (m c)") (auto simp: catching_def bnd_def ret_def)

lemma keeps_case_tea [keep]:
  assumes "\<And>r. keeps f (g r)" "keeps f m"
  shows "keeps f (case v of TConfig r \<Rightarrow> g r | _ \<Rightarrow> m)"
  using assms by (cases v) simp_all

lemma keeps_recall_into [keep]:
  assumes "\<And>ms w. wm_history (put ms w) = wm_history w" and "\<And>ms w. wm_user_message_json (put ms w) = wm_user_message_json w"
  shows "keeps talk (recall_into E n cfg put)"
  unfolding recall_into_def by (rule keep talk_set_wm assms)+

lemma keeps_recall [keep]:
  assumes "calm E"
  shows "keeps talk (recall_relevant_memories_to_working_memory E query)"
  unfolding recall_relevant_memories_to_working_memory_def recall_query_def embed_recall_query_def
  by (rule keep assms talk_set_wm | simp)+

lemma keeps_agent_answer [keep]: "calm E \<Longrightarrow> keeps talk (agent_answer E)"
  unfolding agent_answer_def by (rule keep | assumption)+

lemma keeps_build_why [keep]: "keeps f build_why"
  unfolding build_why_def by (rule keep)+

lemma talk_fields:
  assumes "talk c = (u, a, b, h, um, db, n, now, ca)"
  shows "c_user_id c = u" "wm_history (wm c) = h" "wm_user_message_json (wm c) = um" "c_db c = db" "c_points_made c = n" "c_now c = now"
    "c_cache c = ca" "c_wm c = a" "(c_wm c < length (c_heap c)) = b"
  using assms unfolding talk_def by blast+

lemma talk_user_message:
  assumes "talk c = (u, a, True, h, um, db, n, now, ca)"
  shows "talk (set_wm (\<lambda>w. w\<lparr>wm_user_message_json := Some m\<rparr>) c) = (u, a, True, h, Some m, db, n, now, ca)"
    and "talk (set_wm (\<lambda>w. w\<lparr>wm_interactions := [], wm_user_message_json := Some m\<rparr>) c) = (u, a, True, h, Some m, db, n, now, ca)"
    and "talk (set_wm (\<lambda>w. w\<lparr>wm_history := update_history m (wm_history w)\<rparr>) c) = (u, a, True, update_history m h, um, db, n, now, ca)"
  using assms by (auto simp: talk_def set_wm_def)

definition stored :: "('e, 's, 'q) env \<Rightarrow> string \<Rightarrow> 'e \<Rightarrow> metadata \<Rightarrow> nat \<Rightarrow> 'q \<Rightarrow> 'q" where
  "stored E content v md n db = snd (add_point (e_qdrant E) ''episodic'' content v md None (e_uuid E n) db)"

lemma finish_turn_outcome:
  assumes "calm E" and "talk c = (u, a, True, h, Some m, db, n, now, ca)" and "finish_turn E out c = (Inr r, c')"
  shows "\<exists>t v ci cj content md ck cl why ans.
    m_text m = Some t \<and> e_embed E t = Inr v \<and>
    hook E ''before_cat_stores_episodic_memory'' (TDoc (t, [(''source'', PStr u), (''when'', PInt now)])) ci = (Inr (TDoc (content, md)), cj) \<and>
    hook E ''before_cat_sends_message'' (TMessage (cat_message u (text_str (ao_output out)) (Some why) now)) ck = (Inr (TMessage ans), cl) \<and>
    r = ReplyMessage ans \<and> talk c' = (u, a, True, update_history ans h, Some m, stored E content v md n db, Suc n, now, ca)"
proof -
  from assms(3) obtain c1 why c2 fin c3 where
    st: "store_user_message_in_episodic_memory E (m_text m) c = (Inr (), c1)" and
    w: "build_why c1 = (Inr why, c2)" and
    hk: "hook E ''before_cat_sends_message'' (TMessage (cat_message (c_user_id c2) (text_str (ao_output out))
           (Some (why\<lparr>why_steps := ao_steps out, why_output := Some out\<rparr>)) (c_now c2))) c2 = (Inr fin, c3)" and
    fin: "(case fin of TMessage m \<Rightarrow> bnd (put_history m) (\<lambda>_. ret (ReplyMessage m)) | _ \<Rightarrow> raise ValidationError) c3 = (Inr r, c')"
    unfolding finish_turn_def using assms(2) by (auto elim!: bnd_InrE simp: gets_def talk_def)
  from st obtain t v ci doc cj where t: "m_text m = Some t" and
    hd: "hook E ''before_cat_stores_episodic_memory'' (TDoc (t, [(''source'', PStr u), (''when'', PInt now)])) ci = (Inr doc, cj)" and ci: "ci = c" and
    v: "e_embed E t = Inr v" and
    d: "(case doc of TDoc (content, md) \<Rightarrow>
          modify (\<lambda>c. c\<lparr>c_db := snd (add_point (e_qdrant E) ''episodic'' content v md None (e_uuid E (c_points_made c)) (c_db c)),
                        c_points_made := Suc (c_points_made c)\<rparr>)
        | _ \<Rightarrow> raise (AttributeError ''page_content'')) cj = (Inr (), c1)"
    unfolding store_user_message_in_episodic_memory_def using assms(2)
    by (auto elim!: bnd_InrE simp: gets_def talk_def lift_result_def raise_def split: option.splits)
  have tj: "talk cj = (u, a, True, h, Some m, db, n, now, ca)" using keepsD [OF keeps_hooks(1) [OF assms(1)] hd] ci assms(2) by simp
  from d obtain content md where doc: "doc = TDoc (content, md)" and
    c1: "c1 = cj\<lparr>c_db := stored E content v md (c_points_made cj) (c_db cj), c_points_made := Suc (c_points_made cj)\<rparr>"
    by (cases doc) (auto simp: raise_def modify_def stored_def split: prod.splits)
  have t1: "talk c1 = (u, a, True, h, Some m, stored E content v md n db, Suc n, now, ca)" using tj unfolding c1 by (auto simp: talk_def)
  have t2: "talk c2 = talk c1" by (rule keepsD [OF keeps_build_why w])
  have t3: "talk c3 = talk c2" by (rule keepsD [OF keeps_hooks(1) [OF assms(1)] hk])
  have u2: "c_user_id c2 = u" "c_now c2 = now" using t1 t2 by (auto simp: talk_def)
  from fin obtain ans where ans: "fin = TMessage ans" "r = ReplyMessage ans" "c' = set_wm (\<lambda>w. w\<lparr>wm_history := update_history ans (wm_history w)\<rparr>) c3"
    by (cases fin) (auto simp: raise_def put_history_def modify_def ret_def bnd_def)
  have "talk c' = (u, a, True, update_history ans h, Some m, stored E content v md n db, Suc n, now, ca)"
    unfolding ans(3) by (rule talk_user_message(3)) (use t1 t2 t3 in simp)
  with t v hd hk ans doc u2 show ?thesis by blast
qed

text \<open>What a turn that returns has done to the conversation.\<close>

definition turn_done ::
  "('e, 's, 'q) env \<Rightarrow> string \<Rightarrow> int \<Rightarrow> message list \<Rightarrow> 'q \<Rightarrow> nat \<Rightarrow> message \<Rightarrow> reply \<Rightarrow> message list \<Rightarrow> 'q \<Rightarrow> bool" where
  "turn_done E u now h db n m r h' db' \<longleftrightarrow>
     (r = recall_error \<and> h' = update_history m h \<and> db' = db) \<or>
     (\<exists>t v ci cj content md ck cl text why ans.
        m_text m = Some t \<and> e_embed E t = Inr v \<and>
        hook E ''before_cat_stores_episodic_memory'' (TDoc (t, [(''source'', PStr u), (''when'', PInt now)])) ci = (Inr (TDoc (content, md)), cj) \<and>
        hook E ''before_cat_sends_message'' (TMessage (cat_message u text (Some why) now)) ck = (Inr (TMessage ans), cl) \<and>
        r = ReplyMessage ans \<and> h' = update_history ans (update_history m h) \<and> db' = stored E content v md n db)"

lemma full_turn_outcome:
  assumes "calm E" and "talk c = (u, a, True, h, Some m0, db, n, now, ca)" and "full_turn E c = (Inr r, c')"
  shows "\<exists>v cj m h' db'. hook E ''before_cat_reads_message'' (TMessage m0) c = (Inr v, cj) \<and> as_user_message v now = Inr m \<and>
    turn_done E u now h db n m r h' db' \<and> (\<exists>n'. talk c' = (u, a, True, h', Some m, db', n', now, ca))"
proof -
  note m0 = talk_fields(3) [OF assms(2)]
  from assms(3) obtain v c1 m c2 b c3 where
    hk: "hook E ''before_cat_reads_message'' (TMessage m0) c = (Inr v, c1)" and
    m: "as_user_message v (c_now c1) = Inr m" and
    c2: "c2 = set_wm (\<lambda>w. w\<lparr>wm_history := update_history m (wm_history w)\<rparr>) (set_wm (\<lambda>w. w\<lparr>wm_user_message_json := Some m\<rparr>) c1)" and
    rc: "catching (bnd (recall_relevant_memories_to_working_memory E None) (\<lambda>_. ret True)) (\<lambda>_. ret False) c2 = (Inr b, c3)" and
    fin: "(if \<not> b then ret recall_error else bnd (agent_answer E) (finish_turn E)) c3 = (Inr r, c')"
    unfolding full_turn_def
    by (auto elim!: bnd_InrE simp: gets_def m0 lift_result_def modify_def put_history_def)
  have t1: "talk c1 = (u, a, True, h, Some m0, db, n, now, ca)" using keepsD [OF keeps_hooks(1) [OF assms(1)] hk] assms(2) by simp
  then have now: "c_now c1 = now" by (rule talk_fields)
  have t2: "talk c2 = (u, a, True, update_history m h, Some m, db, n, now, ca)"
    unfolding c2 by (intro talk_user_message) (rule t1)
  obtain r0 where r0: "recall_relevant_memories_to_working_memory E None c2 = (r0, c3)" using catching_flag [OF rc] by blast
  have t3: "talk c3 = (u, a, True, update_history m h, Some m, db, n, now, ca)" using keepsD [OF keeps_recall [OF assms(1)] r0] t2 by simp
  show ?thesis
  proof (cases b)
    case False
    with fin have "r = recall_error" "c' = c3" by (simp_all add: ret_def)
    with hk m now t3 show ?thesis unfolding turn_done_def by blast
  next
    case True
    with fin obtain out c4 where ag: "agent_answer E c3 = (Inr out, c4)" and ft: "finish_turn E out c4 = (Inr r, c')"
      by (auto elim!: bnd_InrE)
    have "talk c4 = (u, a, True, update_history m h, Some m, db, n, now, ca)"
      using keepsD [OF keeps_agent_answer [OF assms(1)] ag] t3 by simp
    from finish_turn_outcome [OF assms(1) this ft] obtain t v2 ci cj content md ck cl why ans where
      o1: "m_text m = Some t" "e_embed E t = Inr v2"
      "hook E ''before_cat_stores_episodic_memory'' (TDoc (t, [(''source'', PStr u), (''when'', PInt now)])) ci = (Inr (TDoc (content, md)), cj)"
      "hook E ''before_cat_sends_message'' (TMessage (cat_message u (text_str (ao_output out)) (Some why) now)) ck = (Inr (TMessage ans), cl)"
      "r = ReplyMessage ans" and
      o2: "talk c' = (u, a, True, update_history ans (update_history m h), Some m, stored E content v2 md n db, Suc n, now, ca)"
      by (elim exE conjE) (rule that; assumption)
    from o1 have "turn_done E u now h db n m r (update_history ans (update_history m h)) (stored E content v2 md n db)"
      unfolding turn_done_def by blast
    with hk m now o2 show ?thesis by blast
  qed
qed


text \<open>The answer that a value of the hook \<open>fast_reply\<close> is, when it is one.\<close>

definition fast_answer :: "string \<Rightarrow> int \<Rightarrow> ('e, 's) tea \<Rightarrow> message option" where
  "fast_answer u now fast =
     (case fast of
        TMessage m \<Rightarrow> if m_role m = AI then Some m else None
      | TDict d \<Rightarrow> map_option (\<lambda>v. cat_message u (py_str v) None now) (dict_get d ''output'')
      | _ \<Rightarrow> None)"

lemma cat_call_cases:
  assumes "calm E" and "talk c = (u, a, True, h, um, db, n, now, ca)" and "cat_call E d c = (Inr r, c')"
  obtains m0 fast c2 where "user_message (dict_set ''user_id'' (PStr u) d) now = Inr m0"
    "hook E ''fast_reply'' (TDict []) (set_wm (\<lambda>w. w\<lparr>wm_interactions := [], wm_user_message_json := Some m0\<rparr>) c) = (Inr fast, c2)"
    "talk c2 = (u, a, True, h, Some m0, db, n, now, ca)"
    "case fast_answer u now fast of Some f \<Rightarrow> r = ReplyMessage f \<and> c' = c2 | None \<Rightarrow> full_turn E c2 = (Inr r, c')"
proof -
  note eqs = talk_fields [OF assms(2)]
  from assms(3) obtain m0 c1 fast c2 where
    m0: "user_message (dict_set ''user_id'' (PStr u) d) now = Inr m0" and
    c1: "c1 = set_wm (\<lambda>w. w\<lparr>wm_interactions := [], wm_user_message_json := Some m0\<rparr>) c" and
    hk: "hook E ''fast_reply'' (TDict []) c1 = (Inr fast, c2)" and
    fin: "(case fast of
         TMessage m \<Rightarrow> if m_role m = AI then ret (ReplyMessage m) else full_turn E
       | TDict d \<Rightarrow> (case dict_get d ''output'' of Some v \<Rightarrow> ret (ReplyMessage (cat_message (c_user_id c2) (py_str v) None (c_now c2))) | None \<Rightarrow> full_turn E)
       | _ \<Rightarrow> full_turn E) c2 = (Inr r, c')"
    unfolding cat_call_def by (auto elim!: bnd_InrE simp: gets_def lift_result_def modify_def eqs(1,6))
  have t1: "talk c1 = (u, a, True, h, Some m0, db, n, now, ca)" unfolding c1 by (rule talk_user_message(2) [OF assms(2)])
  have t2: "talk c2 = (u, a, True, h, Some m0, db, n, now, ca)" using keepsD [OF keeps_hooks(1) [OF assms(1)] hk] t1 by simp
  have "case fast_answer u now fast of Some f \<Rightarrow> r = ReplyMessage f \<and> c' = c2 | None \<Rightarrow> full_turn E c2 = (Inr r, c')"
    using fin talk_fields(1,6) [OF t2]
    by (cases fast) (auto simp: fast_answer_def ret_def split: if_splits option.splits)
  from that [OF m0 hk [unfolded c1] t2 this] show ?thesis .
qed





definition demo_payload :: metadata where
  "demo_payload = [(''user_id'', PStr ''mallory''), (''text'', PStr ''hello'')]"

text \<open>A tokenizer that refuses the message, as it does for text that spells one of its special tokens, makes the recall fail.\<close>

definition refusing_env :: "(nat, unit, mem_db) env" where
  "refusing_env = demo_env\<lparr>e_tokens := (\<lambda>_. Inl (ValueError ''special token''))\<rparr>"





section \<open>Sessions and sockets\<close>

lemma cache_ready_insert:
  assumes "cache_ready now k cache"
  shows "cache_ready now k (cache_insert (new_cache_item now k v ttl) cache)"
proof (cases cache)
  case (InMemoryCache c)
  let ?it = "new_cache_item now k v ttl"
  from assms InMemoryCache have inv: "imc_invar c" and old: "\<forall>(j, other) \<in> set (imc_items c). j \<noteq> k \<longrightarrow> ci_created_at other < now"
    by (simp_all add: cache_ready_def)
  have "ci_created_at other < now" if "(j, other) \<in> set (imc_items (imc_insert ?it c))" "j \<noteq> k" for j other
    using imc_insert_items(3) [OF inv, of ?it] that dict_set_mem [of j other k ?it "imc_items c"] old by (auto simp: new_cache_item_def)
  with imc_invar_insert [OF inv] InMemoryCache show ?thesis by (auto simp: cache_ready_def)
next
  case (FileSystemCache c)
  with assms show ?thesis by (simp add: cache_ready_def)
qed

lemma talk_update_cache:
  assumes "talk c = (u, a, b, h, um, db, n, now, ca)"
  shows "talk (update_working_memory_cache c) =
    (u, a, b, h, um, db, n, now, cache_insert (new_cache_item now (wm_key u) (cached_value c) (Some (- 1))) ca)"
  using assms by (auto simp: talk_def update_working_memory_cache_def)

lemma run_turn_answer:
  assumes "run_turn E d True c = (Inr (Answer r), c')"
  obtains c1 where "cat_call E d c = (Inr r, c1)" "c' = update_working_memory_cache c1"
proof -
  from assms obtain m c1 where "cat_call E d c = (Inr m, c1)" "Answer m = Answer r" "c' = update_working_memory_cache c1"
    by (auto simp: run_turn_def catching_def bnd_def modify_def ret_def split: prod.splits sum.splits)
  with that show ?thesis by simp
qed

text \<open>The session is saved twice, by \<open>run\<close> and when the endpoint is over; the next one loads it.\<close>

lemma saved_twice:
  assumes "talk c = (u, a, True, h, um, db, n, now, ca)" and "cache_ready now (wm_key u) ca"
  shows "wm (stray_cat u (update_working_memory_cache (update_working_memory_cache c))) = wm c"
proof -
  let ?c = "update_working_memory_cache c"
  have t: "talk ?c = (u, a, True, h, um, db, n, now, cache_insert (new_cache_item now (wm_key u) (cached_value c) (Some (- 1))) ca)"
    by (rule talk_update_cache [OF assms(1)])
  note f = talk_fields [OF t]
  have "cache_ready (c_now ?c) (wm_key (c_user_id ?c)) (c_cache ?c)" unfolding f by (rule cache_ready_insert [OF assms(2)])
  from saved_is_loaded(1) [OF this] f(9) have "wm (stray_cat u (update_working_memory_cache ?c)) = wm ?c" unfolding f(1) by simp
  then show ?thesis by (simp add: update_working_memory_cache_def)
qed

text \<open>
  C18. Conversations continue over requests, for plugins and a language model that do not rewrite the conversation on their own
  (\<open>calm\<close>) and a cache that can take the user's working memory: in memory, nothing of another user is as young as now; on
  disk, the user's name has no slash, so that the file of the cache folder itself is meant, and can be written.
  When a request to the message endpoint is answered, the answer is that of the turn, and the next session of the user starts with the very working memory
  the turn ended with.  Which history that is depends on the hook \<open>fast_reply\<close>, run on the session with the new message set:
  if what it returns is an answer, that is the answer and the history is the one before the request; if not, the history is the one before
  the request extended by the message, as the hook \<open>before_cat_reads_message\<close> left it, and by the answer that was returned, cut to the last twenty.
\<close>
theorem session_survives:
  assumes "calm E" and "c0 = stray_cat u c" and "c_wm c0 < length (c_heap c0)" and "cache_ready (c_now c0) (wm_key u) (c_cache c0)"
    and "message_with_cat E u payload c = (Inr answer, c')"
  shows "\<exists>m0 fast cj c1.
    user_message (dict_set ''user_id'' (PStr u) (dict_merge [(''user_id'', PStr u)] payload)) (c_now c0) = Inr m0 \<and>
    hook E ''fast_reply'' (TDict []) (set_wm (\<lambda>w. w\<lparr>wm_interactions := [], wm_user_message_json := Some m0\<rparr>) c0) = (Inr fast, cj) \<and>
    cat_call E (dict_merge [(''user_id'', PStr u)] payload) c0 = (Inr (ReplyMessage answer), c1) \<and>
    wm (stray_cat u c') = wm c1 \<and>
    (case fast_answer u (c_now c0) fast of
       Some f \<Rightarrow> answer = f \<and> wm_history (wm (stray_cat u c')) = wm_history (wm c0)
     | None \<Rightarrow>
         \<exists>v ck m. hook E ''before_cat_reads_message'' (TMessage m0) cj = (Inr v, ck) \<and> as_user_message v (c_now c0) = Inr m \<and>
           wm_history (wm (stray_cat u c')) = update_history answer (update_history m (wm_history (wm c0))))"
proof -
  let ?d = "dict_merge [(''user_id'', PStr u)] payload"
  have u0: "c_user_id c0 = u" by (simp add: assms(2) stray_cat_def load_working_memory_from_cache_def split: prod.split option.split cached.split)
  from assms(5) obtain c2 where r: "run_turn E ?d True c0 = (Inr (Answer (ReplyMessage answer)), c2)" and c': "c' = update_working_memory_cache c2"
    unfolding message_with_cat_def assms(2) by (auto split: prod.splits sum.splits response.splits reply.splits)
  obtain c1 where cc: "cat_call E ?d c0 = (Inr (ReplyMessage answer), c1)" and c2: "c2 = update_working_memory_cache c1"
    by (rule run_turn_answer [OF r])
  have t0: "talk c0 = (u, c_wm c0, True, wm_history (wm c0), wm_user_message_json (wm c0), c_db c0, c_points_made c0, c_now c0, c_cache c0)"
    using assms(3) u0 by (simp add: talk_def)
  obtain m0 fast cj where m0: "user_message (dict_set ''user_id'' (PStr u) ?d) (c_now c0) = Inr m0" and
    hk: "hook E ''fast_reply'' (TDict []) (set_wm (\<lambda>w. w\<lparr>wm_interactions := [], wm_user_message_json := Some m0\<rparr>) c0) = (Inr fast, cj)" and
    tj: "talk cj = (u, c_wm c0, True, wm_history (wm c0), Some m0, c_db c0, c_points_made c0, c_now c0, c_cache c0)" and
    fin: "case fast_answer u (c_now c0) fast of Some f \<Rightarrow> ReplyMessage answer = ReplyMessage f \<and> c1 = cj
      | None \<Rightarrow> full_turn E cj = (Inr (ReplyMessage answer), c1)"
    by (rule cat_call_cases [OF assms(1) t0 cc])
  have loaded: "wm (stray_cat u c') = wm c1" if "talk c1 = (u, c_wm c0, True, h', um', db', n', c_now c0, c_cache c0)" for h' um' db' n'
    unfolding c' c2 by (rule saved_twice [OF that assms(4)])
  show ?thesis
  proof (cases "fast_answer u (c_now c0) fast")
    case None
    with fin have ft: "full_turn E cj = (Inr (ReplyMessage answer), c1)" by simp
    obtain v ck m h' db' n' where o: "hook E ''before_cat_reads_message'' (TMessage m0) cj = (Inr v, ck)" "as_user_message v (c_now c0) = Inr m"
      "turn_done E u (c_now c0) (wm_history (wm c0)) (c_db c0) (c_points_made c0) m (ReplyMessage answer) h' db'"
      "talk c1 = (u, c_wm c0, True, h', Some m, db', n', c_now c0, c_cache c0)"
      using full_turn_outcome [OF assms(1) tj ft] by (elim exE conjE) (rule that; assumption)
    have "h' = update_history answer (update_history m (wm_history (wm c0)))" using o(3) by (auto simp: turn_done_def recall_error_def)
    with o loaded [OF o(4)] talk_fields(2) [OF o(4)] m0 hk cc None show ?thesis by auto
  next
    case (Some f)
    with fin have f: "answer = f" "c1 = cj" by simp_all
    with Some loaded [of "wm_history (wm c0)"] tj talk_fields(2) [OF tj] m0 hk cc show ?thesis by auto
  qed
qed

text \<open>
  Closing a socket saves the working memory the socket's own session holds, whatever other sessions of the user saved since: the next
  session of that user starts with the socket's copy.
\<close>
theorem socket_close_overwrites:
  assumes "a < length (c_heap c)" and "cache_ready (c_now c) (wm_key u) (c_cache c)"
  shows "wm (stray_cat u (websocket_leave u a c)) = c_heap c ! a"
proof -
  let ?c = "remove_connection u (in_session u a c)"
  have f: "c_now ?c = c_now c" "c_user_id ?c = u" "c_cache ?c = c_cache c" "c_wm ?c = a" "c_heap ?c = c_heap c"
    by (simp_all add: remove_connection_def in_session_def)
  from saved_is_loaded(1) [of ?c] assms show ?thesis by (simp add: f websocket_leave_def)
qed

text \<open>
  A second socket of a user goes silent when the first one closes: after that the user has no connection, and what
  is sent to the user is dropped without an error.
\<close>
theorem second_socket_silenced:
  "case websocket_leave u a1 (websocket_enter u ws2 (websocket_enter u ws1 c)) of c' \<Rightarrow>
     get_connection u c' = None \<and> c_user_id c' = u \<and> send_ws_json E data c' = (Inr (), c')"
proof -
  let ?c = "in_session u a1 (websocket_enter u ws2 (websocket_enter u ws1 c))"
  have "get_connection u (update_working_memory_cache (remove_connection u ?c)) = None"
    by (simp add: get_connection_def remove_connection_def update_working_memory_cache_def) (simp add: map_of_eq_None_iff)
  moreover have "c_user_id (update_working_memory_cache (remove_connection u ?c)) = u"
    by (simp add: update_working_memory_cache_def remove_connection_def in_session_def)
  ultimately show ?thesis by (simp add: websocket_leave_def send_ws_json_def)
qed

text \<open>
  C25. Errors of a turn.  For the message endpoint \<open>run\<close> never raises: it returns the answer or the text of the exception.  On a
  socket it raises only what sending the error report itself raised.  A failed recall does not reach the socket as the error it is:
  the report is a dictionary, so the client is told of an \<open>AttributeError\<close> instead.
\<close>
theorem run_contains_errors:
  "(\<exists>r c'. run_turn E d True c = (Inr r, c')) \<and>
   (run_turn E d False c = (Inl e, c') \<longrightarrow> (\<exists>e' c1. send_error E (Inr e') c1 = (Inl e, c') \<and> e \<noteq> closed_ok)) \<and>
   (cat_call E d c = (Inr recall_error, c1) \<and> get_connection (c_user_id c1) c1 = Some ws \<and> e_socket E ws = None \<longrightarrow>
      (\<exists>c2. run_turn E d False c = (Inr Nothing, c2) \<and>
        c_sent c2 = c_sent c1 @ [(ws, WsError (e_exc_name E (AttributeError ''model_dump'')) (e_exc_str E (AttributeError ''model_dump'')))]))"
proof -
  have "\<exists>r c'. run_turn E d True c = (Inr r, c')"
    unfolding run_turn_def by (rule catching_returns) (simp add: ret_def)
  moreover have "\<exists>e' c1. send_error E (Inr e') c1 = (Inl e, c') \<and> e \<noteq> closed_ok" if "run_turn E d False c = (Inl e, c')"
    using that by (auto simp: run_turn_def catching_def bnd_def ret_def raise_def modify_def split: prod.splits sum.splits if_splits)
  moreover have "\<exists>c2. run_turn E d False c = (Inr Nothing, c2) \<and>
        c_sent c2 = c_sent c1 @ [(ws, WsError (e_exc_name E (AttributeError ''model_dump'')) (e_exc_str E (AttributeError ''model_dump'')))]"
    if "cat_call E d c = (Inr recall_error, c1)" "get_connection (c_user_id c1) c1 = Some ws" "e_socket E ws = None"
    using that
    by (simp add: run_turn_def catching_def bnd_def ret_def raise_def modify_def recall_error_def send_chat_message_def send_error_def
        send_ws_json_def get_connection_def update_working_memory_cache_def)
  ultimately show ?thesis by blast
qed

lemma closest_least: "closest f b xs \<in> set (b # xs) \<and> (\<forall>x \<in> set (b # xs). f (closest f b xs) \<le> f x)"
proof (induction xs arbitrary: b)
  case (Cons y ys)
  from Cons.IH [of "if f y < f b then y else b"] show ?case by (auto split: if_splits)
qed simp

text \<open>
  Classification.  When the model answers and there are labels, the result is a label at least distance to the answer if that
  distance is under the threshold, and none otherwise; without labels it raises.
\<close>
theorem classify_closest:
  assumes "e_llm E (PlainPrompt (classify_prompt sentence labels)) c = (Inr response, c')"
  shows "case classify E dist sentence labels threshold c of
     (Inr (Some l), c2) \<Rightarrow> c2 = c' \<and> l \<in> set (label_names labels) \<and> dist response l < threshold \<and> (\<forall>l' \<in> set (label_names labels). dist response l \<le> dist response l')
   | (Inr None, c2) \<Rightarrow> c2 = c' \<and> label_names labels \<noteq> [] \<and> (\<forall>l' \<in> set (label_names labels). threshold \<le> dist response l')
   | (Inl e, c2) \<Rightarrow> c2 = c' \<and> label_names labels = []"
proof (cases "label_names labels")
  case Nil
  with assms show ?thesis by (simp add: classify_def bnd_def raise_def)
next
  case (Cons l ls)
  from closest_least [of "dist response" l ls] Cons assms show ?thesis
    by (auto simp: classify_def bnd_def ret_def Let_def not_less intro: order_trans)
qed

text \<open>Concrete instances.\<close>

definition quick_hook :: "((nat, unit) tea, (nat, unit, mem_db) cat) cat_hook" where
  "quick_hook = \<lparr>h_name = ''agent_fast_reply'', h_plugin_id = ''core_plugin'', h_priority = 1,
     h_function = (\<lambda>args c. (Inr (Some (TOutput \<lparr>ao_output = Some ''meow'', ao_steps = [], ao_direct = False\<rparr>)), c))\<rparr>"

text \<open>A plugin answers in place of the agents; no other hook is implemented and nothing is remembered.\<close>

definition quick_hatter :: "((nat, unit) tea, (nat, unit, mem_db) cat) mad_hatter" where
  "quick_hatter =
     \<lparr>mh_disk = [], mh_plugins = [(''core_plugin'', new_plugin ''core_plugin'')],
      mh_hooks = [(''fast_reply'', []), (''before_cat_reads_message'', []), (''cat_recall_query'', []), (''before_cat_recalls_memories'', []),
       (''before_cat_recalls_episodic_memories'', []), (''before_cat_recalls_declarative_memories'', []),
       (''before_cat_recalls_procedural_memories'', []), (''after_cat_recalls_memories'', []), (''before_agent_starts'', []),
       (''agent_fast_reply'', [quick_hook]), (''before_cat_stores_episodic_memory'', []), (''before_cat_sends_message'', [])],
      mh_tools = [], mh_forms = [], mh_endpoints = [], mh_active = [''core_plugin''], mh_saved = None\<rparr>"

definition quick_env :: "(nat, unit, mem_db) env" where
  "quick_env =
     \<lparr>e_mad_hatter = quick_hatter, e_procedures = [], e_forms = (\<lambda>_. demo_form_class),
      e_qdrant = mem_qdrant\<lparr>q_query := (\<lambda>_ _ _ _ _ _. [])\<rparr>, e_embed = (\<lambda>t. Inr 0), e_threshold = (), e_llm = (\<lambda>p c. (Inr [], c)),
      e_tokens = (\<lambda>s. Inr 0), e_parser = (\<lambda>_. Inl IndexError), e_dumps = (\<lambda>_. []), e_input_variables = (\<lambda>_. Inr []),
      e_download = (\<lambda>_. Inr None), e_choice = hd, e_form_text = (\<lambda>_. []), e_uuid = (\<lambda>_. []),
      e_exc_str = (\<lambda>e. []), e_exc_name = (\<lambda>e. []), e_socket = (\<lambda>_. None)\<rparr>"


lemma quick_hooks:
  "hook quick_env ''fast_reply'' v c = (Inr v, c)" "hook quick_env ''before_cat_reads_message'' v c = (Inr v, c)"
  "hook quick_env ''cat_recall_query'' v c = (Inr v, c)" "hook0 quick_env ''before_cat_recalls_memories'' c = (Inr (), c)"
  "hook quick_env ''before_cat_recalls_episodic_memories'' v c = (Inr v, c)"
  "hook quick_env ''before_cat_recalls_declarative_memories'' v c = (Inr v, c)"
  "hook quick_env ''before_cat_recalls_procedural_memories'' v c = (Inr v, c)"
  "hook0 quick_env ''after_cat_recalls_memories'' c = (Inr (), c)"
  "hook quick_env ''before_agent_starts'' v c = (Inr v, c)"
  "hook quick_env ''agent_fast_reply'' v c = (Inr (TOutput \<lparr>ao_output = Some ''meow'', ao_steps = [], ao_direct = False\<rparr>), c)"
  "hook quick_env ''before_cat_stores_episodic_memory'' v c = (Inr v, c)"
  "hook quick_env ''before_cat_sends_message'' v c = (Inr v, c)"
  by (simp_all add: hook_def hook0_def execute_hook_def quick_env_def quick_hatter_def quick_hook_def plugin_exists_def)

lemma quick_calm: "calm quick_env"
  by (auto simp: calm_def quick_env_def quick_hatter_def quick_hook_def demo_form_class_def keeps_def)

lemma quick_fields: "e_embed quick_env t = Inr 0" "e_tokens quick_env t = Inr 0" "q_query (e_qdrant quick_env) = (\<lambda>_ _ _ _ _ _. [])"
  by (simp_all add: quick_env_def)


lemma quick_turn:
  assumes "c_wm c < length (c_heap c)" "wm_user_message_json (wm c) = Some m" "m_role m = Human" "m_text m = Some t"
  shows "case fst (full_turn quick_env c) of Inr (ReplyMessage a) \<Rightarrow> m_text a = Some ''meow'' | _ \<Rightarrow> False"
proof -
  have recall: "\<exists>c'. recall_relevant_memories_to_working_memory quick_env None d = (Inr (), c') \<and>
      c_wm c' < length (c_heap c') \<and> wm_user_message_json (wm c') = Some m \<and> wm_episodic (wm c') = [] \<and> wm_declarative (wm c') = []"
    if "c_wm d < length (c_heap d)" "wm_user_message_json (wm d) = Some m" for d
    using that assms(4)
    by (simp add: recall_relevant_memories_to_working_memory_def recall_query_def embed_recall_query_def recall_into_def
        recall_collection_def default_recall_config_def recall_memories_from_embedding_def
        tea_text_def bnd_def gets_def ret_def modify_def lift_result_def quick_hooks quick_fields set_wm_def)
  have agent: "\<exists>c'. agent_answer quick_env d = (Inr \<lparr>ao_output = Some ''meow'', ao_steps = [], ao_direct = False\<rparr>, c') \<and>
      c_wm c' < length (c_heap c') \<and> wm_user_message_json (wm c') = Some m"
    if "c_wm d < length (c_heap d)" "wm_user_message_json (wm d) = Some m" "wm_episodic (wm d) = []" "wm_declarative (wm d) = []" for d
    using that
    by (simp add: agent_answer_def catching_def run_main_agent_def format_agent_input_def
        agent_prompt_episodic_memories_def agent_prompt_declarative_memories_def
        bnd_def gets_def ret_def modify_def lift_result_def quick_hooks set_wm_def)
  have finish: "case fst (finish_turn quick_env \<lparr>ao_output = Some ''meow'', ao_steps = [], ao_direct = False\<rparr> d) of
      Inr (ReplyMessage a) \<Rightarrow> m_text a = Some ''meow'' | _ \<Rightarrow> False"
    if "c_wm d < length (c_heap d)" "wm_user_message_json (wm d) = Some m" for d
    using that assms(4)
    by (simp add: finish_turn_def store_user_message_in_episodic_memory_def build_why_def put_history_def cat_message_def
        text_str_def bnd_def gets_def ret_def modify_def lift_result_def quick_hooks quick_fields)
  let ?c = "set_wm (\<lambda>w. w\<lparr>wm_history := update_history m (wm_history w)\<rparr>) (set_wm (\<lambda>w. w\<lparr>wm_user_message_json := Some m\<rparr>) c)"
  have c: "c_wm ?c < length (c_heap ?c)" "wm_user_message_json (wm ?c) = Some m" using assms(1) by (simp_all add: set_wm_def)
  obtain c1 where c1: "recall_relevant_memories_to_working_memory quick_env None ?c = (Inr (), c1)"
    "c_wm c1 < length (c_heap c1)" "wm_user_message_json (wm c1) = Some m" "wm_episodic (wm c1) = []" "wm_declarative (wm c1) = []"
    using recall [OF c] by blast
  obtain c2 where c2: "agent_answer quick_env c1 = (Inr \<lparr>ao_output = Some ''meow'', ao_steps = [], ao_direct = False\<rparr>, c2)"
      "c_wm c2 < length (c_heap c2)" "wm_user_message_json (wm c2) = Some m"
    using agent [OF c1(2-5)] by blast
  have "full_turn quick_env c = finish_turn quick_env \<lparr>ao_output = Some ''meow'', ao_steps = [], ao_direct = False\<rparr> c2"
    using assms c1(1) c2(1)
    by (simp add: full_turn_def catching_def bnd_def gets_def ret_def modify_def lift_result_def quick_hooks as_user_message_def put_history_def)
  with finish [OF c2(2,3)] show ?thesis by simp
qed

lemma quick_answers:
  "\<exists>answer c'. message_with_cat quick_env ''bob'' demo_payload demo_cat = (Inr answer, c') \<and> m_text answer = Some ''meow''"
proof -
  let ?d = "dict_merge [(''user_id'', PStr ''bob'')] demo_payload" and ?c = "stray_cat ''bob'' demo_cat"
  have s: "c_wm ?c < length (c_heap ?c) \<and> c_user_id ?c = ''bob'' \<and> c_now ?c = 100" by code_simp
  have "case user_message (dict_set ''user_id'' (PStr ''bob'') ?d) 100 of
      Inr m \<Rightarrow> m_role m = Human \<and> m_text m = Some ''hello'' | Inl e \<Rightarrow> False" by code_simp
  then obtain m where m: "user_message (dict_set ''user_id'' (PStr ''bob'') ?d) 100 = Inr m" "m_role m = Human" "m_text m = Some ''hello''"
    by (auto split: sum.splits)
  let ?start = "set_wm (\<lambda>w. w\<lparr>wm_interactions := [], wm_user_message_json := Some m\<rparr>) ?c"
  have "cat_call quick_env ?d ?c = full_turn quick_env ?start"
    using s m by (simp add: cat_call_def bnd_def gets_def modify_def lift_result_def quick_hooks)
  moreover have "case fst (full_turn quick_env ?start) of Inr (ReplyMessage a) \<Rightarrow> m_text a = Some ''meow'' | _ \<Rightarrow> False"
    by (rule quick_turn [of _ m]) (use s m in \<open>simp_all add: set_wm_def\<close>)
  ultimately obtain a c1 where "cat_call quick_env ?d ?c = (Inr (ReplyMessage a), c1)" "m_text a = Some ''meow''"
    by (cases "full_turn quick_env ?start") (auto split: sum.splits reply.splits)
  then show ?thesis by (simp add: message_with_cat_def run_turn_def catching_def bnd_def modify_def ret_def)
qed
lemma demo_ready: "cache_ready (c_now (stray_cat ''bob'' demo_cat)) (wm_key ''bob'') (c_cache (stray_cat ''bob'' demo_cat))"
  by (simp add: stray_cat_def load_working_memory_from_cache_def demo_cat_def fsc_get_value_def fsc_get_item_def cache_ready_def
      plain_key_def wm_key_def split: option.split prod.split)

theorem session_survives_witness:
  "\<exists>answer c' m. message_with_cat quick_env ''bob'' demo_payload demo_cat = (Inr answer, c') \<and> m_text answer = Some ''meow'' \<and>
     wm_history (wm (stray_cat ''bob'' c')) = [m, answer]"
proof -
  let ?r = "message_with_cat quick_env ''bob'' demo_payload demo_cat"
  obtain answer where a: "fst ?r = Inr answer" "m_text answer = Some ''meow''" using quick_answers by auto
  then have r: "?r = (Inr answer, snd ?r)" by (metis prod.collapse)
  have w: "c_wm (stray_cat ''bob'' demo_cat) < length (c_heap (stray_cat ''bob'' demo_cat))"
    "wm_history (wm (stray_cat ''bob'' demo_cat)) = []"
    by code_simp+
  have h: "update_history y (update_history x []) = [x, y]" for x y
    by (simp add: update_history_def last_n_def MAX_WORKING_HISTORY_LENGTH_def)
  from session_survives [OF quick_calm refl w(1) demo_ready r] obtain m where
    "wm_history (wm (stray_cat ''bob'' (snd ?r))) = update_history answer (update_history m [])"
    unfolding quick_hooks w(2) by (auto simp: fast_answer_def)
  with a(2) r show ?thesis unfolding h by blast
qed

definition stale_cat :: "(nat, unit, mem_db) cat" where
  "stale_cat = update_working_memory_cache (in_session ''bob'' 1 (demo_cat\<lparr>c_heap :=
     [new_working_memory, new_working_memory\<lparr>wm_history := [cat_message ''bob'' ''new'' None 90]\<rparr>]\<rparr>))"

theorem socket_close_overwrites_witness:
  "wm_history (wm (stray_cat ''bob'' stale_cat)) = [cat_message ''bob'' ''new'' None 90] \<and>
   wm (stray_cat ''bob'' (websocket_leave ''bob'' 0 stale_cat)) = new_working_memory"
proof
  show "wm_history (wm (stray_cat ''bob'' stale_cat)) = [cat_message ''bob'' ''new'' None 90]" by code_simp
  have "0 < length (c_heap stale_cat)" "c_heap stale_cat ! 0 = new_working_memory" by code_simp+
  moreover have "cache_ready (c_now stale_cat) (wm_key ''bob'') (c_cache stale_cat)"
    by (simp add: stale_cat_def update_working_memory_cache_def in_session_def demo_cat_def cache_ready_def plain_key_def wm_key_def)
  ultimately show "wm (stray_cat ''bob'' (websocket_leave ''bob'' 0 stale_cat)) = new_working_memory"
    using socket_close_overwrites [of 0 stale_cat "''bob''"] by simp
qed

theorem run_contains_errors_witness:
  "\<exists>c2. run_turn refusing_env demo_payload False (demo_cat\<lparr>c_connections := [(''alice'', 4)]\<rparr>) = (Inr Nothing, c2) \<and>
     c_sent c2 = [(4, WsError ''AttributeError'' [])]"
proof -
  let ?c = "demo_cat\<lparr>c_connections := [(''alice'', 4)]\<rparr>"
  let ?r = "cat_call refusing_env demo_payload ?c"
  have "fst ?r = Inr recall_error \<and> get_connection (c_user_id (snd ?r)) (snd ?r) = Some 4 \<and> c_sent (snd ?r) = []" by code_simp
  then have r: "?r = (Inr recall_error, snd ?r)" "get_connection (c_user_id (snd ?r)) (snd ?r) = Some 4" "c_sent (snd ?r) = []"
    by (auto simp: prod_eq_iff)
  have s: "e_socket refusing_env 4 = None" "e_exc_name refusing_env (AttributeError ''model_dump'') = ''AttributeError''"
    "e_exc_str refusing_env (AttributeError ''model_dump'') = []"
    by (simp_all add: refusing_env_def demo_env_def)
  from run_contains_errors [of refusing_env demo_payload ?c _ _ "snd ?r" 4, THEN conjunct2, THEN conjunct2] r s show ?thesis by simp
qed

theorem classify_closest_witness:
  "case classify demo_env (\<lambda>a b. \<bar>int (length a) - int (length b)\<bar>) ''I feel good'' (LabelNames [''negative'', ''joy'']) 2 demo_cat of
     (Inr r, c2) \<Rightarrow> r = Some ''joy''
   | (Inl e, c2) \<Rightarrow> False"
proof -
  let ?r = "classify demo_env (\<lambda>a b. \<bar>int (length a) - int (length b)\<bar>) ''I feel good'' (LabelNames [''negative'', ''joy'']) 2 demo_cat"
  have "e_llm demo_env (PlainPrompt (classify_prompt ''I feel good'' (LabelNames [''negative'', ''joy'']))) demo_cat = (Inr ''meow'', demo_cat)"
    by (simp add: demo_env_def)
  from classify_closest [OF this, where dist = "\<lambda>a b. \<bar>int (length a) - int (length b)\<bar>" and threshold = 2] show ?thesis
    by (auto split: prod.splits sum.splits option.splits)
qed

end
