(* ===== verification/History_Routes.thy ===== *)
theory History_Routes
  imports Stray_Cat
begin

text \<open>
  The conversation history from outside the turn: the endpoints that read and wipe it (\<open>routes/memory/convo_history.py\<close>), the list of collections
  (\<open>routes/memory/collections.py\<close>), and the deprecated \<open>update_conversation_history\<close> of \<open>memory/working_memory.py\<close>.
  An endpoint gets the session of the authorised user and saves it when it has run, as the message endpoint does.
\<close>


section \<open>Endpoints\<close>

definition wipe_conversation_history :: "string \<Rightarrow> ('e, 's, 'q) cat \<Rightarrow> ('e, 's, 'q) cat" where
  "wipe_conversation_history u c = update_working_memory_cache (set_wm (\<lambda>w. w\<lparr>wm_history := []\<rparr>) (stray_cat u c))"

definition get_conversation_history :: "string \<Rightarrow> ('e, 's, 'q) cat \<Rightarrow> message list \<times> ('e, 's, 'q) cat" where
  "get_conversation_history u c = (let c = stray_cat u c in (wm_history (wm c), update_working_memory_cache c))"

text \<open>The number of points of each collection; \<open>points_count\<close> is what the database answers for a collection it has.\<close>

definition get_collections :: "(string \<Rightarrow> 'q \<Rightarrow> nat result) \<Rightarrow> 'q \<Rightarrow> (string \<times> nat) list result" where
  "get_collections points_count q =
     foldr (\<lambda>c r. case points_count c q of Inl e \<Rightarrow> Inl e | Inr n \<Rightarrow> map_sum id (\<lambda>ms. (c, n) # ms) r) memory_collections (Inr [])"


section \<open>The deprecated update\<close>

text \<open>
  \<open>why\<close> is None for its default, an empty dictionary, which is not a valid \<open>MessageWhy\<close>.  The message is appended
  without the bound that \<open>update_history\<close> keeps.
\<close>

definition update_conversation_history ::
  "string \<Rightarrow> string \<Rightarrow> why option \<Rightarrow> int \<Rightarrow> ('e, 's) working_memory \<Rightarrow> ('e, 's) working_memory result" where
  "update_conversation_history message who why now w =
     (case wm_user_message_json w of
        None \<Rightarrow> Inl (AttributeError ''user_id'')
      | Some m \<Rightarrow>
          if who = ''AI''
          then (case why of
                  None \<Rightarrow> Inl ValidationError
                | Some y \<Rightarrow> Inr (w\<lparr>wm_history := wm_history w @ [cat_message (m_user_id m) message (Some y) now]\<rparr>))
          else Inr (w\<lparr>wm_history := wm_history w @
                 [\<lparr>m_role = Human, m_user_id = m_user_id m, m_who = who, m_text = Some message, m_image = None, m_audio = None,
                   m_when = now, m_why = None\<rparr>]\<rparr>))"


section \<open>Lemmas\<close>

lemma stray_cat_heap: "a < length (c_heap c) \<Longrightarrow> c_heap (stray_cat u c) ! a = c_heap c ! a"
  by (simp add: stray_cat_def load_working_memory_from_cache_def nth_append split: prod.split option.split cached.split)

lemma stray_cat_grows: "length (c_heap c) \<le> length (c_heap (stray_cat u c))"
  by (simp add: stray_cat_def load_working_memory_from_cache_def split: prod.split option.split cached.split)

lemma stray_cat_user [simp]: "c_user_id (stray_cat u c) = u"
  by (simp add: stray_cat_def load_working_memory_from_cache_def split: prod.split option.split cached.split)

lemma leave_loads:
  assumes "a < length (c_heap c)" and "cache_ready (c_now c) (wm_key u) (c_cache c)"
  shows "wm (stray_cat u (websocket_leave u a c)) = c_heap c ! a"
proof -
  let ?c = "remove_connection u (in_session u a c)"
  have "c_now ?c = c_now c" "c_user_id ?c = u" "c_cache ?c = c_cache c" "c_wm ?c = a" "c_heap ?c = c_heap c"
    by (simp_all add: remove_connection_def in_session_def)
  then show ?thesis using saved_is_loaded(1) [of ?c] assms by (simp add: websocket_leave_def)
qed


section \<open>Properties\<close>

text \<open>
  C19. A wiped history.  After the endpoint, for either cache, the user's next session has no history and otherwise the working memory there was, and
  the reading endpoint answers with an empty list.  But a socket of the user that was open brings its history back when it closes, unless it
  shares the object the endpoint worked on, which is so only with the cache in memory.
\<close>
theorem history_wiped:
  assumes "c0 = stray_cat u c" and "c_wm c0 < length (c_heap c0)" and "cache_ready (c_now c0) (wm_key u) (c_cache c0)"
    and "c' = wipe_conversation_history u c"
  shows "wm (stray_cat u c') = (wm c0)\<lparr>wm_history := []\<rparr> \<and> fst (get_conversation_history u c') = [] \<and>
    (\<forall>a < length (c_heap c).
       wm_history (wm (stray_cat u (websocket_leave u a c'))) = (if a = c_wm c0 then [] else wm_history (c_heap c ! a)))"
proof -
  let ?c1 = "set_wm (\<lambda>w. w\<lparr>wm_history := []\<rparr>) c0"
  have c': "c' = update_working_memory_cache ?c1" by (simp add: assms(1,4) wipe_conversation_history_def)
  have f: "c_now ?c1 = c_now c0" "c_user_id ?c1 = u" "c_cache ?c1 = c_cache c0" "c_wm ?c1 = c_wm c0" "length (c_heap ?c1) = length (c_heap c0)"
    by (simp_all add: set_wm_def assms(1))
  have w: "wm ?c1 = (wm c0)\<lparr>wm_history := []\<rparr>" using assms(2) by (simp add: set_wm_def)
  have next_session: "wm (stray_cat u c') = (wm c0)\<lparr>wm_history := []\<rparr>"
  proof -
    have "wm (stray_cat u (update_working_memory_cache ?c1)) = wm ?c1"
      using saved_is_loaded(1) [of ?c1, unfolded f(1,2,3,5)] assms(2,3) f(4) by simp
    then show ?thesis unfolding w c' .
  qed
  have heap: "c_heap c' = (c_heap c0)[c_wm c0 := (wm c0)\<lparr>wm_history := []\<rparr>]" "c_now c' = c_now c0"
    by (simp_all add: c' update_working_memory_cache_def set_wm_def)
  have ready: "cache_ready (c_now c') (wm_key u) (c_cache c')"
    unfolding heap(2) c' update_working_memory_cache_def using cache_ready_insert [OF assms(3)] by (simp add: f)
  have "wm_history (wm (stray_cat u (websocket_leave u a c'))) = (if a = c_wm c0 then [] else wm_history (c_heap c ! a))"
    if a: "a < length (c_heap c)" for a
  proof -
    have a0: "a < length (c_heap c0)" using a stray_cat_grows [of c u] by (simp add: assms(1))
    then have "wm (stray_cat u (websocket_leave u a c')) = c_heap c' ! a" using leave_loads [OF _ ready] heap(1) by simp
    then show ?thesis using a0 stray_cat_heap [OF a, of u] by (simp add: heap(1) assms(1) nth_list_update)
  qed
  then show ?thesis using next_session by (simp add: get_conversation_history_def Let_def)
qed

text \<open>A user with one message wipes it, while a socket that read it earlier is open.\<close>

definition open_socket :: "(nat, unit, mem_db) cat" where
  "open_socket = websocket_enter ''bob'' 3 (update_working_memory_cache (in_session ''bob'' 0
     (demo_cat\<lparr>c_cache := FileSystemCache (fsc_init Map.empty ''/tmp''),
        c_heap := [new_working_memory\<lparr>wm_history := [cat_message ''bob'' ''hi'' None 90]\<rparr>]\<rparr>)))"

theorem history_wiped_witness:
  "wm_history (wm (stray_cat ''bob'' (wipe_conversation_history ''bob'' open_socket))) = [] \<and>
   wm_history (wm (stray_cat ''bob'' (websocket_leave ''bob'' 1 (wipe_conversation_history ''bob'' open_socket)))) =
     [cat_message ''bob'' ''hi'' None 90]"
proof -
  have w: "c_wm (stray_cat ''bob'' open_socket) < length (c_heap (stray_cat ''bob'' open_socket))" by code_simp
  have "case c_cache (stray_cat ''bob'' open_socket) of FileSystemCache _ \<Rightarrow> plain_key (wm_key ''bob'') | _ \<Rightarrow> False" by code_simp
  then have r: "cache_ready (c_now (stray_cat ''bob'' open_socket)) (wm_key ''bob'') (c_cache (stray_cat ''bob'' open_socket))"
    by (simp add: cache_ready_def split: cache.splits)
  have "1 < length (c_heap open_socket)" "1 \<noteq> c_wm (stray_cat ''bob'' open_socket)"
    "wm_history (c_heap open_socket ! 1) = [cat_message ''bob'' ''hi'' None 90]" by code_simp+
  with history_wiped [OF refl w r refl] show ?thesis by simp
qed

text \<open>The deprecated method: with its default for \<open>why\<close> it cannot record an answer, and its history has no bound.\<close>

lemma deprecated_update_unbounded:
  assumes "wm_user_message_json w = Some m" and "who \<noteq> ''AI''"
  shows "update_conversation_history s ''AI'' None now w = Inl ValidationError \<and>
    (\<exists>w'. update_conversation_history s who y now w = Inr w' \<and> length (wm_history w') = Suc (length (wm_history w)))"
  using assms by (simp add: update_conversation_history_def)

end
