(* ===== verification/Decorators.thy ===== *)
theory Decorators
  imports Py_Text
begin

text \<open>
  The decorators that turn functions and classes of a plugin into objects of the core (\<open>mad_hatter/decorators/tool.py\<close>, \<open>hook.py\<close>,
  \<open>plugin_decorator.py\<close>, \<open>experimental/form/form_decorator.py\<close>), the selection of such objects among the members of a module
  (\<open>mad_hatter/plugin.py\<close>) and the decorator \<open>singleton\<close> (\<open>utils.py\<close>).  Endpoints are in \<open>Endpoints\<close>; what the manager does
  with the objects is in \<open>Mad_Hatter\<close>.
\<close>


section \<open>Functions and objects\<close>

record py_function =
  fn_name :: string
  fn_doc :: "string option"
  fn_signature :: string

record cat_tool =
  tl_name :: string
  tl_func :: py_function
  tl_description :: string
  tl_return_direct :: bool
  tl_triggers_map :: "(string, string list) dict"
  tl_signature :: string

record cat_hook_object =
  hk_name :: string
  hk_func :: py_function
  hk_priority :: int

record cat_plugin_override =
  ov_name :: string
  ov_func :: py_function

text \<open>A class of the form library; \<open>cf_base\<close> marks \<open>CatForm\<close> itself.\<close>

record form_class_object =
  cf_class_name :: string
  cf_base :: bool
  cf_is_form :: bool
  cf_autopilot :: bool
  cf_name :: "string option"
  cf_description :: string
  cf_start_examples :: "string list"
  cf_triggers_map :: "(string, string list) dict option"


section \<open>Decorators\<close>

text \<open>A docstring that is missing or empty fails the assertion; its white space is stripped.\<close>

definition make_tool :: "bool \<Rightarrow> string list \<Rightarrow> string \<Rightarrow> py_function \<Rightarrow> cat_tool result" where
  "make_tool return_direct examples tool_name func =
     (case fn_doc func of
        Some (c # cs) \<Rightarrow>
          (let description = strip (c # cs)
           in Inr \<lparr>tl_name = tool_name, tl_func = func, tl_description = description, tl_return_direct = return_direct,
                   tl_triggers_map = [(''description'', [tool_name @ '': '' @ description]), (''start_example'', examples)],
                   tl_signature = replace_all '', cat)'' '')'' (fn_signature func)\<rparr>)
      | _ \<Rightarrow> Inl (Exception ''AssertionError''))"

definition make_hook :: "int \<Rightarrow> string \<Rightarrow> py_function \<Rightarrow> cat_hook_object result" where
  "make_hook priority hook_name func = Inr \<lparr>hk_name = hook_name, hk_func = func, hk_priority = priority\<rparr>"

text \<open>The positional arguments of a decorator, and what it returns: an object, or a decorator that waits for its function.\<close>

datatype decorator_arg = TextArg string | FunctionArg py_function | OtherArg

datatype 'o decorated = Decorated 'o | Waiting "py_function \<Rightarrow> 'o result"

definition decorate :: "(string \<Rightarrow> py_function \<Rightarrow> 'o result) \<Rightarrow> string \<Rightarrow> decorator_arg list \<Rightarrow> 'o decorated result" where
  "decorate mk kind args =
     (case args of
        [TextArg name] \<Rightarrow> Inr (Waiting (mk name))
      | [FunctionArg f] \<Rightarrow> map_sum id Decorated (mk (fn_name f) f)
      | [] \<Rightarrow> Inr (Waiting (\<lambda>f. mk (fn_name f) f))
      | _ \<Rightarrow> Inl (ValueError (''Too many arguments for '' @ kind @ '' decorator'')))"

definition tool_decorator :: "decorator_arg list \<Rightarrow> bool \<Rightarrow> string list \<Rightarrow> cat_tool decorated result" where
  "tool_decorator args return_direct examples = decorate (make_tool return_direct examples) ''tool'' args"

definition hook_decorator :: "decorator_arg list \<Rightarrow> int \<Rightarrow> cat_hook_object decorated result" where
  "hook_decorator args priority = decorate (make_hook priority) ''hook'' args"

definition plugin_decorator :: "py_function \<Rightarrow> cat_plugin_override" where
  "plugin_decorator f = \<lparr>ov_name = fn_name f, ov_func = f\<rparr>"

definition form_decorator :: "form_class_object \<Rightarrow> form_class_object" where
  "form_decorator F =
     (let name = (case cf_name F of None \<Rightarrow> cf_class_name F | Some n \<Rightarrow> n)
      in F\<lparr>cf_autopilot := True, cf_name := Some name,
           cf_triggers_map := Some (case cf_triggers_map F of
               None \<Rightarrow> [(''start_example'', cf_start_examples F), (''description'', [name @ '': '' @ cf_description F])]
             | Some m \<Rightarrow> m)\<rparr>)"


section \<open>Members of a module\<close>

text \<open>The members \<open>getmembers\<close> finds, sorted by name; all other values are left out.\<close>

datatype member =
    HookMember cat_hook_object
  | ToolMember cat_tool
  | FormMember form_class_object
  | OverrideMember cat_plugin_override
  | EndpointMember string
  | PlainMember

definition is_cat_form :: "member \<Rightarrow> bool" where
  "is_cat_form m = (case m of FormMember F \<Rightarrow> \<not> cf_base F \<and> cf_is_form F \<and> cf_autopilot F | _ \<Rightarrow> False)"

definition is_cat_hook :: "member \<Rightarrow> bool" where
  "is_cat_hook m = (case m of HookMember _ \<Rightarrow> True | _ \<Rightarrow> False)"

definition is_cat_tool :: "member \<Rightarrow> bool" where
  "is_cat_tool m = (case m of ToolMember _ \<Rightarrow> True | _ \<Rightarrow> False)"

definition is_cat_plugin_override :: "member \<Rightarrow> bool" where
  "is_cat_plugin_override m = (case m of OverrideMember _ \<Rightarrow> True | _ \<Rightarrow> False)"

definition is_custom_endpoint :: "member \<Rightarrow> bool" where
  "is_custom_endpoint m = (case m of EndpointMember _ \<Rightarrow> True | _ \<Rightarrow> False)"


section \<open>Singletons\<close>

text \<open>The instances by class; a call with a class that has one ignores its arguments, and one that raises stores nothing.\<close>

definition getinstance :: "('a \<Rightarrow> 'o result) \<Rightarrow> string \<Rightarrow> 'a \<Rightarrow> (string, 'o) dict \<Rightarrow> 'o result \<times> (string, 'o) dict" where
  "getinstance construct class_name args instances =
     (case dict_get instances class_name of
        Some i \<Rightarrow> (Inr i, instances)
      | None \<Rightarrow> (case construct args of Inl e \<Rightarrow> (Inl e, instances) | Inr i \<Rightarrow> (Inr i, dict_set class_name i instances)))"


section \<open>Lemmas\<close>

text \<open>The ways to write a decorator agree, and a module imports its own decorated forms but neither the base class nor undecorated ones.\<close>

lemma decorator_spellings:
  assumes "decorate mk kind [FunctionArg f] = Inr (Decorated obj)"
  shows "\<exists>d d'. decorate mk kind [] = Inr (Waiting d) \<and> d f = Inr obj \<and>
    decorate mk kind [TextArg (fn_name f)] = Inr (Waiting d') \<and> d' f = Inr obj"
proof -
  have "mk (fn_name f) f = Inr obj" using assms by (cases "mk (fn_name f) f") (simp_all add: decorate_def)
  then show ?thesis by (simp add: decorate_def)
qed

lemma decorated_form_found: "cf_is_form F \<Longrightarrow> \<not> cf_base F \<Longrightarrow> is_cat_form (FormMember (form_decorator F))"
  by (simp add: is_cat_form_def form_decorator_def Let_def)

lemma form_decorator_idempotent: "form_decorator (form_decorator F) = form_decorator F"
  by (cases F) (simp add: form_decorator_def Let_def split: option.split)

text \<open>Once there is an instance, every later call returns it, with any arguments and any constructor.\<close>

lemma singleton_instance:
  assumes "getinstance construct k args instances = (Inr i, instances')"
  shows "getinstance construct' k args' instances' = (Inr i, instances')"
  using assms by (auto simp: getinstance_def split: option.splits sum.splits)

end
