(* ===== verification/Snapshots.thy ===== *)
theory Snapshots
  imports Vector_Memory Environment
begin

text \<open>
  The dump of a collection before it is deleted: \<open>VectorMemoryCollection.save_dump\<close> and the test of the embedder with it
  (\<open>memory/vector_memory_collection.py\<close>).  The remote server keeps snapshots beside the collections; the local database has none.  Files are
  those of \<open>Environment\<close>, with the working directory as the root.
\<close>


section \<open>The remote server\<close>

text \<open>Scheme, host, port and the segments of the path.\<close>

type_synonym address = "string \<times> string \<times> nat \<times> string list"

record ('q, 'r) remote =
  rm_host :: string
  rm_port :: nat
  rm_create_snapshot :: "string \<Rightarrow> 'q \<Rightarrow> 'r \<Rightarrow> string result \<times> 'r"
  rm_list_snapshots :: "string \<Rightarrow> 'r \<Rightarrow> string list"
  rm_delete_snapshot :: "string \<Rightarrow> string \<Rightarrow> 'r \<Rightarrow> 'r"
  rm_get :: "address \<Rightarrow> 'r \<Rightarrow> string result"

definition snapshot_address :: "('q, 'r) remote \<Rightarrow> string \<Rightarrow> string \<Rightarrow> address" where
  "snapshot_address R c name = (''http'', rm_host R, rm_port R, [''collections'', c, ''snapshots'', name])"

text \<open>
  What the dump relies on: a snapshot is kept under its name until it is deleted, and the list of snapshots is complete.  The download goes over plain HTTP and
  carries no key, so only a server that is \<open>accessible\<close> that way, without TLS and without a key, answers with what the snapshot holds; from
  any other server the request returns whatever the server answers, as the code does not look at the status, or raises.
\<close>

definition remote_laws ::
  "('q, 'r) remote \<Rightarrow> ('q \<Rightarrow> string \<rightharpoonup> 'e collection) \<Rightarrow> ('r \<Rightarrow> string \<Rightarrow> string \<rightharpoonup> string) \<Rightarrow> (string \<Rightarrow> 'e collection \<Rightarrow> string) \<Rightarrow> bool \<Rightarrow> bool" where
  "remote_laws R view snaps dump accessible \<longleftrightarrow>
     (\<forall>q c k r name r'. view q c = Some k \<longrightarrow> rm_create_snapshot R c q r = (Inr name, r') \<longrightarrow>
        snaps r' = (snaps r)(c := (snaps r c)(name \<mapsto> dump c k))) \<and>
     (accessible \<longrightarrow> (\<forall>r c name x y. snaps r c name = Some x \<longrightarrow> rm_get R (snapshot_address R c name) r = Inr y \<longrightarrow> y = x)) \<and>
     (\<forall>r c. set (rm_list_snapshots R c r) = dom (snaps r c)) \<and>
     (\<forall>r c name. snaps (rm_delete_snapshot R c name r) = (snaps r)(c := (snaps r c)(name := None)))"


section \<open>Saving a dump\<close>

definition without_slash :: "string \<Rightarrow> string" where
  "without_slash p = (if p \<noteq> [] \<and> last p = CHR ''/'' then butlast p else p)"

text \<open>\<open>os.rename\<close> replaces a file of the new name.\<close>

definition rename_file :: "string \<Rightarrow> string \<Rightarrow> disk \<Rightarrow> disk option" where
  "rename_file old new d =
     (case dict_get (fs_files d) old of
        None \<Rightarrow> None
      | Some content \<Rightarrow> write_file new content (d\<lparr>fs_files := dict_del old (fs_files d)\<rparr>))"

definition dump_name :: "string \<Rightarrow> string \<Rightarrow> string" where
  "dump_name folder alias = folder @ replace_all ''/'' ''-'' alias @ ''.snapshot''"

text \<open>\<open>R\<close> is None for the local database.  What was done before an exception stays.\<close>

definition save_dump ::
  "('e, 's, 'q) qdrant \<Rightarrow> ('q, 'r) remote option \<Rightarrow> string \<Rightarrow> string \<Rightarrow> 'q \<Rightarrow> 'r \<times> disk \<Rightarrow> py_exc option \<times> 'r \<times> disk" where
  "save_dump Q R c folder q = (\<lambda>(r, d).
     (case R of
        None \<Rightarrow> (None, r, d)
      | Some R \<Rightarrow>
          (case (if without_slash folder \<in> set (fs_folders d) then Some d else make_folder (without_slash folder) d) of
             None \<Rightarrow> (Some (Exception ''OSError''), r, d)
           | Some d \<Rightarrow>
               (case rm_create_snapshot R c q r of
                  (Inl e, r) \<Rightarrow> (Some e, r, d)
                | (Inr name, r) \<Rightarrow>
                    (case q_aliases Q c q of
                       [] \<Rightarrow> (Some IndexError, r, d)
                     | alias # _ \<Rightarrow>
                         (case rm_get R (snapshot_address R c name) r of
                            Inl e \<Rightarrow> (Some e, r, d)
                          | Inr content \<Rightarrow>
                              (case write_file (folder @ name) content d of
                                 None \<Rightarrow> (Some (Exception ''OSError''), r, d)
                               | Some d \<Rightarrow>
                                   (case rename_file (folder @ name) (dump_name folder alias) d of
                                      None \<Rightarrow> (Some (Exception ''OSError''), r, d)
                                    | Some d \<Rightarrow> (None, fold (rm_delete_snapshot R c) (rm_list_snapshots R c r) r, d)))))))))"

text \<open>\<open>check_embedding_size\<close> with its dump: a collection of another embedder is saved if the environment asks for it, then made anew.\<close>

definition recreate_collection ::
  "environ \<Rightarrow> ('e, 's, 'q) qdrant \<Rightarrow> ('q, 'r) remote option \<Rightarrow> string \<Rightarrow> string \<Rightarrow> nat \<Rightarrow> 'q \<times> 'r \<times> disk \<Rightarrow> py_exc option \<times> 'q \<times> 'r \<times> disk" where
  "recreate_collection env Q R c embedder_name embedder_size = (\<lambda>(q, rd).
     (let same_size = (q_vector_size Q c q = embedder_size);
          existing_aliases = q_aliases Q c q
      in if existing_aliases \<noteq> [] \<and> embedder_name @ ''_'' @ c = hd existing_aliases \<and> same_size then (None, q, rd)
         else (case (if get_env env ''CCAT_SAVE_MEMORY_SNAPSHOTS'' = Some ''true'' then save_dump Q R c ''dormouse/'' q rd else (None, rd)) of
                 (Some e, rd) \<Rightarrow> (Some e, q, rd)
               | (None, rd) \<Rightarrow>
                   (case create_collection Q c embedder_name embedder_size (q_delete_collection Q c q) of (e, q) \<Rightarrow> (e, q, rd)))))"


section \<open>Lemmas\<close>

text \<open>A dump that raises nothing leaves the vectors to the rest of the test, so the memory ends as without one.\<close>

lemma recreate_refines:
  assumes "recreate_collection env Q R c name sz (q, rd) = (None, q', rd')"
  shows "check_embedding_size Q c name sz q = (None, q')"
  using assms by (auto simp: recreate_collection_def check_embedding_size_def Let_def split: if_splits prod.splits option.splits)

lemma without_snapshots:
  assumes "get_env env ''CCAT_SAVE_MEMORY_SNAPSHOTS'' \<noteq> Some ''true'' \<or> R = None"
  shows "recreate_collection env Q R c name sz (q, rd) = (case check_embedding_size Q c name sz q of (e, q') \<Rightarrow> (e, q', rd))"
  using assms by (auto simp: recreate_collection_def check_embedding_size_def save_dump_def Let_def split: prod.splits)

lemma fold_delete:
  assumes "\<And>r c n. snaps (del c n r) = (snaps r)(c := (snaps r c)(n := None))"
  shows "snaps (fold (del c) ns r) = (snaps r)(c := snaps r c |` (- set ns))"
proof (induction ns arbitrary: r)
  case (Cons n ns)
  have "((snaps r c)(n := None)) |` (- set ns) = snaps r c |` (- set (n # ns))" by (rule ext) (simp add: restrict_map_def)
  then show ?case by (simp only: fold_simps comp_def Cons assms fun_upd_upd fun_upd_same)
qed (simp add: restrict_map_def fun_eq_iff)

lemma rename_written:
  assumes "write_file p s d = Some d'" and "rename_file p p' d' = Some d''"
  shows "dict_get (fs_files d'') = (dict_get (fs_files d))(p := None, p' \<mapsto> s) \<and> fs_folders d'' = fs_folders d"
  using assms by (auto simp: rename_file_def write_file_def fun_eq_iff split: if_splits)

text \<open>
  A dump that raises nothing has written what the server answered for the snapshot into a file and removed the snapshots from the server.
\<close>

lemma save_dump_effect:
  assumes "remote_laws R view snaps dump accessible" and "view q c = Some k" and "q_aliases Q c q = co_aliases k"
    and "save_dump Q (Some R) c folder q (r, d) = (None, r', d')"
  obtains a as name r1 answer where "co_aliases k = a # as" "snaps r1 c name = Some (dump c k)"
    "rm_get R (snapshot_address R c name) r1 = Inr answer" "accessible \<longrightarrow> answer = dump c k" "snaps r' = (snaps r)(c := Map.empty)"
    "dict_get (fs_files d') = (dict_get (fs_files d))(folder @ name := None, dump_name folder a \<mapsto> answer)"
proof -
  note laws = assms(1)[unfolded remote_laws_def]
  obtain d1 name r1 a as x d2
    where d1: "(if without_slash folder \<in> set (fs_folders d) then Some d else make_folder (without_slash folder) d) = Some d1"
      and r1: "rm_create_snapshot R c q r = (Inr name, r1)" and a: "co_aliases k = a # as"
      and x: "rm_get R (snapshot_address R c name) r1 = Inr x"
      and d2: "write_file (folder @ name) x d1 = Some d2" and d3: "rename_file (folder @ name) (dump_name folder a) d2 = Some d'"
      and r': "r' = fold (rm_delete_snapshot R c) (rm_list_snapshots R c r1) r1"
    using assms(3,4) by (auto simp: save_dump_def split: option.splits prod.splits sum.splits list.splits)
  have s1: "snaps r1 = (snaps r)(c := (snaps r c)(name \<mapsto> dump c k))" using laws assms(2) r1 by blast
  then have kept: "snaps r1 c name = Some (dump c k)" by simp
  then have xk: "accessible \<longrightarrow> x = dump c k" using laws x by blast
  have "fs_files d1 = fs_files d" using d1 by (auto simp: make_folder_def split: if_splits)
  moreover note rename_written [OF d2 d3]
  ultimately have files: "dict_get (fs_files d') = (dict_get (fs_files d))(folder @ name := None, dump_name folder a \<mapsto> x)"
    by (simp only:)
  have "set (rm_list_snapshots R c r1) = dom (snaps r1 c)" using laws by blast
  moreover have "\<And>r c n. snaps (rm_delete_snapshot R c n r) = (snaps r)(c := (snaps r c)(n := None))" using laws by blast
  ultimately have "snaps r' = (snaps r1)(c := snaps r1 c |` (- dom (snaps r1 c)))"
    using fold_delete [of snaps "rm_delete_snapshot R" c "rm_list_snapshots R c r1" r1] by (simp add: r')
  moreover have "snaps r1 c |` (- dom (snaps r1 c)) = Map.empty" by (auto simp: restrict_map_def fun_eq_iff)
  ultimately have "snaps r' = (snaps r)(c := Map.empty)" by (simp only: s1 fun_upd_upd)
  with that a kept x xk files show ?thesis by blast
qed

lemma recreated_view:
  assumes "qdrant_laws Q view" and "create_collection Q c name sz (q_delete_collection Q c q) = (None, q')"
  shows "view q' = (view q)(c \<mapsto> fresh_collection name sz c)"
  using create_collection_view [OF assms(1) _ assms(2)] by (simp add: qlaws(6) [OF assms(1)] fun_eq_iff)


section \<open>Properties\<close>

text \<open>
  C33. What becomes of a collection of another embedder when snapshots are asked for.  With a remote server the test either raises and leaves the
  collection as it is, or the collection was made into a snapshot and a file named after the old embedder holds what the server answered when the snapshot was
  downloaded, which is the collection's dump if the server can be accessed without TLS and key; the server has then no snapshot of the collection
  left, no other file changed but the download, and the collection that is made, if nothing raises, fits the embedder.  A collection without an alias has no name
  to dump it under: the first case holds, and the start of the application fails.  With the local database nothing is dumped, whatever the environment asks for:
  snapshots and disk are as before and the collection is deleted and made anew as without the request.
\<close>
theorem snapshot_before_recreation:
  assumes "qdrant_laws Q view" and "case R of None \<Rightarrow> True | Some S \<Rightarrow> remote_laws S view snaps dump accessible"
    and "view q c = Some k" and "\<not> matches_embedder name sz c k"
    and "get_env env ''CCAT_SAVE_MEMORY_SNAPSHOTS'' = Some ''true''"
    and "recreate_collection env Q R c name sz (q, r, d) = (e, q', r', d')"
  shows "(e = None \<longrightarrow> view q' = (view q)(c \<mapsto> fresh_collection name sz c)) \<and>
    (case R of
       None \<Rightarrow> r' = r \<and> d' = d \<and> create_collection Q c name sz (q_delete_collection Q c q) = (e, q')
     | Some S \<Rightarrow> e \<noteq> None \<and> q' = q \<or>
         (\<exists>a as download r1 answer. co_aliases k = a # as \<and> snaps r1 c download = Some (dump c k) \<and>
            rm_get S (snapshot_address S c download) r1 = Inr answer \<and> (accessible \<longrightarrow> answer = dump c k) \<and>
            snaps r' = (snaps r)(c := Map.empty) \<and>
            dict_get (fs_files d') = (dict_get (fs_files d))(''dormouse/'' @ download := None, dump_name ''dormouse/'' a \<mapsto> answer)))"
proof (cases "save_dump Q R c ''dormouse/'' q (r, d)")
  case (fields x r1 d1)
  have q: "q_vector_size Q c q = co_size k" "q_aliases Q c q = co_aliases k" by (rule qlaws(2,3) [OF assms(1,3)])+
  have run: "(case x of Some e \<Rightarrow> (Some e, q, r1, d1)
      | None \<Rightarrow> (case create_collection Q c name sz (q_delete_collection Q c q) of (e, q) \<Rightarrow> (e, q, r1, d1))) = (e, q', r', d')"
    using assms(4,5,6) by (auto simp: recreate_collection_def Let_def matches_embedder_def q fields split: if_splits)
  show ?thesis
  proof (cases x)
    case dumped: None
    then have cr: "create_collection Q c name sz (q_delete_collection Q c q) = (e, q')" and r1: "r1 = r'" "d1 = d'"
      using run by (auto split: prod.splits)
    have made: "e = None \<longrightarrow> view q' = (view q)(c \<mapsto> fresh_collection name sz c)" using recreated_view [OF assms(1)] cr by blast
    show ?thesis
    proof (cases R)
      case None
      with made cr r1 fields show ?thesis by (simp add: save_dump_def)
    next
      case (Some S)
      have laws: "remote_laws S view snaps dump accessible" using assms(2) Some by simp
      have saved: "save_dump Q (Some S) c ''dormouse/'' q (r, d) = (None, r', d')" using fields dumped Some r1 by simp
      show ?thesis
        by (rule save_dump_effect [OF laws assms(3) q(2) saved]) (use made Some in simp, blast)
    qed
  next
    case raised: (Some e')
    with run have "e = Some e'" "q' = q" by simp_all
    moreover have "R \<noteq> None" using raised fields by (cases R) (simp_all add: save_dump_def)
    ultimately show ?thesis by auto
  qed
qed


section \<open>A concrete run\<close>

text \<open>A server that names the snapshot after the collection; the dump lists the aliases.\<close>

type_synonym snapshot_store = "(string \<times> string, string) dict"

definition demo_remote :: "(mem_db, snapshot_store) remote" where
  "demo_remote = \<lparr>rm_host = ''qdrant'', rm_port = 6333,
     rm_create_snapshot = (\<lambda>c q r. case mem_view q c of
        None \<Rightarrow> (Inl (Exception ''UnexpectedResponse''), r)
      | Some k \<Rightarrow> (Inr (c @ ''.part''), dict_set (c, c @ ''.part'') (concat (co_aliases k)) r)),
     rm_list_snapshots = (\<lambda>c r. map snd (filter (\<lambda>p. fst p = c) (dict_keys r))),
     rm_delete_snapshot = (\<lambda>c name. dict_del (c, name)),
     rm_get = (\<lambda>(_, _, _, path) r. case dict_get r (path ! 1, path ! 3) of None \<Rightarrow> Inr ''not found'' | Some x \<Rightarrow> Inr x)\<rparr>"

definition demo_snaps :: "snapshot_store \<Rightarrow> string \<Rightarrow> string \<rightharpoonup> string" where
  "demo_snaps r c name = dict_get r (c, name)"

lemma demo_remote_laws: "remote_laws demo_remote mem_view demo_snaps (\<lambda>c k. concat (co_aliases k)) True"
  unfolding remote_laws_def
proof (intro conjI allI impI)
  fix q c k r name r'
  assume "mem_view q c = Some k" and "rm_create_snapshot demo_remote c q r = (Inr name, r')"
  then have "name = c @ ''.part''" "r' = dict_set (c, name) (concat (co_aliases k)) r" by (auto simp: demo_remote_def)
  then show "demo_snaps r' = (demo_snaps r)(c := (demo_snaps r c)(name \<mapsto> concat (co_aliases k)))"
    by (intro ext) (simp add: demo_snaps_def)
next
  show "set (rm_list_snapshots demo_remote c r) = dom (demo_snaps r c)" for c r
  proof (rule set_eqI)
    fix name
    have "name \<in> dom (demo_snaps r c) \<longleftrightarrow> (c, name) \<in> set (dict_keys r)"
      by (metis demo_snaps_def domIff map_of_eq_None_iff set_map)
    also have "\<dots> \<longleftrightarrow> name \<in> set (rm_list_snapshots demo_remote c r)" by (simp add: demo_remote_def image_iff)
    finally show "name \<in> set (rm_list_snapshots demo_remote c r) \<longleftrightarrow> name \<in> dom (demo_snaps r c)" by simp
  qed
  show "y = x" if "demo_snaps r c name = Some x" "rm_get demo_remote (snapshot_address demo_remote c name) r = Inr y" for c name r x y
    using that by (simp add: demo_remote_def demo_snaps_def snapshot_address_def)
  show "demo_snaps (rm_delete_snapshot demo_remote c name r) = (demo_snaps r)(c := (demo_snaps r c)(name := None))" for c name r
    by (intro ext) (simp add: demo_remote_def demo_snaps_def)
qed

definition old_memory :: mem_db where
  "old_memory = [(''declarative'', 3, [''old/embedder_declarative''], [])]"

definition asks_for_dump :: environ where
  "asks_for_dump = [(''CCAT_SAVE_MEMORY_SNAPSHOTS'', ''true'')]"

text \<open>A server with a key refuses the request, and answers.\<close>

definition locked_remote :: "(mem_db, snapshot_store) remote" where
  "locked_remote = demo_remote\<lparr>rm_get := (\<lambda>_ _. Inr ''unauthorized'')\<rparr>"

lemma locked_remote_laws: "remote_laws locked_remote mem_view demo_snaps (\<lambda>c k. concat (co_aliases k)) False"
  using demo_remote_laws by (simp add: remote_laws_def locked_remote_def)

definition empty_disk :: disk where
  "empty_disk = \<lparr>fs_folders = [], fs_files = [], fs_refuses = []\<rparr>"

definition old_collection :: "nat collection" where
  "old_collection = \<lparr>co_size = 3, co_aliases = [''old/embedder_declarative''], co_points = Map.empty\<rparr>"

theorem snapshot_before_recreation_witness:
  "(case recreate_collection asks_for_dump mem_qdrant (Some demo_remote) ''declarative'' ''new'' 4 (old_memory, [], empty_disk) of
      (e, q', r', d') \<Rightarrow> mem_view q' ''declarative'' = Some (fresh_collection ''new'' 4 ''declarative'') \<and>
        dict_get (fs_files d') ''dormouse/old-embedder_declarative.snapshot'' = Some ''old/embedder_declarative'') \<and>
   (case recreate_collection asks_for_dump mem_qdrant (Some locked_remote) ''declarative'' ''new'' 4 (old_memory, [], empty_disk) of
      (e, q', r', d') \<Rightarrow> mem_view q' ''declarative'' = Some (fresh_collection ''new'' 4 ''declarative'') \<and>
        dict_get (fs_files d') ''dormouse/old-embedder_declarative.snapshot'' = Some ''unauthorized'' \<and> demo_snaps r' ''declarative'' = Map.empty)"
proof -
  let ?run = "\<lambda>S. recreate_collection asks_for_dump mem_qdrant (Some S) ''declarative'' ''new'' 4 (old_memory, [], empty_disk)"
  have k: "mem_view old_memory ''declarative'' = Some old_collection" by (simp add: mem_view_def old_memory_def old_collection_def)
  have m: "\<not> matches_embedder ''new'' 4 ''declarative'' old_collection" by (simp add: matches_embedder_def old_collection_def)
  have env: "get_env asks_for_dump ''CCAT_SAVE_MEMORY_SNAPSHOTS'' = Some ''true''" by code_simp
  have dn: "dump_name ''dormouse/'' ''old/embedder_declarative'' = ''dormouse/old-embedder_declarative.snapshot''" by code_simp
  have e: "fst (?run demo_remote) = None" "fst (?run locked_remote) = None" by code_simp+
  obtain q1 r1 d1 where 1: "?run demo_remote = (None, q1, r1, d1)" using e(1) by (metis prod.collapse)
  obtain q2 r2 d2 where 2: "?run locked_remote = (None, q2, r2, d2)" using e(2) by (metis prod.collapse)
  have l: "case Some demo_remote of None \<Rightarrow> True | Some S \<Rightarrow> remote_laws S mem_view demo_snaps (\<lambda>c k. concat (co_aliases k)) True"
    "case Some locked_remote of None \<Rightarrow> True | Some S \<Rightarrow> remote_laws S mem_view demo_snaps (\<lambda>c k. concat (co_aliases k)) False"
    by (simp_all add: demo_remote_laws locked_remote_laws)
  have "rm_get locked_remote a r = Inr ''unauthorized''" for a r by (simp add: locked_remote_def)
  with snapshot_before_recreation [OF mem_qdrant_laws l(1) k m env 1] snapshot_before_recreation [OF mem_qdrant_laws l(2) k m env 2]
  show ?thesis unfolding 1 2 by (auto simp: dn old_collection_def)
qed

end
