(* ===== verification/Plugin_Store.thy ===== *)
theory Plugin_Store
  imports Mad_Hatter
begin

text \<open>
  What a plugin keeps in its folder and how clients read it: manifest and settings file (\<open>mad_hatter/plugin.py\<close>), the listing of the
  registry (\<open>mad_hatter/registry.py\<close>) and the reading endpoints of \<open>routes/plugins.py\<close>.  Activation and hooks are in
  \<open>Mad_Hatter\<close>, installation is in \<open>Plugin_Install\<close>.

  Parameters: the JSON functions (\<open>loads\<close>, \<open>dumps\<close>), the settings model of a plugin with its validation, the overrides a
  plugin defines and what the registry answers.
\<close>


section \<open>Names (utils.py)\<close>

fun capitalize :: "string \<Rightarrow> string" where
  "capitalize [] = []"
| "capitalize (c # cs) = upper_char c # lower cs"

text \<open>\<open>str.split()\<close>\<close>

definition py_words :: "string \<Rightarrow> string list" where
  "py_words s = filter (\<lambda>w. w \<noteq> []) (split_on CHR '' '' (map (\<lambda>c. if is_space c then CHR '' '' else c) s))"

definition to_camel_case :: "string \<Rightarrow> string result" where
  "to_camel_case text =
     (let s = py_words (capitalize (map (\<lambda>c. if c = CHR ''-'' \<or> c = CHR ''_'' then CHR '' '' else c) text))
      in if text = [] then Inr text
         else case s of
           [] \<Rightarrow> Inl IndexError
         | w # ws \<Rightarrow> Inr (w @ concat (map capitalize ws)))"


section \<open>Manifest and settings (plugin.py)\<close>

text \<open>A settings model of pydantic: its schema, the messages of a validation, the default values or a validation error.\<close>

record pydantic_model =
  sm_schema :: "(string, pyval) dict"
  sm_errors :: "(string, pyval) dict \<Rightarrow> string list"
  sm_defaults :: "(string, pyval) dict option"

text \<open>The overrides of a plugin; what an override of the model returns may raise when it is called.\<close>

record overrides =
  ov_settings_schema :: "(string, pyval) dict result option"
  ov_settings_model :: "pydantic_model result option"
  ov_load_settings :: "pyval result option"
  ov_save_settings :: "((string, pyval) dict \<Rightarrow> pyval result) option"

record plugin_files =
  pf_id :: string
  pf_settings_json :: "string option"
  pf_writable :: bool
  pf_manifest :: "(string, pyval) dict"
  pf_overrides :: overrides
  pf_hooks :: "(string \<times> int) list"
  pf_tools :: "string list"
  pf_forms :: "string list"
  pf_endpoints :: "(string \<times> pyval) list"

record json =
  js_loads :: "string \<Rightarrow> pyval result"
  js_dumps :: "(string, pyval) dict \<Rightarrow> string"

definition permission_error :: py_exc where
  "permission_error = Exception ''PermissionError''"

text \<open>The model of a plugin that defines none has no field; its schema is the library's.\<close>

definition empty_model :: pydantic_model where
  "empty_model = \<lparr>sm_schema = [(''properties'', PDict []), (''title'', PStr ''PluginSettingsModel''), (''type'', PStr ''object'')],
     sm_errors = (\<lambda>_. []), sm_defaults = Some []\<rparr>"

definition settings_schema :: "plugin_files \<Rightarrow> (string, pyval) dict result" where
  "settings_schema p =
     (case ov_settings_schema (pf_overrides p) of
        Some r \<Rightarrow> r
      | None \<Rightarrow>
          (case ov_settings_model (pf_overrides p) of
             Some r \<Rightarrow> map_sum id sm_schema r
           | None \<Rightarrow> Inr (sm_schema empty_model)))"

definition settings_model :: "plugin_files \<Rightarrow> pydantic_model result" where
  "settings_model p =
     (case ov_settings_model (pf_overrides p) of
        Some r \<Rightarrow> r
      | None \<Rightarrow> Inr empty_model)"

text \<open>The file is opened for creation only; False means that a field has no default value.\<close>

definition create_settings_from_model :: "json \<Rightarrow> plugin_files \<Rightarrow> bool result \<times> plugin_files" where
  "create_settings_from_model J p =
     (case settings_model p of
        Inl e \<Rightarrow> if e = ValidationError then (Inr False, p) else (Inl e, p)
      | Inr model \<Rightarrow>
          (case sm_defaults model of
             None \<Rightarrow> (Inr False, p)
           | Some d \<Rightarrow>
               if pf_settings_json p \<noteq> None then (Inl (Exception ''FileExistsError''), p)
               else if \<not> pf_writable p then (Inl permission_error, p)
               else (Inr True, p\<lparr>pf_settings_json := Some (js_dumps J d)\<rparr>)))"

definition load_settings_file :: "json \<Rightarrow> plugin_files \<Rightarrow> pyval result \<times> plugin_files" where
  "load_settings_file J p =
     (case pf_settings_json p of
        Some s \<Rightarrow> (js_loads J s, p)
      | None \<Rightarrow> (Inr PNone, p))"

definition plugin_load_settings :: "json \<Rightarrow> plugin_files \<Rightarrow> pyval result \<times> plugin_files" where
  "plugin_load_settings J p =
     (case ov_load_settings (pf_overrides p) of
        Some r \<Rightarrow> (r, p)
      | None \<Rightarrow>
          (case pf_settings_json p of
             Some _ \<Rightarrow> load_settings_file J p
           | None \<Rightarrow>
               (case create_settings_from_model J p of
                  (Inl e, p) \<Rightarrow> (Inl e, p)
                | (Inr created, p) \<Rightarrow> if created then load_settings_file J p else (Inr (PDict []), p))))"

text \<open>What is saved is the old dictionary overwritten by the new one; an error of writing is logged and gives an empty dictionary.\<close>

definition plugin_save_settings :: "json \<Rightarrow> (string, pyval) dict \<Rightarrow> plugin_files \<Rightarrow> pyval result \<times> plugin_files" where
  "plugin_save_settings J settings p =
     (case ov_save_settings (pf_overrides p) of
        Some f \<Rightarrow> (f settings, p)
      | None \<Rightarrow>
          (case plugin_load_settings J p of
             (Inl e, p) \<Rightarrow> (Inl e, p)
           | (Inr old, p) \<Rightarrow>
               (case old of
                  PDict old_settings \<Rightarrow>
                    (let updated = dict_merge old_settings settings
                     in if pf_writable p then (Inr (PDict updated), p\<lparr>pf_settings_json := Some (js_dumps J updated)\<rparr>)
                        else (Inr (PDict []), p))
                | _ \<Rightarrow> (Inl TypeError, p))))"

text \<open>The manifest: the values of \<open>plugin.json\<close> under ten keys or their defaults; a file that cannot be read counts as empty.\<close>

definition manifest_defaults :: "string \<Rightarrow> (string, pyval) dict" where
  "manifest_defaults name =
     [(''name'', PStr name),
      (''description'', PStr (''Description not found for this plugin. '' @ ''Please create a `plugin.json`'' @ '' in the plugin folder.'')),
      (''author_name'', PStr ''Unknown author''), (''author_url'', PStr []), (''plugin_url'', PStr []), (''tags'', PStr ''unknown''),
      (''thumb'', PStr []), (''version'', PStr ''0.0.1''), (''min_cat_version'', PStr []), (''max_cat_version'', PStr [])]"

definition load_manifest :: "json \<Rightarrow> string \<Rightarrow> string option \<Rightarrow> (string, pyval) dict result" where
  "load_manifest J plugin_id plugin_json =
     (case (case plugin_json of None \<Rightarrow> PDict [] | Some s \<Rightarrow> (case js_loads J s of Inl _ \<Rightarrow> PDict [] | Inr v \<Rightarrow> v)) of
        PDict data \<Rightarrow>
          (case to_camel_case plugin_id of
             Inl e \<Rightarrow> Inl e
           | Inr name \<Rightarrow>
               Inr ((''id'', PStr plugin_id) #
                 map (\<lambda>(k, v). (k, case dict_get data k of Some w \<Rightarrow> w | None \<Rightarrow> v)) (manifest_defaults name)))
      | _ \<Rightarrow> Inl (AttributeError ''get''))"

section \<open>Endpoints for settings (routes/plugins.py)\<close>

type_synonym plugin_dict = "(string, plugin_files) dict"

definition schema_or_empty :: "(string, pyval) dict \<Rightarrow> (string, pyval) dict result" where
  "schema_or_empty schema =
     (case dict_get schema ''properties'' of
        None \<Rightarrow> Inl (KeyError ''properties'')
      | Some v \<Rightarrow> Inr (if v = PDict [] then [] else schema))"

record settings_reply =
  sr_name :: string
  sr_value :: pyval
  sr_schema :: "(string, pyval) dict"

text \<open>A plugin whose settings or schema cannot be read is left out.\<close>

fun get_plugins_settings :: "json \<Rightarrow> plugin_dict \<Rightarrow> settings_reply list \<times> plugin_dict" where
  "get_plugins_settings J [] = ([], [])"
| "get_plugins_settings J ((i, p) # ps) =
     (case plugin_load_settings J p of
        (r, p') \<Rightarrow>
          (case get_plugins_settings J ps of
             (replies, ps') \<Rightarrow>
               ((case r of
                   Inl _ \<Rightarrow> replies
                 | Inr v \<Rightarrow>
                     (case settings_schema p' of
                        Inl _ \<Rightarrow> replies
                      | Inr schema \<Rightarrow>
                          (case schema_or_empty schema of
                             Inl _ \<Rightarrow> replies
                           | Inr s \<Rightarrow> \<lparr>sr_name = pf_id p', sr_value = v, sr_schema = s\<rparr> # replies))), (i, p') # ps')))"

definition get_plugin_settings :: "json \<Rightarrow> string \<Rightarrow> plugin_dict \<Rightarrow> settings_reply result \<times> plugin_dict" where
  "get_plugin_settings J i ps =
     (case dict_get ps i of
        None \<Rightarrow> (Inl (HTTPException 404), ps)
      | Some p \<Rightarrow>
          (case plugin_load_settings J p of
             (Inl _, p) \<Rightarrow> (Inl (HTTPException 500), dict_set i p ps)
           | (Inr v, p) \<Rightarrow>
               (case settings_schema p of
                  Inl _ \<Rightarrow> (Inl (HTTPException 500), dict_set i p ps)
                | Inr schema \<Rightarrow>
                    (map_sum id (\<lambda>s. \<lparr>sr_name = i, sr_value = v, sr_schema = s\<rparr>) (schema_or_empty schema), dict_set i p ps))))"

definition upsert_plugin_settings :: "json \<Rightarrow> string \<Rightarrow> (string, pyval) dict \<Rightarrow> plugin_dict \<Rightarrow> (string \<times> pyval) result \<times> plugin_dict" where
  "upsert_plugin_settings J i payload ps =
     (case dict_get ps i of
        None \<Rightarrow> (Inl (HTTPException 404), ps)
      | Some p \<Rightarrow>
          (case settings_model p of
             Inl e \<Rightarrow> (Inl (if e = ValidationError then HTTPException 400 else e), ps)
           | Inr model \<Rightarrow>
               if sm_errors model payload \<noteq> [] then (Inl (HTTPException 400), ps)
               else (case plugin_save_settings J payload p of
                       (r, p) \<Rightarrow> (map_sum id (\<lambda>v. (i, v)) r, dict_set i p ps))))"


section \<open>Details and lists\<close>

definition named :: "string \<Rightarrow> pyval" where
  "named n = PDict [(''name'', PStr n)]"

definition hook_items :: "plugin_files \<Rightarrow> pyval" where
  "hook_items p = PList (map (\<lambda>(n, k). PDict [(''name'', PStr n), (''priority'', PInt k)]) (pf_hooks p))"

definition endpoint_items :: "plugin_files \<Rightarrow> pyval" where
  "endpoint_items p = PList (map (\<lambda>(n, tags). PDict [(''name'', PStr n), (''tags'', tags)]) (pf_endpoints p))"

definition get_plugin_details :: "string \<Rightarrow> string list \<Rightarrow> plugin_dict \<Rightarrow> (string, pyval) dict result" where
  "get_plugin_details i active ps =
     (case dict_get ps i of
        None \<Rightarrow> Inl (HTTPException 404)
      | Some p \<Rightarrow>
          Inr (dict_set ''endpoints'' (endpoint_items p) (dict_set ''forms'' (PList (map named (pf_forms p)))
            (dict_set ''tools'' (PList (map named (pf_tools p))) (dict_set ''hooks'' (hook_items p)
              (dict_set ''active'' (PBool (i \<in> set active)) (pf_manifest p)))))))"

text \<open>The registry: a status and the listed plugins, or an error of the request.\<close>

record registry =
  rg_search :: "string \<Rightarrow> (int \<times> (string, pyval) dict list) result"
  rg_plugins :: "(int \<times> (string, pyval) dict list) result"
  rg_shuffle :: "(string, pyval) dict list \<Rightarrow> (string, pyval) dict list"

definition registry_search_plugins :: "registry \<Rightarrow> string option \<Rightarrow> (string, pyval) dict list" where
  "registry_search_plugins R query =
     (if query \<noteq> None \<and> query \<noteq> Some []
      then (case rg_search R (the query) of Inl _ \<Rightarrow> [] | Inr (status, l) \<Rightarrow> if status = 200 then l else [])
      else (case rg_plugins R of Inl _ \<Rightarrow> [] | Inr (status, l) \<Rightarrow> if status = 200 then rg_shuffle R l else []))"

definition get_or_none :: "(string, pyval) dict \<Rightarrow> string \<Rightarrow> pyval" where
  "get_or_none d k = (case dict_get d k of None \<Rightarrow> PNone | Some v \<Rightarrow> v)"

text \<open>The first plugin of the registry for each address; those without one are skipped.\<close>

fun registry_index ::
  "(string, pyval) dict list \<Rightarrow> (pyval, (string, pyval) dict) dict \<Rightarrow> (pyval, (string, pyval) dict) dict result" where
  "registry_index [] index = Inr index"
| "registry_index (p # ps) index =
     (let url = get_or_none p ''plugin_url''
      in if url = PNone then registry_index ps index
         else if \<not> hashable url then Inl TypeError
         else if url \<in> set (dict_keys index) then registry_index ps index
         else registry_index ps (dict_set url p index))"

definition listed_manifest :: "string list \<Rightarrow> plugin_files \<Rightarrow> (string, pyval) dict" where
  "listed_manifest active p =
     dict_set ''forms'' (PList (map named (pf_forms p))) (dict_set ''endpoints'' (endpoint_items p)
       (dict_set ''tools'' (PList (map named (pf_tools p))) (dict_set ''hooks'' (hook_items p)
         (dict_set ''upgrade'' PNone (dict_set ''active'' (PBool (pf_id p \<in> set active)) (pf_manifest p))))))"

definition matches_query :: "string option \<Rightarrow> (string, pyval) dict \<Rightarrow> bool" where
  "matches_query query manifest =
     (case query of None \<Rightarrow> True | Some q \<Rightarrow> contains (lower q) (lower (join_with '' '' (map (\<lambda>kv. py_str (snd kv)) manifest))))"

definition with_upgrade :: "(string, pyval) dict option \<Rightarrow> (string, pyval) dict \<Rightarrow> (string, pyval) dict \<Rightarrow> (string, pyval) dict" where
  "with_upgrade r original manifest =
     (case r of
        None \<Rightarrow> manifest
      | Some d \<Rightarrow>
          (let v = get_or_none d ''version''
           in if v \<noteq> PNone \<and> v \<noteq> get_or_none original ''version'' then dict_set ''upgrade'' v manifest else manifest))"

fun list_installed ::
  "string option \<Rightarrow> string list \<Rightarrow> plugin_files list \<Rightarrow> (pyval, (string, pyval) dict) dict \<Rightarrow>
   ((string, pyval) dict list \<times> (pyval, (string, pyval) dict) dict) result" where
  "list_installed query active [] index = Inr ([], index)"
| "list_installed query active (p # ps) index =
     (let manifest = listed_manifest active p;
          url = get_or_none manifest ''plugin_url''
      in if \<not> hashable url then Inl TypeError
         else (case list_installed query active ps (dict_del url index) of
                 Inl e \<Rightarrow> Inl e
               | Inr (installed, rest) \<Rightarrow>
                   Inr (if matches_query query manifest then with_upgrade (dict_get index url) (pf_manifest p) manifest # installed
                        else installed, rest)))"

definition get_available_plugins ::
  "registry \<Rightarrow> string option \<Rightarrow> string list \<Rightarrow> plugin_dict \<Rightarrow> ((string, pyval) dict list \<times> (string, pyval) dict list) result" where
  "get_available_plugins R query active ps =
     (case registry_index (registry_search_plugins R query) [] of
        Inl e \<Rightarrow> Inl e
      | Inr index \<Rightarrow> map_sum id (\<lambda>(installed, rest). (installed, map snd rest)) (list_installed query active (map snd ps) index))"

section \<open>Manifests\<close>

lemma is_space_case [simp]: "is_space (lower_char c) = is_space c" "is_space (upper_char c) = is_space c"
proof -
  have n: "(of_char (char_of n :: char) :: nat) = n" if "n < 256" for n :: nat using that by simp
  show "is_space (lower_char c) = is_space c"
  proof (cases "65 \<le> (of_char c :: nat) \<and> (of_char c :: nat) \<le> 90")
    case True
    then have "(of_char (lower_char c) :: nat) = of_char c + 32" by (simp add: lower_char_def Let_def n)
    with True show ?thesis unfolding is_space_def Let_def by linarith
  next
    case False
    then have "lower_char c = c" unfolding lower_char_def Let_def by (simp only: if_False)
    then show ?thesis by simp
  qed
  show "is_space (upper_char c) = is_space c"
  proof (cases "97 \<le> (of_char c :: nat) \<and> (of_char c :: nat) \<le> 122")
    case True
    then have "(of_char c :: nat) - 32 < 256" by linarith
    with True have "(of_char (upper_char c) :: nat) = of_char c - 32" by (simp add: upper_char_def Let_def)
    with True show ?thesis unfolding is_space_def Let_def by linarith
  next
    case False
    then have "upper_char c = c" unfolding upper_char_def Let_def by (simp only: if_False)
    then show ?thesis by simp
  qed
qed

lemma split_on_filter_Nil: "filter (\<lambda>w. w \<noteq> []) (split_on c s) = [] \<longleftrightarrow> (\<forall>x \<in> set s. x = c)"
proof (induction s)
  case (Cons x s)
  then show ?case by (cases "split_on c s") (auto split: if_splits)
qed simp

lemma py_words_Nil: "py_words s = [] \<longleftrightarrow> (\<forall>c \<in> set s. is_space c)"
proof -
  have "is_space CHR '' ''" by (simp add: is_space_def)
  then have "(if is_space c then CHR '' '' else c) = CHR '' '' \<longleftrightarrow> is_space c" for c by (cases "is_space c") auto
  then show ?thesis unfolding py_words_def split_on_filter_Nil by (simp only: set_map ball_simps)
qed

definition separator :: "char \<Rightarrow> bool" where
  "separator c \<longleftrightarrow> is_space c \<or> c = CHR ''-'' \<or> c = CHR ''_''"

lemma capitalize_spaces: "(\<forall>c \<in> set (capitalize s). is_space c) \<longleftrightarrow> (\<forall>c \<in> set s. is_space c)"
  by (cases s) (auto simp: lower_def)

lemma to_camel_case_fails: "to_camel_case s = Inl e \<longleftrightarrow> e = IndexError \<and> s \<noteq> [] \<and> (\<forall>c \<in> set s. separator c)"
proof -
  let ?t = "map (\<lambda>c. if c = CHR ''-'' \<or> c = CHR ''_'' then CHR '' '' else c) s"
  have "is_space CHR '' ''" by (simp add: is_space_def)
  then have "is_space (if c = CHR ''-'' \<or> c = CHR ''_'' then CHR '' '' else c) \<longleftrightarrow> separator c" for c
    by (cases "c = CHR ''-'' \<or> c = CHR ''_''") (auto simp only: separator_def if_True if_False)
  then have "py_words (capitalize ?t) = [] \<longleftrightarrow> (\<forall>c \<in> set s. separator c)"
    by (simp only: py_words_Nil capitalize_spaces set_map ball_simps)
  then show ?thesis by (auto simp: to_camel_case_def Let_def split: list.split)
qed

text \<open>The object in \<open>plugin.json\<close>; None when the file holds JSON that is not an object.\<close>

definition manifest_data :: "json \<Rightarrow> string option \<Rightarrow> (string, pyval) dict option" where
  "manifest_data J f =
     (case f of None \<Rightarrow> Some [] | Some s \<Rightarrow> (case js_loads J s of Inl _ \<Rightarrow> Some [] | Inr (PDict d) \<Rightarrow> Some d | Inr _ \<Rightarrow> None))"

lemma load_manifest_data:
  "load_manifest J i f =
     (case manifest_data J f of
        None \<Rightarrow> Inl (AttributeError ''get'')
      | Some data \<Rightarrow>
          map_sum id (\<lambda>name. (''id'', PStr i) #
            map (\<lambda>(k, v). (k, case dict_get data k of Some w \<Rightarrow> w | None \<Rightarrow> v)) (manifest_defaults name)) (to_camel_case i))"
  by (auto simp: load_manifest_def manifest_data_def split: option.split sum.split pyval.split)

definition manifest_keys :: "string list" where
  "manifest_keys = ''id'' # dict_keys (manifest_defaults [])"

lemma manifest_keys_eq: "dict_keys (manifest_defaults name) = tl manifest_keys"
  by (simp add: manifest_keys_def manifest_defaults_def)

lemma manifest_keys_distinct: "distinct manifest_keys"
  by code_simp

lemma dict_get_map_vals: "dict_get (map (\<lambda>(k, v). (k, g k v)) d) k = map_option (g k) (dict_get d k)"
  by (induction d) auto

text \<open>
  C30. The manifest of a plugin is well formed: whatever \<open>plugin.json\<close> holds, a manifest that loads has exactly the eleven keys,
  once each and in their order, the identifier is the folder's name and never the file's, every other value is the file's
  or the default.  Loading fails only for JSON that is not an object and for a folder whose name has separators only.
\<close>
theorem manifest_well_formed:
  "case load_manifest J i f of
     Inl e \<Rightarrow> manifest_data J f = None \<and> e = AttributeError ''get'' \<or> e = IndexError \<and> i \<noteq> [] \<and> (\<forall>c \<in> set i. separator c)
   | Inr m \<Rightarrow>
       dict_keys m = manifest_keys \<and> distinct manifest_keys \<and> length m = 11 \<and> dict_get m ''id'' = Some (PStr i) \<and>
       (\<exists>data name. manifest_data J f = Some data \<and> to_camel_case i = Inr name \<and>
          (\<forall>k \<in> set (tl manifest_keys). dict_get m k = (case dict_get data k of Some w \<Rightarrow> Some w | None \<Rightarrow> dict_get (manifest_defaults name) k)))"
proof (cases "load_manifest J i f")
  case (Inl e)
  then show ?thesis
    using to_camel_case_fails [of i e] by (cases "to_camel_case i") (auto simp: load_manifest_data split: option.splits)
next
  case (Inr m)
  then obtain data name where d: "manifest_data J f = Some data" "to_camel_case i = Inr name"
    and m: "m = (''id'', PStr i) # map (\<lambda>(k, v). (k, case dict_get data k of Some w \<Rightarrow> w | None \<Rightarrow> v)) (manifest_defaults name)"
    by (cases "to_camel_case i") (auto simp: load_manifest_data split: option.splits)
  have keys: "dict_keys m = manifest_keys"
    by (simp add: m manifest_keys_def case_prod_unfold comp_def) (simp add: manifest_defaults_def)
  moreover have "length m = 11" by (simp add: m manifest_defaults_def)
  moreover have "dict_get m k = (case dict_get data k of Some w \<Rightarrow> Some w | None \<Rightarrow> dict_get (manifest_defaults name) k)"
    if k: "k \<in> set (tl manifest_keys)" for k
  proof -
    have "k \<noteq> ''id''" using k manifest_keys_distinct by (simp add: manifest_keys_def) metis
    then have "dict_get m k = map_option (\<lambda>v. case dict_get data k of Some w \<Rightarrow> w | None \<Rightarrow> v) (dict_get (manifest_defaults name) k)"
      by (simp add: m dict_get_map_vals)
    moreover have "dict_get (manifest_defaults name) k \<noteq> None"
      using k manifest_keys_eq [of name] by (metis map_of_eq_None_iff set_map)
    ultimately show ?thesis by (auto split: option.split)
  qed
  ultimately show ?thesis using Inr d manifest_keys_distinct m by auto
qed

section \<open>Settings\<close>

lemma create_settings_keeps:
  "create_settings_from_model J p = (r, p') \<Longrightarrow> \<exists>s. p' = p\<lparr>pf_settings_json := s\<rparr>"
  by (auto simp: create_settings_from_model_def split: sum.splits option.splits if_splits intro: exI [of _ "pf_settings_json p"])

lemma plugin_load_keeps: "plugin_load_settings J p = (r, p') \<Longrightarrow> \<exists>s. p' = p\<lparr>pf_settings_json := s\<rparr>"
  by (auto simp: plugin_load_settings_def load_settings_file_def split: sum.splits option.splits if_splits prod.splits
      dest: create_settings_keeps intro: exI [of _ "pf_settings_json p"])

lemma schema_keeps [simp]:
  "settings_schema (p\<lparr>pf_settings_json := s\<rparr>) = settings_schema p" "settings_model (p\<lparr>pf_settings_json := s\<rparr>) = settings_model p"
  by (simp_all add: settings_schema_def settings_model_def split: option.split)

text \<open>A plugin without overrides of reading and writing.\<close>

definition own_settings :: "plugin_files \<Rightarrow> bool" where
  "own_settings p \<longleftrightarrow> ov_load_settings (pf_overrides p) = None \<and> ov_save_settings (pf_overrides p) = None"

lemma own_settings_simps [simp]: "own_settings (p\<lparr>pf_settings_json := s\<rparr>) = own_settings p"
  by (simp add: own_settings_def)

lemma load_saved:
  "own_settings p \<Longrightarrow> pf_settings_json p = Some s \<Longrightarrow> plugin_load_settings J p = (js_loads J s, p)"
  by (simp add: plugin_load_settings_def load_settings_file_def own_settings_def)

lemma save_settings_own:
  assumes "own_settings p" and "plugin_load_settings J p = (Inr (PDict old), p1)"
  shows "plugin_save_settings J payload p =
           (if pf_writable p then (Inr (PDict (dict_merge old payload)), p\<lparr>pf_settings_json := Some (js_dumps J (dict_merge old payload))\<rparr>)
            else (Inr (PDict []), p1))"
proof -
  obtain s where "p1 = p\<lparr>pf_settings_json := s\<rparr>" using plugin_load_keeps [OF assms(2)] by blast
  with assms show ?thesis by (simp add: plugin_save_settings_def own_settings_def Let_def)
qed

text \<open>
  C29. Saving the settings of a plugin and reading them back.  For a plugin that keeps its settings in its own file, a payload its
  model accepts is merged over the stored settings, the reply shows the merged dictionary, reading the settings afterwards gives
  the same dictionary and changes nothing, and no other plugin is touched.  JSON is assumed to read back what it wrote for this dictionary.
\<close>
theorem plugin_settings_round_trip:
  assumes "dict_get ps i = Some p" and "own_settings p" and "pf_writable p" and "dict_ok payload"
    and "settings_model p = Inr model" and "sm_errors model payload = []"
    and "plugin_load_settings J p = (Inr (PDict old), p1)"
    and "settings_schema p = Inr schema" and "schema_or_empty schema = Inr shown"
    and "js_loads J (js_dumps J (dict_merge old payload)) = Inr (PDict (dict_merge old payload))"
    and "upsert_plugin_settings J i payload ps = (r, ps')"
  shows "r = Inr (i, PDict (dict_merge old payload)) \<and>
         dict_get (dict_merge old payload) = dict_get old ++ dict_get payload \<and>
         get_plugin_settings J i ps' = (Inr \<lparr>sr_name = i, sr_value = PDict (dict_merge old payload), sr_schema = shown\<rparr>, ps') \<and>
         (\<forall>j. j \<noteq> i \<longrightarrow> dict_get ps' j = dict_get ps j)"
proof -
  let ?m = "dict_merge old payload"
  let ?p = "p\<lparr>pf_settings_json := Some (js_dumps J ?m)\<rparr>"
  have "(r, ps') = (Inr (i, PDict ?m), dict_set i ?p ps)"
    using assms(1,3,5,6,11) save_settings_own [OF assms(2,7)] by (simp add: upsert_plugin_settings_def)
  then have r: "r = Inr (i, PDict ?m)" and ps': "ps' = dict_set i ?p ps" by simp_all
  have "plugin_load_settings J ?p = (Inr (PDict ?m), ?p)"
    using load_saved [of ?p "js_dumps J ?m" J] assms(2,10) by simp
  moreover have "dict_set i ?p ps' = ps'" unfolding ps' by (induction ps) auto
  ultimately have "get_plugin_settings J i ps' = (Inr \<lparr>sr_name = i, sr_value = PDict ?m, sr_schema = shown\<rparr>, ps')"
    using assms(8,9) by (simp add: get_plugin_settings_def ps')
  with r ps' dict_get_merge [OF assms(4)] show ?thesis by simp
qed

definition demo_json :: json where
  "demo_json =
     \<lparr>js_loads = (\<lambda>s. if s = ''{n: 1, m: 2}'' then Inr (PDict [(''n'', PInt 1), (''m'', PInt 2)])
                    else if s = ''{n: 1, m: 5}'' then Inr (PDict [(''n'', PInt 1), (''m'', PInt 5)]) else Inl (ValueError ''json'')),
      js_dumps = (\<lambda>d. if d = [(''n'', PInt 1), (''m'', PInt 2)] then ''{n: 1, m: 2}'' else ''{n: 1, m: 5}'')\<rparr>"

theorem manifest_well_formed_witness:
  "dict_get (projr (load_manifest demo_json ''my_plugin'' (Some ''{n: 1, m: 2}''))) ''id'' = Some (PStr ''my_plugin'') \<and>
   dict_get (projr (load_manifest demo_json ''my_plugin'' (Some ''{n: 1, m: 2}''))) ''name'' = Some (PStr ''MyPlugin'')"
proof -
  let ?m = "load_manifest demo_json ''my_plugin'' (Some ''{n: 1, m: 2}'')"
  have "\<not> isl ?m \<and> to_camel_case ''my_plugin'' = Inr ''MyPlugin''" by code_simp
  then obtain m where m: "?m = Inr m" and n: "to_camel_case ''my_plugin'' = Inr ''MyPlugin''" by (cases ?m) simp_all
  have "manifest_data demo_json (Some ''{n: 1, m: 2}'') = Some [(''n'', PInt 1), (''m'', PInt 2)]"
    by (simp add: manifest_data_def demo_json_def)
  with manifest_well_formed [where J = demo_json and i = "''my_plugin''" and f = "Some ''{n: 1, m: 2}''", unfolded m] n
  show ?thesis unfolding m by (simp add: manifest_keys_def manifest_defaults_def)
qed

definition demo_files :: plugin_files where
  "demo_files =
     \<lparr>pf_id = ''hara'', pf_settings_json = None, pf_writable = True, pf_manifest = [],
      pf_overrides = \<lparr>ov_settings_schema = None,
        ov_settings_model = Some (Inr \<lparr>sm_schema = [(''properties'', PDict [(''n'', PNone), (''m'', PNone)])],
          sm_errors = (\<lambda>d. if dict_get d ''m'' = Some PNone then [''Input should be a valid integer''] else []),
          sm_defaults = Some [(''n'', PInt 1), (''m'', PInt 2)]\<rparr>),
        ov_load_settings = None, ov_save_settings = None\<rparr>,
      pf_hooks = [], pf_tools = [], pf_forms = [], pf_endpoints = []\<rparr>"

theorem plugin_settings_round_trip_witness:
  "case upsert_plugin_settings demo_json ''hara'' [(''m'', PInt 5)] [(''hara'', demo_files)] of
     (r, ps') \<Rightarrow> r = Inr (''hara'', PDict [(''n'', PInt 1), (''m'', PInt 5)])"
proof -
  let ?m = "\<lparr>sm_schema = [(''properties'', PDict [(''n'', PNone), (''m'', PNone)])],
          sm_errors = (\<lambda>d. if dict_get d ''m'' = Some PNone then [''Input should be a valid integer''] else []),
          sm_defaults = Some [(''n'', PInt 1), (''m'', PInt 2)]\<rparr>"
  obtain r ps' where u: "upsert_plugin_settings demo_json ''hara'' [(''m'', PInt 5)] [(''hara'', demo_files)] = (r, ps')" by fastforce
  have "own_settings demo_files" "pf_writable demo_files" by (simp_all add: own_settings_def demo_files_def)
  moreover have "settings_model demo_files = Inr ?m" by (simp add: demo_files_def settings_model_def)
  moreover have "plugin_load_settings demo_json demo_files =
      (Inr (PDict [(''n'', PInt 1), (''m'', PInt 2)]), demo_files\<lparr>pf_settings_json := Some ''{n: 1, m: 2}''\<rparr>)"
    by (simp add: plugin_load_settings_def create_settings_from_model_def settings_model_def load_settings_file_def demo_files_def demo_json_def)
  moreover have "settings_schema demo_files = Inr (sm_schema ?m)" by (simp add: demo_files_def settings_schema_def)
  moreover have "schema_or_empty (sm_schema ?m) = Inr (sm_schema ?m)" by (simp add: schema_or_empty_def)
  moreover have d: "dict_merge [(''n'', PInt 1), (''m'', PInt 2)] [(''m'', PInt 5)] = [(''n'', PInt 1), (''m'', PInt 5)]"
    by (simp add: dict_merge_def)
  moreover have "js_loads demo_json (js_dumps demo_json [(''n'', PInt 1), (''m'', PInt 5)]) = Inr (PDict [(''n'', PInt 1), (''m'', PInt 5)])"
    by (simp add: demo_json_def)
  ultimately have "r = Inr (''hara'', PDict [(''n'', PInt 1), (''m'', PInt 5)])"
    using plugin_settings_round_trip [OF _ _ _ _ _ _ _ _ _ _ u, of demo_files ?m] by (simp add: d)
  with u show ?thesis by simp
qed

text \<open>
  What an update of settings answers when it does not succeed, and what it leaves: 404 for a plugin that is not there, 400 for a
  payload the model refuses, both without any change; a file that cannot be written is reported as a success with
  empty settings, with the stored settings kept.  No branch touches another plugin.
\<close>
theorem plugin_settings_errors:
  assumes "upsert_plugin_settings J i payload ps = (r, ps')"
  shows "(\<forall>j. j \<noteq> i \<longrightarrow> dict_get ps' j = dict_get ps j) \<and>
         (case dict_get ps i of
            None \<Rightarrow> r = Inl (HTTPException 404) \<and> ps' = ps
          | Some p \<Rightarrow>
              (case settings_model p of
                 Inl e \<Rightarrow> r = Inl (if e = ValidationError then HTTPException 400 else e) \<and> ps' = ps
               | Inr model \<Rightarrow>
                   (sm_errors model payload \<noteq> [] \<longrightarrow> r = Inl (HTTPException 400) \<and> ps' = ps) \<and>
                   (\<forall>s old. sm_errors model payload = [] \<longrightarrow> own_settings p \<longrightarrow> \<not> pf_writable p \<longrightarrow>
                      pf_settings_json p = Some s \<longrightarrow> js_loads J s = Inr (PDict old) \<longrightarrow>
                      r = Inr (i, PDict []) \<and> dict_get ps' i = Some p)))"
proof (cases "dict_get ps i")
  case None
  with assms show ?thesis by (simp add: upsert_plugin_settings_def)
next
  case (Some p)
  show ?thesis
  proof (cases "settings_model p")
    case (Inl e)
    with Some assms show ?thesis by (auto simp: upsert_plugin_settings_def)
  next
    case (Inr model)
    show ?thesis
    proof (cases "sm_errors model payload = []")
      case False
      with Some Inr assms show ?thesis by (auto simp: upsert_plugin_settings_def)
    next
      case True
      obtain r1 p1 where s: "plugin_save_settings J payload p = (r1, p1)" by fastforce
      have u: "r = map_sum id (\<lambda>v. (i, v)) r1" "ps' = dict_set i p1 ps"
        using Some Inr True assms s by (auto simp: upsert_plugin_settings_def)
      have "r1 = Inr (PDict []) \<and> p1 = p"
        if "own_settings p" "\<not> pf_writable p" "pf_settings_json p = Some t" "js_loads J t = Inr (PDict old)" for t old
        using save_settings_own [OF that(1), of J old p payload] load_saved [OF that(1,3), of J] that s by simp
      with Some Inr True u show ?thesis by auto
    qed
  qed
qed

theorem plugin_settings_errors_witness:
  "fst (upsert_plugin_settings demo_json ''hara'' [(''m'', PNone)] [(''hara'', demo_files)]) = Inl (HTTPException 400)"
proof -
  obtain r ps' where u: "upsert_plugin_settings demo_json ''hara'' [(''m'', PNone)] [(''hara'', demo_files)] = (r, ps')" by fastforce
  have "r = Inl (HTTPException 400)"
    using plugin_settings_errors [OF u] by (simp add: demo_files_def settings_model_def)
  with u show ?thesis by simp
qed


section \<open>Available plugins\<close>

lemma hashable_not_none: "registry_index ps d = Inr d' \<Longrightarrow> dict_ok d \<Longrightarrow> dict_ok d' \<and>
    (\<forall>u. dict_get d' u = (case dict_get d u of Some p \<Rightarrow> Some p
                          | None \<Rightarrow> if u = PNone then None else find (\<lambda>p. get_or_none p ''plugin_url'' = u) ps))"
proof (induction ps arbitrary: d)
  case Nil
  then show ?case by (auto split: option.split)
next
  case (Cons p ps)
  let ?u = "get_or_none p ''plugin_url''"
  consider (none) "?u = PNone" | (old) "?u \<noteq> PNone" "?u \<in> set (dict_keys d)" | (new) "?u \<noteq> PNone" "?u \<notin> set (dict_keys d)" by blast
  then show ?case
  proof cases
    case none
    with Cons show ?thesis by (auto split: option.split)
  next
    case old
    with Cons.prems have "registry_index ps d = Inr d'" by (auto simp: Let_def split: if_splits)
    note ih = Cons.IH [OF this Cons.prems(2)]
    from old have "dict_get d ?u \<noteq> None" by (simp add: map_of_eq_None_iff)
    with ih show ?thesis by (auto split: option.split)
  next
    case new
    with Cons.prems have "registry_index ps (dict_set ?u p d) = Inr d'" by (auto simp: Let_def split: if_splits)
    note ih = Cons.IH [OF this dict_ok_set [OF Cons.prems(2)]]
    from new have "dict_get d ?u = None" by (simp add: map_of_eq_None_iff)
    with ih new show ?thesis by (auto split: option.split)
  qed
qed

lemma list_installed_all:
  "list_installed query active ps index = Inr (installed, rest) \<Longrightarrow>
   rest = filter (\<lambda>x. \<forall>p \<in> set ps. get_or_none (pf_manifest p) ''plugin_url'' \<noteq> fst x) index \<and>
   length installed \<le> length ps \<and> (query = None \<longrightarrow> length installed = length ps)"
proof (induction ps arbitrary: index installed)
  case Nil
  then show ?case by simp
next
  case (Cons p ps)
  let ?m = "listed_manifest active p"
  have u: "get_or_none ?m ''plugin_url'' = get_or_none (pf_manifest p) ''plugin_url''"
    by (simp add: listed_manifest_def get_or_none_def)
  from Cons.prems obtain l where l: "list_installed query active ps (dict_del (get_or_none ?m ''plugin_url'') index) = Inr (l, rest)"
    and i: "installed = (if matches_query query ?m then with_upgrade (dict_get index (get_or_none ?m ''plugin_url'')) (pf_manifest p) ?m # l else l)"
    by (auto simp: Let_def split: if_splits sum.splits)
  from Cons.IH [OF l] u i show ?case by (auto simp: dict_del_filter matches_query_def intro!: filter_cong)
qed

text \<open>
  What a client sees as available.  The registry's part of the answer has no address twice, only plugins of the registry's
  answer, each with an address that no installed plugin has, and it misses no such address; without a query every
  installed plugin is listed, whatever the registry answered, an unreachable registry included.
\<close>
theorem available_plugins_listing:
  assumes "get_available_plugins R query active ps = Inr (installed, registry)"
  shows "(let url = (\<lambda>d. get_or_none d ''plugin_url''); listed = registry_search_plugins R query; own = (\<lambda>q. url (pf_manifest (snd q))) ` set ps
          in distinct (map url registry) \<and> set registry \<subseteq> set listed \<and>
             url ` set registry = url ` set listed - insert PNone own) \<and>
         length installed \<le> length ps \<and> (query = None \<longrightarrow> length installed = length ps)"
proof -
  let ?url = "\<lambda>d. get_or_none d ''plugin_url''" and ?l = "registry_search_plugins R query"
  let ?own = "(\<lambda>q. ?url (pf_manifest (snd q))) ` set ps"
  from assms obtain index where i: "registry_index ?l [] = Inr index"
    and g: "map_sum id (\<lambda>(installed, rest). (installed, map snd rest)) (list_installed query active (map snd ps) index) = Inr (installed, registry)"
    by (auto simp: get_available_plugins_def split: sum.splits)
  from g obtain rest where l: "list_installed query active (map snd ps) index = Inr (installed, rest)" and reg: "registry = map snd rest"
    by (cases "list_installed query active (map snd ps) index") auto
  have ok: "dict_ok index" and get: "dict_get index u = (if u = PNone then None else find (\<lambda>p. ?url p = u) ?l)" for u
    using hashable_not_none [OF i] by simp_all
  have "(\<forall>p \<in> set (map snd ps). ?url (pf_manifest p) \<noteq> u) \<longleftrightarrow> u \<notin> ?own" for u by force
  then have rest: "rest = filter (\<lambda>x. fst x \<notin> ?own) index"
    using list_installed_all [OF l] by (simp only:)
  have mem: "(u, p) \<in> set index \<longleftrightarrow> u \<noteq> PNone \<and> find (\<lambda>p. ?url p = u) ?l = Some p" for u p
    using dict_get_mem [OF ok, of u p] get [of u] by (auto split: if_splits)
  have url: "?url p = u \<and> p \<in> set ?l \<and> u \<noteq> PNone" if "(u, p) \<in> set index" for u p
    using that by (auto simp: mem find_Some_iff)
  have "map ?url registry = map fst rest" unfolding reg rest using url by auto
  then have d: "distinct (map ?url registry)" using ok by (simp add: rest distinct_map_filter)
  have sub: "set registry \<subseteq> set ?l" unfolding reg rest using url by auto
  have "?url ` set registry = fst ` set rest"
    using \<open>map ?url registry = map fst rest\<close> by (metis list.set_map)
  also have "\<dots> = {u. \<exists>p. (u, p) \<in> set index} - ?own" by (force simp: rest)
  also have "{u. \<exists>p. (u, p) \<in> set index} = ?url ` set ?l - {PNone}"
  proof -
    have "(\<exists>p. find (\<lambda>p. ?url p = u) ?l = Some p) \<longleftrightarrow> u \<in> ?url ` set ?l" for u
      using find_None_iff [of "\<lambda>p. ?url p = u" ?l] by (cases "find (\<lambda>p. ?url p = u) ?l") (auto simp: find_Some_iff)
    then have "(\<exists>p. (u, p) \<in> set index) \<longleftrightarrow> u \<in> ?url ` set ?l - {PNone}" for u
      by (simp only: mem ex_simps Diff_iff insert_iff empty_iff simp_thms conj_commute)
    then show ?thesis by (simp only: set_eq_iff mem_Collect_eq simp_thms)
  qed
  finally have "?url ` set registry = ?url ` set ?l - insert PNone ?own"
    by (rule trans [OF _ Diff_insert2 [symmetric]])
  with d sub list_installed_all [OF l] show ?thesis by (simp add: Let_def)
qed

definition demo_registry :: registry where
  "demo_registry =
     \<lparr>rg_search = (\<lambda>q. Inr (500, [])),
      rg_plugins = Inr (200, [[(''name'', PStr ''a''), (''plugin_url'', PStr ''u'')], [(''name'', PStr ''b''), (''plugin_url'', PStr ''v'')],
        [(''name'', PStr ''c''), (''plugin_url'', PStr ''v'')]]),
      rg_shuffle = rev\<rparr>"

theorem available_plugins_listing_witness:
  "case get_available_plugins demo_registry None [] [(''hara'', demo_files\<lparr>pf_manifest := [(''plugin_url'', PStr ''u'')]\<rparr>)] of
     Inl _ \<Rightarrow> False
   | Inr (installed, registry) \<Rightarrow> (\<lambda>d. get_or_none d ''plugin_url'') ` set registry = {PStr ''v''} \<and> length installed = 1"
proof -
  let ?ps = "[(''hara'', demo_files\<lparr>pf_manifest := [(''plugin_url'', PStr ''u'')]\<rparr>)]"
  have "\<not> isl (get_available_plugins demo_registry None [] ?ps)" by code_simp
  then obtain installed reg where g: "get_available_plugins demo_registry None [] ?ps = Inr (installed, reg)"
    by (cases "get_available_plugins demo_registry None [] ?ps") auto
  have "registry_search_plugins demo_registry None = rev [[(''name'', PStr ''a''), (''plugin_url'', PStr ''u'')], [(''name'', PStr ''b''), (''plugin_url'', PStr ''v'')],
        [(''name'', PStr ''c''), (''plugin_url'', PStr ''v'')]]"
    by (simp add: registry_search_plugins_def demo_registry_def)
  with available_plugins_listing [OF g] g show ?thesis by (simp add: get_or_none_def Let_def) blast
qed

end
