(* ===== verification/Plugin_Imports.thy ===== *)
theory Plugin_Imports
  imports Mad_Hatter Core_Plugin Plugin_Store
begin

text \<open>
  What happens around the import of a plugin: its requirements (\<open>Plugin._install_requirements\<close> in \<open>mad_hatter/plugin.py\<close>), the import of
  one plugin by another (\<open>_load_hara_module\<close> in \<open>AI_Agent-Concept_Assistant/concept_tools.py\<close>), the plugin a caller belongs to
  (\<open>MadHatter.get_plugin\<close>), and the overrides and the tool of the core plugin (\<open>mad_hatter/core_plugin\<close>).

  Parameters: the parser of a requirement (the name, or what it raises) and pip.
\<close>


section \<open>Requirements\<close>

fun readlines :: "string \<Rightarrow> string list" where
  "readlines [] = []"
| "readlines (c # s) =
     (if c = CHR 0x0A then [c] # readlines s
      else case readlines s of [] \<Rightarrow> [[c]] | l # ls \<Rightarrow> (c # l) # ls)"

text \<open>pip on a world of installed distributions; False stands for \<open>CalledProcessError\<close>.\<close>

record 'w pip =
  pip_installed :: "'w \<Rightarrow> string list"
  pip_install :: "string \<Rightarrow> 'w \<Rightarrow> bool \<times> 'w"
  pip_uninstall :: "string \<Rightarrow> 'w \<Rightarrow> bool \<times> 'w"

text \<open>The lines to install; an exception of the parser ends the loop and keeps what was found.\<close>

fun missing_requirements :: "(string \<Rightarrow> string result) \<Rightarrow> string list \<Rightarrow> string list \<Rightarrow> string list" where
  "missing_requirements parse installed [] = []"
| "missing_requirements parse installed (req # reqs) =
     (case parse req of
        Inl _ \<Rightarrow> []
      | Inr name \<Rightarrow>
          if name \<notin> set installed then req # missing_requirements parse installed reqs
          else missing_requirements parse installed reqs)"

text \<open>The file is absent, unreadable or a text.\<close>

definition install_requirements ::
  "(string \<Rightarrow> string result) \<Rightarrow> 'w pip \<Rightarrow> string \<Rightarrow> string result option \<Rightarrow> 'w \<Rightarrow> py_exc option \<times> 'w" where
  "install_requirements parse P plugin_id req_file w =
     (case req_file of
        None \<Rightarrow> (None, w)
      | Some contents \<Rightarrow>
          (let filtered = (case contents of
                 Inl _ \<Rightarrow> []
               | Inr s \<Rightarrow> missing_requirements parse (pip_installed P w) (readlines s))
           in if filtered = [] then (None, w)
              else (case pip_install P (concat filtered) w of
                      (True, w) \<Rightarrow> (None, w)
                    | (False, w) \<Rightarrow>
                        (case pip_uninstall P (concat filtered) w of
                           (True, w) \<Rightarrow> (Some (Exception (''Error during plugin '' @ plugin_id @ '' requirements installation'')), w)
                         | (False, w) \<Rightarrow> (Some (Exception ''CalledProcessError''), w)))))"

text \<open>\<open>Plugin.activate\<close> with the requirements it installs first.\<close>

definition activate_with_requirements ::
  "(string \<Rightarrow> string result) \<Rightarrow> 'w pip \<Rightarrow> string result option \<Rightarrow> ('v, 'c) source \<Rightarrow> ('v, 'c) plugin \<times> 'w \<Rightarrow> py_exc option \<times> ('v, 'c) plugin \<times> 'w" where
  "activate_with_requirements parse P req_file src = (\<lambda>(p, w).
     (case install_requirements parse P (p_id p) req_file w of
        (e, w) \<Rightarrow> (case plugin_activate (src\<lparr>src_install := e\<rparr>) p of (e, p) \<Rightarrow> (e, p, w))))"


section \<open>One plugin imports another\<close>

text \<open>A module in \<open>sys.modules\<close>: executed to its end, or left by an exception.\<close>

datatype module_state = Whole | Partial

definition hara_module_name :: string where
  "hara_module_name = ''cat.plugins.AI_Agent-HARA_Assistant.Hara_Assistant_tool''"

text \<open>\<open>fresh\<close> is what importing a module raises that is not in the table; then the table stays as it is.\<close>

definition import_module :: "py_exc option \<Rightarrow> string \<Rightarrow> (string, module_state) dict \<Rightarrow> module_state result \<times> (string, module_state) dict" where
  "import_module fresh name modules =
     (case dict_get modules name of
        Some m \<Rightarrow> (Inr m, modules)
      | None \<Rightarrow> (case fresh of Some e \<Rightarrow> (Inl e, modules) | None \<Rightarrow> (Inr Whole, dict_set name Whole modules)))"

text \<open>The second way enters the module in the table before it is executed, and nothing takes it out when that raises.\<close>

definition load_hara_module ::
  "py_exc option \<Rightarrow> bool \<Rightarrow> bool \<Rightarrow> py_exc option \<Rightarrow> (string, module_state) dict \<Rightarrow> module_state option result \<times> (string, module_state) dict" where
  "load_hara_module fresh file_exists spec_found exec modules =
     (case import_module fresh hara_module_name modules of
        (Inr m, modules) \<Rightarrow> (Inr (Some m), modules)
      | (Inl _, modules) \<Rightarrow>
          if \<not> file_exists \<or> \<not> spec_found then (Inr None, modules)
          else (case exec of
                  Some e \<Rightarrow> (Inl e, dict_set hara_module_name Partial modules)
                | None \<Rightarrow> (Inr (Some Whole), dict_set hara_module_name Whole modules)))"


section \<open>The plugin of a caller\<close>

text \<open>\<open>rel_path\<close> is the path of the file the call stands in, relative to the working directory.\<close>

definition get_plugin :: "(string, 'p) dict \<Rightarrow> string \<Rightarrow> 'p result" where
  "get_plugin plugins rel_path =
     (let name = hd (split_on CHR ''/'' (replace_all ''cat/plugins/'' [] rel_path))
      in case dict_get plugins name of None \<Rightarrow> Inl (KeyError name) | Some p \<Rightarrow> Inr p)"


section \<open>The core plugin\<close>

definition get_the_time :: "string \<Rightarrow> string" where
  "get_the_time now = ''The current time is '' @ now"

definition core_settings_model :: pydantic_model where
  "core_settings_model = empty_model\<lparr>sm_schema := dict_set ''title'' (PStr ''CorePluginSettings'') (sm_schema empty_model)\<rparr>"

definition core_overrides :: overrides where
  "core_overrides =
     \<lparr>ov_settings_schema = Some (Inr (sm_schema core_settings_model)), ov_settings_model = Some (Inr core_settings_model),
      ov_load_settings = Some (Inr (PDict [])), ov_save_settings = Some (\<lambda>_. Inr (PDict []))\<rparr>"


section \<open>Lemmas\<close>

definition whole_line :: "string \<Rightarrow> bool" where
  "whole_line l \<longleftrightarrow> l \<noteq> [] \<and> last l = CHR 0x0A \<and> CHR 0x0A \<notin> set (butlast l)"

text \<open>What reading lines gives: only the last may lack its end.\<close>

fun lines_ok :: "string list \<Rightarrow> bool" where
  "lines_ok [] = True"
| "lines_ok [l] = (l \<noteq> [] \<and> CHR 0x0A \<notin> set (butlast l))"
| "lines_ok (l # l' # ls) = (whole_line l \<and> lines_ok (l' # ls))"

lemma lines_ok_Cons: "lines_ok (l # ls) \<longleftrightarrow> (if ls = [] then l \<noteq> [] \<and> CHR 0x0A \<notin> set (butlast l) else whole_line l \<and> lines_ok ls)"
  by (cases ls) simp_all

lemma lines_ok_ConsD: "lines_ok (l # ls) \<Longrightarrow> lines_ok ls"
  by (simp add: lines_ok_Cons split: if_splits)

lemma readlines_ok: "lines_ok (readlines s)"
proof (induction s)
  case (Cons c s)
  show ?case
  proof (cases "c = CHR 0x0A")
    case True
    then show ?thesis using Cons by (simp add: lines_ok_Cons whole_line_def)
  next
    case False
    then show ?thesis using Cons by (cases "readlines s") (auto simp: lines_ok_Cons whole_line_def split: if_splits)
  qed
qed simp

lemma readlines_line:
  assumes "whole_line l" shows "readlines (l @ s) = l # readlines s"
proof -
  have "CHR 0x0A \<notin> set k \<Longrightarrow> readlines (k @ CHR 0x0A # s) = (k @ [CHR 0x0A]) # readlines s" for k
    by (induction k) auto
  from this [of "butlast l"] show ?thesis using assms unfolding whole_line_def
    by (metis append.assoc append_Cons append_Nil append_butlast_last_id)
qed

lemma readlines_last: "l \<noteq> [] \<Longrightarrow> CHR 0x0A \<notin> set (butlast l) \<Longrightarrow> readlines l = [l]"
  by (induction l) (auto split: if_splits list.splits)

lemma readlines_concat: "lines_ok ls \<Longrightarrow> readlines (concat ls) = ls"
  by (induction ls rule: lines_ok.induct) (simp_all add: readlines_last readlines_line)

lemma lines_ok_append: "lines_ok (ls @ ls') \<Longrightarrow> lines_ok ls"
  by (induction ls) (auto simp: lines_ok_Cons whole_line_def split: if_splits)

lemma missing_lines_ok: "lines_ok ls \<Longrightarrow> lines_ok (missing_requirements parse installed ls)"
proof (induction ls)
  case (Cons l ls)
  have m: "ls = [] \<Longrightarrow> missing_requirements parse installed ls = []" by simp
  show ?case using Cons.IH [OF lines_ok_ConsD [OF Cons.prems]] Cons.prems m
    by (auto simp: lines_ok_Cons whole_line_def split: sum.split if_splits)
qed simp

lemma missing_cut: "ls2 = [] \<or> isl (parse (hd ls2)) \<Longrightarrow> missing_requirements parse installed (ls1 @ ls2) = missing_requirements parse installed ls1"
proof (induction ls1)
  case Nil
  then show ?case by (cases ls2) (auto simp: isl_def)
qed (simp split: sum.split)

lemma missing_filter:
  "\<forall>l \<in> set ls. \<not> isl (parse l) \<Longrightarrow>
   missing_requirements parse installed ls = filter (\<lambda>l. projr (parse l) \<notin> set installed) ls"
  by (induction ls) (auto split: sum.split)

text \<open>
  What activation relies on: after an installation that succeeds there is a distribution for every name for which there was one, and for every line
  that names one and that applies to this installation, up to the spelling \<open>canon\<close> makes equal.  A line applies when it has no environment marker
  or one that holds (\<open>applies\<close>); pip skips the others, and installing them succeeds.
\<close>

definition pip_laws :: "(string \<Rightarrow> string result) \<Rightarrow> (string \<Rightarrow> bool) \<Rightarrow> 'w pip \<Rightarrow> (string \<Rightarrow> string) \<Rightarrow> bool" where
  "pip_laws parse applies P canon \<longleftrightarrow>
     (\<forall>ls w w'. lines_ok ls \<longrightarrow> pip_install P (concat ls) w = (True, w') \<longrightarrow>
        canon ` set (pip_installed P w) \<subseteq> canon ` set (pip_installed P w') \<and>
        (\<forall>l \<in> set ls. \<forall>n. parse l = Inr n \<longrightarrow> applies l \<longrightarrow> canon n \<in> canon ` set (pip_installed P w')))"

lemma requirements_installed:
  assumes "pip_laws parse applies P canon" and "lines_ok (ls1 @ ls2)" and "\<forall>l \<in> set ls1. \<not> isl (parse l)" and "ls2 = [] \<or> isl (parse (hd ls2))"
    and "install_requirements parse P i (Some (Inr (concat (ls1 @ ls2)))) w = (None, w')" and "l \<in> set ls1"
    and "applies l \<or> projr (parse l) \<in> set (pip_installed P w)"
  shows "canon (projr (parse l)) \<in> canon ` set (pip_installed P w')"
proof -
  let ?f = "filter (\<lambda>l. projr (parse l) \<notin> set (pip_installed P w)) ls1"
  have f: "missing_requirements parse (pip_installed P w) (readlines (concat (ls1 @ ls2))) = ?f"
    unfolding readlines_concat [OF assms(2)] missing_cut [of ls2 parse, OF assms(4)] missing_filter [OF assms(3)] ..
  have ok: "lines_ok ?f" using missing_lines_ok [OF readlines_ok] f by metis
  obtain n where n: "parse l = Inr n" using assms(3,6) by (cases "parse l") auto
  have run: "?f = [] \<and> w' = w \<or> pip_install P (concat ?f) w = (True, w')"
    using assms(5) unfolding install_requirements_def Let_def option.case sum.case f
    by (auto split: prod.splits bool.splits if_splits)
  show ?thesis
  proof (cases "n \<in> set (pip_installed P w)")
    case False
    then have "l \<in> set ?f" and "applies l" using assms(6,7) n by simp_all
    moreover from this have "pip_install P (concat ?f) w = (True, w')" using run by (metis empty_iff empty_set)
    ultimately show ?thesis using assms(1) ok n unfolding pip_laws_def by (metis sum.sel(2))
  next
    case True
    then have "canon n \<in> canon ` set (pip_installed P w)" by (rule imageI)
    then have "canon n \<in> canon ` set (pip_installed P w')" using run assms(1) ok unfolding pip_laws_def by blast
    then show ?thesis using n by simp
  qed
qed


section \<open>Properties\<close>

text \<open>
  C37. Requirements of a plugin.  A plugin is activated, or changed at all, only after every requirement up to the first line that does not parse is
  installed under some spelling, as far as it applies to this installation: a line whose environment marker does not hold is skipped by pip, unless a distribution of
  its name was there already.  The line that does not parse and all that follow it do not matter, whatever they ask for, and pip is not called when every name
  before it is listed as it is written.
\<close>
theorem requirements_before_activation:
  assumes "pip_laws parse applies P canon" and "readlines content = ls1 @ ls2" and "\<forall>l \<in> set ls1. \<not> isl (parse l)" and "ls2 = [] \<or> isl (parse (hd ls2))"
    and "activate_with_requirements parse P (Some (Inr content)) src (p, w) = (e, p', w')"
  shows "(e = None \<or> p' \<noteq> p \<longrightarrow> (\<forall>l \<in> set ls1. applies l \<or> projr (parse l) \<in> set (pip_installed P w) \<longrightarrow>
            (\<exists>m \<in> set (pip_installed P w'). canon m = canon (projr (parse l))))) \<and>
    activate_with_requirements parse P (Some (Inr (concat ls1))) src (p, w) = (e, p', w') \<and>
    ((\<forall>l \<in> set ls1. projr (parse l) \<in> set (pip_installed P w)) \<longrightarrow> w' = w)"
proof -
  have ok: "lines_ok (ls1 @ ls2)" using readlines_ok [of content] assms(2) by simp
  have c: "readlines (concat (ls1 @ ls2)) = ls1 @ ls2" by (rule readlines_concat [OF ok])
  have same: "install_requirements parse P i (Some (Inr content)) w = install_requirements parse P i (Some (Inr s)) w"
    if "s = concat ls1 \<or> s = concat (ls1 @ ls2)" for i s
    using that c readlines_concat [OF lines_ok_append [OF ok]]
    by (auto simp: install_requirements_def assms(2) missing_cut [of ls2 parse, OF assms(4)] simp del: concat_append)
  obtain r where r: "install_requirements parse P (p_id p) (Some (Inr content)) w = (r, w')"
    and a: "plugin_activate (src\<lparr>src_install := r\<rparr>) p = (e, p')"
    using assms(5) by (auto simp: activate_with_requirements_def split: prod.splits)
  have "r = None" if "e = None \<or> p' \<noteq> p" using a that by (cases r) (auto simp: plugin_activate_def)
  then have "e = None \<or> p' \<noteq> p \<longrightarrow> (\<forall>l \<in> set ls1. applies l \<or> projr (parse l) \<in> set (pip_installed P w) \<longrightarrow>
      (\<exists>m \<in> set (pip_installed P w'). canon m = canon (projr (parse l))))"
    using requirements_installed [OF assms(1) ok assms(3,4)] r [unfolded same [OF disjI2 [OF refl]]] by fastforce
  moreover have "activate_with_requirements parse P (Some (Inr (concat ls1))) src (p, w) = (e, p', w')"
    using assms(5) by (simp add: activate_with_requirements_def same [OF disjI1 [OF refl]])
  moreover have "w' = w" if "\<forall>l \<in> set ls1. projr (parse l) \<in> set (pip_installed P w)"
    using r that by (simp add: install_requirements_def assms(2) missing_cut [of ls2 parse, OF assms(4)] missing_filter [OF assms(3)] filter_empty_conv split: if_splits)
  ultimately show ?thesis by blast
qed


section \<open>A concrete run\<close>

text \<open>A marker stands after a semicolon, and holds nowhere.\<close>

definition demo_requirement :: "string \<Rightarrow> string result" where
  "demo_requirement l = (let n = strip (takeWhile (\<lambda>c. c \<noteq> CHR '';'') l) in if n = [] then Inl (ValueError ''InvalidRequirement'') else Inr n)"

definition demo_applies :: "string \<Rightarrow> bool" where
  "demo_applies l \<longleftrightarrow> CHR '';'' \<notin> set l"

definition demo_pip :: "string list pip" where
  "demo_pip = \<lparr>pip_installed = (\<lambda>w. w), pip_install = (\<lambda>s w. (True, w @ map strip (filter demo_applies (readlines s)))), pip_uninstall = (\<lambda>s w. (True, w))\<rparr>"

lemma demo_pip_laws: "pip_laws demo_requirement demo_applies demo_pip id"
proof -
  have "n = strip l" if "demo_requirement l = Inr n" "demo_applies l" for l n
  proof -
    have "takeWhile (\<lambda>c. c \<noteq> CHR '';'') l = l" using that(2) by (auto simp: takeWhile_eq_all_conv demo_applies_def)
    with that(1) show ?thesis by (auto simp: demo_requirement_def Let_def split: if_splits)
  qed
  then show ?thesis by (auto simp: pip_laws_def demo_pip_def readlines_concat)
qed

definition three_requirements :: string where
  "three_requirements = ''numpy'' @ [CHR 0x0A] @ ''enum34;py2'' @ [CHR 0x0A, CHR 0x0A] @ ''pandas'' @ [CHR 0x0A]"

text \<open>The second line does not apply, a blank line hides the third requirement, and the plugin is activated without them.\<close>

theorem requirements_before_activation_witness:
  "case activate_with_requirements demo_requirement demo_pip (Some (Inr three_requirements)) (demo_source [] []) (new_plugin ''p'', [''requests'']) of
     (e, p', w') \<Rightarrow> e = None \<and> ''numpy'' \<in> set w' \<and> ''enum34'' \<notin> set w' \<and> ''pandas'' \<notin> set w'"
proof -
  let ?w = "[''requests'']" and ?p = "new_plugin ''p'' :: (int, unit) plugin"
  let ?ls = "[''numpy'' @ [CHR 0x0A], ''enum34;py2'' @ [CHR 0x0A]]" and ?rest = "[[CHR 0x0A], ''pandas'' @ [CHR 0x0A]]"
  obtain e p' w' where run: "activate_with_requirements demo_requirement demo_pip (Some (Inr three_requirements)) (demo_source [] []) (?p, ?w) = (e, p', w')"
    by (metis prod_cases3)
  have ls: "readlines three_requirements = ?ls @ ?rest" by code_simp
  have ok: "\<forall>l \<in> set ?ls. \<not> isl (demo_requirement l)" by code_simp
  have bad: "?rest = [] \<or> isl (demo_requirement (hd ?rest))" by code_simp
  have numpy: "demo_applies (''numpy'' @ [CHR 0x0A])" "projr (demo_requirement (''numpy'' @ [CHR 0x0A])) = ''numpy''" by code_simp+
  have "fst (install_requirements demo_requirement demo_pip ''p'' (Some (Inr three_requirements)) ?w) = None"
    "snd (install_requirements demo_requirement demo_pip ''p'' (Some (Inr three_requirements)) ?w) = [''requests'', ''numpy'']" by code_simp+
  with run have r: "e = None" "w' = [''requests'', ''numpy'']"
    by (auto simp: activate_with_requirements_def new_plugin_def demo_source_def plugin_activate_def Let_def split: prod.splits)
  have "\<exists>m \<in> set (pip_installed demo_pip w'). id m = id ''numpy''"
    using requirements_before_activation [OF demo_pip_laws ls ok bad run] r(1) numpy by fastforce
  then have "''numpy'' \<in> set w'" by (simp add: demo_pip_def)
  with r show ?thesis by (simp add: run)
qed


section \<open>Further lemmas\<close>

text \<open>
  After an execution that raised, the next call finds the half executed module and takes it for the plugin, as do all other importers.
\<close>

lemma failed_import_stays:
  assumes "dict_get modules hara_module_name = None"
  shows "load_hara_module (Some x) True True (Some e) modules = (Inl e, dict_set hara_module_name Partial modules) \<and>
    fst (load_hara_module fresh exists spec_found exec (dict_set hara_module_name Partial modules)) = Inr (Some Partial)"
  using assms by (simp add: load_hara_module_def import_module_def)

text \<open>A file of a plugin finds its own plugin, one of the core plugin finds none.\<close>

lemma core_has_no_plugin: "dict_get plugins ''cat'' = None \<Longrightarrow> get_plugin plugins ''cat/mad_hatter/core_plugin/tools.py'' = Inl (KeyError ''cat'')"
proof -
  have "hd (split_on CHR ''/'' (replace_all ''cat/plugins/'' [] ''cat/mad_hatter/core_plugin/tools.py'')) = ''cat''" by code_simp
  then show "dict_get plugins ''cat'' = None \<Longrightarrow> get_plugin plugins ''cat/mad_hatter/core_plugin/tools.py'' = Inl (KeyError ''cat'')"
    by (simp add: get_plugin_def Let_def)
qed

text \<open>Reading and saving the settings of the core plugin gives an empty dictionary and leaves its folder alone.\<close>

lemma core_settings_empty:
  assumes "pf_overrides p = core_overrides"
  shows "plugin_load_settings J p = (Inr (PDict []), p)" and "plugin_save_settings J d p = (Inr (PDict []), p)"
    and "settings_schema p = Inr (sm_schema core_settings_model)"
  using assms by (simp_all add: plugin_load_settings_def plugin_save_settings_def settings_schema_def core_overrides_def)

end
