(* ===== verification/Console.thy ===== *)
theory Console
  imports Environment
begin

text \<open>
  What the program tells its operator: the log (\<open>log.py\<close>) and the helpers of \<open>utils.py\<close> that write to it, with the caller they name
  (\<open>get_caller_info\<close>).  The console is the list of lines printed, each with its level, and the traces on the error stream.  Colours are left out.
\<close>


section \<open>The log (log.py)\<close>

record console =
  out_lines :: "(string \<times> string) list"
  err_traces :: "string list"

text \<open>The levels of the logging library.\<close>

definition level_no :: "string \<Rightarrow> nat option" where
  "level_no = map_of [(''TRACE'', 5), (''DEBUG'', 10), (''INFO'', 20), (''SUCCESS'', 25), (''WARNING'', 30), (''ERROR'', 40), (''CRITICAL'', 50)]"

text \<open>A text, a dictionary or list with what \<open>json.dumps\<close> makes of it, or another object with what \<open>pformat\<close> makes of it.\<close>

datatype log_message = LogText string | LogData "string result" | LogObject string

definition prettify :: "log_message \<Rightarrow> string result" where
  "prettify msg =
     (case msg of
        LogText s \<Rightarrow> Inr s
      | LogData (Inr s) \<Rightarrow> Inr s
      | LogData (Inl _) \<Rightarrow> Inl (AttributeError ''split'')
      | LogObject s \<Rightarrow> Inr s)"

definition show_log_level :: "string \<Rightarrow> string \<Rightarrow> bool" where
  "show_log_level LOG_LEVEL level =
     (case (level_no level, level_no LOG_LEVEL) of (Some n, Some m) \<Rightarrow> m \<le> n | _ \<Rightarrow> False)"

text \<open>The start of the log: an unknown level in the environment raises, and the program does not start.\<close>

definition cat_log_engine :: "environ \<Rightarrow> string result" where
  "cat_log_engine env =
     (case get_env env ''CCAT_LOG_LEVEL'' of
        Some l \<Rightarrow> (case level_no l of Some _ \<Rightarrow> Inr l | None \<Rightarrow> Inl (ValueError l))
      | None \<Rightarrow> Inl TypeError)"

definition cat_log :: "string \<Rightarrow> log_message \<Rightarrow> string \<Rightarrow> console \<Rightarrow> py_exc option \<times> console" where
  "cat_log LOG_LEVEL msg level c =
     (case prettify msg of
        Inl e \<Rightarrow> (Some e, c)
      | Inr s \<Rightarrow>
          if level_no level = None then (Some (ValueError level), c)
          else (None, fold (\<lambda>line c. if show_log_level LOG_LEVEL level then c\<lparr>out_lines := out_lines c @ [(level, line)]\<rparr> else c)
                        (split_on CHR 0x0A s) c))"

definition log_debug :: "string \<Rightarrow> log_message \<Rightarrow> console \<Rightarrow> py_exc option \<times> console" where
  "log_debug L msg = cat_log L msg ''DEBUG''"

definition log_info :: "string \<Rightarrow> log_message \<Rightarrow> console \<Rightarrow> py_exc option \<times> console" where
  "log_info L msg = cat_log L msg ''INFO''"

definition log_warning :: "string \<Rightarrow> log_message \<Rightarrow> console \<Rightarrow> py_exc option \<times> console" where
  "log_warning L msg = cat_log L msg ''WARNING''"

text \<open>\<open>handled\<close> is the trace of the exception that is being handled, if one is.\<close>

definition with_trace :: "string option \<Rightarrow> py_exc option \<times> console \<Rightarrow> py_exc option \<times> console" where
  "with_trace handled r =
     (case r of
        (Some e, c) \<Rightarrow> (Some e, c)
      | (None, c) \<Rightarrow> (None, case handled of None \<Rightarrow> c | Some trace \<Rightarrow> c\<lparr>err_traces := err_traces c @ [trace]\<rparr>))"

definition log_error :: "string \<Rightarrow> string option \<Rightarrow> log_message \<Rightarrow> console \<Rightarrow> py_exc option \<times> console" where
  "log_error L handled msg c = with_trace handled (cat_log L msg ''ERROR'' c)"

definition log_critical :: "string \<Rightarrow> string option \<Rightarrow> log_message \<Rightarrow> console \<Rightarrow> py_exc option \<times> console" where
  "log_critical L handled msg c = with_trace handled (cat_log L msg ''CRITICAL'' c)"

text \<open>The addresses in the welcome message.\<close>

definition cat_address :: "environ \<Rightarrow> string" where
  "cat_address env =
     (let secure = (if get_env env ''CCAT_CORE_USE_SECURE_PROTOCOLS'' \<in> {Some ''true'', Some ''1''} then ''s'' else [])
      in ''http'' @ secure @ ''://'' @ show_env (get_env env ''CCAT_CORE_HOST'') @ '':'' @ show_env (get_env env ''CCAT_CORE_PORT''))"

definition welcome_lines :: "environ \<Rightarrow> string \<Rightarrow> string list" where
  "welcome_lines env picture =
     (let left_margin = replicate 15 CHR '' ''
      in [picture, left_margin @ '' Cat REST API:   '' @ cat_address env @ ''/docs'', left_margin @ '' Cat ADMIN:      '' @ cat_address env @ ''/admin''])"


section \<open>Callers (utils.py)\<close>

text \<open>
  A frame of the stack: its module, if the interpreter finds one, the class of the local \<open>self\<close>, if there is one, the name of the code and the line.
\<close>

record frame =
  fr_module :: "string option"
  fr_self :: "string option"
  fr_code :: string
  fr_line :: nat

datatype caller_info =
    CallerName string
  | CallerTuple string string string "string option" nat

text \<open>The stack begins with the frame of the function itself.  Package and module are unbound when there is no module.\<close>

definition get_caller_info :: "nat \<Rightarrow> bool \<Rightarrow> bool \<Rightarrow> frame list \<Rightarrow> caller_info option result" where
  "get_caller_info skip return_short return_string stack =
     (if length stack < skip + 1 then Inr None
      else
        (let f = stack ! skip;
             parts = map_option (split_on CHR ''.'') (fr_module f);
             klass = (case fr_self f of None \<Rightarrow> [] | Some k \<Rightarrow> k);
             caller = (if fr_code f \<noteq> ''<module>'' then Some (fr_code f) else None);
             caller_text = (case caller of None \<Rightarrow> ''None'' | Some n \<Rightarrow> n)
         in if return_string \<and> return_short then Inr (Some (CallerName (klass @ ''.'' @ caller_text)))
            else (case parts of
                    None \<Rightarrow> Inl (Exception ''UnboundLocalError'')
                  | Some m \<Rightarrow>
                      if return_string
                      then Inr (Some (CallerName (hd m @ ''.'' @ join_with ''.'' (tl m) @ ''.'' @ klass @ ''.'' @ caller_text @ ''::'' @ show_nat (fr_line f))))
                      else Inr (Some (CallerTuple (hd m) (join_with ''.'' (tl m)) klass caller (fr_line f))))))"

definition deprecation_warning :: "string \<Rightarrow> string \<Rightarrow> nat \<Rightarrow> frame list \<Rightarrow> console \<Rightarrow> py_exc option \<times> console" where
  "deprecation_warning L message skip stack c =
     (case get_caller_info skip False True stack of
        Inl e \<Rightarrow> (Some e, c)
      | Inr caller \<Rightarrow>
          (let caller = (case caller of Some (CallerName s) \<Rightarrow> s | _ \<Rightarrow> ''None'')
           in log_warning L (LogText (caller @ '' Deprecation Warning: '' @ message @ '')'')) c))"

definition billing_message :: string where
  "billing_message =
     ''Your OpenAI key is not active or you did not add a payment method.'' @ [CHR 0x0A] @
     ''You need a credit card - and money in it - to use OpenAI api.'' @ [CHR 0x0A] @
     ''HOW TO FIX: go to your OpenAI accont and add a credit card''"

text \<open>The function is called while the exception is handled.\<close>

definition explicit_error_message :: "string \<Rightarrow> string option \<Rightarrow> string \<Rightarrow> console \<Rightarrow> string \<times> console" where
  "explicit_error_message L handled description c =
     (if contains ''billing details'' description
      then (billing_message, snd (log_error L handled (LogText billing_message) c))
      else (description, c))"


section \<open>Lemmas\<close>

lemma fold_lines:
  "fold (\<lambda>line c. if b then c\<lparr>out_lines := out_lines c @ [(level, line)]\<rparr> else c) ls c =
     c\<lparr>out_lines := out_lines c @ (if b then map (Pair level) ls else [])\<rparr>"
  by (induction ls arbitrary: c) simp_all

text \<open>A message is printed whole, line by line, or not at all; joining the lines gives it back.  What is printed grows as the threshold falls.\<close>

lemma log_text:
  assumes "level_no level = Some n" and "level_no L = Some m" and "prettify msg = Inr s"
  shows "cat_log L msg level c = (None, c\<lparr>out_lines := out_lines c @ (if m \<le> n then map (Pair level) (split_on CHR 0x0A s) else [])\<rparr>) \<and>
    join_with [CHR 0x0A] (map snd (map (Pair level) (split_on CHR 0x0A s))) = s"
  using assms by (simp add: cat_log_def fold_lines show_log_level_def comp_def)

lemma log_level_antimono:
  assumes "show_log_level L level" and "level_no L' = Some m'" and "level_no L = Some m" and "m' \<le> m"
  shows "show_log_level L' level"
  using assms by (auto simp: show_log_level_def split: option.splits)

text \<open>A dictionary that has no JSON form makes the logging call raise.\<close>

lemma log_unserialisable: "cat_log L (LogData (Inl e)) level c = (Some (AttributeError ''split''), c)"
  by (simp add: cat_log_def prettify_def)

text \<open>The welcome message names the addresses the functions of \<open>utils.py\<close> give.\<close>

lemma cat_address_base: "cat_address env @ ''/'' = get_base_url env"
  by (simp add: cat_address_def get_base_url_def Let_def)

text \<open>What is skipped does not matter, and the short form needs no module.\<close>

lemma caller_info_skips: "length xs = skip \<Longrightarrow> get_caller_info skip s t (xs @ f # ys) = get_caller_info 0 s t (f # ys)"
  by (simp add: get_caller_info_def nth_append)

lemma caller_name:
  assumes "fr_module f = Some (p @ ''.'' @ m)" and "CHR ''.'' \<notin> set p" and "fr_code f \<noteq> ''<module>''"
  shows "get_caller_info 0 False False (f # fs) =
    Inr (Some (CallerTuple p m (case fr_self f of None \<Rightarrow> [] | Some k \<Rightarrow> k) (Some (fr_code f)) (fr_line f)))"
proof -
  have "split_on CHR ''.'' (p @ ''.'' @ m) = p # split_on CHR ''.'' m" using split_on_append [OF assms(2), of m] by simp
  then show ?thesis using assms(1,3) by (simp add: get_caller_info_def)
qed

end
