(* ===== verification/Iso_Text.thy ===== *)
theory Iso_Text
  imports Py_Text
begin

text \<open>
  Identifiers and text helpers of the ISO 26262 core plugin
  (\<open>AI_Agent-Core_Assistant/id_generation.py\<close>, \<open>utils.py\<close>, \<open>traceability.py\<close>): slugs,
  artifact identifiers, version numbers, coercion of tool input, and the traceability section.
  The JSON decoder is an argument of \<open>parse_tool_input\<close>: \<open>None\<close> is its \<open>JSONDecodeError\<close>.
\<close>


section \<open>id\_generation.py\<close>

text \<open>\<open>re.sub("[p]+", r, s)\<close> for a character class given as a predicate.\<close>

function sub_runs :: "(char \<Rightarrow> bool) \<Rightarrow> string \<Rightarrow> string \<Rightarrow> string" where
  "sub_runs p r [] = []"
| "sub_runs p r (c # cs) = (if p c then r @ sub_runs p r (dropWhile p cs) else c # sub_runs p r cs)"
  by pat_completeness auto
termination
  by (relation "measure (\<lambda>(p, r, s). length s)") (auto simp: less_Suc_eq_le length_dropWhile_le)

definition slug_char :: "char \<Rightarrow> bool" where
  "slug_char c = (let n = (of_char c :: nat) in 97 \<le> n \<and> n \<le> 122 \<or> 48 \<le> n \<and> n \<le> 57)"

definition slugify :: "pyval \<Rightarrow> string" where
  "slugify value =
     (if value = PNone then ''''
      else
        let cleaned = lower (strip (py_str value));
            cleaned = sub_runs (\<lambda>c. \<not> slug_char c) ''_'' cleaned;
            cleaned = strip_of (\<lambda>c. c = CHR ''_'') cleaned
        in if cleaned \<noteq> [] then cleaned else ''unnamed'')"

text \<open>The time stamp and the random suffix are what \<open>utc_timestamp\<close> and \<open>uuid4\<close> return.\<close>

definition new_artifact_id :: "string \<Rightarrow> string \<Rightarrow> string \<Rightarrow> string" where
  "new_artifact_id stamp sfx wp_id = slugify (PStr wp_id) @ ''-'' @ stamp @ ''-'' @ sfx"

definition next_version :: "int list \<Rightarrow> int" where
  "next_version versions = (if versions = [] then 1 else Max (set versions) + 1)"

definition format_version :: "int \<Rightarrow> string" where
  "format_version v = pad_int 2 v"


subsection \<open>Slugs\<close>

text \<open>The shape of a slug: words of lower-case letters and digits joined by single underscores.\<close>

definition slug_ok :: "string \<Rightarrow> bool" where
  "slug_ok s \<longleftrightarrow>
     s \<noteq> [] \<and> (\<forall>c \<in> set s. slug_char c \<or> c = CHR ''_'') \<and>
     hd s \<noteq> CHR ''_'' \<and> last s \<noteq> CHR ''_'' \<and> \<not> contains ''__'' s"

lemma underscore_not_slug [simp]: "\<not> slug_char (CHR ''_'')"
  by (simp add: slug_char_def)

lemma slug_char_lower [simp]: "slug_char c \<Longrightarrow> lower_char c = c"
  by (auto simp: slug_char_def lower_char_def Let_def)

lemma underscore_lower: "lower_char (CHR ''_'') = CHR ''_''"
  by (simp add: lower_char_def)

lemma slug_char_not_space [simp]: "slug_char c \<Longrightarrow> \<not> is_space c"
  by (auto simp: slug_char_def is_space_def Let_def)

lemma sub_runs_chars: "c \<in> set (sub_runs p r s) \<Longrightarrow> \<not> p c \<or> c \<in> set r"
  by (induction p r s rule: sub_runs.induct) (auto split: if_splits)

lemma sub_runs_hd:
  "s \<noteq> [] \<Longrightarrow> \<not> p (hd s) \<Longrightarrow> hd (sub_runs p r s) = hd s \<and> sub_runs p r s \<noteq> []"
  by (cases s) auto

text \<open>After a collapsed run comes a kept character, so the replacement never doubles.\<close>

lemma no_double_underscore:
  "\<not> contains ''__'' (sub_runs (\<lambda>c. \<not> slug_char c) ''_'' s)"
proof (induction "\<lambda>c. \<not> slug_char c" "''_''" s rule: sub_runs.induct)
  case 1
  then show ?case by (simp add: contains_def)
next
  case (2 c cs)
  let ?p = "\<lambda>c. \<not> slug_char c"
  show ?case
  proof (cases "slug_char c")
    case True
    with 2 show ?thesis by (auto simp: contains_sublist sublist_Cons_right)
  next
    case False
    let ?rest = "dropWhile ?p cs"
    have "?rest = [] \<or> slug_char (hd ?rest)"
      using hd_dropWhile [of ?p cs] by auto
    then have "\<not> prefix ''_'' (sub_runs ?p ''_'' ?rest)"
    proof
      assume "?rest = []"
      then show ?thesis by (simp only: sub_runs.simps) simp
    next
      assume h: "slug_char (hd ?rest)"
      show ?thesis
      proof (cases "?rest = []")
        case True
        then show ?thesis by (simp only: sub_runs.simps) simp
      next
        case False
        from h have "hd ?rest \<noteq> CHR ''_''" by (metis underscore_not_slug)
        moreover from sub_runs_hd [OF False, of ?p "''_''"] h
        have "hd (sub_runs ?p ''_'' ?rest) = hd ?rest" by simp
        ultimately show ?thesis by (metis hd_Cons_tl list.sel(1) list.simps(3) prefix_Cons prefix_code(2))
      qed
    qed
    with False 2 show ?thesis by (auto simp: contains_sublist sublist_Cons_right)
  qed
qed

lemma sublist_strip_of: "sublist (strip_of p s) s"
proof -
  have "suffix (dropWhile p s) s" by (rule suffix_dropWhile)
  moreover have "prefix (strip_of p s) (dropWhile p s)"
    unfolding strip_of_def using suffix_dropWhile [of p "rev (dropWhile p s)"]
    by (simp add: suffix_to_prefix)
  ultimately show ?thesis
    by (meson prefix_imp_sublist sublist_order.order.trans suffix_imp_sublist)
qed

lemma contains_strip_of: "contains q (strip_of p s) \<Longrightarrow> contains q s"
  by (meson contains_sublist sublist_order.order.trans sublist_strip_of)

lemma slugify_ok: "v \<noteq> PNone \<Longrightarrow> slug_ok (slugify v)"
proof -
  assume v: "v \<noteq> PNone"
  define t where "t = sub_runs (\<lambda>c. \<not> slug_char c) ''_'' (lower (strip (py_str v)))"
  define u where "u = strip_of (\<lambda>c. c = CHR ''_'') t"
  have eq: "slugify v = (if u \<noteq> [] then u else ''unnamed'')"
    using v by (simp add: slugify_def t_def u_def Let_def)
  show ?thesis
  proof (cases "u = []")
    case True
    have "slug_ok ''unnamed''" by (simp add: slug_ok_def slug_char_def contains_def)
    with True show ?thesis by (simp add: eq)
  next
    case False
    have "\<forall>c \<in> set u. slug_char c \<or> c = CHR ''_''"
      using strip_of_subset [of "\<lambda>c. c = CHR ''_''" t]
      by (auto simp: u_def t_def dest!: sub_runs_chars)
    moreover have "hd u \<noteq> CHR ''_'' \<and> last u \<noteq> CHR ''_''"
      using strip_of_ends [of "\<lambda>c. c = CHR ''_''" t] False by (simp add: u_def)
    moreover have "\<not> contains ''__'' u"
      using contains_strip_of no_double_underscore unfolding u_def t_def by blast
    ultimately show ?thesis using False by (simp add: eq slug_ok_def)
  qed
qed

lemma sub_runs_slug:
  "\<forall>c \<in> set s. slug_char c \<or> c = CHR ''_'' \<Longrightarrow> \<not> contains ''__'' s \<Longrightarrow>
   sub_runs (\<lambda>c. \<not> slug_char c) ''_'' s = s"
proof (induction "\<lambda>c. \<not> slug_char c" "''_''" s rule: sub_runs.induct)
  case 1
  then show ?case by simp
next
  case (2 c cs)
  show ?case
  proof (cases "slug_char c")
    case True
    with 2 show ?thesis by (auto simp: contains_sublist sublist_Cons_right)
  next
    case False
    with 2 have c: "c = CHR ''_''" by auto
    from "2.prems"(2) c have "cs = [] \<or> hd cs \<noteq> CHR ''_''"
      by (cases cs) (auto simp: contains_def)
    with "2.prems"(1) have "cs = [] \<or> slug_char (hd cs)" by (cases cs) auto
    then have d: "dropWhile (\<lambda>c. \<not> slug_char c) cs = cs" by (cases cs) auto
    from 2 c d have "sub_runs (\<lambda>c. \<not> slug_char c) ''_'' cs = cs"
      by (auto simp: contains_sublist sublist_Cons_right)
    with c d show ?thesis by simp
  qed
qed

text \<open>A text of slug shape is its own slug.\<close>

lemma slugify_fixed: "slug_ok s \<Longrightarrow> slugify (PStr s) = s"
proof -
  assume ok: "slug_ok s"
  have nsp: "\<not> is_space c" if "c \<in> set s" for c
  proof -
    have "slug_char c \<or> c = CHR ''_''" using ok that by (auto simp: slug_ok_def)
    moreover have "\<not> is_space (CHR ''_'')" by (simp add: is_space_def)
    ultimately show ?thesis by auto
  qed
  then have "strip s = s"
    using ok unfolding strip_def by (intro strip_of_id) (auto simp: slug_ok_def)
  moreover have "lower s = s"
    unfolding lower_def using ok
    by (intro map_idI) (auto simp: slug_ok_def underscore_lower dest!: bspec)
  moreover have "sub_runs (\<lambda>c. \<not> slug_char c) ''_'' s = s"
    using ok by (intro sub_runs_slug) (auto simp: slug_ok_def)
  moreover have "strip_of (\<lambda>c. c = CHR ''_'') s = s"
    using ok by (intro strip_of_id) (auto simp: slug_ok_def)
  ultimately show ?thesis using ok by (simp add: slugify_def py_str_def slug_ok_def)
qed

lemma next_version_gt: "v \<in> set vs \<Longrightarrow> v < next_version vs"
  by (auto simp: next_version_def less_add_one le_less_trans)


section \<open>utils.py\<close>

abbreviation nl :: char where "nl \<equiv> CHR 0x0A"

definition parse_tool_input :: "(string \<Rightarrow> pyval option) \<Rightarrow> pyval \<Rightarrow> pyval" where
  "parse_tool_input loads tool_input =
     (case tool_input of
        PDict d \<Rightarrow> PDict d
      | PStr s \<Rightarrow>
          (let stripped = strip s in
           if stripped = [] then PDict []
           else case loads stripped of Some v \<Rightarrow> v | None \<Rightarrow> PDict [(''text'', PStr stripped)])
      | _ \<Rightarrow> PDict [])"

text \<open>\<open>data.get(key)\<close> on a decoded tool input: a decoded number or list has no method \<open>get\<close>.\<close>

fun data_get :: "pyval \<Rightarrow> string \<Rightarrow> pyval result" where
  "data_get (PDict d) k = Inr (case dict_get d k of Some v \<Rightarrow> v | None \<Rightarrow> PNone)"
| "data_get _ k = Inl (AttributeError ''get'')"

fun coalesce :: "pyval list \<Rightarrow> pyval" where
  "coalesce [] = PNone"
| "coalesce (v # vs) =
     (case v of
        PNone \<Rightarrow> coalesce vs
      | PStr s \<Rightarrow> if strip s = [] then coalesce vs else v
      | _ \<Rightarrow> v)"

definition nonblank :: "string list \<Rightarrow> string list" where
  "nonblank parts = filter (\<lambda>p. p \<noteq> []) (map strip parts)"

definition ensure_list :: "pyval \<Rightarrow> string list" where
  "ensure_list value =
     (case value of
        PNone \<Rightarrow> []
      | PList items \<Rightarrow> nonblank (map py_str items)
      | PStr s \<Rightarrow>
          (let raw = strip (replace_all [CHR 0x0D] [] s) in
           if raw = [] then []
           else if nl \<in> set raw then nonblank (split_on nl raw)
           else if CHR '';'' \<in> set raw then nonblank (split_on (CHR '';'') raw)
           else [raw])
      | _ \<Rightarrow> [strip (py_str value)])"

definition normalize_text :: "pyval \<Rightarrow> string \<Rightarrow> string" where
  "normalize_text value deflt =
     (if value = PNone then deflt
      else let t = strip (py_str value) in if t \<noteq> [] then t else deflt)"

lemma nonblank_mem: "x \<in> set (nonblank ps) \<Longrightarrow> x \<noteq> [] \<and> strip x = x"
  by (auto simp: nonblank_def)

lemma nonblank_fixed: "\<forall>x \<in> set ps. x \<noteq> [] \<and> strip x = x \<Longrightarrow> nonblank ps = ps"
  by (induction ps) (auto simp: nonblank_def)

text \<open>The entries of text and list input are trimmed and none is blank.\<close>

lemma ensure_list_entries:
  assumes "x \<in> set (ensure_list v)"
  shows "strip x = x \<and> (x \<noteq> [] \<or> (\<exists>d. v = PDict d) \<or> (\<exists>b. v = PBool b) \<or> (\<exists>i. v = PInt i))"
  using assms
  by (cases v) (auto simp: ensure_list_def Let_def dest: nonblank_mem split: if_splits)

text \<open>Feeding the result back as a list changes nothing.\<close>

lemma ensure_list_idem:
  assumes "\<exists>s. v = PStr s \<or> v = PNone \<or> (\<exists>xs. v = PList xs)"
  shows "ensure_list (PList (map PStr (ensure_list v))) = ensure_list v"
proof -
  have "\<forall>x \<in> set (ensure_list v). x \<noteq> [] \<and> strip x = x"
    using assms ensure_list_entries [of _ v] by auto
  then have "nonblank (ensure_list v) = ensure_list v" by (rule nonblank_fixed)
  then show ?thesis by (simp add: ensure_list_def [of "PList _"] py_str_def comp_def)
qed


section \<open>traceability.py\<close>

record upstream_ref =
  ur_artifact_id :: string
  ur_wp_id :: string
  ur_title :: string
  ur_version :: int
  ur_status :: string

definition summarize_ref :: "upstream_ref \<Rightarrow> string" where
  "summarize_ref ref =
     ur_artifact_id ref @ '' ('' @ ur_wp_id ref @ '', v'' @ format_version (ur_version ref) @
     '', '' @ ur_status ref @ '')''"

definition summarize_upstream :: "upstream_ref list \<Rightarrow> string" where
  "summarize_upstream refs = (if refs = [] then ''None'' else join_with ''; '' (map summarize_ref refs))"

definition build_traceability_section :: "upstream_ref list \<Rightarrow> string" where
  "build_traceability_section refs =
     join_with [nl]
       (''## Traceability'' #
        (if refs = [] then [''- No upstream artifacts linked.'']
         else map (\<lambda>ref. ''- '' @ summarize_ref ref @ '' - '' @ ur_title ref) refs))"


section \<open>Properties\<close>

text \<open>
  A slug made from any value but \<open>None\<close> is never empty, consists of lower-case letters,
  digits and single underscores, neither starts nor ends with one, and slugging it again gives
  it back (so the project folder of a stored slug is the folder it was stored under).
\<close>

theorem slugify_shape:
  assumes "v \<noteq> PNone"
  shows "slug_ok (slugify v) \<and> slugify (PStr (slugify v)) = slugify v"
  using slugify_ok [OF assms] slugify_fixed by blast

theorem slugify_shape_witness:
  "slug_ok (slugify (PStr ''  Brake--By Wire! '')) \<and>
   slugify (PStr (slugify (PStr ''  Brake--By Wire! ''))) = slugify (PStr ''  Brake--By Wire! '') \<and>
   slugify (PStr ''  Brake--By Wire! '') = ''brake_by_wire''"
proof -
  have "PStr ''  Brake--By Wire! '' \<noteq> PNone" by simp
  moreover have "slugify (PStr ''  Brake--By Wire! '') = ''brake_by_wire''" by code_simp
  ultimately show ?thesis using slugify_shape by blast
qed

end
