(* ===== verification/Artifact_Store.thy ===== *)
theory Artifact_Store
  imports Iso_Text
begin

text \<open>
  The artifact store of the ISO 26262 core plugin (\<open>artifact_store.py\<close>, and the slug default of
  \<open>config.py\<close>).  The workspace is the dictionary of its files below the workspace root: a path is
  its list of components, a file is a markdown document, a metadata side file, or a file that
  does not decode.  The order of the dictionary is the order in which \<open>glob\<close> lists files; no
  theorem depends on it.  Metadata is the record of the fields \<open>build_metadata\<close> writes; the
  fields added later (\<open>artifact_path\<close>, \<open>metadata_path\<close>, \<open>superseded_by\<close>) are optional.
  Directory creation has no effect on the files and is left out.  The clock and the random
  suffix of identifiers are arguments.
\<close>


section \<open>Metadata\<close>

abbreviation STATUS_DRAFT :: string where "STATUS_DRAFT \<equiv> ''DRAFT''"
abbreviation STATUS_IN_REVIEW :: string where "STATUS_IN_REVIEW \<equiv> ''IN_REVIEW''"
abbreviation STATUS_APPROVED :: string where "STATUS_APPROVED \<equiv> ''APPROVED''"
abbreviation STATUS_SUPERSEDED :: string where "STATUS_SUPERSEDED \<equiv> ''SUPERSEDED''"

type_synonym path = "string list"

record status_entry =
  se_status :: string
  se_date :: string
  se_note :: string

record metadata =
  m_artifact_id :: string
  m_wp_id :: string
  m_title :: string
  m_phase :: string
  m_project_slug :: string
  m_version :: int
  m_status :: string
  m_created_at :: string
  m_updated_at :: string
  m_author :: pyval
  m_reviewer :: pyval
  m_review_notes :: string
  m_approved_at :: string
  m_locked :: bool
  m_supersedes :: "(string \<times> int) option"
  m_change_requests :: "string list"
  m_upstream_refs :: "upstream_ref list"
  m_status_history :: "status_entry list"
  m_artifact_path :: "path option"
  m_metadata_path :: "path option"
  m_superseded_by :: "(string \<times> int) option"

text \<open>\<open>normalize_project_slug\<close> of \<open>config.py\<close>.\<close>

definition normalize_project_slug :: "pyval \<Rightarrow> string" where
  "normalize_project_slug value = (if \<not> truthy value then ''default_project'' else slugify value)"

definition build_metadata ::
  "string \<Rightarrow> string \<Rightarrow> string \<Rightarrow> pyval \<Rightarrow> string \<Rightarrow> string \<Rightarrow> string \<Rightarrow> pyval \<Rightarrow> pyval
     \<Rightarrow> upstream_ref list \<Rightarrow> string option \<Rightarrow> int \<Rightarrow> string \<Rightarrow> (string \<times> int) option \<Rightarrow> string list
     \<Rightarrow> metadata" where
  "build_metadata now stamp sfx slug phase wp_id title author reviewer refs aid version status
      supersedes changes =
     \<lparr>m_artifact_id = (case aid of Some a \<Rightarrow> if a \<noteq> [] then a else new_artifact_id stamp sfx wp_id
                                | None \<Rightarrow> new_artifact_id stamp sfx wp_id),
      m_wp_id = wp_id, m_title = title, m_phase = phase,
      m_project_slug = normalize_project_slug slug,
      m_version = version, m_status = status, m_created_at = now, m_updated_at = now,
      m_author = author,
      m_reviewer = (if truthy reviewer then reviewer else PStr ''''),
      m_review_notes = '''', m_approved_at = '''', m_locked = False,
      m_supersedes = supersedes, m_change_requests = changes, m_upstream_refs = refs,
      m_status_history = [\<lparr>se_status = status, se_date = now, se_note = ''created''\<rparr>],
      m_artifact_path = None, m_metadata_path = None, m_superseded_by = None\<rparr>"

definition record_status_change :: "string \<Rightarrow> string \<Rightarrow> string \<Rightarrow> metadata \<Rightarrow> metadata" where
  "record_status_change now status note m =
     m\<lparr>m_status := status, m_updated_at := now,
       m_status_history := m_status_history m @ [\<lparr>se_status = status, se_date = now, se_note = note\<rparr>]\<rparr>"


section \<open>The store\<close>

datatype file_content = MdFile string | MetaFile metadata | Undecodable

type_synonym store = "(path, file_content) dict"

definition project_root :: "string \<Rightarrow> path" where
  "project_root slug = [normalize_project_slug (PStr slug)]"

definition artifact_dir :: "string \<Rightarrow> string \<Rightarrow> string \<Rightarrow> path" where
  "artifact_dir slug phase wp_id = project_root slug @ [phase, wp_id]"

definition build_paths :: "string \<Rightarrow> string \<Rightarrow> string \<Rightarrow> string \<Rightarrow> int \<Rightarrow> path \<times> path" where
  "build_paths slug phase wp_id aid version =
     (let version_tag = format_version version;
          base_dir = artifact_dir slug phase wp_id;
          filename = aid @ ''_v'' @ version_tag
      in (base_dir @ [filename @ ''.md''], base_dir @ [filename @ ''.json'']))"

abbreviation meta_paths :: "metadata \<Rightarrow> path \<times> path" where
  "meta_paths m \<equiv> build_paths (m_project_slug m) (m_phase m) (m_wp_id m) (m_artifact_id m) (m_version m)"

definition save_artifact :: "metadata \<Rightarrow> string \<Rightarrow> store \<Rightarrow> metadata \<times> store" where
  "save_artifact m content s =
     (case meta_paths m of
        (md_path, json_path) \<Rightarrow>
          let m' = m\<lparr>m_artifact_path := Some md_path, m_metadata_path := Some json_path\<rparr>
          in (m', dict_set json_path (MetaFile m') (dict_set md_path (MdFile content) s)))"

definition load_metadata :: "path \<Rightarrow> store \<Rightarrow> metadata option" where
  "load_metadata p s = (case dict_get s p of Some (MetaFile m) \<Rightarrow> Some m | _ \<Rightarrow> None)"

text \<open>The \<open>glob\<close> pattern \<open>*_v*.json\<close> on a file name.\<close>

definition matches_meta :: "string \<Rightarrow> bool" where
  "matches_meta name \<longleftrightarrow> suffix ''.json'' name \<and> contains ''_v'' (take (length name - 5) name)"

definition opt_component :: "string option \<Rightarrow> path" where
  "opt_component x = (case x of Some c \<Rightarrow> if c \<noteq> [] then [c] else [] | None \<Rightarrow> [])"

definition list_metadata :: "string option \<Rightarrow> string option \<Rightarrow> string option \<Rightarrow> store \<Rightarrow> metadata list" where
  "list_metadata slug phase wp_id s =
     (let base = (case slug of Some c \<Rightarrow> if c \<noteq> [] then project_root c else [] | None \<Rightarrow> []) @
                 opt_component phase @ opt_component wp_id;
          paths = filter (\<lambda>p. strict_prefix base p \<and> matches_meta (last p)) (dict_keys s)
      in List.map_filter (\<lambda>p. load_metadata p s) paths)"

definition get_latest_by_id :: "pyval \<Rightarrow> string option \<Rightarrow> store \<Rightarrow> metadata option" where
  "get_latest_by_id aid slug s =
     max_by m_version (filter (\<lambda>m. PStr (m_artifact_id m) = aid) (list_metadata slug None None s))"

definition get_latest_by_wp :: "string \<Rightarrow> string \<Rightarrow> string \<Rightarrow> string option \<Rightarrow> store \<Rightarrow> metadata option" where
  "get_latest_by_wp slug phase wp_id status s =
     (let metas = list_metadata (Some slug) (Some phase) (Some wp_id) s;
          metas = (case status of
                     Some st \<Rightarrow> if st \<noteq> [] then filter (\<lambda>m. m_status m = st) metas else metas
                   | None \<Rightarrow> metas)
      in max_by m_version metas)"

record requirement =
  rq_phase :: string
  rq_wp_id :: string
  rq_status :: "string option"

fun resolve_upstream :: "string \<Rightarrow> requirement list \<Rightarrow> store \<Rightarrow> metadata list \<times> requirement list" where
  "resolve_upstream slug [] s = ([], [])"
| "resolve_upstream slug (req # reqs) s =
     (let status = (case rq_status req of Some st \<Rightarrow> st | None \<Rightarrow> STATUS_APPROVED);
          (upstream, missing) = resolve_upstream slug reqs s
      in case get_latest_by_wp slug (rq_phase req) (rq_wp_id req) (Some status) s of
           Some m \<Rightarrow> (m # upstream, missing)
         | None \<Rightarrow> (upstream, req # missing))"

definition update_metadata :: "metadata \<Rightarrow> store \<Rightarrow> metadata \<times> store" where
  "update_metadata m s =
     (case m_metadata_path m of
        Some p \<Rightarrow> (m, dict_set p (MetaFile m) s)
      | None \<Rightarrow>
          (case meta_paths m of
             (md_path, json_path) \<Rightarrow>
               let m' = m\<lparr>m_metadata_path := Some json_path, m_artifact_path := Some md_path\<rparr>
               in (m', dict_set json_path (MetaFile m') s)))"

definition read_artifact_content :: "metadata \<Rightarrow> store \<Rightarrow> string" where
  "read_artifact_content m s =
     (let md_path = (case m_artifact_path m of Some p \<Rightarrow> p | None \<Rightarrow> fst (meta_paths m))
      in case dict_get s md_path of Some (MdFile content) \<Rightarrow> content | _ \<Rightarrow> '''')"

text \<open>\<open>make_upstream_refs\<close> of \<open>traceability.py\<close>.\<close>

definition make_upstream_refs :: "metadata list \<Rightarrow> upstream_ref list" where
  "make_upstream_refs metas =
     map (\<lambda>m. \<lparr>ur_artifact_id = m_artifact_id m, ur_wp_id = m_wp_id m, ur_title = m_title m,
               ur_version = m_version m, ur_status = m_status m\<rparr>) metas"


section \<open>Well-formed stores\<close>

definition metas :: "store \<Rightarrow> metadata set" where
  "metas s = {m. \<exists>p. (p, MetaFile m) \<in> set s}"

text \<open>
  A side file sits at the path computed from its own fields, knows its two paths, and is the
  only one there; an artifact identifier belongs to one work product of one project; versions
  count from one.
\<close>

definition meta_ok :: "path \<Rightarrow> metadata \<Rightarrow> bool" where
  "meta_ok p m \<longleftrightarrow>
     meta_paths m = (the (m_artifact_path m), p) \<and> m_artifact_path m \<noteq> None \<and>
     m_metadata_path m = Some p \<and> 1 \<le> m_version m \<and>
     slug_ok (m_project_slug m)"

definition same_product :: "metadata \<Rightarrow> metadata \<Rightarrow> bool" where
  "same_product m n \<longleftrightarrow>
     m_project_slug m = m_project_slug n \<and> m_phase m = m_phase n \<and> m_wp_id m = m_wp_id n"

definition store_ok :: "store \<Rightarrow> bool" where
  "store_ok s \<longleftrightarrow>
     dict_ok s \<and> (\<forall>p m. (p, MetaFile m) \<in> set s \<longrightarrow> meta_ok p m) \<and>
     (\<forall>m \<in> metas s. \<forall>n \<in> metas s. m_artifact_id m = m_artifact_id n \<longrightarrow> same_product m n)"


subsection \<open>Paths\<close>

lemma normalize_slug_fixed: "slug_ok s \<Longrightarrow> normalize_project_slug (PStr s) = s"
  by (auto simp: normalize_project_slug_def slugify_fixed slug_ok_def)

lemma normalize_slug_ok: "slug_ok (normalize_project_slug v)"
proof (cases "truthy v")
  case True
  then have "v \<noteq> PNone" by auto
  with True show ?thesis by (simp add: normalize_project_slug_def slugify_ok)
next
  case False
  then show ?thesis by (simp add: normalize_project_slug_def slug_ok_def slug_char_def contains_def)
qed

lemma normalize_slug_idem [simp]:
  "normalize_project_slug (PStr (normalize_project_slug v)) = normalize_project_slug v"
  by (simp add: normalize_slug_fixed normalize_slug_ok)

lemmas path_defs = build_paths_def artifact_dir_def project_root_def Let_def

lemma build_paths_differ: "fst (build_paths sl ph wp a v) \<noteq> snd (build_paths sl' ph' wp' a' v')"
  by (auto simp: path_defs dest: arg_cong [where f = "\<lambda>x. last x"] arg_cong [where f = rev])

lemma build_paths_version_inj:
  "snd (build_paths sl ph wp a v) = snd (build_paths sl ph wp a v') \<Longrightarrow> 0 \<le> v \<Longrightarrow> 0 \<le> v' \<Longrightarrow> v = v'"
  by (auto simp: path_defs format_version_def dest: pad_int_inj)

lemma json_name_matches: "matches_meta (last (snd (build_paths sl ph wp a v)))"
proof -
  have "sublist ''_v'' (a @ ''_v'' @ format_version v)"
    by (metis sublist_appendI)
  then show ?thesis
    by (simp add: path_defs matches_meta_def contains_sublist suffix_def)
qed

text \<open>The file name determines the identifier and the version: the tag after the last \<open>_v\<close> is all digits.\<close>

lemma version_tag_inj:
  assumes "a @ ''_v'' @ d = a' @ ''_v'' @ d'" and "\<forall>c \<in> set d. is_digit c" and "\<forall>c \<in> set d'. is_digit c"
  shows "a = a' \<and> d = d'"
proof -
  have v: "\<not> is_digit (CHR ''v'')" by (simp add: is_digit_def)
  have tag: "takeWhile is_digit (rev (b @ ''_v'' @ e)) = rev e" if "\<forall>c \<in> set e. is_digit c" for b e
    using that v takeWhile_append2 [of "rev e" is_digit "CHR ''v'' # CHR ''_'' # rev b"] by simp
  from tag [OF assms(2), of a] tag [OF assms(3), of a'] assms(1) have "rev d = rev d'" by metis
  with assms(1) show ?thesis by simp
qed

lemma build_paths_inj:
  assumes "snd (build_paths sl ph wp a v) = snd (build_paths sl' ph' wp' a' v')" and "0 \<le> v" and "0 \<le> v'"
  shows "a = a' \<and> v = v' \<and> ph = ph' \<and> wp = wp' \<and>
         normalize_project_slug (PStr sl) = normalize_project_slug (PStr sl')"
proof -
  from assms(1) have "a @ ''_v'' @ format_version v = a' @ ''_v'' @ format_version v'"
    by (simp add: path_defs)
  then have "a = a' \<and> format_version v = format_version v'"
    using assms(2,3) by (intro version_tag_inj) (auto simp: format_version_def intro: pad_int_digits)
  with assms show ?thesis by (auto simp: path_defs format_version_def dest: pad_int_inj)
qed

text \<open>The markdown and the side file of one (identifier, version) pair are paired the same way.\<close>

lemma md_json_paths:
  "fst (build_paths sl ph wp a v) = fst (build_paths sl' ph' wp' a' v') \<longleftrightarrow>
   snd (build_paths sl ph wp a v) = snd (build_paths sl' ph' wp' a' v')"
  by (auto simp: path_defs)


subsection \<open>The metadata in a store\<close>

lemma store_okD:
  assumes "store_ok s"
  shows "dict_ok s" and "(p, MetaFile m) \<in> set s \<Longrightarrow> meta_ok p m"
    and "m \<in> metas s \<Longrightarrow> n \<in> metas s \<Longrightarrow> m_artifact_id m = m_artifact_id n \<Longrightarrow> same_product m n"
  using assms by (auto simp: store_ok_def)

lemma meta_okD:
  assumes "meta_ok p m"
  shows "snd (meta_paths m) = p" and "m_artifact_path m = Some (fst (meta_paths m))"
    and "m_metadata_path m = Some p" and "1 \<le> m_version m" and "slug_ok (m_project_slug m)"
  using assms by (auto simp: meta_ok_def)

lemma metasI: "(p, MetaFile m) \<in> set s \<Longrightarrow> m \<in> metas s"
  by (auto simp: metas_def)

lemma metas_at: "store_ok s \<Longrightarrow> m \<in> metas s \<Longrightarrow> (snd (meta_paths m), MetaFile m) \<in> set s"
  by (auto simp: metas_def store_ok_def meta_ok_def)

lemma metas_ok: "store_ok s \<Longrightarrow> m \<in> metas s \<Longrightarrow> meta_ok (snd (meta_paths m)) m"
  by (auto simp: metas_def store_ok_def meta_ok_def)

lemma metas_eqI:
  assumes "store_ok s" and "m \<in> metas s" and "n \<in> metas s" and "snd (meta_paths m) = snd (meta_paths n)"
  shows "m = n"
proof -
  have "(snd (meta_paths m), MetaFile m) \<in> set s" and "(snd (meta_paths m), MetaFile n) \<in> set s"
    using metas_at assms by metis+
  with store_okD(1) [OF assms(1)] have "MetaFile m = MetaFile n" by (metis map_of_is_SomeI option.inject)
  then show ?thesis by simp
qed

text \<open>In a well-formed store the identifier and the version pick one metadata record.\<close>

lemma metas_unique:
  assumes "store_ok s" and "m \<in> metas s" and "n \<in> metas s"
    and "m_artifact_id m = m_artifact_id n" and "m_version m = m_version n"
  shows "m = n"
proof -
  have "same_product m n" by (rule store_okD(3)) (use assms in auto)
  with assms show ?thesis by (intro metas_eqI) (auto simp: same_product_def)
qed

lemma set_list_metadata:
  "store_ok s \<Longrightarrow>
   set (list_metadata slug phase wp_id s) =
     {m \<in> metas s.
        strict_prefix ((case slug of Some c \<Rightarrow> if c \<noteq> [] then project_root c else [] | None \<Rightarrow> []) @
          opt_component phase @ opt_component wp_id) (snd (meta_paths m))}"
  (is "_ \<Longrightarrow> _ = {m \<in> metas s. strict_prefix ?base _}")
proof -
  assume ok: "store_ok s"
  have get: "load_metadata p s = Some m \<longleftrightarrow> (p, MetaFile m) \<in> set s" for p m
    unfolding dict_get_mem [OF store_okD(1) [OF ok], symmetric]
    by (auto simp: load_metadata_def split: option.splits file_content.splits)
  have filt: "set (List.map_filter f xs) = {y. \<exists>x \<in> set xs. f x = Some y}"
    for f :: "path \<Rightarrow> metadata option" and xs
    by (induction xs) (auto simp: List.map_filter_simps split: option.splits)
  have "set (list_metadata slug phase wp_id s) =
      {m. \<exists>p. (p, MetaFile m) \<in> set s \<and> strict_prefix ?base p \<and> matches_meta (last p)}"
    unfolding list_metadata_def Let_def filt get by force
  also have "\<dots> = {m \<in> metas s. strict_prefix ?base (snd (meta_paths m))}"
  proof (intro Collect_cong iffI; elim exE conjE)
    fix m p
    assume p: "(p, MetaFile m) \<in> set s" "strict_prefix ?base p"
    from ok p(1) have "snd (meta_paths m) = p" by (intro meta_okD(1) store_okD(2))
    with p show "m \<in> metas s \<and> strict_prefix ?base (snd (meta_paths m))"
      by (simp only: metasI simp_thms)
  next
    fix m
    assume "m \<in> metas s" and "strict_prefix ?base (snd (meta_paths m))"
    then show "\<exists>p. (p, MetaFile m) \<in> set s \<and> strict_prefix ?base p \<and> matches_meta (last p)"
      using metas_at [OF ok] json_name_matches by blast
  qed
  finally show ?thesis .
qed

lemma set_list_all: "store_ok s \<Longrightarrow> set (list_metadata None None None s) = metas s"
  by (auto simp: set_list_metadata opt_component_def path_defs strict_prefix_def)

lemma set_list_product:
  assumes "store_ok s" and "sl \<noteq> []" and "ph \<noteq> []" and "wp \<noteq> []"
  shows "set (list_metadata (Some sl) (Some ph) (Some wp) s) =
    {m \<in> metas s. m_project_slug m = normalize_project_slug (PStr sl) \<and> m_phase m = ph \<and> m_wp_id m = wp}"
proof -
  have "normalize_project_slug (PStr (m_project_slug m)) = m_project_slug m" if "m \<in> metas s" for m
    using normalize_slug_fixed [OF meta_okD(5)] metas_ok [OF assms(1) that] by blast
  with assms show ?thesis
    by (auto simp: set_list_metadata opt_component_def path_defs strict_prefix_def)
qed

lemma latest_mem:
  "store_ok s \<Longrightarrow> get_latest_by_id aid None s = Some m \<Longrightarrow>
   m \<in> metas s \<and> PStr (m_artifact_id m) = aid \<and>
   (\<forall>n \<in> metas s. m_artifact_id n = m_artifact_id m \<longrightarrow> m_version n \<le> m_version m)"
  unfolding get_latest_by_id_def
  using max_by_mem [of m_version _ m] max_by_ge [of m_version _ m]
  by (fastforce simp: set_list_all)

lemma latest_None:
  "store_ok s \<Longrightarrow>
   get_latest_by_id aid None s = None \<longleftrightarrow> (\<forall>m \<in> metas s. PStr (m_artifact_id m) \<noteq> aid)"
  by (auto simp: get_latest_by_id_def filter_empty_conv set_list_all)

lemma latestI:
  assumes "store_ok s" and "m \<in> metas s"
    and "\<And>n. n \<in> metas s \<Longrightarrow> m_artifact_id n = m_artifact_id m \<Longrightarrow> m_version n \<le> m_version m"
  shows "get_latest_by_id (PStr (m_artifact_id m)) None s = Some m"
  unfolding get_latest_by_id_def
proof (rule max_by_unique)
  show "m \<in> set (filter (\<lambda>n. PStr (m_artifact_id n) = PStr (m_artifact_id m)) (list_metadata None None None s))"
    using assms(1,2) by (simp add: set_list_all)
next
  fix y
  assume "y \<in> set (filter (\<lambda>n. PStr (m_artifact_id n) = PStr (m_artifact_id m)) (list_metadata None None None s))"
    and "y \<noteq> m"
  then have y: "y \<in> metas s" "m_artifact_id y = m_artifact_id m" "y \<noteq> m"
    using assms(1) by (simp_all add: set_list_all)
  with assms(3) have "m_version y \<le> m_version m" by blast
  moreover have "m_version y \<noteq> m_version m"
    using metas_unique [OF assms(1) y(1) assms(2) y(2)] y(3) by blast
  ultimately show "m_version y < m_version m" by simp
qed


subsection \<open>Writing to a store\<close>

lemma metas_write:
  assumes "dict_ok s"
  shows "metas (dict_set p (MetaFile m) s) = insert m {n. \<exists>q. q \<noteq> p \<and> (q, MetaFile n) \<in> set s}"
  by (auto simp: metas_def set_dict_set assms)

lemma metas_write_md:
  assumes "dict_ok s" and "\<And>n. (p, MetaFile n) \<notin> set s"
  shows "metas (dict_set p (MdFile c) s) = metas s"
  using assms by (auto simp: metas_def set_dict_set)

text \<open>The side file of a record is written over the record at the same path and over no other.\<close>

lemma metas_replace:
  assumes "store_ok s" and "snd (meta_paths m) = p"
  shows "metas (dict_set p (MetaFile m) s) = insert m {n \<in> metas s. snd (meta_paths n) \<noteq> p}"
proof -
  have "(\<exists>q. q \<noteq> p \<and> (q, MetaFile n) \<in> set s) \<longleftrightarrow> n \<in> metas s \<and> snd (meta_paths n) \<noteq> p" for n
    using meta_okD(1) [OF store_okD(2) [OF assms(1)], of _ n] metas_at [OF assms(1), of n] metasI [of _ n s]
    by (metis (no_types, lifting))
  then show ?thesis by (simp add: metas_write store_okD(1) [OF assms(1)])
qed

lemma store_ok_write:
  assumes "store_ok s" and "meta_ok p m"
    and "\<And>n. n \<in> metas s \<Longrightarrow> m_artifact_id n = m_artifact_id m \<Longrightarrow> same_product n m"
  shows "store_ok (dict_set p (MetaFile m) s)"
  unfolding store_ok_def
proof (intro conjI ballI allI impI)
  show "dict_ok (dict_set p (MetaFile m) s)" by (rule dict_ok_set) (rule store_okD(1) [OF assms(1)])
next
  fix q n
  assume "(q, MetaFile n) \<in> set (dict_set p (MetaFile m) s)"
  then show "meta_ok q n" using assms(2) store_okD(2) [OF assms(1)] by (auto dest: dict_set_mem)
next
  fix n n'
  assume "n \<in> metas (dict_set p (MetaFile m) s)" "n' \<in> metas (dict_set p (MetaFile m) s)"
    and "m_artifact_id n = m_artifact_id n'"
  then have n: "n = m \<or> n \<in> metas s" "n' = m \<or> n' \<in> metas s"
    and eq: "m_artifact_id n = m_artifact_id n'"
    unfolding metas_replace [OF assms(1) meta_okD(1) [OF assms(2)]] by blast+
  have "same_product n m" if "n \<in> metas s" "n' = m" using assms(3) that eq by simp
  moreover have "same_product m n'" if "n = m" "n' \<in> metas s"
    using assms(3) [of n'] that eq by (simp add: same_product_def)
  moreover have "same_product m m" by (simp add: same_product_def)
  ultimately show "same_product n n'" using n eq store_okD(3) [OF assms(1)] by blast
qed

lemma store_ok_write_md:
  assumes "store_ok s" and "p = fst (build_paths sl ph wp a v)"
  shows "store_ok (dict_set p (MdFile c) s)" and "metas (dict_set p (MdFile c) s) = metas s"
proof -
  have fresh: "(p, MetaFile n) \<notin> set s" for n
  proof
    assume "(p, MetaFile n) \<in> set s"
    then have "snd (meta_paths n) = p" by (rule meta_okD(1) [OF store_okD(2) [OF assms(1)]])
    with assms(2) show False using build_paths_differ by metis
  qed
  show m: "metas (dict_set p (MdFile c) s) = metas s"
    by (rule metas_write_md) (use assms(1) fresh in \<open>auto simp: store_ok_def\<close>)
  show "store_ok (dict_set p (MdFile c) s)"
    using assms(1) unfolding store_ok_def m by (auto dest: dict_set_mem)
qed

text \<open>A record that may be saved: its slug is normalised, its version counts from one, and its
identifier is not used by another work product.\<close>

definition saveable :: "metadata \<Rightarrow> store \<Rightarrow> bool" where
  "saveable m s \<longleftrightarrow>
     slug_ok (m_project_slug m) \<and> 1 \<le> m_version m \<and>
     (\<forall>n \<in> metas s. m_artifact_id n = m_artifact_id m \<longrightarrow> same_product n m)"

lemma save_artifact_eq:
  "save_artifact m c s =
     (let m' = m\<lparr>m_artifact_path := Some (fst (meta_paths m)), m_metadata_path := Some (snd (meta_paths m))\<rparr>
      in (m', dict_set (snd (meta_paths m)) (MetaFile m') (dict_set (fst (meta_paths m)) (MdFile c) s)))"
  by (simp add: save_artifact_def case_prod_unfold)

lemma save_artifact_ok:
  assumes "store_ok s" and "saveable m s" and "save_artifact m c s = (m', s')"
  shows "store_ok s'"
    and "metas s' = insert m' {n \<in> metas s. snd (meta_paths n) \<noteq> snd (meta_paths m)}"
proof -
  let ?s1 = "dict_set (fst (meta_paths m)) (MdFile c) s"
  have s1: "store_ok ?s1" "metas ?s1 = metas s"
    by (rule store_ok_write_md [OF assms(1) refl])+
  have m': "m' = m\<lparr>m_artifact_path := Some (fst (meta_paths m)), m_metadata_path := Some (snd (meta_paths m))\<rparr>"
    and s': "s' = dict_set (snd (meta_paths m)) (MetaFile m') ?s1"
    using assms(3) by (auto simp: save_artifact_eq Let_def)
  have ok: "meta_ok (snd (meta_paths m)) m'"
    using assms(2) by (simp add: m' meta_ok_def saveable_def)
  show "store_ok s'"
    unfolding s' by (rule store_ok_write [OF s1(1) ok])
      (use assms(2) in \<open>auto simp: s1(2) saveable_def same_product_def m'\<close>)
  show "metas s' = insert m' {n \<in> metas s. snd (meta_paths n) \<noteq> snd (meta_paths m)}"
    using metas_replace [OF s1(1), of m' "snd (meta_paths m)"] by (simp add: s' m' s1(2))
qed

lemma update_metadata_ok:
  assumes "store_ok s" and "meta_ok p m"
    and "\<And>n. n \<in> metas s \<Longrightarrow> m_artifact_id n = m_artifact_id m \<Longrightarrow> same_product n m"
    and "update_metadata m s = (m', s')"
  shows "m' = m" and "store_ok s'" and "metas s' = insert m {n \<in> metas s. snd (meta_paths n) \<noteq> p}"
    and "\<And>q. q \<noteq> p \<Longrightarrow> dict_get s' q = dict_get s q"
proof -
  have eq: "m' = m" "s' = dict_set p (MetaFile m) s"
    using assms(4) meta_okD(3) [OF assms(2)] by (auto simp: update_metadata_def)
  show "m' = m" by (rule eq)
  show "store_ok s'" unfolding eq by (rule store_ok_write) (use assms in auto)
  show "metas s' = insert m {n \<in> metas s. snd (meta_paths n) \<noteq> p}"
    unfolding eq by (rule metas_replace [OF assms(1) meta_okD(1) [OF assms(2)]])
  show "\<And>q. q \<noteq> p \<Longrightarrow> dict_get s' q = dict_get s q" by (simp add: eq)
qed

lemma store_ok_empty [simp]: "store_ok []" "metas [] = {}"
  by (simp_all add: store_ok_def metas_def)


subsection \<open>Requirements\<close>

definition req_status :: "requirement \<Rightarrow> string" where
  "req_status r = (case rq_status r of Some st \<Rightarrow> st | None \<Rightarrow> STATUS_APPROVED)"

text \<open>What it means for an artifact to meet a requirement of a project.\<close>

definition meets :: "string \<Rightarrow> requirement \<Rightarrow> metadata \<Rightarrow> bool" where
  "meets slug r m \<longleftrightarrow>
     m_project_slug m = normalize_project_slug (PStr slug) \<and> m_phase m = rq_phase r \<and>
     m_wp_id m = rq_wp_id r \<and> m_status m = req_status r"

lemma latest_by_wp_eq:
  "req_status r \<noteq> [] \<Longrightarrow>
   get_latest_by_wp slug (rq_phase r) (rq_wp_id r) (Some (req_status r)) s =
     max_by m_version (filter (\<lambda>m. m_status m = req_status r)
       (list_metadata (Some slug) (Some (rq_phase r)) (Some (rq_wp_id r)) s))"
  by (simp add: get_latest_by_wp_def Let_def)

lemma candidates:
  assumes "store_ok s" and "slug \<noteq> []" and "rq_phase r \<noteq> []" and "rq_wp_id r \<noteq> []"
  shows "set (filter (\<lambda>m. m_status m = req_status r)
      (list_metadata (Some slug) (Some (rq_phase r)) (Some (rq_wp_id r)) s)) = {m \<in> metas s. meets slug r m}"
  by (auto simp: set_list_product [OF assms] meets_def)

lemma latest_by_wp_None:
  assumes "store_ok s" and "slug \<noteq> []" and "rq_phase r \<noteq> []" and "rq_wp_id r \<noteq> []" and "req_status r \<noteq> []"
  shows "get_latest_by_wp slug (rq_phase r) (rq_wp_id r) (Some (req_status r)) s = None \<longleftrightarrow>
    \<not> (\<exists>m \<in> metas s. meets slug r m)"
  unfolding latest_by_wp_eq [OF assms(5)] max_by_None
  using candidates [OF assms(1-4)] by (metis (no_types, lifting) Collect_empty_eq set_empty)

lemma latest_by_wp_Some:
  assumes "store_ok s" and "slug \<noteq> []" and "rq_phase r \<noteq> []" and "rq_wp_id r \<noteq> []" and "req_status r \<noteq> []"
    and "get_latest_by_wp slug (rq_phase r) (rq_wp_id r) (Some (req_status r)) s = Some m"
  shows "m \<in> metas s \<and> meets slug r m \<and>
    (\<forall>n \<in> metas s. meets slug r n \<longrightarrow> m_version n \<le> m_version m)"
proof -
  note m = assms(6) [unfolded latest_by_wp_eq [OF assms(5)]]
  have "m \<in> {m \<in> metas s. meets slug r m}"
    unfolding candidates [OF assms(1-4), symmetric] by (rule max_by_mem [OF m])
  moreover have "m_version n \<le> m_version m" if "n \<in> {m \<in> metas s. meets slug r m}" for n
    using that unfolding candidates [OF assms(1-4), symmetric] by (rule max_by_ge [OF m])
  ultimately show ?thesis by simp
qed


lemma resolve_upstream_split:
  assumes "store_ok s" and "slug \<noteq> []"
    and "\<forall>r \<in> set reqs. rq_phase r \<noteq> [] \<and> rq_wp_id r \<noteq> [] \<and> rq_status r \<noteq> Some []"
    and "resolve_upstream slug reqs s = (upstream, missing)"
  shows "missing = filter (\<lambda>r. \<not> (\<exists>m \<in> metas s. meets slug r m)) reqs \<and>
         list_all2 (\<lambda>r m. m \<in> metas s \<and> meets slug r m \<and>
                          (\<forall>n \<in> metas s. meets slug r n \<longrightarrow> m_version n \<le> m_version m))
           (filter (\<lambda>r. \<exists>m \<in> metas s. meets slug r m) reqs) upstream"
  using assms(3,4)
proof (induction reqs arbitrary: upstream missing)
  case Nil
  then show ?case by simp
next
  case (Cons r reqs)
  obtain up mi where rec: "resolve_upstream slug reqs s = (up, mi)" by fastforce
  note IH = Cons.IH [OF _ rec]
  let ?latest = "get_latest_by_wp slug (rq_phase r) (rq_wp_id r) (Some (req_status r)) s"
  have r: "rq_phase r \<noteq> []" "rq_wp_id r \<noteq> []" "req_status r \<noteq> []"
    using Cons.prems(1) by (auto simp: req_status_def split: option.splits)
  show ?case
  proof (cases ?latest)
    case None
    then have "\<not> (\<exists>m \<in> metas s. meets slug r m)"
      using latest_by_wp_None [OF assms(1,2) r] by blast
    with None IH Cons.prems rec show ?thesis by (auto simp: req_status_def)
  next
    case (Some m)
    then show ?thesis
      using latest_by_wp_Some [OF assms(1,2) r Some] IH Cons.prems rec
      by (auto simp: req_status_def)
  qed
qed


section \<open>Properties\<close>

definition example_meta :: metadata where
  "example_meta =
     build_metadata ''2024-01-01T00:00:00Z'' ''20240101000000'' ''ab12cd34'' (PStr ''Demo'') ''concept''
       ''WP-FSC'' ''FSC'' (PStr ''ann'') PNone [] None 1 STATUS_DRAFT None []"

definition example_store :: store where
  "example_store = snd (save_artifact example_meta ''text'' [])"

lemma example_saveable: "saveable example_meta []"
  by (simp add: saveable_def example_meta_def build_metadata_def normalize_slug_ok)

lemma example_store_ok: "store_ok example_store"
  unfolding example_store_def
  by (rule save_artifact_ok(1) [OF store_ok_empty(1) example_saveable]) (rule surjective_pairing)

text \<open>
  What \<open>save_artifact\<close> stored is read back: the side file named in the returned metadata
  decodes to exactly that metadata, the content is returned unchanged, and every other
  artifact (another identifier, version, phase, work product or project) keeps its content.
\<close>

theorem save_then_read:
  assumes "save_artifact m content s = (m', s')"
  shows "load_metadata (the (m_metadata_path m')) s' = Some m' \<and>
         read_artifact_content m' s' = content \<and>
         (\<forall>n. meta_paths n \<noteq> meta_paths m \<and> m_artifact_path n = Some (fst (meta_paths n)) \<longrightarrow>
              read_artifact_content n s' = read_artifact_content n s)"
proof -
  have d: "fst (meta_paths m) \<noteq> snd (meta_paths n)" for m n by (rule build_paths_differ)
  have m': "m' = m\<lparr>m_artifact_path := Some (fst (meta_paths m)), m_metadata_path := Some (snd (meta_paths m))\<rparr>"
    and s': "s' = dict_set (snd (meta_paths m)) (MetaFile m') (dict_set (fst (meta_paths m)) (MdFile content) s)"
    using assms by (auto simp: save_artifact_eq Let_def)
  have "dict_get s' (snd (meta_paths m)) = Some (MetaFile m')"
    and "dict_get s' (fst (meta_paths m)) = Some (MdFile content)"
    using d [of m m] by (simp_all add: s')
  moreover have "dict_get s' (fst (meta_paths n)) = dict_get s (fst (meta_paths n))"
    if "meta_paths n \<noteq> meta_paths m" for n
  proof -
    have "fst (meta_paths n) \<noteq> fst (meta_paths m)" using that md_json_paths by (metis prod_eqI)
    with d [of n m] show ?thesis by (simp add: s')
  qed
  ultimately show ?thesis
    by (auto simp: load_metadata_def read_artifact_content_def m')
qed

theorem save_then_read_witness:
  "read_artifact_content (fst (save_artifact example_meta ''body'' example_store))
     (snd (save_artifact example_meta ''body'' example_store)) = ''body''"
  using save_then_read [OF surjective_pairing [of "save_artifact example_meta ''body'' example_store"]]
  by simp

text \<open>
  In a well-formed store \<open>get_latest_by_id\<close> returns the one metadata record of that
  identifier with the greatest version, whatever order the files are listed in, and nothing
  exactly when the identifier has no record.
\<close>

theorem latest_is_greatest:
  assumes "store_ok s"
  shows "(get_latest_by_id (PStr a) None s = Some m \<longleftrightarrow>
            m \<in> metas s \<and> m_artifact_id m = a \<and>
            (\<forall>n \<in> metas s. m_artifact_id n = a \<and> n \<noteq> m \<longrightarrow> m_version n < m_version m)) \<and>
         (get_latest_by_id (PStr a) None s = None \<longleftrightarrow> (\<forall>n \<in> metas s. m_artifact_id n \<noteq> a))"
proof (intro conjI iffI)
  assume l: "get_latest_by_id (PStr a) None s = Some m"
  from latest_mem [OF assms l] show "m \<in> metas s" "m_artifact_id m = a" by auto
  show "\<forall>n \<in> metas s. m_artifact_id n = a \<and> n \<noteq> m \<longrightarrow> m_version n < m_version m"
    using latest_mem [OF assms l] metas_unique [OF assms] by (metis order_le_less pyval.inject(3))
next
  assume "m \<in> metas s \<and> m_artifact_id m = a \<and>
    (\<forall>n \<in> metas s. m_artifact_id n = a \<and> n \<noteq> m \<longrightarrow> m_version n < m_version m)"
  then show "get_latest_by_id (PStr a) None s = Some m"
    using latestI [OF assms, of m] by (metis order_le_less)
qed (auto simp: latest_None assms)

theorem latest_is_greatest_witness:
  "get_latest_by_id (PStr ''wp_fsc-20240101000000-ab12cd34'') None example_store =
     Some (fst (save_artifact example_meta ''text'' [])) \<and>
   get_latest_by_id (PStr ''unknown'') None example_store = None"
proof -
  have m: "metas example_store = {fst (save_artifact example_meta ''text'' [])}"
    using save_artifact_ok(2) [OF store_ok_empty(1) example_saveable surjective_pairing]
    by (simp add: example_store_def)
  have "m_artifact_id (fst (save_artifact example_meta ''text'' [])) = ''wp_fsc-20240101000000-ab12cd34''"
    by code_simp
  then show ?thesis
    using latest_is_greatest [OF example_store_ok] by (simp add: m)
qed

text \<open>
  \<open>resolve_upstream\<close> splits the requirements: \<open>missing\<close> lists, in order, exactly those for
  which the project has no artifact of that phase, work product and status, and \<open>upstream\<close>
  holds, in order, for each other requirement an artifact that meets it and that no artifact
  meeting it exceeds in version.
\<close>

theorem resolve_upstream_complete:
  assumes "store_ok s" and "slug \<noteq> []"
    and "\<forall>r \<in> set reqs. rq_phase r \<noteq> [] \<and> rq_wp_id r \<noteq> [] \<and> rq_status r \<noteq> Some []"
    and "resolve_upstream slug reqs s = (upstream, missing)"
  shows "missing = filter (\<lambda>r. \<not> (\<exists>m \<in> metas s. meets slug r m)) reqs \<and>
         list_all2 (\<lambda>r m. m \<in> metas s \<and> meets slug r m \<and>
                          (\<forall>n \<in> metas s. meets slug r n \<longrightarrow> m_version n \<le> m_version m))
           (filter (\<lambda>r. \<exists>m \<in> metas s. meets slug r m) reqs) upstream"
  by (rule resolve_upstream_split [OF assms])

theorem resolve_upstream_complete_witness:
  "snd (resolve_upstream ''demo'' [\<lparr>rq_phase = ''concept'', rq_wp_id = ''WP-FSC'', rq_status = None\<rparr>] example_store) =
   filter (\<lambda>r. \<not> (\<exists>m \<in> metas example_store. meets ''demo'' r m))
     [\<lparr>rq_phase = ''concept'', rq_wp_id = ''WP-FSC'', rq_status = None\<rparr>]"
  by (rule conjunct1 [OF resolve_upstream_complete [OF example_store_ok _ _ surjective_pairing]]) simp_all

end
