(* ===== verification/Template_Renderer.thy ===== *)
theory Template_Renderer
  imports Artifact_Store
begin

text \<open>
  Rendering of work products (\<open>template_renderer.py\<close> and its template
  \<open>templates/document_control.md\<close>): \<open>str.format_map\<close> with missing names rendered empty, the
  document skeleton, and the replacement of the document control block of an existing document.
  A replacement field of \<open>format_map\<close> is a plain name here (every template of the
  plugins uses only those); indexing, attributes, conversions and format specifications end in
  the error value \<open>ValueError\<close>, as do the malformed templates Python rejects.
\<close>


section \<open>format\_map\<close>

definition obr :: char where "obr = CHR 0x7B"
definition cbr :: char where "cbr = CHR 0x7D"

definition plain_field :: "string \<Rightarrow> bool" where
  "plain_field f \<longleftrightarrow>
     f \<noteq> [] \<and> \<not> is_digit (hd f) \<and> (\<forall>c \<in> set f. c \<notin> set [obr, CHR ''.'', CHR ''['', CHR ''!'', CHR '':''])"

text \<open>One pass over the template; the value of a field is copied and never scanned again.\<close>

function format_map :: "(string, string) dict \<Rightarrow> string \<Rightarrow> string result" where
  "format_map ctx [] = Inr []"
| "format_map ctx (c # cs) =
     (if c = obr then
        (if cs \<noteq> [] \<and> hd cs = obr then map_sum id (Cons obr) (format_map ctx (tl cs))
         else
           let field = takeWhile (\<lambda>x. x \<noteq> cbr) cs; rest = dropWhile (\<lambda>x. x \<noteq> cbr) cs in
           if rest = [] \<or> \<not> plain_field field then Inl (ValueError ''format'')
           else map_sum id (append (case dict_get ctx field of Some v \<Rightarrow> v | None \<Rightarrow> []))
                  (format_map ctx (tl rest)))
      else if c = cbr then
        (if cs \<noteq> [] \<and> hd cs = cbr then map_sum id (Cons cbr) (format_map ctx (tl cs))
         else Inl (ValueError ''Single closing brace''))
      else map_sum id (Cons c) (format_map ctx cs))"
  by pat_completeness auto
termination
  by (relation "measure (\<lambda>(ctx, s). length s)")
     (auto simp: less_Suc_eq_le intro: le_trans [OF diff_le_self length_dropWhile_le])

definition render_template :: "string \<Rightarrow> (string, string) dict \<Rightarrow> string result" where
  "render_template template_str context = format_map context template_str"


section \<open>Sections of a document\<close>

definition format_bullets :: "pyval \<Rightarrow> string \<Rightarrow> string" where
  "format_bullets items deflt =
     (let items = ensure_list items in
      if items = [] then deflt else join_with [nl] (map (\<lambda>item. ''- '' @ item) items))"

text \<open>The file \<open>templates/document_control.md\<close>.\<close>

definition field_ref :: "string \<Rightarrow> string" where
  "field_ref f = [obr] @ f @ [cbr]"

definition control_fields :: "(string \<times> string) list" where
  "control_fields =
     [(''Title'', ''title''), (''Work Product ID'', ''wp_id''), (''Artifact ID'', ''artifact_id''),
      (''Version'', ''version''), (''Status'', ''status''), (''Project'', ''project_slug''),
      (''Phase'', ''phase''), (''Author'', ''author''), (''Reviewer'', ''reviewer''),
      (''Created'', ''created_at''), (''Updated'', ''updated_at''), (''Supersedes'', ''supersedes''),
      (''Upstream References'', ''upstream_refs'')]"

definition document_control_md :: string where
  "document_control_md =
     concat (map (\<lambda>l. l @ [nl])
       ([''## Document Control'', ''| Field | Value |'', ''| --- | --- |''] @
        map (\<lambda>(label, f). ''| '' @ label @ '' | '' @ field_ref f @ '' |'') control_fields))"

definition control_context :: "metadata \<Rightarrow> upstream_ref list \<Rightarrow> (string, string) dict" where
  "control_context m refs =
     [(''title'', m_title m), (''wp_id'', m_wp_id m), (''artifact_id'', m_artifact_id m),
      (''version'', show_int (m_version m)), (''status'', m_status m),
      (''project_slug'', m_project_slug m), (''phase'', m_phase m), (''author'', py_str (m_author m)),
      (''reviewer'', py_str (m_reviewer m)), (''created_at'', m_created_at m),
      (''updated_at'', m_updated_at m),
      (''supersedes'', case m_supersedes m of Some (a, v) \<Rightarrow> a | None \<Rightarrow> []),
      (''upstream_refs'', summarize_upstream refs)]"

definition render_document_control :: "metadata \<Rightarrow> upstream_ref list \<Rightarrow> string result" where
  "render_document_control m refs = render_template document_control_md (control_context m refs)"

definition render_assumptions :: "pyval \<Rightarrow> string" where
  "render_assumptions assumptions = join_with [nl] [''## Assumptions'', format_bullets assumptions ''- TBD'']"

definition render_open_questions :: "pyval \<Rightarrow> string" where
  "render_open_questions qs = join_with [nl] [''## Open Questions'', format_bullets qs ''- TBD'']"

definition render_review_checklist :: "pyval \<Rightarrow> string" where
  "render_review_checklist checklist = join_with [nl] [''## Review Checklist'', format_bullets checklist ''- TBD'']"

definition str_list :: "string list \<Rightarrow> pyval" where
  "str_list xs = PList (map PStr xs)"

definition render_document ::
  "metadata \<Rightarrow> string \<Rightarrow> string list \<Rightarrow> string list \<Rightarrow> string \<Rightarrow> string list \<Rightarrow> string result" where
  "render_document m body assumptions open_questions traceability_section review_checklist =
     (case render_document_control m (m_upstream_refs m) of
        Inl e \<Rightarrow> Inl e
      | Inr doc_control \<Rightarrow>
          Inr (join_with [nl, nl]
                (filter (\<lambda>part. part \<noteq> [])
                  [''# '' @ m_title m, doc_control, body, render_assumptions (str_list assumptions),
                   render_open_questions (str_list open_questions), traceability_section,
                   render_review_checklist (str_list review_checklist)])))"

fun json_field_lines :: "string list \<Rightarrow> string list" where
  "json_field_lines [] = []"
| "json_field_lines [f] = [''  \"'' @ f @ ''\": \"...\"'']"
| "json_field_lines (f # g # fs) = (''  \"'' @ f @ ''\": \"...\",'') # json_field_lines (g # fs)"

abbreviation fence :: string where "fence \<equiv> replicate 3 (CHR 0x60)"

definition render_missing_inputs :: "string list \<Rightarrow> string" where
  "render_missing_inputs missing_fields =
     join_with [nl]
       ([''## Missing Inputs'', ''Provide the following fields to continue:''] @
        map (\<lambda>f. ''- '' @ f) missing_fields @
        ['''', ''Reply with JSON, for example:'', fence @ ''json'', [obr]] @
        json_field_lines missing_fields @ [[cbr], fence])"

definition render_missing_upstream :: "requirement list \<Rightarrow> string" where
  "render_missing_upstream missing_requirements =
     join_with [nl]
       ([''## Missing Upstream Artifacts'', ''Generate and approve these artifacts:''] @
        map (\<lambda>req. ''- '' @ rq_wp_id req @ '' (phase: '' @ rq_phase req @ '', status: '' @ req_status req @ '')'')
          missing_requirements @
        ['''', ''Once available, re-run this generator.'', '''',
         ''If you must proceed with placeholders, reply with JSON:'', fence @ ''json'', [obr],
         ''  \"allow_missing_upstream\": true,'',
         ''  \"manual_upstream_summary\": \"Summarize missing inputs here\"'', [cbr], fence])"

definition doc_marker :: string where "doc_marker = ''## Document Control''"
definition header_mark :: string where "header_mark = [nl] @ ''## ''"

definition replace_document_control :: "string \<Rightarrow> string \<Rightarrow> string" where
  "replace_document_control content new_doc_control =
     (case find_sub doc_marker content of
        None \<Rightarrow> new_doc_control @ [nl, nl] @ content
      | Some start \<Rightarrow>
          (let from = start + length doc_marker in
           case find_sub header_mark (drop from content) of
             None \<Rightarrow> take start content @ new_doc_control
           | Some k \<Rightarrow> take start content @ new_doc_control @ drop (from + k) content))"


section \<open>Lemmas\<close>

lemma braces_differ [simp]: "obr \<noteq> cbr" "cbr \<noteq> obr"
  by (simp_all add: obr_def cbr_def)

lemma map_sum_append: "map_sum id (append t) (map_sum id (append u) x) = map_sum id (append (t @ u)) x"
  by (cases x) auto

lemma format_map_text:
  "obr \<notin> set t \<Longrightarrow> cbr \<notin> set t \<Longrightarrow> format_map ctx (t @ s) = map_sum id (append t) (format_map ctx s)"
proof (induction t)
  case Nil
  then show ?case by (cases "format_map ctx s") auto
next
  case (Cons x t)
  then show ?case by (cases "format_map ctx s") auto
qed

lemma format_map_field:
  assumes "plain_field f" and "cbr \<notin> set f"
  shows "format_map ctx (field_ref f @ s) =
    map_sum id (append (case dict_get ctx f of Some v \<Rightarrow> v | None \<Rightarrow> [])) (format_map ctx s)"
proof -
  have "hd f \<noteq> obr" and "f \<noteq> []"
    using assms(1) unfolding plain_field_def by (metis list.set_intros(1) list.set_sel(1))+
  moreover have "takeWhile (\<lambda>x. x \<noteq> cbr) (f @ cbr # s) = f" "dropWhile (\<lambda>x. x \<noteq> cbr) (f @ cbr # s) = cbr # s"
    using assms(2) by (auto simp: takeWhile_append dropWhile_append takeWhile_eq_all_conv)
  ultimately show ?thesis using assms(1) by (simp add: field_ref_def Let_def)
qed

text \<open>A template as a list of pieces, and its rendering piece by piece.\<close>

fun piece_text :: "string + string \<Rightarrow> string" where
  "piece_text (Inl t) = t"
| "piece_text (Inr f) = field_ref f"

fun piece_ok :: "string + string \<Rightarrow> bool" where
  "piece_ok (Inl t) = (obr \<notin> set t \<and> cbr \<notin> set t)"
| "piece_ok (Inr f) = (plain_field f \<and> cbr \<notin> set f)"

fun render_piece :: "(string, string) dict \<Rightarrow> string + string \<Rightarrow> string" where
  "render_piece ctx (Inl t) = t"
| "render_piece ctx (Inr f) = (case dict_get ctx f of Some v \<Rightarrow> v | None \<Rightarrow> [])"

lemma format_map_pieces:
  "\<forall>p \<in> set ps. piece_ok p \<Longrightarrow>
   format_map ctx (concat (map piece_text ps)) = Inr (concat (map (render_piece ctx) ps))"
proof (induction ps)
  case Nil
  then show ?case by simp
next
  case (Cons p ps)
  then show ?case by (cases p) (auto simp: format_map_text format_map_field)
qed

definition from_header :: "string \<Rightarrow> string" where
  "from_header s = (case find_sub header_mark s of None \<Rightarrow> [] | Some k \<Rightarrow> drop k s)"

lemma replace_document_control_at:
  "find_sub doc_marker c = Some i \<Longrightarrow>
   replace_document_control c d = take i c @ d @ from_header (drop (i + length doc_marker) c)"
  by (simp add: replace_document_control_def from_header_def Let_def add.commute split: option.splits)

lemma from_header_cases: "from_header s = [] \<or> prefix header_mark (from_header s)"
  by (auto simp: from_header_def find_sub_drop split: option.splits)

lemma from_header_skip:
  assumes "\<not> contains header_mark t" and "u = [] \<or> prefix header_mark u"
  shows "from_header (t @ u) = u"
proof (cases "u = []")
  case True
  with assms(1) show ?thesis by (simp add: from_header_def contains_def)
next
  case False
  with assms(2) obtain r where "u = header_mark @ r" by (auto simp: prefix_def)
  with find_sub_next [of nl "''## ''" t r] assms(1) show ?thesis
    by (simp add: from_header_def header_mark_def)
qed

text \<open>
  The kept rest of the document starts with the next header, so the block written by one
  replacement is exactly what the next one takes out.
\<close>

lemma replace_twice:
  assumes "find_sub doc_marker c = Some i" and "\<not> contains header_mark t"
  shows "replace_document_control (replace_document_control c (doc_marker @ t)) d =
         replace_document_control c d"
proof -
  define u where "u = from_header (drop (i + length doc_marker) c)"
  let ?c' = "take i c @ doc_marker @ t @ u"
  have len: "length (take i c) = i" using find_sub_le [OF assms(1)] by simp
  have f: "find_sub doc_marker ?c' = Some i" by (rule find_sub_same_start [OF assms(1)])
  have "from_header (t @ u) = u"
    by (rule from_header_skip [OF assms(2)]) (use from_header_cases in \<open>simp add: u_def\<close>)
  then have "replace_document_control ?c' d = take i c @ d @ u"
    using replace_document_control_at [OF f, of d] len by simp
  then show ?thesis by (simp add: replace_document_control_at [OF assms(1)] u_def)
qed

text \<open>The rendered control block: one table row per field with the value verbatim.\<close>

definition control_text :: "metadata \<Rightarrow> upstream_ref list \<Rightarrow> string" where
  "control_text m refs =
     concat (map (\<lambda>l. l @ [nl])
       ([doc_marker, ''| Field | Value |'', ''| --- | --- |''] @
        map (\<lambda>(label, v). ''| '' @ label @ '' | '' @ v @ '' |'')
          (zip (map fst control_fields) (map snd (control_context m refs)))))"

definition control_pieces :: "(string + string) list" where
  "control_pieces =
     map (\<lambda>l. Inl (l @ [nl])) [''## Document Control'', ''| Field | Value |'', ''| --- | --- |''] @
     concat (map (\<lambda>(label, f). [Inl (''| '' @ label @ '' | ''), Inr f, Inl ('' |'' @ [nl])]) control_fields)"

lemma document_control_pieces: "document_control_md = concat (map piece_text control_pieces)"
  by (simp add: document_control_md_def control_pieces_def control_fields_def)

lemma control_pieces_ok: "\<forall>p \<in> set control_pieces. piece_ok p"
  by code_simp

lemma render_document_control_eq: "render_document_control m refs = Inr (control_text m refs)"
proof -
  have "concat (map (render_piece (control_context m refs)) control_pieces) = control_text m refs"
    by (simp add: control_pieces_def control_fields_def control_text_def control_context_def doc_marker_def)
  then show ?thesis
    unfolding render_document_control_def render_template_def document_control_pieces
    by (simp only: format_map_pieces [OF control_pieces_ok])
qed

lemma control_text_marker: "\<exists>t. control_text m refs = doc_marker @ t"
  by (simp add: control_text_def)

definition document_text :: "metadata \<Rightarrow> string \<Rightarrow> string list \<Rightarrow> string list \<Rightarrow> string \<Rightarrow> string list \<Rightarrow> string" where
  "document_text m body assumptions open_questions trace checklist =
     join_with [nl, nl]
       ([''# '' @ m_title m, control_text m (m_upstream_refs m)] @ (if body = [] then [] else [body]) @
        [render_assumptions (str_list assumptions), render_open_questions (str_list open_questions)] @
        (if trace = [] then [] else [trace]) @ [render_review_checklist (str_list checklist)])"

lemma render_document_eq:
  "render_document m body assumptions open_questions trace checklist =
   Inr (document_text m body assumptions open_questions trace checklist)"
proof -
  have "control_text m refs \<noteq> []" for refs by (simp add: control_text_def)
  then show ?thesis
    by (simp add: render_document_def render_document_control_eq document_text_def
        render_assumptions_def render_open_questions_def render_review_checklist_def)
qed


section \<open>Properties\<close>

text \<open>
  Document control renders for every metadata record: \<open>format_map\<close> raises no error on the
  template, the block starts with the marker \<open>replace_document_control\<close> looks for, and
  each of its thirteen rows shows the field's value verbatim (a brace in a title or an author's
  name is never taken for a field).
\<close>

theorem document_control_rendered:
  "render_document_control m refs =
     Inr (concat (map (\<lambda>l. l @ [nl])
       ([doc_marker, ''| Field | Value |'', ''| --- | --- |''] @
        map (\<lambda>(label, v). ''| '' @ label @ '' | '' @ v @ '' |'')
          [(''Title'', m_title m), (''Work Product ID'', m_wp_id m), (''Artifact ID'', m_artifact_id m),
           (''Version'', show_int (m_version m)), (''Status'', m_status m), (''Project'', m_project_slug m),
           (''Phase'', m_phase m), (''Author'', py_str (m_author m)), (''Reviewer'', py_str (m_reviewer m)),
           (''Created'', m_created_at m), (''Updated'', m_updated_at m),
           (''Supersedes'', case m_supersedes m of Some (a, v) \<Rightarrow> a | None \<Rightarrow> []),
           (''Upstream References'', summarize_upstream refs)])))"
  unfolding render_document_control_eq control_text_def
  by (simp add: control_fields_def control_context_def)

text \<open>
  Replacing the document control of a document that has one keeps the text before it and
  the text from the next second-level header on, and a later replacement takes out exactly the
  block written (when its values hold no such header), so that revisions do not accumulate.
\<close>

theorem control_block_replaced:
  assumes "find_sub doc_marker content = Some i"
    and "\<not> contains header_mark t"
  shows "replace_document_control content (doc_marker @ t) =
           take i content @ doc_marker @ t @ from_header (drop (i + length doc_marker) content) \<and>
         replace_document_control (replace_document_control content (doc_marker @ t)) d =
           replace_document_control content d"
  using replace_twice [OF assms] replace_document_control_at [OF assms(1)] by simp

theorem control_block_replaced_witness:
  "replace_document_control
     (replace_document_control (''# T'' @ [nl] @ doc_marker @ [nl] @ ''old'' @ header_mark @ ''Scope'')
        (doc_marker @ [nl] @ ''new''))
     (doc_marker @ [nl] @ ''newer'') =
   ''# T'' @ [nl] @ doc_marker @ [nl] @ ''newer'' @ header_mark @ ''Scope''"
proof -
  let ?c = "''# T'' @ [nl] @ doc_marker @ [nl] @ ''old'' @ header_mark @ ''Scope''"
  have "find_sub doc_marker ?c = Some 4" and "\<not> contains header_mark ([nl] @ ''new'')" by code_simp+
  from control_block_replaced [OF this, of "doc_marker @ [nl] @ ''newer''"]
  have "replace_document_control (replace_document_control ?c (doc_marker @ [nl] @ ''new''))
      (doc_marker @ [nl] @ ''newer'') = replace_document_control ?c (doc_marker @ [nl] @ ''newer'')"
    by (rule conjunct2)
  also have "\<dots> = ''# T'' @ [nl] @ doc_marker @ [nl] @ ''newer'' @ header_mark @ ''Scope''" by code_simp
  finally show ?thesis .
qed

text \<open>
  A document with neither a control block nor a later second-level header loses its text: the first
  replacement puts the block in front, the second one removes everything after it.
\<close>

theorem second_revision_drops_text:
  assumes "\<not> contains doc_marker content" and "\<not> contains header_mark (t @ [nl, nl] @ content)"
  shows "replace_document_control content (doc_marker @ t) = doc_marker @ t @ [nl, nl] @ content \<and>
         replace_document_control (replace_document_control content (doc_marker @ t)) d = d"
proof -
  have first: "replace_document_control content (doc_marker @ t) = doc_marker @ t @ [nl, nl] @ content"
    using assms(1) by (simp add: replace_document_control_def contains_def)
  have "find_sub doc_marker (doc_marker @ t @ [nl, nl] @ content) = Some 0"
    using find_sub_same_start [of doc_marker doc_marker 0] by (simp add: doc_marker_def)
  from replace_document_control_at [OF this, of d] assms(2) first show ?thesis
    by (simp add: from_header_def contains_def)
qed

theorem second_revision_drops_text_witness:
  "replace_document_control (replace_document_control ''All my requirements'' (doc_marker @ [nl]))
     (doc_marker @ [nl]) = doc_marker @ [nl]"
proof -
  have "\<not> contains doc_marker ''All my requirements''"
    and "\<not> contains header_mark ([nl] @ [nl, nl] @ ''All my requirements'')" by code_simp+
  from second_revision_drops_text [OF this] show ?thesis by blast
qed

end
