(* ===== verification/Review_Workflow.thy ===== *)
theory Review_Workflow
  imports Template_Renderer
begin

text \<open>
  The review workflow of the ISO 26262 core plugin (\<open>review_workflow.py\<close>) over the artifact
  store: request of a review, request of changes, approval and revision, each with the text it
  returns and the store it leaves.  The clock readings are arguments, one per call of
  \<open>utc_now\<close>, as are the stamp and the random suffix of a new identifier.  The step relation interleaves these operations with the creation of new artifacts;
  its invariant is the lineage of versions of each artifact.
\<close>


section \<open>Operations\<close>

definition review_form :: "metadata \<Rightarrow> string list \<Rightarrow> string" where
  "review_form m checklist =
     join_with [nl]
       [''## Review Request: '' @ m_title m, '''', ''Artifact ID: '' @ m_artifact_id m,
        ''Version: v'' @ format_version (m_version m), ''Status: '' @ m_status m,
        ''Reviewer: '' @ py_str (m_reviewer m), '''',
        ''Provide review results and any change requests.'', '''',
        render_review_checklist (str_list checklist)]"

definition not_found :: "pyval \<Rightarrow> string" where
  "not_found aid = ''Artifact not found: '' @ py_str aid"

definition set_reviewer :: "pyval \<Rightarrow> metadata \<Rightarrow> metadata" where
  "set_reviewer reviewer m = (if truthy reviewer then m\<lparr>m_reviewer := reviewer\<rparr> else m)"

definition request_review ::
  "string \<Rightarrow> pyval \<Rightarrow> pyval \<Rightarrow> string list \<Rightarrow> store \<Rightarrow> string \<times> store" where
  "request_review now aid reviewer checklist s =
     (case get_latest_by_id aid None s of
        None \<Rightarrow> (not_found aid, s)
      | Some m \<Rightarrow>
          (let m = set_reviewer reviewer m;
               m = record_status_change now STATUS_IN_REVIEW ''review requested'' m;
               (m, s) = update_metadata m s
           in (review_form m checklist, s)))"

definition request_changes :: "string \<Rightarrow> pyval \<Rightarrow> pyval \<Rightarrow> store \<Rightarrow> string \<times> store" where
  "request_changes now aid change_requests s =
     (case get_latest_by_id aid None s of
        None \<Rightarrow> (not_found aid, s)
      | Some m \<Rightarrow>
          (let changes = ensure_list change_requests;
               m = m\<lparr>m_change_requests := changes\<rparr>;
               m = record_status_change now STATUS_DRAFT ''changes requested'' m;
               (m, s) = update_metadata m s
           in (join_with [nl]
                 ([''Changes recorded for '' @ py_str aid @ '' (v'' @ format_version (m_version m) @ '').'',
                   '''', ''Change requests:''] @
                  (if changes \<noteq> [] then map (\<lambda>item. ''- '' @ item) changes else [''- None provided''])),
               s)))"

definition approve :: "string \<Rightarrow> string \<Rightarrow> pyval \<Rightarrow> pyval \<Rightarrow> pyval \<Rightarrow> store \<Rightarrow> string \<times> store" where
  "approve now now' aid reviewer notes s =
     (case get_latest_by_id aid None s of
        None \<Rightarrow> (not_found aid, s)
      | Some m \<Rightarrow>
          (let m = set_reviewer reviewer m;
               m = m\<lparr>m_review_notes := normalize_text notes '''', m_approved_at := now, m_locked := True\<rparr>;
               m = record_status_change now' STATUS_APPROVED ''approved'' m;
               (m, s) = update_metadata m s
           in (''Approved '' @ py_str aid @ '' v'' @ format_version (m_version m) @ '' by '' @
                 (if truthy (m_reviewer m) then py_str (m_reviewer m) else ''reviewer''), s)))"

definition revised_metadata :: "string \<Rightarrow> string \<Rightarrow> string \<Rightarrow> pyval \<Rightarrow> pyval \<Rightarrow> metadata \<Rightarrow> metadata" where
  "revised_metadata now stamp sfx change_requests author previous =
     build_metadata now stamp sfx (PStr (m_project_slug previous)) (m_phase previous) (m_wp_id previous)
       (m_title previous) (if truthy author then author else m_author previous) (m_reviewer previous)
       (m_upstream_refs previous) (Some (m_artifact_id previous)) (m_version previous + 1) STATUS_DRAFT
       (Some (m_artifact_id previous, m_version previous)) (ensure_list change_requests)"

definition superseded_metadata :: "string \<Rightarrow> string \<Rightarrow> metadata \<Rightarrow> metadata" where
  "superseded_metadata now aid previous =
     (record_status_change now STATUS_SUPERSEDED
        (''superseded by v'' @ format_version (m_version previous + 1)) previous)
     \<lparr>m_superseded_by := Some (aid, m_version previous + 1)\<rparr>"

definition revise ::
  "string \<Rightarrow> string \<Rightarrow> string \<Rightarrow> string \<Rightarrow> pyval \<Rightarrow> string \<Rightarrow> pyval \<Rightarrow> pyval \<Rightarrow> store
     \<Rightarrow> (metadata option \<times> store) result" where
  "revise now now' stamp sfx aid new_content change_requests author s =
     (case get_latest_by_id aid None s of
        None \<Rightarrow> Inr (None, s)
      | Some previous \<Rightarrow>
          (let new_meta = revised_metadata now stamp sfx change_requests author previous in
           case render_document_control new_meta (m_upstream_refs new_meta) of
             Inl e \<Rightarrow> Inl e
           | Inr doc_control \<Rightarrow>
               (let updated_content = replace_document_control new_content doc_control;
                    (new_meta, s) = save_artifact new_meta updated_content s;
                    (_, s) = update_metadata (superseded_metadata now' (m_artifact_id new_meta) previous) s
                in Inr (Some new_meta, s))))"


section \<open>Touching the latest version\<close>

text \<open>Two records of the same file: the fields that decide where a record is stored.\<close>

definition same_file :: "metadata \<Rightarrow> metadata \<Rightarrow> bool" where
  "same_file m n \<longleftrightarrow>
     same_product m n \<and> m_artifact_id m = m_artifact_id n \<and> m_version m = m_version n \<and>
     m_artifact_path m = m_artifact_path n \<and> m_metadata_path m = m_metadata_path n"

lemma same_file_simps [simp]:
  "same_file m (record_status_change now st note n) = same_file m n"
  "same_file m (set_reviewer r n) = same_file m n"
  "same_file m (n\<lparr>m_change_requests := cs\<rparr>) = same_file m n"
  "same_file m (n\<lparr>m_review_notes := x, m_approved_at := y, m_locked := z\<rparr>) = same_file m n"
  "same_file m (superseded_metadata now a n) = same_file m n"
  "same_file m m"
  by (simp_all add: same_file_def same_product_def record_status_change_def set_reviewer_def
      superseded_metadata_def)

lemma update_same_file:
  assumes "store_ok s" and "m \<in> metas s" and "same_file m n"
  obtains s' where "update_metadata n s = (n, s')" and "store_ok s'" and "metas s' = insert n (metas s - {m})"
    and "\<And>q. q \<noteq> snd (meta_paths m) \<Longrightarrow> dict_get s' q = dict_get s q"
proof -
  let ?p = "snd (meta_paths m)"
  have ok: "meta_ok ?p n"
    using metas_ok [OF assms(1,2)] assms(3) by (auto simp: meta_ok_def same_file_def same_product_def)
  obtain n' s' where u: "update_metadata n s = (n', s')" by fastforce
  have sp: "\<And>k. k \<in> metas s \<Longrightarrow> m_artifact_id k = m_artifact_id n \<Longrightarrow> same_product k n"
    using store_okD(3) [OF assms(1) _ assms(2)] assms(3) by (auto simp: same_file_def same_product_def)
  note upd = update_metadata_ok [OF assms(1) ok sp u]
  have "{k \<in> metas s. snd (meta_paths k) \<noteq> ?p} = metas s - {m}"
    using metas_eqI [OF assms(1) _ assms(2)] by blast
  with that [of s'] u upd show ?thesis by simp
qed

section \<open>Lineage\<close>

text \<open>
  The history of one artifact: version 1 is created as a draft, every later version supersedes
  the one before, and a version is marked superseded exactly when the next one exists.
\<close>

definition has_version :: "store \<Rightarrow> string \<Rightarrow> int \<Rightarrow> bool" where
  "has_version s a v \<longleftrightarrow> (\<exists>n \<in> metas s. m_artifact_id n = a \<and> m_version n = v)"

definition record_ok :: "metadata \<Rightarrow> bool" where
  "record_ok m \<longleftrightarrow>
     m_artifact_id m \<noteq> [] \<and>
     m_status m \<in> {STATUS_DRAFT, STATUS_IN_REVIEW, STATUS_APPROVED, STATUS_SUPERSEDED} \<and>
     m_supersedes m = (if m_version m = 1 then None else Some (m_artifact_id m, m_version m - 1)) \<and>
     m_superseded_by m =
       (if m_status m = STATUS_SUPERSEDED then Some (m_artifact_id m, m_version m + 1) else None) \<and>
     m_status_history m \<noteq> [] \<and> se_status (last (m_status_history m)) = m_status m \<and>
     (m_status m = STATUS_APPROVED \<longrightarrow> m_locked m)"

definition lineage_ok :: "store \<Rightarrow> bool" where
  "lineage_ok s \<longleftrightarrow>
     store_ok s \<and>
     (\<forall>m \<in> metas s.
        record_ok m \<and> (1 < m_version m \<longrightarrow> has_version s (m_artifact_id m) (m_version m - 1)) \<and>
        (m_status m = STATUS_SUPERSEDED \<longleftrightarrow> has_version s (m_artifact_id m) (m_version m + 1)))"

text \<open>The ways the workflow writes to the store, over the code's own operations.\<close>

inductive wf_step :: "store \<Rightarrow> store \<Rightarrow> bool" where
  create:
    "m = build_metadata now stamp sfx slug phase wp_id title author reviewer refs None 1 STATUS_DRAFT None [] \<Longrightarrow>
     \<forall>n \<in> metas s. m_artifact_id n \<noteq> m_artifact_id m \<Longrightarrow>
     save_artifact m content s = (m', s') \<Longrightarrow> wf_step s s'"
| review: "request_review now aid reviewer checklist s = (reply, s') \<Longrightarrow> wf_step s s'"
| changes: "request_changes now aid reqs s = (reply, s') \<Longrightarrow> wf_step s s'"
| approval: "approve now now' aid reviewer notes s = (reply, s') \<Longrightarrow> wf_step s s'"
| revision: "revise now now' stamp sfx aid content reqs author s = Inr (r, s') \<Longrightarrow> wf_step s s'"

inductive_cases wf_stepE: "wf_step s s'"

text \<open>What a status change of the latest version does to the store.\<close>

definition touched :: "store \<Rightarrow> metadata \<Rightarrow> metadata \<Rightarrow> store \<Rightarrow> bool" where
  "touched s m n s' \<longleftrightarrow>
     store_ok s' \<and> metas s' = insert n (metas s - {m}) \<and>
     (\<forall>q. q \<noteq> snd (meta_paths m) \<longrightarrow> dict_get s' q = dict_get s q)"

lemma touched_by_update:
  assumes "store_ok s" and "m \<in> metas s" and "same_file m n"
  shows "\<exists>s'. update_metadata n s = (n, s') \<and> touched s m n s'"
  using update_same_file [OF assms] unfolding touched_def by metis

definition reviewed :: "string \<Rightarrow> pyval \<Rightarrow> metadata \<Rightarrow> metadata" where
  "reviewed now reviewer m =
     record_status_change now STATUS_IN_REVIEW ''review requested'' (set_reviewer reviewer m)"

definition changed :: "string \<Rightarrow> pyval \<Rightarrow> metadata \<Rightarrow> metadata" where
  "changed now reqs m =
     record_status_change now STATUS_DRAFT ''changes requested'' (m\<lparr>m_change_requests := ensure_list reqs\<rparr>)"

definition approved :: "string \<Rightarrow> string \<Rightarrow> pyval \<Rightarrow> pyval \<Rightarrow> metadata \<Rightarrow> metadata" where
  "approved now now' reviewer notes m =
     record_status_change now' STATUS_APPROVED ''approved''
       ((set_reviewer reviewer m)
        \<lparr>m_review_notes := normalize_text notes '''', m_approved_at := now, m_locked := True\<rparr>)"

lemma request_review_touches:
  assumes "store_ok s" and "get_latest_by_id aid None s = Some m"
  shows "touched s m (reviewed now reviewer m) (snd (request_review now aid reviewer cl s))"
  using touched_by_update [OF assms(1), of m "reviewed now reviewer m"] latest_mem [OF assms] assms(2)
  by (auto simp: request_review_def reviewed_def)

lemma request_changes_touches:
  assumes "store_ok s" and "get_latest_by_id aid None s = Some m"
  shows "touched s m (changed now reqs m) (snd (request_changes now aid reqs s))"
  using touched_by_update [OF assms(1), of m "changed now reqs m"] latest_mem [OF assms] assms(2)
  by (auto simp: request_changes_def changed_def Let_def)

lemma approve_touches:
  assumes "store_ok s" and "get_latest_by_id aid None s = Some m"
  shows "touched s m (approved now now' reviewer notes m) (snd (approve now now' aid reviewer notes s))"
  using touched_by_update [OF assms(1), of m "approved now now' reviewer notes m"] latest_mem [OF assms] assms(2)
  by (auto simp: approve_def approved_def)

subsection \<open>Each operation keeps the lineage\<close>

lemma lineage_okD:
  assumes "lineage_ok s"
  shows "store_ok s" and "m \<in> metas s \<Longrightarrow> record_ok m"
    and "m \<in> metas s \<Longrightarrow> 1 < m_version m \<Longrightarrow> has_version s (m_artifact_id m) (m_version m - 1)"
    and "m \<in> metas s \<Longrightarrow> m_status m = STATUS_SUPERSEDED \<longleftrightarrow> has_version s (m_artifact_id m) (m_version m + 1)"
  using assms by (auto simp: lineage_ok_def)

lemma latest_not_superseded:
  assumes "lineage_ok s" and "get_latest_by_id aid None s = Some m"
  shows "m \<in> metas s" and "m_status m \<noteq> STATUS_SUPERSEDED"
    and "\<not> has_version s (m_artifact_id m) (m_version m + 1)"
proof -
  note m = latest_mem [OF lineage_okD(1) [OF assms(1)] assms(2)]
  then show "m \<in> metas s" by simp
  show nv: "\<not> has_version s (m_artifact_id m) (m_version m + 1)"
    using m by (fastforce simp: has_version_def)
  with lineage_okD(4) [OF assms(1) \<open>m \<in> metas s\<close>] show "m_status m \<noteq> STATUS_SUPERSEDED" by simp
qed

lemma has_version_touched:
  assumes "m \<in> metas s" and "metas s' = insert n (metas s - {m})"
    and "m_artifact_id m = m_artifact_id n" and "m_version m = m_version n"
  shows "has_version s' a v = has_version s a v"
proof
  assume "has_version s' a v"
  then obtain k where "k \<in> metas s'" "m_artifact_id k = a" "m_version k = v" by (auto simp: has_version_def)
  then show "has_version s a v" using assms by (cases "k = n") (auto simp: has_version_def)
next
  assume "has_version s a v"
  then obtain k where "k \<in> metas s" "m_artifact_id k = a" "m_version k = v" by (auto simp: has_version_def)
  then show "has_version s' a v" using assms by (cases "k = m") (auto simp: has_version_def)
qed

lemma touched_lineage:
  assumes "lineage_ok s" and "m \<in> metas s" and "m_status m \<noteq> STATUS_SUPERSEDED"
    and "same_file m n" and "record_ok n" and "m_status n \<noteq> STATUS_SUPERSEDED" and "touched s m n s'"
  shows "lineage_ok s'"
proof -
  have eq: "m_artifact_id n = m_artifact_id m" "m_version n = m_version m"
    using assms(4) by (simp_all add: same_file_def)
  have ms: "metas s' = insert n (metas s - {m})" and ok: "store_ok s'"
    using assms(7) by (simp_all add: touched_def)
  have hv: "has_version s' a v = has_version s a v" for a v
    by (rule has_version_touched [OF assms(2) ms]) (simp_all add: eq)
  show ?thesis
    using ok lineage_okD(2,3,4) [OF assms(1)] assms(2,3,5,6) eq
    unfolding lineage_ok_def hv ms by fastforce
qed

lemma record_ok_status_change:
  assumes "record_ok m" and "m_status m \<noteq> STATUS_SUPERSEDED"
  shows "record_ok (reviewed now r m)" and "record_ok (changed now reqs m)"
    and "record_ok (approved now now' r notes m)"
    and "m_status (reviewed now r m) \<noteq> STATUS_SUPERSEDED" and "m_status (changed now reqs m) \<noteq> STATUS_SUPERSEDED"
    and "m_status (approved now now' r notes m) \<noteq> STATUS_SUPERSEDED"
  using assms
  by (simp_all add: record_ok_def reviewed_def changed_def approved_def record_status_change_def
      set_reviewer_def)

lemma same_file_status_change:
  "same_file m (reviewed now r m)" "same_file m (changed now reqs m)" "same_file m (approved now now' r notes m)"
  by (simp_all add: reviewed_def changed_def approved_def)

lemma missing_unchanged:
  assumes "get_latest_by_id aid None s = None"
  shows "snd (request_review now aid reviewer cl s) = s" and "snd (request_changes now aid reqs s) = s"
    and "snd (approve now now' aid reviewer notes s) = s"
    and "revise now now' stamp sfx aid content reqs author s = Inr (None, s)"
  using assms by (simp_all add: request_review_def request_changes_def approve_def revise_def)

lemma status_ops_lineage:
  assumes "lineage_ok s"
  shows "lineage_ok (snd (request_review now aid reviewer cl s))"
    and "lineage_ok (snd (request_changes now aid reqs s))"
    and "lineage_ok (snd (approve now now' aid reviewer notes s))"
proof (atomize (full), cases "get_latest_by_id aid None s")
  case None
  with assms show "lineage_ok (snd (request_review now aid reviewer cl s)) \<and>
    lineage_ok (snd (request_changes now aid reqs s)) \<and> lineage_ok (snd (approve now now' aid reviewer notes s))"
    by (simp add: missing_unchanged)
next
  case (Some m)
  note m = latest_not_superseded [OF assms Some]
  note rec = record_ok_status_change [OF lineage_okD(2) [OF assms m(1)] m(2)]
  note sf = same_file_status_change [of m] and ok = lineage_okD(1) [OF assms]
  note tl = touched_lineage [OF assms m(1,2)]
  show "lineage_ok (snd (request_review now aid reviewer cl s)) \<and>
    lineage_ok (snd (request_changes now aid reqs s)) \<and> lineage_ok (snd (approve now now' aid reviewer notes s))"
    using tl [OF sf(1) rec(1,4) request_review_touches [OF ok Some]]
      tl [OF sf(2) rec(2,5) request_changes_touches [OF ok Some]]
      tl [OF sf(3) rec(3,6) approve_touches [OF ok Some]] by blast
qed

subsection \<open>Revision\<close>

definition with_paths :: "metadata \<Rightarrow> metadata" where
  "with_paths m = m\<lparr>m_artifact_path := Some (fst (meta_paths m)), m_metadata_path := Some (snd (meta_paths m))\<rparr>"

lemma revised_fields:
  assumes "m_artifact_id m \<noteq> []" and "slug_ok (m_project_slug m)"
  shows "m_artifact_id (revised_metadata now stamp sfx reqs author m) = m_artifact_id m"
    and "m_version (revised_metadata now stamp sfx reqs author m) = m_version m + 1"
    and "same_product (revised_metadata now stamp sfx reqs author m) m"
    and "m_status (revised_metadata now stamp sfx reqs author m) = STATUS_DRAFT"
  using assms by (simp_all add: revised_metadata_def build_metadata_def same_product_def normalize_slug_fixed)

lemma revised_record_ok:
  "m_artifact_id m \<noteq> [] \<Longrightarrow> 1 \<le> m_version m \<Longrightarrow>
   record_ok (with_paths (revised_metadata now stamp sfx reqs author m))"
  by (simp add: record_ok_def with_paths_def revised_metadata_def build_metadata_def)

lemma superseded_record_ok: "record_ok m \<Longrightarrow> record_ok (superseded_metadata now (m_artifact_id m) m)"
  by (auto simp: record_ok_def superseded_metadata_def record_status_change_def)

text \<open>
  A revision of an existing artifact adds one record, rewrites the previous one as superseded,
  and writes one new content file.
\<close>

lemma revise_effect:
  assumes ok: "lineage_ok s" and latest: "get_latest_by_id aid None s = Some m"
    and n_def: "n = with_paths (revised_metadata now stamp sfx reqs author m)"
    and k_def: "k = superseded_metadata now' (m_artifact_id m) m"
  obtains s' where "revise now now' stamp sfx aid content reqs author s = Inr (Some n, s')"
    and "store_ok s'" and "metas s' = insert n (insert k (metas s - {m}))"
    and "dict_get s' (fst (meta_paths n)) =
      Some (MdFile (replace_document_control content (control_text n (m_upstream_refs m))))"
    and "\<And>q. q \<notin> {fst (meta_paths n), snd (meta_paths n), snd (meta_paths m)} \<Longrightarrow> dict_get s' q = dict_get s q"
proof -
  let ?r = "revised_metadata now stamp sfx reqs author m"
  let ?c = "replace_document_control content (control_text ?r (m_upstream_refs ?r))"
  have sok: "store_ok s" by (rule lineage_okD(1) [OF ok])
  have m: "m \<in> metas s" by (rule latest_not_superseded(1) [OF ok latest])
  have aid: "m_artifact_id m \<noteq> []" using lineage_okD(2) [OF ok m] by (simp add: record_ok_def)
  have slug: "slug_ok (m_project_slug m)" and v: "1 \<le> m_version m"
    using metas_ok [OF sok m] by (auto dest: meta_okD)
  note rf = revised_fields [OF aid slug, of now stamp sfx reqs author]
  have sav: "saveable ?r s"
    using rf slug v store_okD(3) [OF sok _ m] by (auto simp: saveable_def same_product_def)
  obtain s1 where s1: "save_artifact ?r ?c s = (n, s1)"
    by (simp add: save_artifact_eq n_def with_paths_def Let_def)
  note save = save_artifact_ok [OF sok sav s1]
  have new: "snd (meta_paths j) \<noteq> snd (meta_paths ?r)" if j: "j \<in> metas s" for j
  proof
    assume eq: "snd (meta_paths j) = snd (meta_paths ?r)"
    have "0 \<le> m_version j" using metas_ok [OF sok j] by (auto dest: meta_okD(4))
    with build_paths_inj [OF eq] rf v have "m_artifact_id j = m_artifact_id m \<and> m_version j = m_version m + 1" by simp
    with j latest_not_superseded(3) [OF ok latest] show False by (auto simp: has_version_def)
  qed
  then have ms1: "metas s1 = insert n (metas s)" using save(2) by auto
  have nm: "n \<noteq> m" using rf(2) by (auto simp: n_def with_paths_def dest: arg_cong [where f = m_version])
  from touched_by_update [OF save(1), of m k] m ms1
  obtain s' where u: "update_metadata k s1 = (k, s')" and t: "touched s1 m k s'" by (auto simp: k_def)
  have na: "m_artifact_id n = m_artifact_id m" by (simp add: n_def with_paths_def rf(1))
  have pn: "meta_paths n = meta_paths ?r" by (simp add: n_def with_paths_def)
  have d: "fst (meta_paths x) \<noteq> snd (meta_paths y)" for x y by (rule build_paths_differ)
  have s1get: "dict_get s1 q = dict_get s q" if "q \<noteq> fst (meta_paths n)" "q \<noteq> snd (meta_paths n)" for q
    using s1 that by (auto simp: save_artifact_eq Let_def pn)
  have s1md: "dict_get s1 (fst (meta_paths n)) = Some (MdFile ?c)"
    using s1 d [of n n] by (auto simp: save_artifact_eq Let_def pn)
  have ct: "control_text ?r (m_upstream_refs ?r) = control_text n (m_upstream_refs m)"
    by (simp add: control_text_def control_context_def n_def with_paths_def revised_metadata_def build_metadata_def)
  show ?thesis
  proof (rule that [of s'])
    show "revise now now' stamp sfx aid content reqs author s = Inr (Some n, s')"
      using latest s1 u na by (simp add: revise_def render_document_control_eq k_def Let_def)
    show "store_ok s'" using t by (simp add: touched_def)
    show "metas s' = insert n (insert k (metas s - {m}))" using t ms1 nm by (auto simp: touched_def)
    show "dict_get s' (fst (meta_paths n)) =
        Some (MdFile (replace_document_control content (control_text n (m_upstream_refs m))))"
      using t s1md d [of n m] by (simp add: touched_def ct)
    show "dict_get s' q = dict_get s q"
      if "q \<notin> {fst (meta_paths n), snd (meta_paths n), snd (meta_paths m)}" for q
      using t s1get that by (simp add: touched_def)
  qed
qed

lemma with_paths_simps [simp]:
  "m_artifact_id (with_paths m) = m_artifact_id m" "m_version (with_paths m) = m_version m"
  "m_status (with_paths m) = m_status m"
  by (simp_all add: with_paths_def)

lemma superseded_simps [simp]:
  "m_artifact_id (superseded_metadata now a m) = m_artifact_id m"
  "m_version (superseded_metadata now a m) = m_version m"
  "m_status (superseded_metadata now a m) = STATUS_SUPERSEDED"
  by (simp_all add: superseded_metadata_def record_status_change_def)

lemma revise_lineage:
  assumes "lineage_ok s" and "revise now now' stamp sfx aid content reqs author s = Inr (r, s')"
  shows "lineage_ok s'"
proof (cases "get_latest_by_id aid None s")
  case None
  with assms show ?thesis by (simp add: missing_unchanged)
next
  case (Some m)
  let ?n = "with_paths (revised_metadata now stamp sfx reqs author m)"
  let ?k = "superseded_metadata now' (m_artifact_id m) m"
  from revise_effect [OF assms(1) Some refl refl] assms(2)
  have ok: "store_ok s'" and ms: "metas s' = insert ?n (insert ?k (metas s - {m}))" by (metis Pair_inject sum.inject(2))+
  note m = latest_not_superseded [OF assms(1) Some]
  have rec: "record_ok m" by (rule lineage_okD(2) [OF assms(1) m(1)])
  have v: "1 \<le> m_version m" and slug: "slug_ok (m_project_slug m)"
    using metas_ok [OF lineage_okD(1) [OF assms(1)] m(1)] by (auto dest: meta_okD)
  have aid: "m_artifact_id m \<noteq> []" using rec by (simp add: record_ok_def)
  note rf = revised_fields [OF aid slug, of now stamp sfx reqs author]
  have hv: "has_version s' a w \<longleftrightarrow> has_version s a w \<or> a = m_artifact_id m \<and> w = m_version m + 1" for a w
    unfolding has_version_def ms using m(1) by (auto simp: rf)
  have top: "\<not> has_version s (m_artifact_id m) (m_version m + 2)"
  proof
    assume "has_version s (m_artifact_id m) (m_version m + 2)"
    then obtain j where "j \<in> metas s" "m_artifact_id j = m_artifact_id m" "m_version j = m_version m + 2"
      by (auto simp: has_version_def)
    with latest_mem [OF lineage_okD(1) [OF assms(1)] Some] show False by fastforce
  qed
  have "record_ok x \<and> (1 < m_version x \<longrightarrow> has_version s' (m_artifact_id x) (m_version x - 1)) \<and>
      (m_status x = STATUS_SUPERSEDED \<longleftrightarrow> has_version s' (m_artifact_id x) (m_version x + 1))"
    if x: "x \<in> metas s'" for x
  proof -
    consider "x = ?n" | "x = ?k" | "x \<in> metas s" "x \<noteq> m" using x ms by blast
    then show ?thesis
    proof cases
      case 1
      have "has_version s (m_artifact_id m) (m_version m)" using m(1) by (auto simp: has_version_def)
      with 1 rf revised_record_ok [OF aid v] top show ?thesis by (simp add: hv add.commute)
    next
      case 2
      with superseded_record_ok [OF rec] lineage_okD(3) [OF assms(1) m(1)] show ?thesis by (simp add: hv)
    next
      case 3
      have "m_artifact_id x = m_artifact_id m \<Longrightarrow> m_version x \<noteq> m_version m"
        using metas_unique [OF lineage_okD(1) [OF assms(1)] 3(1) m(1)] 3(2) by blast
      with lineage_okD(2,3,4) [OF assms(1) 3(1)] show ?thesis by (auto simp: hv)
    qed
  qed
  with ok show ?thesis by (simp add: lineage_ok_def)
qed

lemma created_record_ok:
  "slugify (PStr wp_id) \<noteq> [] \<Longrightarrow>
   record_ok (with_paths (build_metadata now stamp sfx slug phase wp_id title author reviewer refs None 1 STATUS_DRAFT None []))"
  by (simp add: record_ok_def with_paths_def build_metadata_def new_artifact_id_def)

lemma create_effect:
  assumes "store_ok s" and "\<forall>n \<in> metas s. m_artifact_id n \<noteq> m_artifact_id m"
    and "slug_ok (m_project_slug m)" and "m_version m = 1" and "save_artifact m content s = (m', s')"
  shows "m' = with_paths m" and "store_ok s'" and "metas s' = insert m' (metas s)"
    and "\<And>q. q \<notin> {fst (meta_paths m), snd (meta_paths m)} \<Longrightarrow> dict_get s' q = dict_get s q"
proof -
  have sav: "saveable m s" using assms(2-4) by (auto simp: saveable_def)
  note save = save_artifact_ok [OF assms(1) sav assms(5)]
  show "m' = with_paths m" using assms(5) by (auto simp: save_artifact_eq with_paths_def Let_def)
  show "store_ok s'" by (rule save)
  have "snd (meta_paths n) \<noteq> snd (meta_paths m)" if n: "n \<in> metas s" for n
  proof
    assume eq: "snd (meta_paths n) = snd (meta_paths m)"
    have "0 \<le> m_version n" using metas_ok [OF assms(1) n] by (auto dest: meta_okD(4))
    with build_paths_inj [OF eq] assms(2,4) n show False by auto
  qed
  with save(2) show "metas s' = insert m' (metas s)" by auto
  show "\<And>q. q \<notin> {fst (meta_paths m), snd (meta_paths m)} \<Longrightarrow> dict_get s' q = dict_get s q"
    using assms(5) by (auto simp: save_artifact_eq Let_def)
qed

lemma create_lineage:
  assumes "lineage_ok s"
    and m: "m = build_metadata now stamp sfx slug phase wp_id title author reviewer refs None 1 STATUS_DRAFT None []"
    and fresh: "\<forall>n \<in> metas s. m_artifact_id n \<noteq> m_artifact_id m"
    and save: "save_artifact m content s = (m', s')"
  shows "lineage_ok s'"
proof -
  have slug: "slug_ok (m_project_slug m)" and v: "m_version m = 1" and st: "m_status m = STATUS_DRAFT"
    by (simp_all add: m build_metadata_def normalize_slug_ok)
  note eff = create_effect [OF lineage_okD(1) [OF assms(1)] fresh slug v save]
  have "slugify (PStr wp_id) \<noteq> []" using slugify_ok [of "PStr wp_id"] by (auto simp: slug_ok_def)
  then have rec: "record_ok m'" unfolding eff(1) m by (rule created_record_ok)
  have hv: "has_version s' a w \<longleftrightarrow> has_version s a w \<or> a = m_artifact_id m \<and> w = 1" for a w
    unfolding has_version_def eff(3) by (auto simp: eff(1) v)
  have none: "\<not> has_version s (m_artifact_id m) w" for w using fresh by (auto simp: has_version_def)
  have "record_ok x \<and> (1 < m_version x \<longrightarrow> has_version s' (m_artifact_id x) (m_version x - 1)) \<and>
      (m_status x = STATUS_SUPERSEDED \<longleftrightarrow> has_version s' (m_artifact_id x) (m_version x + 1))"
    if x: "x \<in> metas s'" for x
  proof (cases "x = m'")
    case True
    with rec none st v show ?thesis by (simp add: hv eff(1))
  next
    case False
    with x eff(3) have x: "x \<in> metas s" by simp
    with fresh have "m_artifact_id x \<noteq> m_artifact_id m" by simp
    with lineage_okD(2,3,4) [OF assms(1) x] show ?thesis by (simp add: hv)
  qed
  with eff(2) show ?thesis unfolding lineage_ok_def by blast
qed

lemma wf_step_lineage:
  assumes "wf_step s s'" and "lineage_ok s"
  shows "lineage_ok s'"
  using assms(1)
proof cases
  case create
  show ?thesis by (rule create_lineage [OF assms(2) create])
next
  case review
  with status_ops_lineage(1) [OF assms(2)] show ?thesis by (metis snd_conv)
next
  case changes
  with status_ops_lineage(2) [OF assms(2)] show ?thesis by (metis snd_conv)
next
  case approval
  with status_ops_lineage(3) [OF assms(2)] show ?thesis by (metis snd_conv)
next
  case revision
  show ?thesis by (rule revise_lineage [OF assms(2) revision])
qed

lemma lineage_empty: "lineage_ok []"
  by (simp add: lineage_ok_def)

lemma reachable_lineage: "wf_step\<^sup>*\<^sup>* [] s \<Longrightarrow> lineage_ok s"
  by (induction rule: rtranclp_induct) (auto intro: lineage_empty wf_step_lineage)

subsection \<open>Nothing is lost\<close>

text \<open>What a record keeps: its file, and its history as an initial part of the new one.\<close>

definition grows :: "metadata \<Rightarrow> metadata \<Rightarrow> bool" where
  "grows m n \<longleftrightarrow> same_file m n \<and> prefix (m_status_history m) (m_status_history n)"

lemma grows_refl [simp]: "grows m m"
  by (simp add: grows_def)

lemma grows_status_change:
  "grows m (reviewed now r m)" "grows m (changed now reqs m)" "grows m (approved now now' r notes m)"
  "grows m (superseded_metadata now a m)"
  by (simp_all add: grows_def same_file_status_change)
     (simp_all add: reviewed_def changed_def approved_def superseded_metadata_def record_status_change_def
        set_reviewer_def)

definition keeps :: "store \<Rightarrow> store \<Rightarrow> bool" where
  "keeps s s' \<longleftrightarrow>
     (\<forall>m \<in> metas s. (\<exists>n \<in> metas s'. grows m n) \<and> read_artifact_content m s' = read_artifact_content m s)"

lemma content_kept:
  assumes "store_ok s" and "m \<in> metas s" and "dict_get s' (fst (meta_paths m)) = dict_get s (fst (meta_paths m))"
  shows "read_artifact_content m s' = read_artifact_content m s"
  using meta_okD(2) [OF metas_ok [OF assms(1,2)]] assms(3) by (simp add: read_artifact_content_def)

lemma keeps_touched:
  assumes "store_ok s" and "touched s m n s'" and "grows m n"
  shows "keeps s s'"
  unfolding keeps_def
proof (intro ballI conjI)
  fix k
  assume k: "k \<in> metas s"
  with assms(2,3) show "\<exists>n \<in> metas s'. grows k n"
    unfolding touched_def by (metis Diff_iff grows_refl insert_iff singletonD)
  have "fst (meta_paths k) \<noteq> snd (meta_paths m)" by (rule build_paths_differ)
  with assms(2) have "dict_get s' (fst (meta_paths k)) = dict_get s (fst (meta_paths k))" by (simp add: touched_def)
  then show "read_artifact_content k s' = read_artifact_content k s" by (rule content_kept [OF assms(1) k])
qed

lemma keeps_refl [simp]: "keeps s s"
  by (auto simp: keeps_def intro!: bexI [where x = m for m])

lemma keeps_status_ops:
  assumes "store_ok s"
  shows "keeps s (snd (request_review now aid reviewer cl s))" and "keeps s (snd (request_changes now aid reqs s))"
    and "keeps s (snd (approve now now' aid reviewer notes s))"
  using keeps_touched [OF assms request_review_touches [OF assms] grows_status_change(1)]
    keeps_touched [OF assms request_changes_touches [OF assms] grows_status_change(2)]
    keeps_touched [OF assms approve_touches [OF assms] grows_status_change(3)] missing_unchanged(1-3) keeps_refl
  by (metis option.exhaust)+

lemma keeps_create:
  assumes "store_ok s" and "\<forall>n \<in> metas s. m_artifact_id n \<noteq> m_artifact_id m"
    and "slug_ok (m_project_slug m)" and "m_version m = 1" and "save_artifact m content s = (m', s')"
  shows "keeps s s'"
  unfolding keeps_def
proof (intro ballI conjI)
  note eff = create_effect [OF assms]
  fix k
  assume k: "k \<in> metas s"
  with eff(3) show "\<exists>n \<in> metas s'. grows k n" by (auto intro: bexI [where x = k])
  have "snd (meta_paths k) \<noteq> snd (meta_paths m)"
  proof
    assume eq: "snd (meta_paths k) = snd (meta_paths m)"
    have "0 \<le> m_version k" using metas_ok [OF assms(1) k] by (auto dest: meta_okD(4))
    with build_paths_inj [OF eq] assms(2,4) k show False by auto
  qed
  then have "fst (meta_paths k) \<notin> {fst (meta_paths m), snd (meta_paths m)}"
    using md_json_paths build_paths_differ by simp
  then show "read_artifact_content k s' = read_artifact_content k s"
    by (intro content_kept [OF assms(1) k] eff(4))
qed

lemma keeps_revise:
  assumes "lineage_ok s" and "revise now now' stamp sfx aid content reqs author s = Inr (r, s')"
  shows "keeps s s'"
proof (cases "get_latest_by_id aid None s")
  case None
  with assms show ?thesis by (simp add: missing_unchanged)
next
  case (Some m)
  let ?n = "with_paths (revised_metadata now stamp sfx reqs author m)"
  let ?k = "superseded_metadata now' (m_artifact_id m) m"
  have sok: "store_ok s" by (rule lineage_okD(1) [OF assms(1)])
  from revise_effect [OF assms(1) Some refl refl] assms(2)
  have ms: "metas s' = insert ?n (insert ?k (metas s - {m}))"
    and fr: "\<And>q. q \<notin> {fst (meta_paths ?n), snd (meta_paths ?n), snd (meta_paths m)} \<Longrightarrow> dict_get s' q = dict_get s q"
    by (metis Pair_inject sum.inject(2))+
  note m = latest_not_superseded [OF assms(1) Some]
  have aid: "m_artifact_id m \<noteq> []" using lineage_okD(2) [OF assms(1) m(1)] by (simp add: record_ok_def)
  have mok: "slug_ok (m_project_slug m)" "1 \<le> m_version m" using metas_ok [OF sok m(1)] by (auto dest: meta_okD)
  note rf = revised_fields [OF aid mok(1), of now stamp sfx reqs author]
  have new: "snd (meta_paths x) \<noteq> snd (meta_paths ?n)" if x: "x \<in> metas s" for x
  proof
    assume eq: "snd (meta_paths x) = snd (meta_paths ?n)"
    have "0 \<le> m_version x" using metas_ok [OF sok x] by (auto dest: meta_okD(4))
    with build_paths_inj [OF eq] rf mok have "m_artifact_id x = m_artifact_id m \<and> m_version x = m_version m + 1" by simp
    with m(3) x show False by (auto simp: has_version_def)
  qed
  show ?thesis
    unfolding keeps_def
  proof (intro ballI conjI)
    fix x
    assume x: "x \<in> metas s"
    with ms show "\<exists>n \<in> metas s'. grows x n"
      by (metis Diff_iff grows_refl grows_status_change(4) insert_iff singletonD)
    have "fst (meta_paths x) \<notin> {fst (meta_paths ?n), snd (meta_paths ?n), snd (meta_paths m)}"
      using new [OF x] md_json_paths build_paths_differ by simp
    then show "read_artifact_content x s' = read_artifact_content x s"
      by (intro content_kept [OF sok x] fr)
  qed
qed

lemma wf_step_keeps:
  assumes "wf_step s s'" and "lineage_ok s"
  shows "keeps s s'"
  using assms(1)
proof cases
  case create
  show ?thesis
    by (rule keeps_create [OF lineage_okD(1) [OF assms(2)] create(2) _ _ create(3)])
       (simp_all add: create(1) build_metadata_def normalize_slug_ok)
next
  case review
  with keeps_status_ops(1) [OF lineage_okD(1) [OF assms(2)]] show ?thesis by (metis snd_conv)
next
  case changes
  with keeps_status_ops(2) [OF lineage_okD(1) [OF assms(2)]] show ?thesis by (metis snd_conv)
next
  case approval
  with keeps_status_ops(3) [OF lineage_okD(1) [OF assms(2)]] show ?thesis by (metis snd_conv)
next
  case revision
  show ?thesis by (rule keeps_revise [OF assms(2) revision])
qed

lemma grows_trans: "grows l m \<Longrightarrow> grows m n \<Longrightarrow> grows l n"
  by (auto simp: grows_def same_file_def same_product_def intro: prefix_order.trans)

lemma grows_content: "grows m n \<Longrightarrow> read_artifact_content n s = read_artifact_content m s"
  by (simp add: grows_def same_file_def same_product_def read_artifact_content_def cong: option.case_cong)

lemma keeps_trans: "keeps s t \<Longrightarrow> keeps t u \<Longrightarrow> keeps s u"
  unfolding keeps_def by (metis grows_content grows_trans)

lemma run_keeps: "wf_step\<^sup>*\<^sup>* s s' \<Longrightarrow> lineage_ok s \<Longrightarrow> keeps s s' \<and> lineage_ok s'"
  by (induction rule: rtranclp_induct) (auto intro: keeps_trans wf_step_keeps wf_step_lineage)

lemma versions_below:
  assumes "lineage_ok s" and "m \<in> metas s" and "1 \<le> v" and "v \<le> m_version m"
  shows "has_version s (m_artifact_id m) v"
  using assms(2,4)
proof (induction "nat (m_version m - v)" arbitrary: m)
  case 0
  then show ?case by (auto simp: has_version_def intro!: bexI [where x = m])
next
  case (Suc d)
  have "1 < m_version m" using Suc.hyps(2) assms(3) by simp
  with lineage_okD(3) [OF assms(1) Suc.prems(1)] obtain k
    where "k \<in> metas s" "m_artifact_id k = m_artifact_id m" "m_version k = m_version m - 1"
    by (auto simp: has_version_def)
  with Suc.hyps(1) [of k] Suc.hyps(2) show ?case by simp
qed


section \<open>Properties\<close>

lemma example_reachable: "wf_step\<^sup>*\<^sup>* [] example_store"
proof -
  have "wf_step [] example_store"
    by (rule wf_step.create [OF example_meta_def, where s = "[]" and content = "''text''"])
       (simp_all add: example_store_def prod_eq_iff)
  then show ?thesis by blast
qed

abbreviation example_id :: string where "example_id \<equiv> ''wp_fsc-20240101000000-ab12cd34''"

lemma example_latest:
  "get_latest_by_id (PStr example_id) None example_store = Some (with_paths example_meta)"
  by code_simp

text \<open>
  C1. Whatever sequence of creations, review requests, change requests, approvals and
  revisions led to a store: if the latest version of an artifact is \<open>m\<close>, the stored versions
  of that artifact are exactly \<open>1, \<dots>, m_version m\<close>, and a version is marked superseded (and
  linked to the next version) exactly when it is not the latest.
\<close>

theorem version_lineage:
  assumes "wf_step\<^sup>*\<^sup>* [] s" and "get_latest_by_id (PStr a) None s = Some m"
  shows "m_version ` {n \<in> metas s. m_artifact_id n = a} = {1..m_version m} \<and>
         (\<forall>n \<in> metas s. m_artifact_id n = a \<longrightarrow>
            (m_status n = STATUS_SUPERSEDED \<longleftrightarrow> n \<noteq> m) \<and>
            m_superseded_by n = (if n = m then None else Some (a, m_version n + 1)))"
proof -
  have ok: "lineage_ok s" by (rule reachable_lineage [OF assms(1)])
  note sok = lineage_okD(1) [OF ok]
  from latest_mem [OF sok assms(2)] have m: "m \<in> metas s" "m_artifact_id m = a"
    and max: "\<And>n. n \<in> metas s \<Longrightarrow> m_artifact_id n = a \<Longrightarrow> m_version n \<le> m_version m" by auto
  have "1 \<le> m_version n" if "n \<in> metas s" for n using metas_ok [OF sok that] by (rule meta_okD(4))
  with versions_below [OF ok m(1)] m(2) max
  have "m_version ` {n \<in> metas s. m_artifact_id n = a} = {1..m_version m}"
    by (fastforce simp: has_version_def)
  moreover have "m_status n = STATUS_SUPERSEDED \<longleftrightarrow> n \<noteq> m" if n: "n \<in> metas s" "m_artifact_id n = a" for n
  proof
    assume "m_status n = STATUS_SUPERSEDED"
    then show "n \<noteq> m" using latest_not_superseded(2) [OF ok assms(2)] by blast
  next
    assume "n \<noteq> m"
    then have "m_version n < m_version m" using metas_unique [OF sok n(1) m(1)] max [OF n] n m(2) by fastforce
    moreover have "1 \<le> m_version n" using metas_ok [OF sok n(1)] by (rule meta_okD(4))
    ultimately have "has_version s (m_artifact_id m) (m_version n + 1)" by (intro versions_below [OF ok m(1)]) auto
    then show "m_status n = STATUS_SUPERSEDED" using lineage_okD(4) [OF ok n(1)] n m by simp
  qed
  moreover have "record_ok n" if "n \<in> metas s" for n by (rule lineage_okD(2) [OF ok that])
  ultimately show ?thesis by (auto simp: record_ok_def)
qed

theorem version_lineage_witness:
  "m_version ` {n \<in> metas example_store. m_artifact_id n = example_id} = {1..1}"
  using version_lineage [OF example_reachable example_latest]
  by (simp add: example_meta_def build_metadata_def)

text \<open>
  C13. No workflow operation loses anything: from any reachable store, after any number of
  further steps, every metadata record is still there under the same file with its status
  history extended at the end only, and the content of every version reads back unchanged.
\<close>

theorem history_preserved:
  assumes "wf_step\<^sup>*\<^sup>* [] s" and "wf_step\<^sup>*\<^sup>* s s'" and "m \<in> metas s"
  shows "(\<exists>n \<in> metas s'. m_artifact_id n = m_artifact_id m \<and> m_version n = m_version m \<and>
            same_product m n \<and> prefix (m_status_history m) (m_status_history n)) \<and>
         read_artifact_content m s' = read_artifact_content m s"
  using run_keeps [OF assms(2) reachable_lineage [OF assms(1)]] assms(3)
  by (fastforce simp: keeps_def grows_def same_file_def)

theorem history_preserved_witness:
  "read_artifact_content (with_paths example_meta)
     (snd (approve ''2024-02-01T00:00:00Z'' ''2024-02-01T00:00:00Z'' (PStr example_id) PNone PNone example_store)) = ''text''"
proof -
  have "wf_step\<^sup>*\<^sup>* example_store
      (snd (approve ''2024-02-01T00:00:00Z'' ''2024-02-01T00:00:00Z'' (PStr example_id) PNone PNone example_store))"
    by (intro r_into_rtranclp wf_step.approval) (rule surjective_pairing)
  moreover have "with_paths example_meta \<in> metas example_store"
    using latest_mem [OF example_store_ok example_latest] by simp
  ultimately have "read_artifact_content (with_paths example_meta)
      (snd (approve ''2024-02-01T00:00:00Z'' ''2024-02-01T00:00:00Z'' (PStr example_id) PNone PNone example_store)) =
      read_artifact_content (with_paths example_meta) example_store"
    using history_preserved [OF example_reachable] by blast
  also have "\<dots> = ''text''" by code_simp
  finally show ?thesis .
qed

text \<open>
  Approval makes an artifact usable downstream: after \<open>approve\<close> on an existing artifact of
  a reachable store its latest version is \<open>APPROVED\<close> and locked, nothing else in the store
  changed, and a requirement for its phase and work product is no longer reported missing by
  \<open>resolve_upstream\<close> for its project.
\<close>

theorem approved_artifact_resolves:
  assumes "wf_step\<^sup>*\<^sup>* [] s" and "get_latest_by_id aid None s = Some m"
    and "m_phase m \<noteq> []" and "m_wp_id m \<noteq> []"
  shows "let s' = snd (approve now now' aid reviewer remarks s); n = approved now now' reviewer remarks m in
         get_latest_by_id aid None s' = Some n \<and> m_status n = STATUS_APPROVED \<and> m_locked n \<and>
         metas s' = insert n (metas s - {m}) \<and>
         (\<exists>k. resolve_upstream (m_project_slug m)
                [\<lparr>rq_phase = m_phase m, rq_wp_id = m_wp_id m, rq_status = None\<rparr>] s' = ([k], []))"
proof -
  let ?s' = "snd (approve now now' aid reviewer remarks s)" and ?n = "approved now now' reviewer remarks m"
  let ?r = "\<lparr>rq_phase = m_phase m, rq_wp_id = m_wp_id m, rq_status = None\<rparr>"
  have ok: "lineage_ok s" by (rule reachable_lineage [OF assms(1)])
  note sok = lineage_okD(1) [OF ok]
  have t: "touched s m ?n ?s'" by (rule approve_touches [OF sok assms(2)])
  have sf: "same_file m ?n" by (rule same_file_status_change)
  have ok': "store_ok ?s'" and ms: "metas ?s' = insert ?n (metas s - {m})" using t by (auto simp: touched_def)
  have st: "m_status ?n = STATUS_APPROVED" "m_locked ?n" by (simp_all add: approved_def record_status_change_def)
  note m = latest_mem [OF sok assms(2)]
  have latest: "get_latest_by_id aid None ?s' = Some ?n"
    using latestI [OF ok', of ?n] m sf by (auto simp: ms same_file_def)
  have slug: "slug_ok (m_project_slug m)" using metas_ok [OF sok] m by (auto dest: meta_okD)
  have "meets (m_project_slug m) ?r ?n"
    using sf st slug by (simp add: meets_def req_status_def same_file_def same_product_def normalize_slug_fixed)
  with ms have "\<exists>x \<in> metas ?s'. meets (m_project_slug m) ?r x" by blast
  moreover have "m_project_slug m \<noteq> []" using slug by (auto simp: slug_ok_def)
  ultimately have "get_latest_by_wp (m_project_slug m) (m_phase m) (m_wp_id m) (Some STATUS_APPROVED) ?s' \<noteq> None"
    using latest_by_wp_None [OF ok', of "m_project_slug m" ?r] assms(3,4) by (simp add: req_status_def)
  then obtain k where "get_latest_by_wp (m_project_slug m) (m_phase m) (m_wp_id m) (Some STATUS_APPROVED) ?s' = Some k"
    by blast
  then have "resolve_upstream (m_project_slug m) [?r] ?s' = ([k], [])" by simp
  with latest st ms show ?thesis unfolding Let_def by blast
qed

theorem approved_artifact_resolves_witness:
  "snd (resolve_upstream ''demo'' [\<lparr>rq_phase = ''concept'', rq_wp_id = ''WP-FSC'', rq_status = None\<rparr>]
     (snd (approve ''t1'' ''t2'' (PStr example_id) (PStr ''bob'') PNone example_store))) = []"
proof -
  have "m_phase (with_paths example_meta) = ''concept''" "m_wp_id (with_paths example_meta) = ''WP-FSC''"
    "m_project_slug (with_paths example_meta) = ''demo''" by code_simp+
  with approved_artifact_resolves [OF example_reachable example_latest, where now = "''t1''" and now' = "''t2''"
      and reviewer = "PStr ''bob''" and remarks = PNone]
  show ?thesis by (auto simp: Let_def)
qed

text \<open>
  A revision succeeds on every existing artifact of a reachable store: the new latest
  version is a draft, numbered one higher and pointing back to the version it supersedes, with
  the given text under a fresh document control block; and no version of the artifact is
  approved any more, so downstream generators see the approval withdrawn.
\<close>

theorem revise_opens_new_draft:
  assumes "wf_step\<^sup>*\<^sup>* [] s" and "get_latest_by_id (PStr a) None s = Some m"
  shows "\<exists>n s'. revise now now' stamp sfx (PStr a) content reqs author s = Inr (Some n, s') \<and>
           get_latest_by_id (PStr a) None s' = Some n \<and>
           m_version n = m_version m + 1 \<and> m_status n = STATUS_DRAFT \<and>
           m_supersedes n = Some (a, m_version m) \<and>
           read_artifact_content n s' =
             replace_document_control content (control_text n (m_upstream_refs m)) \<and>
           (\<forall>k \<in> metas s'. m_artifact_id k = a \<longrightarrow> m_status k \<noteq> STATUS_APPROVED)"
proof -
  let ?n = "with_paths (revised_metadata now stamp sfx reqs author m)"
  let ?k = "superseded_metadata now' (m_artifact_id m) m"
  have ok: "lineage_ok s" by (rule reachable_lineage [OF assms(1)])
  note sok = lineage_okD(1) [OF ok]
  from revise_effect [OF ok assms(2) refl refl] obtain s' where
    r: "revise now now' stamp sfx (PStr a) content reqs author s = Inr (Some ?n, s')" and ok': "store_ok s'"
    and ms: "metas s' = insert ?n (insert ?k (metas s - {m}))"
    and c: "dict_get s' (fst (meta_paths ?n)) =
      Some (MdFile (replace_document_control content (control_text ?n (m_upstream_refs m))))" by metis
  from latest_mem [OF sok assms(2)] have m: "m \<in> metas s" "m_artifact_id m = a"
    and max: "\<And>n. n \<in> metas s \<Longrightarrow> m_artifact_id n = a \<Longrightarrow> m_version n \<le> m_version m" by auto
  have rec: "record_ok m" by (rule lineage_okD(2) [OF ok m(1)])
  then have aid: "m_artifact_id m \<noteq> []" by (simp add: record_ok_def)
  have slug: "slug_ok (m_project_slug m)" using metas_ok [OF sok m(1)] by (rule meta_okD(5))
  note rf = revised_fields [OF aid slug, of now stamp sfx reqs author]
  have vers: "m_version k \<le> m_version ?n" if "k \<in> metas s'" "m_artifact_id k = m_artifact_id ?n" for k
  proof -
    have "k = ?n \<or> k = ?k \<or> k \<in> metas s" using that(1) unfolding ms by blast
    moreover have "k \<in> metas s \<Longrightarrow> m_version k \<le> m_version m" using max that(2) rf(1) m(2) by simp
    ultimately show ?thesis using rf(2) by fastforce
  qed
  have latest: "get_latest_by_id (PStr a) None s' = Some ?n"
    using latestI [OF ok', of ?n] vers ms rf m by simp
  have lin: "lineage_ok s'" by (rule revise_lineage [OF ok r])
  have "m_status k \<noteq> STATUS_APPROVED" if k: "k \<in> metas s'" "m_artifact_id k = a" for k
  proof (cases "k = ?n")
    case True
    with rf show ?thesis by simp
  next
    case False
    have "1 \<le> m_version k" using metas_ok [OF ok' k(1)] by (rule meta_okD(4))
    moreover have "m_version k < m_version ?n"
    proof -
      have "?n \<in> metas s'" and id: "m_artifact_id k = m_artifact_id ?n" using ms k rf m by simp_all
      with metas_unique [OF ok' k(1)] False have "m_version k \<noteq> m_version ?n" by blast
      with vers [OF k(1) id] show ?thesis by simp
    qed
    ultimately have "has_version s' a (m_version k + 1)"
      using versions_below [OF lin, of ?n "m_version k + 1"] ms rf m by simp
    then show ?thesis using lineage_okD(4) [OF lin k(1)] k(2) by simp
  qed
  moreover have "read_artifact_content ?n s' = replace_document_control content (control_text ?n (m_upstream_refs m))"
    using c by (simp add: read_artifact_content_def with_paths_def)
  moreover have "m_supersedes ?n = Some (a, m_version m)"
    using m by (simp add: with_paths_def revised_metadata_def build_metadata_def)
  ultimately show ?thesis using r latest rf by auto
qed

theorem revise_opens_new_draft_witness:
  "\<exists>n s'. revise ''t1'' ''t2'' ''st'' ''sf'' (PStr example_id) ''new text'' PNone PNone example_store = Inr (Some n, s') \<and>
     m_version n = 2 \<and> get_latest_by_id (PStr example_id) None s' = Some n"
proof -
  have "m_version (with_paths example_meta) = 1" by code_simp
  with revise_opens_new_draft [OF example_reachable example_latest, where now = "''t1''" and now' = "''t2''"
      and stamp = "''st''" and sfx = "''sf''" and content = "''new text''" and reqs = PNone and author = PNone]
  show ?thesis by auto
qed

text \<open>
  Approval does not freeze an artifact: \<open>request_changes\<close> on an approved and locked
  artifact puts it back to \<open>DRAFT\<close> while \<open>locked\<close> stays set, so the lock has no effect.
\<close>

theorem lock_not_enforced:
  assumes "store_ok s" and "get_latest_by_id aid None s = Some m" and "m_locked m"
  shows "\<exists>n. get_latest_by_id aid None (snd (request_changes now aid reqs s)) = Some n \<and>
             m_status n = STATUS_DRAFT \<and> m_locked n"
proof -
  let ?s' = "snd (request_changes now aid reqs s)" and ?n = "changed now reqs m"
  have t: "touched s m ?n ?s'" by (rule request_changes_touches [OF assms(1,2)])
  have "get_latest_by_id (PStr (m_artifact_id ?n)) None ?s' = Some ?n"
    using t latest_mem [OF assms(1,2)] same_file_status_change(2) [of m now reqs]
    by (intro latestI) (auto simp: touched_def same_file_def)
  moreover have "PStr (m_artifact_id ?n) = aid" "m_status ?n = STATUS_DRAFT" "m_locked ?n"
    using latest_mem [OF assms(1,2)] assms(3) by (simp_all add: changed_def record_status_change_def)
  ultimately show ?thesis by metis
qed

theorem lock_not_enforced_witness:
  "\<exists>n. get_latest_by_id (PStr example_id) None
         (snd (request_changes ''t3'' (PStr example_id) PNone
           (snd (approve ''t1'' ''t2'' (PStr example_id) PNone PNone example_store)))) = Some n \<and>
       m_status n = STATUS_DRAFT \<and> m_locked n"
proof (rule lock_not_enforced)
  show "store_ok (snd (approve ''t1'' ''t2'' (PStr example_id) PNone PNone example_store))"
    using approve_touches [OF example_store_ok example_latest] by (simp add: touched_def)
  show "get_latest_by_id (PStr example_id) None (snd (approve ''t1'' ''t2'' (PStr example_id) PNone PNone example_store)) =
      Some (approved ''t1'' ''t2'' PNone PNone (with_paths example_meta))" by code_simp
  show "m_locked (approved ''t1'' ''t2'' PNone PNone (with_paths example_meta))" by code_simp
qed

end
