(* ===== verification/Iso_Tools.thy ===== *)
theory Iso_Tools
  imports Review_Workflow "HOL-Library.Char_ord" "HOL-Library.List_Lexorder"
begin

text \<open>
  Project selection and the tools of the ISO 26262 core plugin (\<open>config.py\<close>,
  \<open>core_tools.py\<close>), and the five-tool pattern (generate, request review, request changes,
  revise, approve) the assistants share.  The state is the working memory of the session, the
  plugin's settings file and the workspace; what the process reads from outside (the JSON
  decoder, the environment variable, the language model, clock, identifier suffix and the
  printed workspace root) is the record \<open>iso_env\<close>.  A tool returns its reply and the new
  state, or the exception it raises.  Phase and work product names hold no path separator.
\<close>


section \<open>State and environment\<close>

record iso_env =
  e_loads :: "string \<Rightarrow> pyval option"
  e_slug_var :: "string option"
  e_llm :: "string \<Rightarrow> string result"
  e_now :: string
  e_now' :: string
  e_stamp :: string
  e_suffix :: string
  e_root :: string

text \<open>\<open>st_settings\<close> is \<open>None\<close> when \<open>settings.json\<close> cannot be read, \<open>st_writable\<close> whether it can be written.\<close>

record iso_state =
  st_wm :: "(string, pyval) dict"
  st_settings :: "(string, pyval) dict option"
  st_writable :: bool
  st_store :: store

abbreviation dget :: "(string, pyval) dict \<Rightarrow> string \<Rightarrow> pyval" where
  "dget d k \<equiv> (case dict_get d k of Some v \<Rightarrow> v | None \<Rightarrow> PNone)"

definition py_or :: "pyval \<Rightarrow> pyval \<Rightarrow> pyval" where
  "py_or a b = (if truthy a then a else b)"

definition show_path :: "iso_env \<Rightarrow> path \<Rightarrow> string" where
  "show_path env p = join_with ''/'' (e_root env # p)"


section \<open>config.py\<close>

definition load_settings :: "iso_state \<Rightarrow> (string, pyval) dict" where
  "load_settings st = (case st_settings st of Some d \<Rightarrow> d | None \<Rightarrow> [])"

definition save_settings :: "(string, pyval) dict \<Rightarrow> iso_state \<Rightarrow> iso_state" where
  "save_settings d st = (if st_writable st then st\<lparr>st_settings := Some d\<rparr> else st)"

definition set_wm :: "string \<Rightarrow> pyval \<Rightarrow> iso_state \<Rightarrow> iso_state" where
  "set_wm k v st = st\<lparr>st_wm := dict_set k v (st_wm st)\<rparr>"

abbreviation slug_key :: string where "slug_key \<equiv> ''iso26262_project_slug''"

definition get_project_slug :: "iso_env \<Rightarrow> pyval \<Rightarrow> iso_state \<Rightarrow> string \<times> iso_state" where
  "get_project_slug env tool_input st =
     (let provided = (case tool_input of
                        PDict d \<Rightarrow> py_or (dget d ''project_slug'') (dget d ''project'')
                      | _ \<Rightarrow> PNone) in
      if truthy provided then
        (let slug = normalize_project_slug provided in (slug, set_wm slug_key (PStr slug) st))
      else
        let existing = dget (st_wm st) slug_key in
        if truthy existing then (normalize_project_slug existing, st)
        else
          let settings_slug = dget (load_settings st) ''default_project_slug'' in
          case e_slug_var env of
            Some (c # cs) \<Rightarrow> (normalize_project_slug (PStr (c # cs)), st)
          | _ \<Rightarrow> (if truthy settings_slug then normalize_project_slug settings_slug
                  else ''default_project'', st))"

definition set_project_slug :: "pyval \<Rightarrow> bool \<Rightarrow> iso_state \<Rightarrow> string \<times> iso_state" where
  "set_project_slug project_slug persist st =
     (let slug = normalize_project_slug project_slug;
          st = set_wm slug_key (PStr slug) st
      in (slug,
          if persist
          then save_settings (dict_set ''default_project_slug'' (PStr slug) (load_settings st)) st
          else st))"

section \<open>core\_tools.py\<close>

type_synonym tool_result = "(string \<times> iso_state) result"

text \<open>A decoded input that is not a dictionary has no method \<open>get\<close>.\<close>

definition with_data :: "iso_env \<Rightarrow> pyval \<Rightarrow> ((string, pyval) dict \<Rightarrow> tool_result) \<Rightarrow> tool_result" where
  "with_data env tool_input body =
     (case parse_tool_input (e_loads env) tool_input of
        PDict d \<Rightarrow> body d
      | _ \<Rightarrow> Inl (AttributeError ''get''))"

definition set_iso26262_project :: "iso_env \<Rightarrow> pyval \<Rightarrow> iso_state \<Rightarrow> tool_result" where
  "set_iso26262_project env tool_input st =
     with_data env tool_input (\<lambda>d.
       let project_slug = py_or (py_or (dget d ''project_slug'') (dget d ''project'')) (dget d ''text'') in
       if \<not> truthy project_slug then
         Inr (''Missing project_slug. Provide '' @ [obr] @ ''\"project_slug\": \"...\"'' @ [cbr] @ ''.'', st)
       else
         let (slug, st) = set_project_slug project_slug (truthy (dget d ''persist'')) st
         in Inr (''Active project set to: '' @ slug, st))"

text \<open>A component of a path given by the user: falsy values are skipped, \<open>Path / v\<close> needs text.\<close>

definition path_arg :: "pyval \<Rightarrow> string option result" where
  "path_arg v =
     (if \<not> truthy v then Inr None else case v of PStr s \<Rightarrow> Inr (Some s) | _ \<Rightarrow> Inl TypeError)"

definition keep_latest :: "metadata \<Rightarrow> (string, metadata) dict \<Rightarrow> (string, metadata) dict" where
  "keep_latest m latest =
     (let a = m_artifact_id m in
      if a = [] then latest
      else case dict_get latest a of
             None \<Rightarrow> dict_set a m latest
           | Some k \<Rightarrow> if m_version k < m_version m then dict_set a m latest else latest)"

definition artifact_line :: "metadata \<Rightarrow> string" where
  "artifact_line m =
     ''- '' @ m_artifact_id m @ '' ('' @ m_wp_id m @ '', v'' @ format_version (m_version m) @ '', '' @
     m_status m @ '') - '' @ m_title m"

definition list_iso26262_artifacts :: "iso_env \<Rightarrow> pyval \<Rightarrow> iso_state \<Rightarrow> tool_result" where
  "list_iso26262_artifacts env tool_input st =
     with_data env tool_input (\<lambda>d.
       let (slug, st) = get_project_slug env (PDict d) st in
       case path_arg (dget d ''phase'') of
         Inl e \<Rightarrow> Inl e
       | Inr phase \<Rightarrow>
           (case path_arg (dget d ''wp_id'') of
              Inl e \<Rightarrow> Inl e
            | Inr wp_id \<Rightarrow>
                (let status = dget d ''status'';
                     metas = list_metadata (Some slug) phase wp_id (st_store st);
                     metas = (if truthy status then filter (\<lambda>m. PStr (m_status m) = status) metas else metas)
                 in if metas = [] then Inr (''No artifacts found for project '' @ [CHR 0x27] @ slug @ [CHR 0x27] @ ''.'', st)
                    else
                      let latest = fold keep_latest metas []
                      in Inr (join_with [nl]
                               ((''Artifacts for project '' @ [CHR 0x27] @ slug @ [CHR 0x27] @ '':'') #
                                map (\<lambda>(a, m). artifact_line m) (sort_key fst latest)), st))))"

definition missing_artifact_id :: string where
  "missing_artifact_id = ''Missing artifact_id. Provide '' @ [obr] @ ''\"artifact_id\": \"...\"'' @ [cbr] @ ''.''"

definition show_iso26262_artifact :: "iso_env \<Rightarrow> pyval \<Rightarrow> iso_state \<Rightarrow> tool_result" where
  "show_iso26262_artifact env tool_input st =
     with_data env tool_input (\<lambda>d.
       let aid = py_or (dget d ''artifact_id'') (dget d ''text'') in
       if \<not> truthy aid then Inr (missing_artifact_id, st)
       else case get_latest_by_id aid None (st_store st) of
              None \<Rightarrow> Inr (not_found aid, st)
            | Some m \<Rightarrow>
                Inr (join_with [nl]
                      ([''Artifact ID: '' @ m_artifact_id m, ''Title: '' @ m_title m, ''WP ID: '' @ m_wp_id m,
                        ''Phase: '' @ m_phase m, ''Project: '' @ m_project_slug m,
                        ''Version: v'' @ format_version (m_version m), ''Status: '' @ m_status m,
                        ''Author: '' @ py_str (m_author m), ''Reviewer: '' @ py_str (m_reviewer m),
                        ''Artifact Path: '' @
                          (case m_artifact_path m of Some p \<Rightarrow> show_path env p | None \<Rightarrow> ''None'')] @
                       (if truthy (dget d ''include_content'')
                        then [[nl] @ ''---'' @ [nl], read_artifact_content m (st_store st)] else [])), st))"

definition show_iso26262_traceability :: "iso_env \<Rightarrow> pyval \<Rightarrow> iso_state \<Rightarrow> tool_result" where
  "show_iso26262_traceability env tool_input st =
     with_data env tool_input (\<lambda>d.
       let aid = py_or (dget d ''artifact_id'') (dget d ''text'') in
       if \<not> truthy aid then Inr (missing_artifact_id, st)
       else case get_latest_by_id aid None (st_store st) of
              None \<Rightarrow> Inr (not_found aid, st)
            | Some m \<Rightarrow> Inr (build_traceability_section (m_upstream_refs m), st))"

subsection \<open>Project slugs\<close>

lemma get_project_slug_ok: "slug_ok (fst (get_project_slug env v st))"
  using normalize_slug_ok normalize_slug_ok [of PNone]
  by (auto simp: get_project_slug_def Let_def normalize_project_slug_def [of PNone] split: option.split list.split)

text \<open>The newest version of each artifact among those listed.\<close>

definition latest_inv :: "metadata list \<Rightarrow> (string, metadata) dict \<Rightarrow> bool" where
  "latest_inv ms latest \<longleftrightarrow>
     dict_ok latest \<and> fst ` set latest = {a. a \<noteq> [] \<and> (\<exists>m \<in> set ms. m_artifact_id m = a)} \<and>
     (\<forall>(a, k) \<in> set latest. k \<in> set ms \<and> m_artifact_id k = a \<and>
        (\<forall>m \<in> set ms. m_artifact_id m = a \<longrightarrow> m_version m \<le> m_version k))"

lemma keep_latest_step:
  assumes "latest_inv ms latest"
  shows "latest_inv (ms @ [m]) (keep_latest m latest)"
proof -
  let ?a = "m_artifact_id m"
  have ok: "dict_ok latest" and dom: "fst ` set latest = {a. a \<noteq> [] \<and> (\<exists>m \<in> set ms. m_artifact_id m = a)}"
    and max: "\<And>a k. (a, k) \<in> set latest \<Longrightarrow> k \<in> set ms \<and> m_artifact_id k = a \<and>
        (\<forall>m \<in> set ms. m_artifact_id m = a \<longrightarrow> m_version m \<le> m_version k)"
    using assms by (auto simp: latest_inv_def)
  have put: "latest_inv (ms @ [m]) (dict_set ?a m latest)"
    if "?a \<noteq> []" "\<And>n. n \<in> set ms \<Longrightarrow> m_artifact_id n = ?a \<Longrightarrow> m_version n \<le> m_version m"
    unfolding latest_inv_def
  proof (intro conjI)
    show "dict_ok (dict_set ?a m latest)" using ok by simp
    show "fst ` set (dict_set ?a m latest) = {a. a \<noteq> [] \<and> (\<exists>k \<in> set (ms @ [m]). m_artifact_id k = a)}"
      using dict_keys_set [of ?a m latest] dom that(1) by auto
    show "\<forall>(a, k) \<in> set (dict_set ?a m latest). k \<in> set (ms @ [m]) \<and> m_artifact_id k = a \<and>
        (\<forall>n \<in> set (ms @ [m]). m_artifact_id n = a \<longrightarrow> m_version n \<le> m_version k)"
      using max that(2) by (auto simp: set_dict_set ok)
  qed
  show ?thesis
  proof (cases "?a = []")
    case True
    have "([], k) \<notin> set latest" for k using dom by force
    with True show ?thesis using assms max by (auto simp: latest_inv_def keep_latest_def)
  next
    case False
    show ?thesis
    proof (cases "dict_get latest ?a")
      case None
      then have "?a \<notin> fst ` set latest" by (simp add: map_of_eq_None_iff)
      with dom False have "n \<in> set ms \<Longrightarrow> m_artifact_id n \<noteq> ?a" for n by auto
      with put [OF False] None False show ?thesis by (auto simp: keep_latest_def)
    next
      case (Some k)
      then have k: "(?a, k) \<in> set latest" by (rule map_of_SomeD)
      show ?thesis
      proof (cases "m_version k < m_version m")
        case True
        with put [OF False] max [OF k] Some False show ?thesis by (fastforce simp: keep_latest_def)
      next
        case le: False
        have u: "k' = k" if "(?a, k') \<in> set latest" for k'
          using ok k that by (metis map_of_is_SomeI option.inject)
        have "?a \<in> {a. a \<noteq> [] \<and> (\<exists>m \<in> set ms. m_artifact_id m = a)}" unfolding dom [symmetric] using k by force
        then have eq: "{a. a \<noteq> [] \<and> (\<exists>m \<in> set (ms @ [m]). m_artifact_id m = a)} =
            {a. a \<noteq> [] \<and> (\<exists>m \<in> set ms. m_artifact_id m = a)}" by auto
        have "k' \<in> set (ms @ [m]) \<and> m_artifact_id k' = a \<and>
            (\<forall>n \<in> set (ms @ [m]). m_artifact_id n = a \<longrightarrow> m_version n \<le> m_version k')"
          if "(a, k') \<in> set latest" for a k'
          using max [OF that] u le that by auto
        then have "latest_inv (ms @ [m]) latest"
          unfolding latest_inv_def eq dom by (intro conjI ok refl ballI) (fast | simp only: split_paired_all prod.case, fast)
        with le Some False show ?thesis by (simp add: keep_latest_def)
      qed
    qed
  qed
qed

lemma fold_keep_latest: "latest_inv ms (fold keep_latest ms [])"
proof (induction ms rule: rev_induct)
  case Nil
  then show ?case by (simp add: latest_inv_def)
next
  case (snoc m ms)
  then show ?case by (simp add: keep_latest_step)
qed

section \<open>Properties\<close>

definition example_env :: iso_env where
  "example_env =
     \<lparr>e_loads = (\<lambda>s. None), e_slug_var = None, e_llm = (\<lambda>p. Inl (Exception ''no model'')),
      e_now = ''2024-03-01T00:00:00Z'', e_now' = ''2024-03-01T00:00:01Z'', e_stamp = ''20240301000000'',
      e_suffix = ''0a1b2c'', e_root = ''/work_products''\<rparr>"

definition example_state :: iso_state where
  "example_state = \<lparr>st_wm = [], st_settings = None, st_writable = True, st_store = example_store\<rparr>"

text \<open>
  The project a user names is a well-formed slug and sticks: a later tool call of the same
  session that names no project works on the same project, whatever the environment variable
  and the settings say.
\<close>

theorem project_slug_sticky:
  assumes "truthy (py_or (dget d ''project_slug'') (dget d ''project''))"
    and "\<not> truthy (py_or (dget d' ''project_slug'') (dget d' ''project''))"
    and "get_project_slug env (PDict d) st = (slug, st1)"
  shows "slug_ok slug \<and> get_project_slug env' (PDict d') st1 = (slug, st1)"
proof -
  have slug: "slug = normalize_project_slug (py_or (dget d ''project_slug'') (dget d ''project''))"
    and st1: "st1 = set_wm slug_key (PStr slug) st"
    using assms(1,3) by (auto simp: get_project_slug_def Let_def)
  have ok: "slug_ok slug" unfolding slug by (rule normalize_slug_ok)
  then have "slug \<noteq> []" and n: "normalize_project_slug (PStr slug) = slug"
    by (auto simp: slug_ok_def normalize_slug_fixed)
  with assms(2) ok show ?thesis by (simp add: get_project_slug_def st1 set_wm_def Let_def)
qed

theorem project_slug_sticky_witness:
  "get_project_slug example_env (PDict []) (snd (get_project_slug example_env (PDict [(''project'', PStr ''Brake X'')]) example_state)) =
     (''brake_x'', snd (get_project_slug example_env (PDict [(''project'', PStr ''Brake X'')]) example_state))"
proof -
  have "fst (get_project_slug example_env (PDict [(''project'', PStr ''Brake X'')]) example_state) = ''brake_x''"
    by code_simp
  with project_slug_sticky [of "[(''project'', PStr ''Brake X'')]" "[]" example_env example_state "''brake_x''"
      "snd (get_project_slug example_env (PDict [(''project'', PStr ''Brake X'')]) example_state)" example_env]
  show ?thesis by (simp add: py_or_def prod_eq_iff)
qed

text \<open>
  The artifact list names every artifact once, in the order of the identifiers, with its
  newest version among the records listed.
\<close>

theorem artifact_list_latest:
  "let latest = sort_key fst (fold keep_latest ms []) in
   sorted_wrt (<) (map fst latest) \<and>
   set (map fst latest) = {m_artifact_id m | m. m \<in> set ms \<and> m_artifact_id m \<noteq> []} \<and>
   (\<forall>(a, k) \<in> set latest. k \<in> set ms \<and> m_artifact_id k = a \<and>
      (\<forall>m \<in> set ms. m_artifact_id m = a \<longrightarrow> m_version m \<le> m_version k))"
proof -
  let ?l = "fold keep_latest ms []"
  have inv: "latest_inv ms ?l" by (rule fold_keep_latest)
  have "distinct (map fst (sort_key fst ?l))"
    using inv by (simp add: latest_inv_def distinct_map)
  moreover have "sorted (map fst (sort_key fst ?l))" by simp
  ultimately have "sorted_wrt (<) (map fst (sort_key fst ?l))" by (simp add: strict_sorted_iff)
  moreover have "set (map fst (sort_key fst ?l)) = {m_artifact_id m | m. m \<in> set ms \<and> m_artifact_id m \<noteq> []}"
    using inv unfolding latest_inv_def by auto
  ultimately show ?thesis using inv by (simp add: latest_inv_def Let_def)
qed

theorem artifact_list_latest_witness:
  "sorted_wrt (<) (map fst (sort_key fst (fold keep_latest [with_paths example_meta] [])))"
  using artifact_list_latest [of "[with_paths example_meta]"] by (simp add: Let_def)

end
