(* ===== verification/Assistants.thy ===== *)
theory Assistants
  imports Iso_Tools
begin

text \<open>
  The work product assistants (\<open>hardware_tools.py\<close>, \<open>software_tools.py\<close>,
  \<open>system_tools.py\<close>, \<open>production_operation_tools.py\<close>,
  \<open>supporting_confirmation_tools.py\<close>, \<open>management_tools.py\<close>, \<open>concept_tools.py\<close>).  Their tools
  are the same code up to constants, so the body of each tool is written once over the record
  \<open>wp_spec\<close> of those constants and every tool of every assistant is an instance; the two
  generators that differ (safety plan, HARA artifact) are written out.  Templates are the files
  under the plugins' \<open>templates\<close> folders.
\<close>


section \<open>The shared tool bodies\<close>

record wp_spec =
  ws_phase :: string
  ws_wp_id :: string
  ws_title :: string
  ws_required :: "string list"
  ws_upstream :: "requirement list"
  ws_checklist :: "string list"
  ws_template :: string
  ws_context :: "(string, pyval) dict \<Rightarrow> (string, pyval) dict \<Rightarrow> upstream_ref list \<Rightarrow> (string, string) dict"

definition get_value :: "(string, pyval) dict \<Rightarrow> string \<Rightarrow> iso_state \<Rightarrow> pyval \<times> iso_state" where
  "get_value d key st =
     (let value = coalesce [dget d key, dget (st_wm st) key] in
      if value = PNone then (PStr '''', st)
      else (value, if truthy value then set_wm key value st else st))"

text \<open>The loop over \<open>REQUIRED_FIELDS\<close>: the values, the missing names, and the working memory.\<close>

fun get_fields ::
  "(string, pyval) dict \<Rightarrow> string list \<Rightarrow> iso_state \<Rightarrow> (string, pyval) dict \<times> string list \<times> iso_state" where
  "get_fields d [] st = ([], [], st)"
| "get_fields d (f # fs) st =
     (let (v, st) = get_value d f st;
          (flds, missing, st) = get_fields d fs st
      in ((f, v) # flds, if truthy v then missing else f # missing, st))"

definition draft_reply :: "iso_env \<Rightarrow> string \<Rightarrow> metadata \<Rightarrow> string" where
  "draft_reply env title m =
     join_with [nl]
       [''DRAFT created: '' @ title, ''Artifact ID: '' @ m_artifact_id m,
        ''Version: v'' @ format_version (m_version m), ''Status: '' @ m_status m,
        ''Path: '' @ show_path env (fst (meta_paths m))]"

definition new_draft ::
  "iso_env \<Rightarrow> string \<Rightarrow> string \<Rightarrow> string \<Rightarrow> string \<Rightarrow> pyval \<Rightarrow> pyval \<Rightarrow> upstream_ref list \<Rightarrow> metadata" where
  "new_draft env slug phase wp_id title author reviewer refs =
     build_metadata (e_now env) (e_stamp env) (e_suffix env) (PStr slug) phase wp_id title author
       (PStr (normalize_text reviewer '''')) refs None 1 STATUS_DRAFT None []"

text \<open>The common end of the generators: render the body and the document, save, report.\<close>

definition save_draft ::
  "iso_env \<Rightarrow> metadata \<Rightarrow> string \<Rightarrow> (string, string) dict \<Rightarrow> string list \<Rightarrow> string list \<Rightarrow> string list
     \<Rightarrow> iso_state \<Rightarrow> tool_result" where
  "save_draft env m template context assumptions open_questions checklist st =
     (case render_template template context of
        Inl e \<Rightarrow> Inl e
      | Inr body \<Rightarrow>
          (case render_document m body assumptions open_questions
                  (build_traceability_section (m_upstream_refs m)) checklist of
             Inl e \<Rightarrow> Inl e
           | Inr content \<Rightarrow>
               (let (m, store) = save_artifact m content (st_store st)
                in Inr (draft_reply env (m_title m) m, st\<lparr>st_store := store\<rparr>))))"

definition generate_wp :: "wp_spec \<Rightarrow> iso_env \<Rightarrow> pyval \<Rightarrow> iso_state \<Rightarrow> tool_result" where
  "generate_wp spec env tool_input st =
     with_data env tool_input (\<lambda>d.
       let (slug, st) = get_project_slug env (PDict d) st;
           (flds, missing, st) = get_fields d (ws_required spec) st
       in if missing \<noteq> [] then Inr (render_missing_inputs missing, st)
       else
         let (upstream, missing_upstream) = resolve_upstream slug (ws_upstream spec) (st_store st);
             manual = dget d ''manual_upstream_summary''
         in if missing_upstream \<noteq> [] \<and> \<not> truthy (dget d ''allow_missing_upstream'')
            then Inr (render_missing_upstream missing_upstream, st)
         else
           let refs = make_upstream_refs (if missing_upstream \<noteq> [] then [] else upstream);
               m = new_draft env slug (ws_phase spec) (ws_wp_id spec) (ws_title spec)
                     (dget flds ''author'') (dget d ''reviewer'') refs;
               assumptions = ensure_list (dget d ''assumptions'') @
                 (if missing_upstream \<noteq> []
                  then [''Upstream artifacts were missing; placeholders were used.''] else []) @
                 (if truthy manual then [''Manual upstream summary provided: '' @ py_str manual] else []);
               open_questions = ensure_list (dget d ''open_questions'')
           in save_draft env m (ws_template spec) (ws_context spec d flds refs) assumptions open_questions
                (ws_checklist spec) st)"

text \<open>The other four tools start from the artifact identifier of the input.\<close>

definition with_artifact_id ::
  "string list \<Rightarrow> iso_env \<Rightarrow> pyval \<Rightarrow> iso_state \<Rightarrow>
     ((string, pyval) dict \<Rightarrow> pyval \<Rightarrow> tool_result) \<Rightarrow> tool_result" where
  "with_artifact_id needed env tool_input st body =
     with_data env tool_input (\<lambda>d.
       let aid = py_or (dget d ''artifact_id'') (dget d ''text'') in
       if \<not> truthy aid then Inr (render_missing_inputs needed, st) else body d aid)"

definition set_store :: "iso_state \<Rightarrow> string \<times> store \<Rightarrow> string \<times> iso_state" where
  "set_store st r = (fst r, st\<lparr>st_store := snd r\<rparr>)"

definition request_review_wp :: "wp_spec \<Rightarrow> iso_env \<Rightarrow> pyval \<Rightarrow> iso_state \<Rightarrow> tool_result" where
  "request_review_wp spec env tool_input st =
     with_artifact_id [''artifact_id''] env tool_input st (\<lambda>d aid.
       Inr (set_store st
         (request_review (e_now env) aid (dget d ''reviewer'') (ws_checklist spec) (st_store st))))"

definition request_changes_wp :: "wp_spec \<Rightarrow> iso_env \<Rightarrow> pyval \<Rightarrow> iso_state \<Rightarrow> tool_result" where
  "request_changes_wp spec env tool_input st =
     with_artifact_id [''artifact_id'', ''change_requests''] env tool_input st (\<lambda>d aid.
       Inr (set_store st (request_changes (e_now env) aid (dget d ''change_requests'') (st_store st))))"

definition approve_wp :: "wp_spec \<Rightarrow> iso_env \<Rightarrow> pyval \<Rightarrow> iso_state \<Rightarrow> tool_result" where
  "approve_wp spec env tool_input st =
     with_artifact_id [''artifact_id'', ''reviewer''] env tool_input st (\<lambda>d aid.
       Inr (set_store st
         (approve (e_now env) (e_now' env) aid (dget d ''reviewer'') (dget d ''notes'') (st_store st))))"

definition build_revision_prompt :: "string \<Rightarrow> string list \<Rightarrow> string \<Rightarrow> string" where
  "build_revision_prompt title change_requests content =
     ''You are a functional safety engineer. Update the '' @ title @
     '' markdown to apply the change requests. Preserve structure and headings. Do not quote ISO text.'' @
     [nl, nl] @ ''Change requests:'' @ [nl] @
     (if change_requests \<noteq> [] then join_with [nl] (map (\<lambda>i. ''- '' @ i) change_requests)
      else ''- No change requests'') @
     [nl, nl] @ ''Current document:'' @ [nl] @ content @ [nl]"

text \<open>A revised document that is not text fails at \<open>content.find\<close>, before anything is written.\<close>

definition revised_content ::
  "wp_spec \<Rightarrow> iso_env \<Rightarrow> pyval \<Rightarrow> string list \<Rightarrow> metadata \<Rightarrow> store \<Rightarrow> string result" where
  "revised_content spec env revised_document change_requests previous s =
     (if truthy revised_document then
        (case revised_document of PStr t \<Rightarrow> Inr t | _ \<Rightarrow> Inl (AttributeError ''find''))
      else
        let current_content = read_artifact_content previous s in
        if change_requests \<noteq> [] then
          (case e_llm env (build_revision_prompt (ws_title spec) change_requests current_content) of
             Inr t \<Rightarrow> Inr (strip t)
           | Inl e \<Rightarrow> Inr current_content)
        else Inr current_content)"

definition revise_wp :: "wp_spec \<Rightarrow> iso_env \<Rightarrow> pyval \<Rightarrow> iso_state \<Rightarrow> tool_result" where
  "revise_wp spec env tool_input st =
     with_artifact_id [''artifact_id''] env tool_input st (\<lambda>d aid.
       case get_latest_by_id aid None (st_store st) of
         None \<Rightarrow> Inr (not_found aid, st)
       | Some previous \<Rightarrow>
           (let change_requests = ensure_list (dget d ''change_requests'') in
            case revised_content spec env (dget d ''revised_document'') change_requests previous (st_store st) of
              Inl e \<Rightarrow> Inl e
            | Inr new_content \<Rightarrow>
                (case revise (e_now env) (e_now' env) (e_stamp env) (e_suffix env) aid new_content
                        (str_list change_requests) (m_author previous) (st_store st) of
                   Inl e \<Rightarrow> Inl e
                 | Inr (None, store) \<Rightarrow> Inr (''Revision failed for '' @ py_str aid, st\<lparr>st_store := store\<rparr>)
                 | Inr (Some m, store) \<Rightarrow>
                     Inr (''Revision created: '' @ py_str aid @ '' v'' @ format_version (m_version m) @ [nl] @
                          ''Status: '' @ m_status m, st\<lparr>st_store := store\<rparr>))))"


section \<open>The assistants\<close>

text \<open>A template file: numbered second-level headings, each followed by one field.\<close>

definition md_template :: "(string \<times> string) list \<Rightarrow> string" where
  "md_template sections =
     join_with [nl, nl] (map (\<lambda>(heading, f). ''## '' @ heading @ [nl] @ field_ref f) sections) @ [nl]"

definition approved_req :: "string \<Rightarrow> string \<Rightarrow> requirement" where
  "approved_req phase wp_id = \<lparr>rq_phase = phase, rq_wp_id = wp_id, rq_status = Some STATUS_APPROVED\<rparr>"

text \<open>The context all but one generator build: a scope text with a default, then bullet lists.\<close>

definition std_context ::
  "string \<Rightarrow> string list \<Rightarrow> (string, pyval) dict \<Rightarrow> (string, pyval) dict \<Rightarrow> upstream_ref list
     \<Rightarrow> (string, string) dict" where
  "std_context scope bullets d flds refs =
     (scope, normalize_text (dget d scope) (''Item: '' @ py_str (dget flds ''item_name''))) #
     map (\<lambda>k. (k, format_bullets (dget d k) ''- TBD'')) bullets"

definition hw_spec :: wp_spec where
  "hw_spec =
     \<lparr>ws_phase = ''hardware'', ws_wp_id = ''WP-HW-SRS'', ws_title = ''HW Safety Requirements Specification'',
      ws_required = [''item_name'', ''author''],
      ws_upstream = [approved_req ''system'' ''WP-TSC''],
      ws_checklist =
        [''Derived from approved Technical Safety Concept'', ''Hardware safety requirements are complete'',
         ''Interfaces and dependencies are identified'', ''Safety mechanisms are described'',
         ''Verification strategy is defined''],
      ws_template = md_template
        [(''1. Hardware Item Scope'', ''hardware_scope''),
         (''2. Hardware Safety Requirements'', ''hw_safety_requirements''),
         (''3. Interfaces and Dependencies'', ''interfaces''),
         (''4. Safety Mechanisms'', ''safety_mechanisms''),
         (''5. Hardware Metrics and Targets'', ''hardware_metrics''),
         (''6. Verification Strategy'', ''verification'')],
      ws_context = std_context ''hardware_scope''
        [''hw_safety_requirements'', ''interfaces'', ''safety_mechanisms'', ''hardware_metrics'', ''verification'']\<rparr>"

definition sw_spec :: wp_spec where
  "sw_spec =
     \<lparr>ws_phase = ''software'', ws_wp_id = ''WP-SW-SRS'', ws_title = ''SW Safety Requirements Specification'',
      ws_required = [''item_name'', ''author''],
      ws_upstream = [approved_req ''system'' ''WP-TSC''],
      ws_checklist =
        [''Derived from approved Technical Safety Concept'', ''Software safety requirements are complete'',
         ''Interfaces and dependencies are identified'', ''Safety mechanisms are described'',
         ''Verification strategy is defined''],
      ws_template = md_template
        [(''1. Software Item Scope'', ''software_scope''),
         (''2. Software Safety Requirements'', ''sw_safety_requirements''),
         (''3. Interfaces and Dependencies'', ''interfaces''),
         (''4. Safety Mechanisms'', ''safety_mechanisms''),
         (''5. Software Architecture Constraints'', ''architecture_constraints''),
         (''6. Verification Strategy'', ''verification'')],
      ws_context = std_context ''software_scope''
        [''sw_safety_requirements'', ''interfaces'', ''safety_mechanisms'', ''architecture_constraints'',
         ''verification'']\<rparr>"

definition tsc_spec :: wp_spec where
  "tsc_spec =
     \<lparr>ws_phase = ''system'', ws_wp_id = ''WP-TSC'', ws_title = ''Technical Safety Concept'',
      ws_required = [''item_name'', ''author''],
      ws_upstream = [approved_req ''concept'' ''WP-FSC''],
      ws_checklist =
        [''Derived from approved Functional Safety Concept'', ''Technical safety requirements are complete'',
         ''Allocation to system elements is clear'', ''Diagnostics and monitoring are addressed'',
         ''Verification strategy is defined''],
      ws_template = md_template
        [(''1. System Context'', ''system_context''),
         (''2. Technical Safety Requirements'', ''technical_safety_requirements''),
         (''3. Allocation to System Elements'', ''allocation''),
         (''4. Interfaces and Dependencies'', ''interfaces''),
         (''5. Diagnostics and Monitoring'', ''diagnostics''),
         (''6. Verification Strategy'', ''verification'')],
      ws_context = std_context ''system_context''
        [''technical_safety_requirements'', ''allocation'', ''interfaces'', ''diagnostics'', ''verification'']\<rparr>"

definition manual_spec :: wp_spec where
  "manual_spec =
     \<lparr>ws_phase = ''production_operation'', ws_wp_id = ''WP-SAFETYMANUAL'', ws_title = ''Safety Manual'',
      ws_required = [''item_name'', ''author''],
      ws_upstream = [approved_req ''hardware'' ''WP-HW-SRS'', approved_req ''software'' ''WP-SW-SRS''],
      ws_checklist =
        [''Intended use and limitations are clear'', ''Installation and integration guidance is provided'',
         ''Warnings and residual risks are documented'', ''Operation and maintenance instructions are included'',
         ''Decommissioning guidance is included''],
      ws_template = md_template
        [(''1. Intended Use and Scope'', ''intended_use''),
         (''2. System Description'', ''system_description''),
         (''3. Safety-Related Functions and Limitations'', ''safety_functions''),
         (''4. Installation and Integration Requirements'', ''installation_requirements''),
         (''5. Operation and Maintenance'', ''operation_and_maintenance''),
         (''6. Warnings, Residual Risks, and Degraded Modes'', ''warnings_and_risks''),
         (''7. Decommissioning and Disposal'', ''decommissioning''),
         (''8. References'', ''references'')],
      ws_context = std_context ''intended_use''
        [''system_description'', ''safety_functions'', ''installation_requirements'', ''operation_and_maintenance'',
         ''warnings_and_risks'', ''decommissioning'', ''references'']\<rparr>"

definition case_spec :: wp_spec where
  "case_spec =
     \<lparr>ws_phase = ''supporting_confirmation'', ws_wp_id = ''WP-SAFETYCASE'', ws_title = ''Safety Case'',
      ws_required = [''item_name'', ''author''],
      ws_upstream =
        [approved_req ''management'' ''WP-SAFETYPLAN'', approved_req ''concept'' ''WP-FSC'',
         approved_req ''system'' ''WP-TSC'', approved_req ''hardware'' ''WP-HW-SRS'',
         approved_req ''software'' ''WP-SW-SRS'', approved_req ''production_operation'' ''WP-SAFETYMANUAL''],
      ws_checklist =
        [''Safety claims are stated and traceable'', ''Argument strategy is coherent'',
         ''Evidence summary references approved artifacts'', ''Residual risks and open issues are documented'',
         ''Compliance summary is included''],
      ws_template = md_template
        [(''1. Safety Case Scope and Objectives'', ''scope_objectives''),
         (''2. Safety Claims'', ''safety_claims''),
         (''3. Argument Strategy'', ''argument_strategy''),
         (''4. Evidence Summary'', ''evidence_summary''),
         (''5. Compliance Summary'', ''compliance_summary''),
         (''6. Residual Risks and Open Issues'', ''residual_risks''),
         (''7. References'', ''references'')],
      ws_context = std_context ''scope_objectives''
        [''safety_claims'', ''argument_strategy'', ''evidence_summary'', ''compliance_summary'',
         ''residual_risks'', ''references'']\<rparr>"

text \<open>The functional safety concept also names the HARA artifact it rests on.\<close>

definition hara_ref :: "(string, pyval) dict \<Rightarrow> upstream_ref list \<Rightarrow> string" where
  "hara_ref d refs =
     (let manual = dget d ''manual_upstream_summary'' in
      if truthy manual then py_str manual
      else case find (\<lambda>ref. ur_wp_id ref = ''WP-HARA'') refs of
             Some ref \<Rightarrow>
               ''- HARA artifact: '' @ ur_artifact_id ref @ '' (v'' @ format_version (ur_version ref) @ '', '' @
               ur_status ref @ '')''
           | None \<Rightarrow> ''TBD'')"

definition fsc_context ::
  "(string, pyval) dict \<Rightarrow> (string, pyval) dict \<Rightarrow> upstream_ref list \<Rightarrow> (string, string) dict" where
  "fsc_context d flds refs =
     (case std_context ''item_overview''
        [''safety_goals'', ''functional_safety_concept'', ''functional_safety_requirements'',
         ''interfaces_and_dependencies'', ''verification_strategy'', ''references''] d flds refs of
        [] \<Rightarrow> [] | x # xs \<Rightarrow> x # (''hara_summary'', hara_ref d refs) # xs)"

definition fsc_spec :: wp_spec where
  "fsc_spec =
     \<lparr>ws_phase = ''concept'', ws_wp_id = ''WP-FSC'', ws_title = ''Functional Safety Concept'',
      ws_required = [''item_name'', ''author''],
      ws_upstream = [approved_req ''management'' ''WP-SAFETYPLAN'', approved_req ''concept'' ''WP-HARA''],
      ws_checklist =
        [''HARA is referenced and approved'', ''Safety goals are captured'',
         ''Functional safety requirements are defined'', ''Interfaces and dependencies are documented'',
         ''Assumptions and open questions are listed''],
      ws_template = md_template
        [(''1. Item Overview'', ''item_overview''),
         (''2. HARA Summary'', ''hara_summary''),
         (''3. Safety Goals'', ''safety_goals''),
         (''4. Functional Safety Concept'', ''functional_safety_concept''),
         (''5. Functional Safety Requirements'', ''functional_safety_requirements''),
         (''6. Interfaces and External Dependencies'', ''interfaces_and_dependencies''),
         (''7. Verification Strategy'', ''verification_strategy''),
         (''8. References'', ''references'')],
      ws_context = fsc_context\<rparr>"

subsection \<open>Safety plan and HARA artifact\<close>

definition plan_context ::
  "(string, pyval) dict \<Rightarrow> (string, pyval) dict \<Rightarrow> upstream_ref list \<Rightarrow> (string, string) dict" where
  "plan_context d flds refs =
     [(''purpose_scope'',
         py_str (coalesce [dget d ''purpose_scope'', dget d ''scope'',
           PStr (''Define the safety plan scope for '' @ py_str (dget flds ''item_name'') @ ''.'')])),
      (''item_name'', py_str (dget flds ''item_name'')),
      (''organization'', py_str (dget flds ''organization'')),
      (''safety_manager'', py_str (dget flds ''safety_manager'')),
      (''project_start'', normalize_text (dget d ''project_start'') ''TBD''),
      (''target_sop'', normalize_text (dget d ''target_sop'') ''TBD'')] @
     map (\<lambda>k. (k, format_bullets (dget d k) ''- TBD''))
       [''roles_and_responsibilities'', ''activities_and_schedule'', ''configuration_management'',
        ''tooling_and_methods'', ''confirmation_measures'', ''deliverables'', ''references'']"

definition safety_plan_md :: string where
  "safety_plan_md =
     ''## 1. Purpose and Scope'' @ [nl] @ field_ref ''purpose_scope'' @ [nl, nl] @
     ''## 2. Project Context'' @ [nl] @ ''- Item: '' @ field_ref ''item_name'' @ [nl] @
     ''- Organization: '' @ field_ref ''organization'' @ [nl] @
     ''- Safety manager: '' @ field_ref ''safety_manager'' @ [nl] @
     ''- Project start: '' @ field_ref ''project_start'' @ [nl] @
     ''- Target SOP: '' @ field_ref ''target_sop'' @ [nl, nl] @
     md_template
       [(''3. Roles and Responsibilities'', ''roles_and_responsibilities''),
        (''4. Safety Activities and Schedule'', ''activities_and_schedule''),
        (''5. Configuration and Change Management'', ''configuration_management''),
        (''6. Tooling and Method Management'', ''tooling_and_methods''),
        (''7. Confirmation Measures'', ''confirmation_measures''),
        (''8. Deliverables'', ''deliverables''),
        (''9. References'', ''references'')]"

definition plan_spec :: wp_spec where
  "plan_spec =
     \<lparr>ws_phase = ''management'', ws_wp_id = ''WP-SAFETYPLAN'', ws_title = ''Safety Plan'',
      ws_required = [''item_name'', ''organization'', ''author'', ''safety_manager''],
      ws_upstream = [],
      ws_checklist =
        [''Scope and objectives are clear'', ''Roles and responsibilities are defined'',
         ''Safety activities and schedule are realistic'',
         ''Configuration and change management approach is stated'',
         ''Deliverables align with project lifecycle''],
      ws_template = safety_plan_md,
      ws_context = plan_context\<rparr>"

text \<open>\<open>generate_safety_plan\<close> has no upstream and ignores a manual upstream summary.\<close>

definition generate_safety_plan :: "iso_env \<Rightarrow> pyval \<Rightarrow> iso_state \<Rightarrow> tool_result" where
  "generate_safety_plan env tool_input st =
     with_data env tool_input (\<lambda>d.
       let (slug, st) = get_project_slug env (PDict d) st;
           (flds, missing, st) = get_fields d (ws_required plan_spec) st
       in if missing \<noteq> [] then Inr (render_missing_inputs missing, st)
       else
         let m = new_draft env slug (ws_phase plan_spec) (ws_wp_id plan_spec) (ws_title plan_spec)
                   (dget flds ''author'') (dget d ''reviewer'') []
         in save_draft env m (ws_template plan_spec) (ws_context plan_spec d flds [])
              (ensure_list (dget d ''assumptions'')) (ensure_list (dget d ''open_questions''))
              (ws_checklist plan_spec) st)"

definition hara_spec :: wp_spec where
  "hara_spec =
     \<lparr>ws_phase = ''concept'', ws_wp_id = ''WP-HARA'', ws_title = ''Hazard Analysis and Risk Assessment'',
      ws_required = [''item_name'', ''author''],
      ws_upstream = [],
      ws_checklist =
        [''Item context is documented'', ''Hazard list and classifications are present'',
         ''ASIL determinations are recorded'', ''Safety goals are derived or referenced''],
      ws_template = md_template
        [(''1. Item and Operational Context'', ''item_context''), (''2. HARA Table'', ''hara_table''),
         (''3. Safety Goals Summary'', ''safety_goals_summary''), (''4. References'', ''references'')],
      ws_context = (\<lambda>d flds refs. [])\<rparr>"

text \<open>
  \<open>hara_found\<close> says whether \<open>_load_hara_module\<close> found the HARA plugin.  Its
  \<open>generate_hara_table\<close> is a \<open>CatTool\<close> object, which cannot be called, so without a table in the
  working memory the call raises \<open>TypeError\<close>.
\<close>

definition generate_hara_artifact :: "bool \<Rightarrow> iso_env \<Rightarrow> pyval \<Rightarrow> iso_state \<Rightarrow> tool_result" where
  "generate_hara_artifact hara_found env tool_input st =
     with_data env tool_input (\<lambda>d.
       let (slug, st) = get_project_slug env (PDict d) st;
           (item_name, st) = get_value d ''item_name'' st;
           (author, st) = get_value d ''author'' st
       in if \<not> truthy item_name \<or> \<not> truthy author
          then Inr (render_missing_inputs [''item_name'', ''author''], st)
       else if \<not> hara_found
          then Inr (''HARA plugin not found. Ensure AI_Agent-HARA_Assistant is installed.'', st)
       else if ''hara_table'' \<notin> set (dict_keys (st_wm st)) then Inl TypeError
       else
         let m = new_draft env slug (ws_phase hara_spec) (ws_wp_id hara_spec) (ws_title hara_spec)
                   author (dget d ''reviewer'') [];
             context =
               [(''item_context'', normalize_text (dget d ''item_context'') (''Item: '' @ py_str item_name)),
                (''hara_table'', py_str (py_or (dget (st_wm st) ''hara_table'') (PStr ''TBD''))),
                (''safety_goals_summary'', py_str (py_or (dget (st_wm st) ''safety_goals'') (PStr ''TBD''))),
                (''references'', format_bullets (dget d ''references'') ''- TBD'')]
         in save_draft env m (ws_template hara_spec) context
              (ensure_list (dget d ''assumptions'')) (ensure_list (dget d ''open_questions''))
              (ws_checklist hara_spec) st)"


subsection \<open>The tools by name\<close>

definition generate_hw_srs where "generate_hw_srs = generate_wp hw_spec"
definition request_review_hw_srs where "request_review_hw_srs = request_review_wp hw_spec"
definition request_changes_hw_srs where "request_changes_hw_srs = request_changes_wp hw_spec"
definition revise_hw_srs where "revise_hw_srs = revise_wp hw_spec"
definition approve_hw_srs where "approve_hw_srs = approve_wp hw_spec"

definition generate_sw_srs where "generate_sw_srs = generate_wp sw_spec"
definition request_review_sw_srs where "request_review_sw_srs = request_review_wp sw_spec"
definition request_changes_sw_srs where "request_changes_sw_srs = request_changes_wp sw_spec"
definition revise_sw_srs where "revise_sw_srs = revise_wp sw_spec"
definition approve_sw_srs where "approve_sw_srs = approve_wp sw_spec"

definition generate_tsc where "generate_tsc = generate_wp tsc_spec"
definition request_review_tsc where "request_review_tsc = request_review_wp tsc_spec"
definition request_changes_tsc where "request_changes_tsc = request_changes_wp tsc_spec"
definition revise_tsc where "revise_tsc = revise_wp tsc_spec"
definition approve_tsc where "approve_tsc = approve_wp tsc_spec"

definition generate_safety_manual where "generate_safety_manual = generate_wp manual_spec"
definition request_review_safety_manual where "request_review_safety_manual = request_review_wp manual_spec"
definition request_changes_safety_manual where "request_changes_safety_manual = request_changes_wp manual_spec"
definition revise_safety_manual where "revise_safety_manual = revise_wp manual_spec"
definition approve_safety_manual where "approve_safety_manual = approve_wp manual_spec"

definition generate_safety_case where "generate_safety_case = generate_wp case_spec"
definition request_review_safety_case where "request_review_safety_case = request_review_wp case_spec"
definition request_changes_safety_case where "request_changes_safety_case = request_changes_wp case_spec"
definition revise_safety_case where "revise_safety_case = revise_wp case_spec"
definition approve_safety_case where "approve_safety_case = approve_wp case_spec"

definition generate_fsc where "generate_fsc = generate_wp fsc_spec"
definition request_review_fsc where "request_review_fsc = request_review_wp fsc_spec"
definition request_changes_fsc where "request_changes_fsc = request_changes_wp fsc_spec"
definition revise_fsc where "revise_fsc = revise_wp fsc_spec"
definition approve_fsc where "approve_fsc = approve_wp fsc_spec"

definition request_review_hara where "request_review_hara = request_review_wp hara_spec"
definition request_changes_hara where "request_changes_hara = request_changes_wp hara_spec"
definition revise_hara where "revise_hara = revise_wp hara_spec"
definition approve_hara where "approve_hara = approve_wp hara_spec"

definition request_review_safety_plan where "request_review_safety_plan = request_review_wp plan_spec"
definition request_changes_safety_plan where "request_changes_safety_plan = request_changes_wp plan_spec"
definition revise_safety_plan where "revise_safety_plan = revise_wp plan_spec"
definition approve_safety_plan where "approve_safety_plan = approve_wp plan_spec"

section \<open>Lemmas\<close>

subsection \<open>Templates render\<close>

definition renders :: "string \<Rightarrow> bool" where
  "renders template \<longleftrightarrow> (\<exists>ps. template = concat (map piece_text ps) \<and> (\<forall>p \<in> set ps. piece_ok p))"

lemma render_template_ok: "renders t \<Longrightarrow> \<exists>body. render_template t ctx = Inr body"
  by (auto simp: renders_def render_template_def format_map_pieces)

lemma renders_append: "renders s \<Longrightarrow> renders t \<Longrightarrow> renders (s @ t)"
  unfolding renders_def
proof (elim exE conjE)
  fix ps qs
  assume "s = concat (map piece_text ps)" "\<forall>p \<in> set ps. piece_ok p"
    and "t = concat (map piece_text qs)" "\<forall>p \<in> set qs. piece_ok p"
  then show "\<exists>rs. s @ t = concat (map piece_text rs) \<and> (\<forall>p \<in> set rs. piece_ok p)"
    by (intro exI [where x = "ps @ qs"]) auto
qed

lemma renders_text: "obr \<notin> set t \<Longrightarrow> cbr \<notin> set t \<Longrightarrow> renders t"
  unfolding renders_def by (intro exI [where x = "[Inl t]"]) simp

lemma renders_field: "plain_field f \<Longrightarrow> cbr \<notin> set f \<Longrightarrow> renders (field_ref f)"
  unfolding renders_def by (intro exI [where x = "[Inr f]"]) simp

lemma nl_not_brace [simp]: "nl \<noteq> obr" "nl \<noteq> cbr" "obr \<noteq> nl" "cbr \<noteq> nl"
  by (simp_all add: obr_def cbr_def)

lemma renders_nl: "renders [nl, nl]" "renders [nl]"
  by (simp_all add: renders_text)

lemma renders_join: "\<forall>t \<in> set ts. renders t \<Longrightarrow> renders (join_with [nl, nl] ts)"
proof (induction ts rule: induct_list012)
  case 1
  then show ?case by (simp add: renders_text)
next
  case (3 x y zs)
  then have "renders (x @ [nl, nl] @ join_with [nl, nl] (y # zs))"
    by (intro renders_append renders_nl) simp_all
  then show ?case by simp
qed simp

lemma renders_md_template:
  assumes "\<forall>(h, f) \<in> set sections. obr \<notin> set h \<and> cbr \<notin> set h \<and> plain_field f \<and> cbr \<notin> set f"
  shows "renders (md_template sections)"
proof -
  have "renders (''## '' @ h @ [nl] @ field_ref f)" if "(h, f) \<in> set sections" for h f
    using assms that
    by (intro renders_append renders_field renders_text) (auto simp: obr_def cbr_def)
  then show ?thesis
    unfolding md_template_def by (intro renders_append renders_join renders_nl) auto
qed

text \<open>The kinds of work products the assistants write.\<close>

definition generators :: "wp_spec list" where
  "generators = [hw_spec, sw_spec, tsc_spec, manual_spec, case_spec, fsc_spec]"

lemma template_renders:
  "renders (ws_template hw_spec)" "renders (ws_template sw_spec)" "renders (ws_template tsc_spec)"
  "renders (ws_template manual_spec)" "renders (ws_template case_spec)" "renders (ws_template fsc_spec)"
  "renders (ws_template hara_spec)"
proof -
  have ok: "renders (md_template secs)"
    if "list_all (\<lambda>(h, f). obr \<notin> set h \<and> cbr \<notin> set h \<and> plain_field f \<and> cbr \<notin> set f) secs" for secs
    using that by (intro renders_md_template) (simp add: list_all_iff)
  note defs = hw_spec_def sw_spec_def tsc_spec_def manual_spec_def case_spec_def fsc_spec_def hara_spec_def
  show "renders (ws_template hw_spec)" "renders (ws_template sw_spec)" "renders (ws_template tsc_spec)"
    "renders (ws_template manual_spec)" "renders (ws_template case_spec)" "renders (ws_template fsc_spec)"
    "renders (ws_template hara_spec)"
    unfolding defs wp_spec.simps by (rule ok; code_simp)+
qed

lemma generators_render: "spec \<in> set generators \<Longrightarrow> renders (ws_template spec)"
  using template_renders by (auto simp: generators_def)

lemma plan_renders: "renders (ws_template plan_spec)"
proof -
  have f: "renders (field_ref f)" if "plain_field f \<and> cbr \<notin> set f" for f using that by (simp add: renders_field)
  have t: "renders t" if "obr \<notin> set t \<and> cbr \<notin> set t" for t using that by (simp add: renders_text)
  have ok: "renders (md_template secs)"
    if "list_all (\<lambda>(h, f). obr \<notin> set h \<and> cbr \<notin> set h \<and> plain_field f \<and> cbr \<notin> set f) secs" for secs
    using that by (intro renders_md_template) (simp add: list_all_iff)
  show ?thesis
    unfolding plan_spec_def wp_spec.simps safety_plan_md_def
    by (intro renders_append renders_nl) (rule f ok t; code_simp)+
qed


subsection \<open>What the shared parts change\<close>

lemma set_wm_store [simp]: "st_store (set_wm k v st) = st_store st"
  by (simp add: set_wm_def)

lemma get_project_slug_store [simp]: "st_store (snd (get_project_slug env v st)) = st_store st"
  by (simp add: get_project_slug_def Let_def split: option.split list.split)

lemma get_value_store [simp]: "st_store (snd (get_value d k st)) = st_store st"
  by (simp add: get_value_def Let_def)

lemma get_fields_store: "get_fields d fs st = (flds, missing, st') \<Longrightarrow> st_store st' = st_store st"
proof (induction fs arbitrary: st flds missing st')
  case (Cons f fs)
  obtain v st1 where v: "get_value d f st = (v, st1)" by fastforce
  obtain fl mi st2 where r: "get_fields d fs st1 = (fl, mi, st2)" by (metis prod_cases3)
  from v have "st_store st1 = st_store st" using get_value_store [of d f st] by simp
  with Cons.IH [OF r] Cons.prems v r show ?case by simp
qed simp

lemma save_draft_effect:
  assumes "renders template"
  obtains content m' s' where "save_artifact m content (st_store st) = (m', s')"
    and "save_draft env m template ctx assumptions qs checklist st =
      Inr (draft_reply env (m_title m') m', st\<lparr>st_store := s'\<rparr>)"
proof -
  obtain body where b: "render_template template ctx = Inr body" using render_template_ok [OF assms] by blast
  obtain m' s' where "save_artifact m (document_text m body assumptions qs
      (build_traceability_section (m_upstream_refs m)) checklist) (st_store st) = (m', s')" by fastforce
  with that b show ?thesis by (simp add: save_draft_def render_document_eq)
qed

subsection \<open>Tools as workflow steps\<close>

text \<open>A call of one of the tools of the assistants.\<close>

datatype tool_call =
    Generate wp_spec
  | GeneratePlan
  | GenerateHara bool
  | RequestReview wp_spec
  | RequestChanges wp_spec
  | Revise wp_spec
  | Approve wp_spec

fun run_call :: "tool_call \<Rightarrow> iso_env \<Rightarrow> pyval \<Rightarrow> iso_state \<Rightarrow> tool_result" where
  "run_call (Generate spec) = generate_wp spec"
| "run_call GeneratePlan = generate_safety_plan"
| "run_call (GenerateHara found) = generate_hara_artifact found"
| "run_call (RequestReview spec) = request_review_wp spec"
| "run_call (RequestChanges spec) = request_changes_wp spec"
| "run_call (Revise spec) = revise_wp spec"
| "run_call (Approve spec) = approve_wp spec"

text \<open>The work product a generator writes; a new identifier is fresh for it.\<close>

fun call_wp :: "tool_call \<Rightarrow> string option" where
  "call_wp (Generate spec) = Some (ws_wp_id spec)"
| "call_wp GeneratePlan = Some (ws_wp_id plan_spec)"
| "call_wp (GenerateHara found) = Some (ws_wp_id hara_spec)"
| "call_wp _ = None"

definition fresh_id :: "iso_env \<Rightarrow> string \<Rightarrow> store \<Rightarrow> bool" where
  "fresh_id env wp s \<longleftrightarrow> (\<forall>n \<in> metas s. m_artifact_id n \<noteq> new_artifact_id (e_stamp env) (e_suffix env) wp)"

definition call_fresh :: "tool_call \<Rightarrow> iso_env \<Rightarrow> store \<Rightarrow> bool" where
  "call_fresh call env s = (case call_wp call of Some wp \<Rightarrow> fresh_id env wp s | None \<Rightarrow> True)"

definition call_ok :: "tool_call \<Rightarrow> bool" where
  "call_ok call = (case call of Generate spec \<Rightarrow> spec \<in> set generators | _ \<Rightarrow> True)"

lemma new_draft_id [simp]: "m_artifact_id (new_draft env slug ph wp t a r refs) = new_artifact_id (e_stamp env) (e_suffix env) wp"
  by (simp add: new_draft_def build_metadata_def)

lemma save_draft_step:
  assumes "renders template" and "fresh_id env wp (st_store st)"
    and "save_draft env (new_draft env slug ph wp t a r refs) template ctx as qs cl st = Inr (reply, st')"
  shows "wf_step (st_store st) (st_store st')"
proof -
  obtain content m' s' where
    s: "save_artifact (new_draft env slug ph wp t a r refs) content (st_store st) = (m', s')"
    and d: "save_draft env (new_draft env slug ph wp t a r refs) template ctx as qs cl st =
      Inr (draft_reply env (m_title m') m', st\<lparr>st_store := s'\<rparr>)"
    using save_draft_effect [OF assms(1), of _ st env ctx as qs cl] by blast
  have "wf_step (st_store st) s'"
    by (rule wf_step.create [OF new_draft_def _ s]) (use assms(2) in \<open>simp add: fresh_id_def\<close>)
  with d assms(3) show ?thesis by simp
qed

lemma with_data_cases:
  "with_data env ti body = Inr r \<Longrightarrow> (\<And>d. body d = Inr r \<Longrightarrow> P) \<Longrightarrow> P"
  by (auto simp: with_data_def split: pyval.splits)

text \<open>The outcome of a generator: missing fields, missing upstream, or a saved draft.\<close>

lemma generate_wp_outcome:
  assumes "generate_wp spec env ti st = Inr (reply, st')"
  obtains
    (unchanged) "st_store st' = st_store st"
  | (saved) d slug flds up mu st2 refs as qs where
      "parse_tool_input (e_loads env) ti = PDict d" and "slug = fst (get_project_slug env (PDict d) st)"
      and "resolve_upstream slug (ws_upstream spec) (st_store st) = (up, mu)"
      and "mu = [] \<or> truthy (dget d ''allow_missing_upstream'')"
      and "refs = make_upstream_refs (if mu \<noteq> [] then [] else up)" and "st_store st2 = st_store st"
      and "save_draft env (new_draft env slug (ws_phase spec) (ws_wp_id spec) (ws_title spec)
             (dget flds ''author'') (dget d ''reviewer'') refs) (ws_template spec) (ws_context spec d flds refs)
             as qs (ws_checklist spec) st2 = Inr (reply, st')"
proof -
  from assms obtain d where d: "parse_tool_input (e_loads env) ti = PDict d"
    by (auto simp: generate_wp_def with_data_def split: pyval.splits)
  obtain slug st1 where sl: "get_project_slug env (PDict d) st = (slug, st1)" by fastforce
  obtain flds missing st2 where fl: "get_fields d (ws_required spec) st1 = (flds, missing, st2)" by (metis prod_cases3)
  have eq: "st_store st2 = st_store st"
    using get_fields_store [OF fl] get_project_slug_store [of env "PDict d" st] sl by simp
  obtain up mu where ru: "resolve_upstream slug (ws_upstream spec) (st_store st) = (up, mu)" by fastforce
  note run = assms [unfolded generate_wp_def with_data_def d pyval.case Let_def sl fl prod.case eq ru]
  show ?thesis
  proof (cases "missing \<noteq> [] \<or> mu \<noteq> [] \<and> \<not> truthy (dget d ''allow_missing_upstream'')")
    case True
    then have "st' = st2" using run by (auto split: if_splits)
    with eq show ?thesis by (intro unchanged) simp
  next
    case False
    then have "mu = [] \<or> truthy (dget d ''allow_missing_upstream'')" and "missing = []" by auto
    with saved [OF d _ ru _ refl eq] run False sl show ?thesis by (simp split: if_splits)
  qed
qed

lemma generate_wp_step:
  assumes "renders (ws_template spec)" and "fresh_id env (ws_wp_id spec) (st_store st)"
    and "generate_wp spec env ti st = Inr (reply, st')"
  shows "wf_step\<^sup>=\<^sup>= (st_store st) (st_store st')"
  using assms(3)
proof (cases rule: generate_wp_outcome)
  case unchanged
  then show ?thesis by simp
next
  case (saved d slug flds up mu st2 refs as qs)
  from save_draft_step [OF assms(1) _ saved(7)] assms(2) saved(6) show ?thesis by simp
qed

lemma safety_plan_step:
  assumes "fresh_id env (ws_wp_id plan_spec) (st_store st)" and "generate_safety_plan env ti st = Inr (reply, st')"
  shows "wf_step\<^sup>=\<^sup>= (st_store st) (st_store st')"
proof -
  from assms(2) obtain d where d: "parse_tool_input (e_loads env) ti = PDict d"
    by (auto simp: generate_safety_plan_def with_data_def split: pyval.splits)
  obtain slug st1 where sl: "get_project_slug env (PDict d) st = (slug, st1)" by fastforce
  obtain flds missing st2 where fl: "get_fields d (ws_required plan_spec) st1 = (flds, missing, st2)" by (metis prod_cases3)
  have eq: "st_store st2 = st_store st"
    using get_fields_store [OF fl] get_project_slug_store [of env "PDict d" st] sl by simp
  show ?thesis
    using save_draft_step [OF plan_renders, of env "ws_wp_id plan_spec" st2] assms eq
    by (fastforce simp: generate_safety_plan_def with_data_def d sl fl Let_def split: if_splits)
qed

lemma hara_artifact_step:
  assumes "fresh_id env (ws_wp_id hara_spec) (st_store st)"
    and "generate_hara_artifact found env ti st = Inr (reply, st')"
  shows "wf_step\<^sup>=\<^sup>= (st_store st) (st_store st')"
proof -
  from assms(2) obtain d where d: "parse_tool_input (e_loads env) ti = PDict d"
    by (auto simp: generate_hara_artifact_def with_data_def split: pyval.splits)
  obtain slug st1 where sl: "get_project_slug env (PDict d) st = (slug, st1)" by fastforce
  obtain item st2 where it: "get_value d ''item_name'' st1 = (item, st2)" by fastforce
  obtain au st3 where au: "get_value d ''author'' st2 = (au, st3)" by fastforce
  have eq: "st_store st3 = st_store st"
    using get_project_slug_store [of env "PDict d" st] get_value_store [of d "''item_name''" st1]
      get_value_store [of d "''author''" st2] sl it au by simp
  show ?thesis
    using save_draft_step [OF template_renders(7), of env "ws_wp_id hara_spec" st3] assms eq
    by (fastforce simp: generate_hara_artifact_def with_data_def d sl it au Let_def split: if_splits)
qed

lemma set_store_store [simp]: "st_store (snd (set_store st r)) = snd r"
  by (simp add: set_store_def)

lemma with_artifact_id_cases:
  assumes "with_artifact_id needed env ti st body = Inr (reply, st')"
  obtains "st' = st" | d aid where "body d aid = Inr (reply, st')"
  using assms by (auto simp: with_artifact_id_def Let_def elim!: with_data_cases split: if_splits)

lemma revise_wp_step:
  assumes "revise_wp spec env ti st = Inr (reply, st')"
  shows "wf_step\<^sup>=\<^sup>= (st_store st) (st_store st')"
  using assms unfolding revise_wp_def
proof (cases rule: with_artifact_id_cases)
  case 1
  then show ?thesis by simp
next
  case (2 d aid)
  then show ?thesis
    by (auto simp: Let_def split: option.splits sum.splits prod.splits dest: wf_step.revision)
qed

lemma review_tools_step:
  "request_review_wp spec env ti st = Inr (reply, st') \<Longrightarrow> wf_step\<^sup>=\<^sup>= (st_store st) (st_store st')"
  "request_changes_wp spec env ti st = Inr (reply, st') \<Longrightarrow> wf_step\<^sup>=\<^sup>= (st_store st) (st_store st')"
  "approve_wp spec env ti st = Inr (reply, st') \<Longrightarrow> wf_step\<^sup>=\<^sup>= (st_store st) (st_store st')"
  unfolding request_review_wp_def request_changes_wp_def approve_wp_def
  by (erule with_artifact_id_cases;
      auto simp: set_store_def intro: wf_step.review [OF surjective_pairing]
        wf_step.changes [OF surjective_pairing] wf_step.approval [OF surjective_pairing])+

lemma run_call_step:
  assumes "call_ok call" and "call_fresh call env (st_store st)" and "run_call call env ti st = Inr (reply, st')"
  shows "wf_step\<^sup>=\<^sup>= (st_store st) (st_store st')"
proof (cases call)
  case (Generate spec)
  with assms have "renders (ws_template spec)" by (simp add: call_ok_def generators_render)
  from generate_wp_step [OF this] assms Generate show ?thesis by (simp add: call_fresh_def)
qed (use assms in \<open>auto simp: call_fresh_def
      dest: safety_plan_step hara_artifact_step revise_wp_step review_tools_step\<close>)

section \<open>Properties\<close>

text \<open>
  C7. Every tool of every assistant acts on the workspace only through the workflow: a call
  that returns leaves the store unchanged or performs one step of the workflow relation, provided
  the identifier a generator draws is not in use.  The workflow's invariants therefore
  hold for any use of the assistants.
\<close>

theorem tools_refine_workflow:
  assumes "call_ok call" and "call_fresh call env (st_store st)"
    and "run_call call env tool_input st = Inr (reply, st')"
  shows "st_store st' = st_store st \<or> wf_step (st_store st) (st_store st')"
  using run_call_step [OF assms] by auto

lemma example_fresh: "fresh_id example_env wp (st_store example_state)"
proof -
  have "metas example_store = {fst (save_artifact example_meta ''text'' [])}"
    using save_artifact_ok(2) [OF store_ok_empty(1) example_saveable surjective_pairing]
    by (simp add: example_store_def)
  moreover have "drop (length x - 6) (x :: string) = ''12cd34''"
    if "x = m_artifact_id (fst (save_artifact example_meta ''text'' []))" for x
    unfolding that by code_simp
  moreover have "drop (length x - 6) x = ''0a1b2c''"
    if "x = new_artifact_id (e_stamp example_env) (e_suffix example_env) wp" for x
    unfolding that by (simp add: new_artifact_id_def example_env_def)
  ultimately show ?thesis by (fastforce simp: fresh_id_def example_state_def)
qed

definition plan_input :: pyval where
  "plan_input =
     PDict [(''project'', PStr ''demo''), (''item_name'', PStr ''Brake''), (''organization'', PStr ''Acme''),
            (''author'', PStr ''ann''), (''safety_manager'', PStr ''sam'')]"

theorem tools_refine_workflow_witness:
  "\<exists>reply st'. run_call GeneratePlan example_env plan_input example_state = Inr (reply, st') \<and>
     st_store st' \<noteq> st_store example_state \<and> wf_step (st_store example_state) (st_store st')"
proof -
  have "case run_call GeneratePlan example_env plan_input example_state of
      Inr (reply, st') \<Rightarrow> st_store st' \<noteq> st_store example_state | _ \<Rightarrow> False" by code_simp
  then obtain reply st' where
    r: "run_call GeneratePlan example_env plan_input example_state = Inr (reply, st')"
    and ne: "st_store st' \<noteq> st_store example_state" by (auto split: sum.splits)
  have "call_ok GeneratePlan" and "call_fresh GeneratePlan example_env (st_store example_state)"
    by (simp_all add: call_ok_def call_fresh_def example_fresh)
  from tools_refine_workflow [OF this r] ne r show ?thesis by blast
qed

definition ref_of :: "metadata \<Rightarrow> upstream_ref" where
  "ref_of m = \<lparr>ur_artifact_id = m_artifact_id m, ur_wp_id = m_wp_id m, ur_title = m_title m,
               ur_version = m_version m, ur_status = m_status m\<rparr>"

lemma make_upstream_refs_eq: "make_upstream_refs ms = map ref_of ms"
  by (simp add: make_upstream_refs_def ref_of_def)

text \<open>The requirements of the generators are for approved work products, named by phase and identifier.\<close>

lemma generator_requirements:
  "spec \<in> set generators \<Longrightarrow> r \<in> set (ws_upstream spec) \<Longrightarrow>
   rq_phase r \<noteq> [] \<and> rq_wp_id r \<noteq> [] \<and> rq_status r = Some STATUS_APPROVED"
  by (auto simp: generators_def hw_spec_def sw_spec_def tsc_spec_def manual_spec_def case_spec_def
      fsc_spec_def approved_req_def)

lemma resolve_none_missing:
  assumes "store_ok s" and "slug \<noteq> []" and "spec \<in> set generators"
    and "resolve_upstream slug (ws_upstream spec) s = (up, [])"
  shows "list_all2 (\<lambda>r m. m \<in> metas s \<and> meets slug r m) (ws_upstream spec) up"
proof -
  have "\<forall>r \<in> set (ws_upstream spec). rq_phase r \<noteq> [] \<and> rq_wp_id r \<noteq> [] \<and> rq_status r \<noteq> Some []"
    using generator_requirements [OF assms(3)] by auto
  from resolve_upstream_split [OF assms(1,2) this assms(4)]
  have none: "filter (\<lambda>r. \<not> (\<exists>m \<in> metas s. meets slug r m)) (ws_upstream spec) = []"
    and all: "list_all2 (\<lambda>r m. m \<in> metas s \<and> meets slug r m \<and>
        (\<forall>n \<in> metas s. meets slug r n \<longrightarrow> m_version n \<le> m_version m))
      (filter (\<lambda>r. \<exists>m \<in> metas s. meets slug r m) (ws_upstream spec)) up" by simp_all
  from none have "filter (\<lambda>r. \<exists>m \<in> metas s. meets slug r m) (ws_upstream spec) = ws_upstream spec"
    by (auto simp: filter_empty_conv filter_id_conv)
  with all show ?thesis by (auto elim: list_all2_mono)
qed

text \<open>
  C2. No work product is started on unapproved ground: when a generator is called without
  \<open>allow_missing_upstream\<close> and writes anything, then for every required upstream work
  product the project has an approved artifact, and what is written is one new draft (version
  1) whose upstream references name one such artifact per requirement, in order.
\<close>

theorem generate_needs_approved_upstream:
  assumes "spec \<in> set generators" and "store_ok (st_store st)" and "fresh_id env (ws_wp_id spec) (st_store st)"
    and "parse_tool_input (e_loads env) tool_input = PDict d" and "\<not> truthy (dget d ''allow_missing_upstream'')"
    and "generate_wp spec env tool_input st = Inr (reply, st')" and "st_store st' \<noteq> st_store st"
  shows "\<exists>n up. let slug = fst (get_project_slug env (PDict d) st) in
           metas (st_store st') = insert n (metas (st_store st)) \<and> n \<notin> metas (st_store st) \<and>
           m_project_slug n = slug \<and> m_phase n = ws_phase spec \<and> m_wp_id n = ws_wp_id spec \<and>
           m_version n = 1 \<and> m_status n = STATUS_DRAFT \<and> m_upstream_refs n = map ref_of up \<and>
           list_all2 (\<lambda>r m. m \<in> metas (st_store st) \<and> m_project_slug m = slug \<and> m_phase m = rq_phase r \<and>
                            m_wp_id m = rq_wp_id r \<and> m_status m = STATUS_APPROVED) (ws_upstream spec) up"
  using assms(6)
proof (cases rule: generate_wp_outcome)
  case unchanged
  with assms(7) show ?thesis by contradiction
next
  case (saved d' slug flds up mu st2 refs as qs)
  let ?m = "new_draft env slug (ws_phase spec) (ws_wp_id spec) (ws_title spec) (dget flds ''author'')
    (dget d' ''reviewer'') refs"
  from saved(1) assms(4) have d': "d' = d" by simp
  with saved(4) assms(5) have mu: "mu = []" by simp
  have ok: "slug_ok slug" unfolding saved(2) by (rule get_project_slug_ok)
  then have slug: "slug \<noteq> []" "normalize_project_slug (PStr slug) = slug"
    by (auto simp: slug_ok_def normalize_slug_fixed)
  have m: "m_project_slug ?m = slug" "m_version ?m = 1" "m_phase ?m = ws_phase spec" "m_wp_id ?m = ws_wp_id spec"
    "m_status ?m = STATUS_DRAFT" "m_upstream_refs ?m = refs"
    by (simp_all add: new_draft_def build_metadata_def slug)
  obtain content m' s' where s: "save_artifact ?m content (st_store st2) = (m', s')"
    and sd: "save_draft env ?m (ws_template spec) (ws_context spec d' flds refs) as qs (ws_checklist spec) st2 =
      Inr (draft_reply env (m_title m') m', st2\<lparr>st_store := s'\<rparr>)"
    by (rule save_draft_effect [OF generators_render [OF assms(1)]])
  have fresh: "\<forall>n \<in> metas (st_store st). m_artifact_id n \<noteq> m_artifact_id ?m"
    using assms(3) by (simp add: fresh_id_def)
  have "slug_ok (m_project_slug ?m)" using ok by (simp add: m)
  note eff = create_effect [OF assms(2) fresh this m(2) s [unfolded saved(6)]]
  have st': "st_store st' = s'" using saved(7) sd by auto
  have "m' \<notin> metas (st_store st)" using fresh by (auto simp: eff(1))
  moreover have "list_all2 (\<lambda>r m. m \<in> metas (st_store st) \<and> meets slug r m) (ws_upstream spec) up"
    using resolve_none_missing [OF assms(2) slug(1) assms(1)] saved(3) mu by simp
  then have "list_all2 (\<lambda>r m. m \<in> metas (st_store st) \<and> m_project_slug m = slug \<and> m_phase m = rq_phase r \<and>
      m_wp_id m = rq_wp_id r \<and> m_status m = STATUS_APPROVED) (ws_upstream spec) up"
    by (rule list.rel_mono_strong)
       (auto simp: meets_def slug(2) req_status_def dest!: generator_requirements [OF assms(1)])
  moreover have "m_upstream_refs m' = map ref_of up" "m_project_slug m' = slug" "m_phase m' = ws_phase spec"
    "m_wp_id m' = ws_wp_id spec" "m_version m' = 1" "m_status m' = STATUS_DRAFT"
    using m saved(5) mu by (simp_all add: eff(1) with_paths_def make_upstream_refs_eq)
  ultimately show ?thesis
    unfolding Let_def saved(2) [symmetric, unfolded d'] st' using eff(3) by blast
qed

definition approved_state :: iso_state where
  "approved_state = example_state\<lparr>st_store := snd (approve ''t1'' ''t2'' (PStr example_id) PNone PNone example_store)\<rparr>"

lemma approved_state_ok: "store_ok (st_store approved_state)"
  using approve_touches [OF example_store_ok example_latest] by (simp add: approved_state_def touched_def)

lemma approved_state_fresh: "fresh_id example_env wp (st_store approved_state)"
proof -
  let ?m = "with_paths example_meta" and ?n = "approved ''t1'' ''t2'' PNone PNone (with_paths example_meta)"
  have ms: "metas (st_store approved_state) = insert ?n (metas example_store - {?m})"
    using approve_touches [OF example_store_ok example_latest] by (simp add: approved_state_def touched_def)
  have "m_artifact_id ?n = m_artifact_id ?m"
    using same_file_status_change(3) [of ?m] by (simp add: same_file_def)
  moreover have "?m \<in> metas example_store" using latest_mem [OF example_store_ok example_latest] by simp
  ultimately show ?thesis using example_fresh [of wp] by (auto simp: fresh_id_def example_state_def ms)
qed

definition tsc_input :: "(string, pyval) dict" where
  "tsc_input = [(''project'', PStr ''demo''), (''item_name'', PStr ''Brake''), (''author'', PStr ''ann'')]"

theorem generate_needs_approved_upstream_witness:
  "\<exists>reply st' n up. generate_wp tsc_spec example_env (PDict tsc_input) approved_state = Inr (reply, st') \<and>
     metas (st_store st') = insert n (metas (st_store approved_state)) \<and> m_upstream_refs n = map ref_of up \<and>
     length up = 1"
proof -
  have "case generate_wp tsc_spec example_env (PDict tsc_input) approved_state of
      Inr (reply, st') \<Rightarrow> st_store st' \<noteq> st_store approved_state | _ \<Rightarrow> False" by code_simp
  then obtain reply st' where
    r: "generate_wp tsc_spec example_env (PDict tsc_input) approved_state = Inr (reply, st')"
    and ne: "st_store st' \<noteq> st_store approved_state" by (auto split: sum.splits)
  have "tsc_spec \<in> set generators" by (simp add: generators_def)
  moreover have "parse_tool_input (e_loads example_env) (PDict tsc_input) = PDict tsc_input"
    by (simp add: parse_tool_input_def)
  moreover have "\<not> truthy (dget tsc_input ''allow_missing_upstream'')" by code_simp
  ultimately obtain n up where
    "metas (st_store st') = insert n (metas (st_store approved_state))" "m_upstream_refs n = map ref_of up"
    and l: "list_all2 (\<lambda>r m. m \<in> metas (st_store approved_state) \<and>
        m_project_slug m = fst (get_project_slug example_env (PDict tsc_input) approved_state) \<and>
        m_phase m = rq_phase r \<and> m_wp_id m = rq_wp_id r \<and> m_status m = STATUS_APPROVED) (ws_upstream tsc_spec) up"
    using generate_needs_approved_upstream [OF _ approved_state_ok approved_state_fresh _ _ r ne]
    unfolding Let_def by blast
  moreover have "length up = 1" using list_all2_lengthD [OF l] by (simp add: tsc_spec_def)
  ultimately show ?thesis using r by blast
qed

text \<open>
  A generator that lacks upstream work products says which: with the required fields given
  and without \<open>allow_missing_upstream\<close> it writes nothing and reports exactly the
  requirements for which the project has no approved artifact.
\<close>

theorem generate_reports_missing_upstream:
  assumes "spec \<in> set generators" and "store_ok (st_store st)"
    and "parse_tool_input (e_loads env) tool_input = PDict d" and "\<not> truthy (dget d ''allow_missing_upstream'')"
    and "get_project_slug env (PDict d) st = (slug, st1)" and "get_fields d (ws_required spec) st1 = (flds, [], st2)"
    and "r \<in> set (ws_upstream spec)" and "\<not> (\<exists>m \<in> metas (st_store st). meets slug r m)"
  shows "generate_wp spec env tool_input st =
           Inr (render_missing_upstream
                  (filter (\<lambda>r. \<not> (\<exists>m \<in> metas (st_store st). meets slug r m)) (ws_upstream spec)), st2) \<and>
         st_store st2 = st_store st"
proof -
  obtain up mu where ru: "resolve_upstream slug (ws_upstream spec) (st_store st) = (up, mu)" by fastforce
  have eq: "st_store st2 = st_store st"
    using get_fields_store [OF assms(6)] get_project_slug_store [of env "PDict d" st] assms(5) by simp
  have "slug \<noteq> []" using get_project_slug_ok [of env "PDict d" st] assms(5) by (auto simp: slug_ok_def)
  moreover have "\<forall>r \<in> set (ws_upstream spec). rq_phase r \<noteq> [] \<and> rq_wp_id r \<noteq> [] \<and> rq_status r \<noteq> Some []"
    using generator_requirements [OF assms(1)] by auto
  ultimately have mu: "mu = filter (\<lambda>r. \<not> (\<exists>m \<in> metas (st_store st). meets slug r m)) (ws_upstream spec)"
    using resolve_upstream_split [OF assms(2) _ _ ru] by blast
  then have "r \<in> set mu" unfolding mu using assms(7,8) by simp
  then have "mu \<noteq> []" by auto
  with assms(4) have "generate_wp spec env tool_input st = Inr (render_missing_upstream mu, st2)"
    unfolding generate_wp_def with_data_def assms(3) pyval.case Let_def assms(5,6) prod.case eq ru by simp
  with mu eq show ?thesis by blast
qed

theorem generate_reports_missing_upstream_witness:
  "fst (case generate_wp tsc_spec example_env (PDict tsc_input) example_state of Inr r \<Rightarrow> r | Inl e \<Rightarrow> ([], example_state)) =
   render_missing_upstream [approved_req ''concept'' ''WP-FSC'']"
proof -
  obtain st1 where s1: "get_project_slug example_env (PDict tsc_input) example_state = (''demo'', st1)"
    and s1d: "st1 = set_wm slug_key (PStr ''demo'') example_state"
  proof -
    have "fst (get_project_slug example_env (PDict tsc_input) example_state) = ''demo''" by code_simp
    then show ?thesis
      by (intro that [OF _ refl]) (auto simp: get_project_slug_def tsc_input_def py_or_def Let_def)
  qed
  have f: "fst (snd (get_fields tsc_input (ws_required tsc_spec) st1)) = []"
    unfolding s1d by code_simp
  have m: "metas example_store = {with_paths example_meta}"
    using save_artifact_ok(2) [OF store_ok_empty(1) example_saveable surjective_pairing]
    by (simp add: example_store_def save_artifact_eq with_paths_def Let_def)
  have "m_status (with_paths example_meta) = STATUS_DRAFT" by code_simp
  then have no: "\<not> (\<exists>x \<in> metas (st_store example_state). meets ''demo'' (approved_req ''concept'' ''WP-FSC'') x)"
    by (simp add: example_state_def m meets_def req_status_def approved_req_def)
  have "generate_wp tsc_spec example_env (PDict tsc_input) example_state =
      Inr (render_missing_upstream
        (filter (\<lambda>r. \<not> (\<exists>m \<in> metas (st_store example_state). meets ''demo'' r m)) (ws_upstream tsc_spec)),
        snd (snd (get_fields tsc_input (ws_required tsc_spec) st1)))"
    by (rule conjunct1 [OF generate_reports_missing_upstream [where d = tsc_input and flds =
          "fst (get_fields tsc_input (ws_required tsc_spec) st1)" and r = "approved_req ''concept'' ''WP-FSC''",
          OF _ _ _ _ s1 _ _ no]])
       (simp_all add: generators_def example_state_def example_store_ok parse_tool_input_def tsc_input_def
          tsc_spec_def prod_eq_iff f [unfolded tsc_spec_def tsc_input_def, simplified])
  with no show ?thesis by (simp add: tsc_spec_def)
qed

end
