(* ===== verification/Hara_Risk.thy ===== *)
theory Hara_Risk
  imports Iso_Text
begin

text \<open>
  Risk classification of the HARA plugin: the ASIL table (\<open>ASIL_Calculator.py\<close>) and the
  operational situations with the minimum rule for exposure
  (\<open>operational_situation_tool.py\<close>).  The database \<open>operational_situations.json\<close> is an
  argument: \<open>None\<close> when it cannot be loaded, otherwise its scenarios by category.  Fixed
  wording with characters outside ASCII is represented by the constructors of the reply types.
\<close>


section \<open>ASIL table\<close>

abbreviation QM :: string where "QM \<equiv> ''QM''"

definition asil_rows :: "string list list list list" where
  "asil_rows =
     (let z = [QM, QM, QM, QM]; b = (\<lambda>x y w. [QM, x, y, w]);
          A = ''A''; B = ''B''; C = ''C''; D = ''D''
      in [[[z, z, z, z], [z, z, z, z], [z, z, z, z], [z, z, z, z]],
          [[z, b A A A, b A A A, b A A A], [z, b A A A, b A B B, b A B B],
           [z, b A B B, b B B C, b B C C], [z, b A B C, b B C C, b C C D]],
          [[z, b A B B, b B B C, b B C C], [z, b A B C, b B C C, b C C D],
           [z, b B C C, b C C D, b C D D], [z, b B C D, b C D D, b D D D]],
          [[z, b B C C, b C C D, b C D D], [z, b B C D, b C D D, b D D D],
           [z, b C D D, b D D D, b D D D], [z, b C D D, b D D D, b D D D]]])"

text \<open>What the function returns: the text of the error, or the entry found in the table.\<close>

datatype asil_result = AsilText string | AsilRow "string list"

definition calculate_asil :: "int \<Rightarrow> int \<Rightarrow> int \<Rightarrow> asil_result" where
  "calculate_asil s e c =
     (if \<not> (0 \<le> s \<and> s \<le> 3 \<and> 0 \<le> e \<and> e \<le> 3 \<and> 0 \<le> c \<and> c \<le> 3) then AsilText ''Invalid''
      else AsilRow (asil_rows ! nat s ! nat e ! nat c))"


section \<open>Exposure\<close>

record scenario =
  sc_id :: string
  sc_name :: string
  sc_description :: string
  sc_exposure :: string
  sc_percentage :: string
  sc_rationale :: string
  sc_duration :: string
  sc_frequency :: string

record combination_example =
  ce_name :: string
  ce_combination :: string
  ce_exposure :: string
  ce_explanation :: string

record situations =
  sd_criteria :: "(string \<times> string) list"
  sd_scenarios :: "(string \<times> scenario list) list"
  sd_rule_description :: string
  sd_rule_calculation :: string
  sd_rule_rationale :: string
  sd_rule_examples :: "combination_example list"

definition get_exposure_value :: "string \<Rightarrow> nat" where
  "get_exposure_value level =
     (case map_of [(''E0'', 0), (''E1'', 1), (''E2'', 2), (''E3'', 3), (''E4'', 4)] level of
        Some v \<Rightarrow> v | None \<Rightarrow> 0)"

definition get_exposure_level :: "nat \<Rightarrow> string" where
  "get_exposure_level v =
     (case map_of [(0, ''E0''), (1, ''E1''), (2, ''E2''), (3, ''E3''), (4, ''E4'')] v of
        Some l \<Rightarrow> l | None \<Rightarrow> ''E0'')"

definition all_scenarios :: "situations \<Rightarrow> scenario list" where
  "all_scenarios db = concat (map snd (sd_scenarios db))"

text \<open>
  \<open>scenario["id"] in scenario_ids\<close>: membership for a list or the keys of a dictionary,
  a substring test when a plain text was passed, and \<open>TypeError\<close> for a number or a boolean.
\<close>

fun id_in :: "string \<Rightarrow> pyval \<Rightarrow> bool" where
  "id_in i (PList xs) = (PStr i \<in> set xs)"
| "id_in i (PStr s) = contains i s"
| "id_in i (PDict d) = (i \<in> set (dict_keys d))"
| "id_in i _ = False"

definition iterable :: "pyval \<Rightarrow> bool" where
  "iterable v = (case v of PList _ \<Rightarrow> True | PStr _ \<Rightarrow> True | PDict _ \<Rightarrow> True | _ \<Rightarrow> False)"

definition selected_scenarios :: "pyval \<Rightarrow> situations \<Rightarrow> scenario list" where
  "selected_scenarios ids db = filter (\<lambda>s. id_in (sc_id s) ids) (all_scenarios db)"

definition calculate_combined_exposure :: "pyval \<Rightarrow> situations \<Rightarrow> string \<times> string" where
  "calculate_combined_exposure ids db =
     (let exposures = map (\<lambda>s. get_exposure_value (sc_exposure s)) (selected_scenarios ids db) in
      if exposures = [] then (''E0'', ''No valid scenarios found'')
      else
        let combined = get_exposure_level (Min (set exposures))
        in (combined,
            ''Combined exposure calculated as minimum of constituent scenarios: '' @
            join_with '' + '' (map get_exposure_level exposures) @ '' = '' @ combined))"


section \<open>Tools on situations\<close>

record custom_situation =
  cs_name :: pyval
  cs_components :: "(string \<times> string \<times> string) list"
  cs_exposure :: string
  cs_rationale :: string

text \<open>The part of the working memory the situation tools use.\<close>

record situation_wm =
  sw_item_name :: "string option"
  sw_timestamp :: string
  sw_situations :: "(string \<times> string \<times> string) list option"
  sw_custom :: "custom_situation list option"

datatype custom_reply = CustomError string | CustomCreated custom_situation

text \<open>
  The input is a dictionary or a text that decodes to one; anything else fails at
  \<open>json.loads\<close> or at \<open>get\<close>, which the tool reports as an error value.
\<close>

definition create_custom_operational_situation ::
  "(string \<Rightarrow> pyval option) \<Rightarrow> situations option \<Rightarrow> pyval \<Rightarrow> situation_wm
     \<Rightarrow> (custom_reply \<times> situation_wm) result" where
  "create_custom_operational_situation loads db tool_input wm =
     (let data = (case tool_input of PStr s \<Rightarrow> loads s | v \<Rightarrow> Some v) in
      case data of
        Some (PDict d) \<Rightarrow>
          (let ids = (case dict_get d ''scenario_ids'' of Some v \<Rightarrow> v | None \<Rightarrow> PList []);
               name = (case dict_get d ''name'' of Some v \<Rightarrow> v | None \<Rightarrow> PStr ''Custom Combined Situation'')
           in if \<not> truthy ids then Inr (CustomError ''No scenario IDs provided'', wm)
              else case db of
                None \<Rightarrow> Inr (CustomError ''Could not load operational situations database'', wm)
              | Some db \<Rightarrow>
                  if \<not> iterable ids \<and> all_scenarios db \<noteq> [] then Inl TypeError
                  else if selected_scenarios ids db = []
                  then Inr (CustomError ''No valid scenarios found with provided IDs'', wm)
                  else
                    let (combined, rationale) = calculate_combined_exposure ids db;
                        situation =
                          \<lparr>cs_name = name,
                           cs_components =
                             map (\<lambda>s. (sc_id s, sc_name s, sc_exposure s)) (selected_scenarios ids db),
                           cs_exposure = combined, cs_rationale = rationale\<rparr>
                    in Inr (CustomCreated situation,
                            wm\<lparr>sw_custom := Some ((case sw_custom wm of Some l \<Rightarrow> l | None \<Rightarrow> []) @ [situation])\<rparr>))
      | _ \<Rightarrow> Inr (CustomError ''Invalid input format'', wm))"

datatype situation_reply =
    HazardRequired
  | SituationNoDatabase
  | SituationSelected string string
  | SituationError py_exc

text \<open>
  The prompt interpolates the item, the hazard and the scenarios; \<open>llm\<close> gets those three.
  An input that is not text is converted with \<open>str\<close>.
\<close>

definition select_operational_situation ::
  "(string \<Rightarrow> string \<Rightarrow> (string \<times> scenario list) list \<Rightarrow> string result) \<Rightarrow> situations option \<Rightarrow> pyval
     \<Rightarrow> situation_wm \<Rightarrow> situation_reply \<times> situation_wm" where
  "select_operational_situation llm db tool_input wm =
     (let hazard = (if truthy tool_input then strip (py_str tool_input) else '''') in
      if hazard = [] then (HazardRequired, wm)
      else case db of
        None \<Rightarrow> (SituationNoDatabase, wm)
      | Some db \<Rightarrow>
          (let item = (case sw_item_name wm of Some i \<Rightarrow> i | None \<Rightarrow> ''the system'') in
           case llm item hazard (sd_scenarios db) of
             Inl e \<Rightarrow> (SituationError e, wm)
           | Inr reply \<Rightarrow>
               (let analysis = strip reply in
                (SituationSelected hazard analysis,
                 wm\<lparr>sw_situations :=
                      Some ((case sw_situations wm of Some l \<Rightarrow> l | None \<Rightarrow> []) @
                            [(hazard, analysis, sw_timestamp wm)])\<rparr>))))"

text \<open>\<open>str.title\<close>: the first letter of every run of letters in upper case, the others in lower case.\<close>

definition is_letter :: "char \<Rightarrow> bool" where
  "is_letter c = (let n = (of_char (lower_char c) :: nat) in 97 \<le> n \<and> n \<le> 122)"

fun title_from :: "bool \<Rightarrow> string \<Rightarrow> string" where
  "title_from in_word [] = []"
| "title_from in_word (c # cs) = (if in_word then lower_char c else upper_char c) # title_from (is_letter c) cs"

definition category_map :: "(string, string) dict" where
  "category_map =
     [(''urban'', ''urban_driving''), (''highway'', ''highway_driving''),
      (''environmental'', ''environmental_conditions''), (''special'', ''special_operations''),
      (''critical'', ''critical_maneuvers''), (''states'', ''vehicle_states'')]"

definition categories_to_show :: "string \<Rightarrow> situations \<Rightarrow> string list" where
  "categories_to_show category_filter db =
     (case dict_get category_map category_filter of
        Some key \<Rightarrow> if key \<in> set (map fst (sd_scenarios db)) then [key] else []
      | None \<Rightarrow> map fst (sd_scenarios db))"

definition scenario_lines :: "scenario \<Rightarrow> string list" where
  "scenario_lines s =
     [''### '' @ sc_id s @ '': '' @ sc_name s,
      ''**Exposure:** '' @ sc_exposure s @ '' ('' @ sc_percentage s @ '')'',
      ''**Description:** '' @ sc_description s,
      ''**Frequency:** '' @ sc_frequency s,
      ''**Typical Duration:** '' @ sc_duration s,
      ''**Rationale:** '' @ sc_rationale s @ [nl]]"

definition category_lines :: "situations \<Rightarrow> string \<Rightarrow> string list" where
  "category_lines db name =
     (''## '' @ title_from False (replace_all ''_'' '' '' name) @ [nl]) #
     concat (map scenario_lines (case map_of (sd_scenarios db) name of Some l \<Rightarrow> l | None \<Rightarrow> []))"

text \<open>\<open>None\<close> is the reply that the database could not be loaded.\<close>

definition list_operational_situations_by_category ::
  "situations option \<Rightarrow> pyval \<Rightarrow> string option" where
  "list_operational_situations_by_category db tool_input =
     (case db of
        None \<Rightarrow> None
      | Some db \<Rightarrow>
          (let category_filter = (if truthy tool_input then lower (strip (py_str tool_input)) else '''') in
           Some (join_with [nl]
             ([''# Available Operational Situations'' @ [nl],
               ''*Based on ISO 26262-3:2018 Clause 6.4.2 - Situation Analysis*'' @ [nl],
               ''## Exposure Classification Criteria:'' @ [nl]] @
              map (\<lambda>(level, description). ''- **'' @ level @ '':** '' @ description) (sd_criteria db) @
              [[nl] @ ''---'' @ [nl]] @
              concat (map (category_lines db) (categories_to_show category_filter db)) @
              [[nl] @ ''---'' @ [nl], ''## Scenario Combination Rules'' @ [nl],
               sd_rule_description db, [nl] @ ''**Exposure Calculation:** '' @ sd_rule_calculation db,
               [nl] @ ''**Rationale:** '' @ sd_rule_rationale db @ [nl],
               [nl] @ ''### Example Combinations:'' @ [nl]] @
              concat (map (\<lambda>ex. [''- **'' @ ce_name ex @ ''** ('' @ ce_combination ex @ '')'',
                                  ''  - Combined Exposure: '' @ ce_exposure ex,
                                  ''  - '' @ ce_explanation ex @ [nl]]) (sd_rule_examples db))))))"

section \<open>Properties\<close>

lemma exposure_value_level: "v \<le> 4 \<Longrightarrow> get_exposure_value (get_exposure_level v) = v"
proof -
  assume "v \<le> 4"
  then have "v = 0 \<or> v = 1 \<or> v = 2 \<or> v = 3 \<or> v = 4" by linarith
  then show ?thesis by (elim disjE) (simp_all add: get_exposure_value_def get_exposure_level_def)
qed

lemma exposure_value_le: "get_exposure_value l \<le> 4"
  by (simp add: get_exposure_value_def split: option.split)

lemma combined_exposure_eq:
  "selected_scenarios ids db \<noteq> [] \<Longrightarrow>
   get_exposure_value (fst (calculate_combined_exposure ids db)) =
     Min ((\<lambda>s. get_exposure_value (sc_exposure s)) ` set (selected_scenarios ids db))"
proof -
  let ?E = "(\<lambda>s. get_exposure_value (sc_exposure s)) ` set (selected_scenarios ids db)"
  assume "selected_scenarios ids db \<noteq> []"
  then have ne: "?E \<noteq> {}" by simp
  then have "Min ?E \<in> ?E" by (intro Min_in) auto
  then have "Min ?E \<le> 4" using exposure_value_le by auto
  with ne show ?thesis by (simp add: calculate_combined_exposure_def Let_def exposure_value_level)
qed

text \<open>
  The combined exposure is the minimum rule of the standard: it is the exposure of some
  selected scenario and no selected scenario has a lower one; and selecting more scenarios
  never raises it.
\<close>

theorem combined_exposure_minimum:
  assumes "selected_scenarios (PList ids) db \<noteq> []"
  shows "(\<exists>s \<in> set (selected_scenarios (PList ids) db).
            get_exposure_value (fst (calculate_combined_exposure (PList ids) db)) = get_exposure_value (sc_exposure s)) \<and>
         (\<forall>s \<in> set (selected_scenarios (PList ids) db).
            get_exposure_value (fst (calculate_combined_exposure (PList ids) db)) \<le> get_exposure_value (sc_exposure s)) \<and>
         get_exposure_value (fst (calculate_combined_exposure (PList (ids @ ids')) db))
           \<le> get_exposure_value (fst (calculate_combined_exposure (PList ids) db))"
proof -
  let ?E = "\<lambda>ids. (\<lambda>s. get_exposure_value (sc_exposure s)) ` set (selected_scenarios (PList ids) db)"
  have sub: "set (selected_scenarios (PList ids) db) \<subseteq> set (selected_scenarios (PList (ids @ ids')) db)"
    by (auto simp: selected_scenarios_def)
  with assms have ne': "selected_scenarios (PList (ids @ ids')) db \<noteq> []" by auto
  have "Min (?E ids) \<in> ?E ids" using assms by (intro Min_in) auto
  moreover have "Min (?E (ids @ ids')) \<le> Min (?E ids)" using sub assms by (intro Min_antimono) auto
  ultimately show ?thesis
    unfolding combined_exposure_eq [OF assms] combined_exposure_eq [OF ne'] by auto
qed

definition example_scenario :: "string \<Rightarrow> string \<Rightarrow> scenario" where
  "example_scenario i e =
     \<lparr>sc_id = i, sc_name = i, sc_description = '''', sc_exposure = e, sc_percentage = '''', sc_rationale = '''',
      sc_duration = '''', sc_frequency = ''''\<rparr>"

definition example_db :: situations where
  "example_db =
     \<lparr>sd_criteria = [],
      sd_scenarios = [(''highway_driving'', [example_scenario ''HWY-001'' ''E4'']),
                      (''environmental_conditions'', [example_scenario ''ENV-002'' ''E2'', example_scenario ''ENV-006'' ''E3''])],
      sd_rule_description = '''', sd_rule_calculation = '''', sd_rule_rationale = '''', sd_rule_examples = []\<rparr>"

theorem combined_exposure_minimum_witness:
  "get_exposure_value (fst (calculate_combined_exposure (PList ([PStr ''HWY-001''] @ [PStr ''ENV-002''])) example_db))
     \<le> get_exposure_value (fst (calculate_combined_exposure (PList [PStr ''HWY-001'']) example_db)) \<and>
   fst (calculate_combined_exposure (PList [PStr ''HWY-001'', PStr ''ENV-006'']) example_db) = ''E3''"
proof -
  have "selected_scenarios (PList [PStr ''HWY-001'']) example_db \<noteq> []" by code_simp
  moreover have "fst (calculate_combined_exposure (PList [PStr ''HWY-001'', PStr ''ENV-006'']) example_db) = ''E3''"
    by code_simp
  ultimately show ?thesis using combined_exposure_minimum by blast
qed

text \<open>
  The ASIL calculator never returns an ASIL: for arguments in range the entry of the table
  is a list of four levels (the table has one dimension more than the lookup), for all
  others it is \<open>Invalid\<close>.  An exposure of \<open>E4\<close> is out of range.
\<close>

theorem asil_lookup_returns_row:
  "(case calculate_asil s e c of
      AsilRow row \<Rightarrow> 0 \<le> s \<and> s \<le> 3 \<and> 0 \<le> e \<and> e \<le> 3 \<and> 0 \<le> c \<and> c \<le> 3 \<and> length row = 4
    | AsilText t \<Rightarrow> \<not> (0 \<le> s \<and> s \<le> 3 \<and> 0 \<le> e \<and> e \<le> 3 \<and> 0 \<le> c \<and> c \<le> 3) \<and> t = ''Invalid'')"
proof -
  have rows: "\<forall>m \<in> set asil_rows. length m = 4 \<and> (\<forall>r \<in> set m. length r = 4 \<and> (\<forall>q \<in> set r. length q = 4))"
    and len: "length asil_rows = 4" by code_simp+
  have "length (asil_rows ! i ! j ! k) = 4" if "i < 4" "j < 4" "k < 4" for i j k
    using that rows len by (metis nth_mem)
  then show ?thesis by (auto simp: calculate_asil_def)
qed

end
