(* ===== verification/Hara_Workflow.thy ===== *)
theory Hara_Workflow
  imports Hara_Risk
begin

text \<open>
  The five-step HARA workflow (\<open>Hara_Assistant_tool.py\<close>, \<open>exposure_assessment_tool.py\<close>):
  extraction of functions, HAZOP analysis, exposure assessment, HARA table, safety goals, with
  the parsing of what the language model returns.  The working memory is the record of the
  keys the tools read and write, each holding text or absent.  A prompt is represented by a
  constructor with the values it interpolates (truncated as in the code), a reply by a
  constructor with its values, because the fixed wording has characters outside ASCII.  The language model is a
  function from prompts to text or an exception.
\<close>


section \<open>State, prompts and replies\<close>

record hara_wm =
  hw_item_name :: "string option"
  hw_functions :: "string option"
  hw_item_def :: "string option"
  hw_stage :: "string option"
  hw_hazop :: "string option"
  hw_exposure :: "string option"
  hw_table :: "string option"
  hw_goals :: "string option"
  hw_system_name :: "string option"
  hw_document_type :: "string option"

definition empty_wm :: hara_wm where
  "empty_wm =
     \<lparr>hw_item_name = None, hw_functions = None, hw_item_def = None, hw_stage = None, hw_hazop = None,
      hw_exposure = None, hw_table = None, hw_goals = None, hw_system_name = None, hw_document_type = None\<rparr>"

definition or_default :: "string option \<Rightarrow> string \<Rightarrow> string" where
  "or_default v deflt = (case v of Some s \<Rightarrow> s | None \<Rightarrow> deflt)"

datatype hara_prompt =
    FunctionPrompt string string
  | HazopPrompt string string string
  | ExposurePrompt string string "(string \<times> scenario list) list"
  | TablePrompt string string string
  | GoalsPrompt string string

datatype hara_reply =
    WorkflowReply string string
  | NoItemDefinition string
  | FunctionsExtracted string string
  | ExtractionFailed py_exc
  | NoFunctions
  | NoGuideWords
  | NoParsedFunctions
  | NoHazopResults
  | HazopDone string string nat nat
  | NoHazop
  | NoDatabase
  | NoHazardsFound
  | ExposureDone string nat nat "string set" string
  | ExposureFailed py_exc
  | NoExposure
  | TableDone string nat string "(string, nat) dict"
  | TableFailed py_exc
  | NoTable
  | NoGoalsNeeded
  | GoalsDone string nat string
  | GoalsFailed py_exc

type_synonym llm = "hara_prompt \<Rightarrow> string result"


section \<open>Finding the item definition\<close>

text \<open>What opening a file gives: the text (of a document or extracted from a PDF), or an error.\<close>

type_synonym folder = "(string \<times> string option) list"

definition ends_with :: "string \<Rightarrow> string \<Rightarrow> bool" where
  "ends_with e s = suffix e s"

definition scan_file :: "bool \<Rightarrow> string \<Rightarrow> string \<times> string option \<Rightarrow> string option" where
  "scan_file pdf_available item_name file =
     (case file of
        (filename, content) \<Rightarrow>
          if ends_with ''.txt'' (lower filename) \<or> ends_with ''.md'' (lower filename) then content
          else if pdf_available \<and> ends_with ''.pdf'' (lower filename) then
            (case content of
               Some t \<Rightarrow> if contains (lower item_name) (lower t) then Some t else None
             | None \<Rightarrow> None)
          else None)"

fun first_some :: "('a \<Rightarrow> 'b option) \<Rightarrow> 'a list \<Rightarrow> 'b option" where
  "first_some f [] = None"
| "first_some f (x # xs) = (case f x of Some y \<Rightarrow> Some y | None \<Rightarrow> first_some f xs)"

text \<open>The inner two loops over all folders; a folder that does not exist is \<open>None\<close>.\<close>

definition scan_folders :: "bool \<Rightarrow> string \<Rightarrow> folder option list \<Rightarrow> string option" where
  "scan_folders pdf item_name folders =
     first_some (\<lambda>f. case f of Some files \<Rightarrow> first_some (scan_file pdf item_name) files | None \<Rightarrow> None) folders"

text \<open>The outer two loops run the inner ones once per file of an existing folder.\<close>

definition find_item_definition :: "bool \<Rightarrow> folder option list \<Rightarrow> string \<Rightarrow> hara_wm \<Rightarrow> string option" where
  "find_item_definition pdf folders item_name wm =
     (case hw_item_def wm of
        Some content \<Rightarrow> Some content
      | None \<Rightarrow>
          first_some (\<lambda>f. case f of
              Some files \<Rightarrow> first_some (\<lambda>file. scan_folders pdf item_name folders) files
            | None \<Rightarrow> None) folders)"


section \<open>Parsing\<close>

definition before_first :: "char \<Rightarrow> string \<Rightarrow> string" where
  "before_first c s = takeWhile (\<lambda>x. x \<noteq> c) s"

definition after_first :: "char \<Rightarrow> string \<Rightarrow> string" where
  "after_first c s = (if c \<in> set s then tl (dropWhile (\<lambda>x. x \<noteq> c) s) else s)"

definition function_name :: "string \<Rightarrow> string" where
  "function_name line =
     (if CHR '':'' \<in> set line then strip (after_first (CHR ''.'') (before_first (CHR '':'') line))
      else strip (after_first (CHR ''.'') line))"

definition parse_functions_from_text :: "string \<Rightarrow> string list" where
  "parse_functions_from_text functions_text =
     (let lines = split_on nl functions_text;
          function_lines =
            map strip (filter (\<lambda>line. strip line \<noteq> [] \<and> (\<exists>c \<in> set (take 3 line). is_digit c)) lines);
          functions = filter (\<lambda>f. f \<noteq> []) (map function_name function_lines)
      in if functions = [] then filter (\<lambda>l. l \<noteq> []) (map strip lines) else functions)"

definition is_hazard_line :: "string \<Rightarrow> bool" where
  "is_hazard_line line \<longleftrightarrow> prefix ''| HAZ-'' (strip line)"

definition hazard_lines :: "string \<Rightarrow> string list" where
  "hazard_lines t = filter is_hazard_line (split_on nl t)"

text \<open>\<open>re.search\<close> of a pattern given as a matcher at a position: the leftmost match.\<close>

fun search :: "(string \<Rightarrow> 'a option) \<Rightarrow> string \<Rightarrow> 'a option" where
  "search m [] = m []"
| "search m (c # cs) = (case m (c # cs) of Some x \<Rightarrow> Some x | None \<Rightarrow> search m cs)"

text \<open>The pattern \<open>ASIL\<close>, white space, one of \<open>A\<close> to \<open>D\<close>: the text matched and what follows.\<close>

definition asil_mark :: "string \<Rightarrow> (string \<times> string) option" where
  "asil_mark s =
     (if prefix ''ASIL'' s then
        (let sp = takeWhile is_space (drop 4 s) in
         case dropWhile is_space (drop 4 s) of
           [] \<Rightarrow> None
         | c # rest \<Rightarrow> if c \<in> set ''ABCD'' then Some (''ASIL'' @ sp @ [c], rest) else None)
      else None)"

definition qm_mark :: "string \<Rightarrow> (string \<times> string) option" where
  "qm_mark s = (if prefix ''QM'' s then Some (''QM'', drop 2 s) else None)"

text \<open>The cell pattern: a bar, white space, one of the two marks, white space, a bar.\<close>

definition asil_cell :: "string \<Rightarrow> string option" where
  "asil_cell s =
     (case s of
        [] \<Rightarrow> None
      | c # cs \<Rightarrow>
          if c \<noteq> CHR ''|'' then None
          else case (case asil_mark (dropWhile is_space cs) of
                       Some r \<Rightarrow> Some r | None \<Rightarrow> qm_mark (dropWhile is_space cs)) of
                 None \<Rightarrow> None
               | Some (mark, rest) \<Rightarrow>
                   (case dropWhile is_space rest of
                      [] \<Rightarrow> None
                    | d # _ \<Rightarrow> if d = CHR ''|'' then Some mark else None))"

definition count_key :: "string \<Rightarrow> (string, nat) dict \<Rightarrow> (string, nat) dict" where
  "count_key k counts = dict_set k ((case dict_get counts k of Some n \<Rightarrow> n | None \<Rightarrow> 0) + 1) counts"

definition extract_asil_distribution :: "string \<Rightarrow> (string, nat) dict" where
  "extract_asil_distribution hara_table =
     fold count_key (List.map_filter (\<lambda>row. map_option strip (search asil_cell row)) (hazard_lines hara_table)) []"

definition truncated :: "nat \<Rightarrow> string \<Rightarrow> string \<Rightarrow> string" where
  "truncated n note s = take n s @ (if n < length s then [nl, nl] @ note else [])"


section \<open>The tools\<close>

definition explain_hara_workflow :: "hara_wm \<Rightarrow> hara_reply" where
  "explain_hara_workflow wm =
     WorkflowReply (or_default (hw_item_name wm) ''[Item Name]'') (or_default (hw_stage wm) ''not_started'')"

text \<open>The closing line of that reply, by stage.\<close>

definition next_step :: "string \<Rightarrow> string option" where
  "next_step stage =
     map_of [(''not_started'', ''extract functions from [your item name]''),
             (''functions_extracted'', ''apply hazop analysis''),
             (''hazop_completed'', ''assess exposure for all hazards''),
             (''exposure_assessed'', ''generate hara table''),
             (''table_generated'', ''derive detailed safety goals''),
             (''safety_goals_derived'', ''HARA Complete!'')] stage"

definition input_item_name :: "pyval \<Rightarrow> string" where
  "input_item_name tool_input =
     (case tool_input of
        PStr s \<Rightarrow> strip s
      | PDict d \<Rightarrow> (case dict_get d ''item_name'' of Some v \<Rightarrow> py_str v | None \<Rightarrow> ''Unknown System'')
      | _ \<Rightarrow> ''Unknown System'')"

definition build_function_extraction_prompt :: "string \<Rightarrow> string \<Rightarrow> hara_prompt" where
  "build_function_extraction_prompt content item_name =
     FunctionPrompt item_name (truncated 10000 ''[... content truncated ...]'' content)"

definition extract_functions ::
  "llm \<Rightarrow> bool \<Rightarrow> folder option list \<Rightarrow> pyval \<Rightarrow> hara_wm \<Rightarrow> hara_reply \<times> hara_wm" where
  "extract_functions llm pdf folders tool_input wm =
     (let item_name = input_item_name tool_input in
      case find_item_definition pdf folders item_name wm of
        None \<Rightarrow> (NoItemDefinition item_name, wm)
      | Some content \<Rightarrow>
          if content = [] then (NoItemDefinition item_name, wm)
          else case llm (build_function_extraction_prompt content item_name) of
                 Inl e \<Rightarrow> (ExtractionFailed e, wm)
               | Inr reply \<Rightarrow>
                   (let functions_list = strip reply in
                    (FunctionsExtracted item_name functions_list,
                     wm\<lparr>hw_item_name := Some item_name, hw_functions := Some functions_list,
                        hw_item_def := Some content, hw_stage := Some ''functions_extracted''\<rparr>)))"

text \<open>The guide words: word, meaning, description.\<close>

type_synonym guide_words = "(string \<times> string \<times> string) list"

definition guide_words_summary :: "guide_words \<Rightarrow> string" where
  "guide_words_summary gw =
     join_with [nl] (map (\<lambda>(word, meaning, descr). ''- **'' @ word @ ''**: '' @ meaning @ '' - '' @ descr) gw)"

definition hazop_rows :: "llm \<Rightarrow> string \<Rightarrow> guide_words \<Rightarrow> string \<Rightarrow> string list" where
  "hazop_rows llm item_name gw func =
     (case llm (HazopPrompt item_name (guide_words_summary gw) func) of
        Inl e \<Rightarrow> []
      | Inr response \<Rightarrow>
          filter (\<lambda>line. prefix ''|'' line \<and>
                         \<not> contains ''---'' line \<and> \<not> contains ''Function'' line \<and> \<not> contains ''Guideword'' line)
            (split_on nl (strip response)))"

text \<open>One row of the final table; a row with fewer than six cells is dropped, its number is not reused.\<close>

definition hazop_row :: "nat \<Rightarrow> string \<Rightarrow> string option" where
  "hazop_row i row =
     (let content = split_on (CHR ''|'') (strip_of (\<lambda>c. c = CHR ''|'') row) in
      if 6 \<le> length content then
        Some (''| HAZ-'' @ pad_int 3 (int i) @ '' | '' @ join_with '' | '' (take 6 content) @ '' |'')
      else None)"

definition number_rows :: "string list \<Rightarrow> string list" where
  "number_rows rows = List.map_filter (\<lambda>(i, row). hazop_row i row) (enumerate 1 rows)"

definition hazop_header :: string where
  "hazop_header =
     ''| ID | Function | HAZOP Guideword | Malfunction | Hazard | Severity Class | Rationale for Chosen Severity |''"

definition hazop_separator :: string where
  "hazop_separator =
     ''|----|----------|------------------|-------------|--------|----------------|-------------------------------|''"

definition focus_of :: "pyval \<Rightarrow> string option" where
  "focus_of tool_input =
     (case tool_input of
        PDict d \<Rightarrow> (case dict_get d ''focus_function'' of
                      Some v \<Rightarrow> if truthy v then Some (py_str v) else None | None \<Rightarrow> None)
      | PStr s \<Rightarrow> if strip s \<noteq> [] then Some (strip s) else None
      | _ \<Rightarrow> None)"

definition apply_hazop_analysis :: "llm \<Rightarrow> guide_words \<Rightarrow> pyval \<Rightarrow> hara_wm \<Rightarrow> hara_reply \<times> hara_wm" where
  "apply_hazop_analysis llm gw tool_input wm =
     (let functions_text = or_default (hw_functions wm) '''';
          item_name = or_default (hw_item_name wm) ''the system''
      in if functions_text = [] then (NoFunctions, wm)
      else if gw = [] then (NoGuideWords, wm)
      else
        let functions = parse_functions_from_text functions_text in
        if functions = [] then (NoParsedFunctions, wm)
        else
          let todo = (case focus_of tool_input of Some f \<Rightarrow> [f] | None \<Rightarrow> functions);
              rows = concat (map (hazop_rows llm item_name gw) todo)
          in if rows = [] then (NoHazopResults, wm)
          else
            let final_rows = number_rows rows;
                full_table = join_with [nl] ([hazop_header, hazop_separator] @ final_rows)
            in (HazopDone item_name full_table (length final_rows) (length todo),
                wm\<lparr>hw_hazop := Some full_table, hw_stage := Some ''hazop_completed'',
                   hw_system_name := Some item_name\<rparr>))"

definition starts_bar :: "string \<Rightarrow> bool" where
  "starts_bar line = prefix ''|'' (strip line)"

text \<open>
  Removal of a code fence around the table: from the first to the last line that starts with a
  bar (all lines when there is none).
\<close>

definition unfence :: "string \<Rightarrow> string" where
  "unfence t =
     (if prefix (replicate 3 (CHR 0x60)) t then
        (let lines = split_on nl t;
             start = length (takeWhile (\<lambda>l. \<not> starts_bar l) lines);
             start_idx = (if start < length lines then start else 0);
             back = length (takeWhile (\<lambda>l. \<not> starts_bar l) (rev lines));
             end_idx = (if back < length lines then length lines - 1 - back else length lines)
         in join_with [nl] (drop start_idx (take (end_idx + 1) lines)))
      else t)"

text \<open>\<open>re.search(r"E[0-4]", line)\<close>.\<close>

definition exposure_mark :: "string \<Rightarrow> string option" where
  "exposure_mark s =
     (case s of
        c # d # _ \<Rightarrow> if c = CHR ''E'' \<and> d \<in> set ''01234'' then Some [c, d] else None
      | _ \<Rightarrow> None)"

definition assess_exposure_for_all_hazards ::
  "llm \<Rightarrow> situations option \<Rightarrow> hara_wm \<Rightarrow> hara_reply \<times> hara_wm" where
  "assess_exposure_for_all_hazards llm db wm =
     (let hazop = or_default (hw_hazop wm) '''' in
      if hazop = [] then (NoHazop, wm)
      else case db of
        None \<Rightarrow> (NoDatabase, wm)
      | Some db \<Rightarrow>
          (let item_name = or_default (hw_item_name wm) ''the system'';
               hazards = hazard_lines hazop
           in if hazards = [] then (NoHazardsFound, wm)
              else case llm (ExposurePrompt item_name hazop (sd_scenarios db)) of
                     Inl e \<Rightarrow> (ExposureFailed e, wm)
                   | Inr reply \<Rightarrow>
                       (let table = unfence (strip reply);
                            assessed = hazard_lines table;
                            levels = set (List.map_filter (search exposure_mark) assessed)
                        in (ExposureDone item_name (length hazards) (length assessed) levels table,
                            wm\<lparr>hw_exposure := Some table, hw_stage := Some ''exposure_assessed''\<rparr>))))"

definition generate_hara_table :: "llm \<Rightarrow> hara_wm \<Rightarrow> hara_reply \<times> hara_wm" where
  "generate_hara_table llm wm =
     (let hazop = or_default (hw_hazop wm) ''''; exposure = or_default (hw_exposure wm) '''' in
      if hazop = [] then (NoHazop, wm)
      else if exposure = [] then (NoExposure, wm)
      else
        let item_name = or_default (hw_item_name wm) ''Unknown Item'' in
        case llm (TablePrompt item_name (take 5000 hazop) (take 5000 exposure)) of
          Inl e \<Rightarrow> (TableFailed e, wm)
        | Inr reply \<Rightarrow>
            (let table = strip reply in
             (TableDone item_name (length (hazard_lines table)) table (extract_asil_distribution table),
              wm\<lparr>hw_document_type := Some ''hara'', hw_table := Some table,
                 hw_stage := Some ''table_generated'', hw_system_name := Some item_name\<rparr>)))"

definition derive_safety_goals :: "llm \<Rightarrow> hara_wm \<Rightarrow> hara_reply \<times> hara_wm" where
  "derive_safety_goals llm wm =
     (let table = or_default (hw_table wm) '''' in
      if table = [] then (NoTable, wm)
      else
        let item_name = or_default (hw_item_name wm) ''Unknown Item'';
            asil_hazards = filter (\<lambda>l. search asil_mark l \<noteq> None) (hazard_lines table)
        in if asil_hazards = [] then (NoGoalsNeeded, wm)
           else case llm (GoalsPrompt item_name (truncated 8000 ''[... table truncated ...]'' table)) of
                  Inl e \<Rightarrow> (GoalsFailed e, wm)
                | Inr reply \<Rightarrow>
                    (let goals = strip reply in
                     (GoalsDone item_name (length asil_hazards) goals,
                      wm\<lparr>hw_goals := Some goals, hw_stage := Some ''safety_goals_derived''\<rparr>)))"

text \<open>
  \<open>show_scenarios\<close> reads the decoded database as categories with a name and a list of
  situations; a category that is not a dictionary has no method \<open>get\<close>.
\<close>

definition get_or :: "(string, pyval) dict \<Rightarrow> string \<Rightarrow> pyval \<Rightarrow> pyval" where
  "get_or d k deflt = (case dict_get d k of Some v \<Rightarrow> v | None \<Rightarrow> deflt)"

fun situation_lines :: "pyval \<Rightarrow> string list result" where
  "situation_lines (PDict s) =
     Inr [''**'' @ py_str (get_or s ''id'' (PStr '''')) @ ''**: '' @ py_str (get_or s ''name'' (PStr '''')) @
          '' ('' @ py_str (get_or s ''exposure'' (PStr '''')) @ '')'',
          ''  '' @ py_str (get_or s ''description'' (PStr '''')) @ [nl]]"
| "situation_lines _ = Inl (AttributeError ''get'')"

fun situations_lines :: "pyval list \<Rightarrow> string list result" where
  "situations_lines [] = Inr []"
| "situations_lines (x # xs) =
     (case situation_lines x of
        Inl e \<Rightarrow> Inl e
      | Inr l \<Rightarrow> (case situations_lines xs of Inl e \<Rightarrow> Inl e | Inr ls \<Rightarrow> Inr (l @ ls)))"

fun show_categories :: "string \<Rightarrow> (string \<times> pyval) list \<Rightarrow> string list result" where
  "show_categories flt [] = Inr []"
| "show_categories flt ((key, category) # rest) =
     (if key = ''metadata'' then show_categories flt rest
      else case category of
        PDict c \<Rightarrow>
          if flt \<noteq> [] \<and> \<not> contains flt (lower key) then show_categories flt rest
          else
            (case get_or c ''situations'' (PList []) of
               PList xs \<Rightarrow>
                 (case situations_lines xs of
                    Inl e \<Rightarrow> Inl e
                  | Inr ls \<Rightarrow>
                      (case show_categories flt rest of
                         Inl e \<Rightarrow> Inl e
                       | Inr more_lines \<Rightarrow>
                           Inr (([nl] @ ''## '' @ py_str (get_or c ''name'' (PStr key)) @ [nl]) # ls @ more_lines)))
             | _ \<Rightarrow> Inl TypeError)
      | _ \<Rightarrow> Inl (AttributeError ''get''))"

text \<open>\<open>None\<close> is the reply that the database is missing.\<close>

definition show_scenarios :: "(string \<times> pyval) list option \<Rightarrow> pyval \<Rightarrow> string option result" where
  "show_scenarios data tool_input =
     (case data of
        None \<Rightarrow> Inr None
      | Some [] \<Rightarrow> Inr None
      | Some d \<Rightarrow>
          (case show_categories (if truthy tool_input then lower (strip (py_str tool_input)) else '''') d of
             Inl e \<Rightarrow> Inl e
           | Inr lines \<Rightarrow> Inr (Some (join_with [nl] ((''# Operational Situations Database'' @ [nl]) # lines)))))"


section \<open>Lemmas\<close>

subsection \<open>Item definitions\<close>

lemma first_some_None: "first_some f xs = None \<longleftrightarrow> (\<forall>x \<in> set xs. f x = None)"
  by (induction xs) (auto split: option.splits)

lemma first_some_const: "first_some (\<lambda>_. Some y) xs = (if xs = [] then None else Some y)"
  by (cases xs) auto

lemma first_some_nested:
  "Some files \<in> set fs \<Longrightarrow> files \<noteq> [] \<Longrightarrow>
   first_some (\<lambda>f. case f of Some files \<Rightarrow> first_some (\<lambda>_. Some y) files | None \<Rightarrow> None) fs = Some y"
  by (induction fs) (auto simp: first_some_const split: option.splits)

text \<open>Running the inner loops once per file gives what running them once gives.\<close>

lemma find_item_definition_eq:
  "find_item_definition pdf folders item wm =
     (case hw_item_def wm of Some c \<Rightarrow> Some c | None \<Rightarrow> scan_folders pdf item folders)"
proof (cases "scan_folders pdf item folders")
  case None
  have "first_some (\<lambda>f. case f of Some files \<Rightarrow> first_some (\<lambda>_. None) files | None \<Rightarrow> None) folders = (None :: string option)"
    by (auto simp: first_some_None split: option.split)
  with None show ?thesis by (simp add: find_item_definition_def split: option.split)
next
  case (Some y)
  then obtain files where "Some files \<in> set folders" "files \<noteq> []"
    unfolding scan_folders_def by (metis (no_types, lifting) first_some.simps(1) first_some_None
      not_Some_eq option.case(1) option.case(2))
  from first_some_nested [OF this, of y] Some show ?thesis
    by (simp add: find_item_definition_def split: option.split)
qed


subsection \<open>Hazard rows\<close>

lemma hazop_row_form:
  assumes "hazop_row i row = Some r" and "nl \<notin> set row"
  shows "nl \<notin> set r" and "is_hazard_line r" and "takeWhile (\<lambda>c. c \<noteq> CHR '' '') (drop 2 r) = ''HAZ-'' @ pad_int 3 (int i)"
proof -
  let ?c = "split_on (CHR ''|'') (strip_of (\<lambda>c. c = CHR ''|'') row)"
  from assms(1) have r: "r = ''| HAZ-'' @ pad_int 3 (int i) @ '' | '' @ join_with '' | '' (take 6 ?c) @ '' |''"
    by (auto simp: hazop_row_def Let_def split: if_splits)
  have dig: "is_digit x" if "x \<in> set (pad_int 3 (int i))" for x using that by (intro pad_int_digits) auto
  have nd: "\<not> is_digit nl" "\<not> is_digit (CHR '' '')" by (simp_all add: is_digit_def)
  have "set (join_with [CHR ''|''] ?c) \<subseteq> set row" using strip_of_subset by (simp)
  have parts: "set w \<subseteq> set s" if "w \<in> set (split_on c s)" for w c s
    using that by (induction s arbitrary: w) (auto split: list.splits if_splits, blast+)
  have join: "x \<in> set (join_with sep ws) \<Longrightarrow> x \<in> set sep \<or> (\<exists>w \<in> set ws. x \<in> set w)" for x sep ws
    by (induction sep ws rule: join_with.induct) auto
  have "nl \<notin> set (join_with '' | '' (take 6 ?c))"
  proof
    assume "nl \<in> set (join_with '' | '' (take 6 ?c))"
    then obtain w where "w \<in> set (take 6 ?c)" "nl \<in> set w" using join by fastforce
    then have "nl \<in> set (strip_of (\<lambda>c. c = CHR ''|'') row)" using parts by (meson in_set_takeD subsetD)
    with assms(2) show False using strip_of_subset by blast
  qed
  with dig nd show "nl \<notin> set r" by (auto simp: r)
  have "strip r = r"
    unfolding strip_def by (intro strip_of_id) (auto simp: r is_space_def)
  then show "is_hazard_line r" by (simp add: is_hazard_line_def r)
  show "takeWhile (\<lambda>c. c \<noteq> CHR '' '') (drop 2 r) = ''HAZ-'' @ pad_int 3 (int i)"
    using dig nd by (auto simp: r takeWhile_append takeWhile_eq_all_conv)
qed

lemma number_rows_from:
  assumes "\<forall>row \<in> set rows. nl \<notin> set row"
  shows "\<forall>r \<in> set (List.map_filter (\<lambda>(i, row). hazop_row i row) (enumerate n rows)). nl \<notin> set r \<and> is_hazard_line r"
    and "\<exists>ids. map (\<lambda>r. takeWhile (\<lambda>c. c \<noteq> CHR '' '') (drop 2 r))
            (List.map_filter (\<lambda>(i, row). hazop_row i row) (enumerate n rows)) =
          map (\<lambda>i. ''HAZ-'' @ pad_int 3 (int i)) ids \<and> sorted_wrt (<) ids \<and> (\<forall>i \<in> set ids. n \<le> i)"
  using assms
proof (induction rows arbitrary: n)
  case Nil
  { case 1 show ?case by (simp add: List.map_filter_simps) }
  { case 2 show ?case by (simp add: List.map_filter_simps) }
next
  case (Cons row rows)
  { case 1
    with Cons.IH(1) [of "Suc n"] hazop_row_form [of n row] show ?case
      by (auto simp: List.map_filter_simps split: option.splits) }
  { case 2
    then obtain ids where ids: "map (\<lambda>r. takeWhile (\<lambda>c. c \<noteq> CHR '' '') (drop 2 r))
        (List.map_filter (\<lambda>(i, row). hazop_row i row) (enumerate (Suc n) rows)) =
        map (\<lambda>i. ''HAZ-'' @ pad_int 3 (int i)) ids" "sorted_wrt (<) ids" "\<forall>i \<in> set ids. Suc n \<le> i"
      using Cons.IH(2) [of "Suc n"] by auto
    show ?case
    proof (cases "hazop_row n row")
      case None
      with ids show ?thesis by (intro exI [where x = ids]) (auto simp: List.map_filter_simps)
    next
      case (Some r)
      with 2 hazop_row_form(3) [of n row r] ids show ?thesis
        by (intro exI [where x = "n # ids"]) (auto simp: List.map_filter_simps)
    qed }
qed

lemma number_rows_ids:
  assumes "\<forall>row \<in> set rows. nl \<notin> set row"
  shows "distinct (map (\<lambda>r. takeWhile (\<lambda>c. c \<noteq> CHR '' '') (drop 2 r)) (number_rows rows))"
proof -
  obtain ids where ids: "map (\<lambda>r. takeWhile (\<lambda>c. c \<noteq> CHR '' '') (drop 2 r)) (number_rows rows) =
      map (\<lambda>i. ''HAZ-'' @ pad_int 3 (int i)) ids" "sorted_wrt (<) ids"
    using number_rows_from(2) [OF assms, of 1] unfolding number_rows_def by blast
  have "distinct ids" using ids(2) by (simp add: strict_sorted_iff)
  moreover have "inj_on (\<lambda>i. ''HAZ-'' @ pad_int 3 (int i)) A" for A
    by (rule inj_onI) (auto dest: pad_int_inj [rotated 2])
  ultimately show ?thesis unfolding ids(1) by (simp add: distinct_map)
qed

lemma hazop_rows_no_nl: "row \<in> set (hazop_rows llm item gw f) \<Longrightarrow> nl \<notin> set row"
  by (auto simp: hazop_rows_def dest: split_on_parts split: sum.splits)

lemma hazard_lines_table:
  assumes "\<forall>row \<in> set rows. nl \<notin> set row"
  shows "hazard_lines (join_with [nl] ([hazop_header, hazop_separator] @ number_rows rows)) = number_rows rows"
proof -
  have rows: "\<forall>r \<in> set (number_rows rows). nl \<notin> set r \<and> is_hazard_line r"
    unfolding number_rows_def by (rule number_rows_from(1) [OF assms])
  have hdr: "nl \<notin> set hazop_header" "nl \<notin> set hazop_separator" "\<not> is_hazard_line hazop_header"
    "\<not> is_hazard_line hazop_separator" by code_simp+
  have "split_on nl (join_with [nl] ([hazop_header, hazop_separator] @ number_rows rows)) =
      [hazop_header, hazop_separator] @ number_rows rows"
    by (rule split_join) (use rows hdr in auto)
  with rows hdr show ?thesis by (simp add: hazard_lines_def)
qed


text \<open>The cells of a table row: what stands between its bars, the outer ones removed.\<close>

definition cells_of :: "string \<Rightarrow> string list" where
  "cells_of row = split_on (CHR ''|'') (strip_of (\<lambda>c. c = CHR ''|'') row)"

lemma join_padded:
  "ws \<noteq> [] \<Longrightarrow> join_with ''|'' (map (\<lambda>c. '' '' @ c @ '' '') ws) = '' '' @ join_with '' | '' ws @ '' ''"
  by (induction ws rule: induct_list012) auto

lemma join_snoc: "ws \<noteq> [] \<Longrightarrow> join_with sep (ws @ [w]) = join_with sep ws @ sep @ w"
  by (induction ws rule: induct_list012) auto

lemma hazop_row_cells:
  "map_option (split_on (CHR ''|'')) (hazop_row i row) =
     (if 6 \<le> length (cells_of row) then
        Some (['''', '' HAZ-'' @ pad_int 3 (int i) @ '' ''] @ map (\<lambda>c. '' '' @ c @ '' '') (take 6 (cells_of row)) @ [''''])
      else None)"
proof -
  let ?id = "'' HAZ-'' @ pad_int 3 (int i) @ '' ''" and ?cs = "map (\<lambda>c. '' '' @ c @ '' '') (take 6 (cells_of row))"
  have "CHR ''|'' \<notin> set (pad_int 3 (int i))"
  proof
    assume "CHR ''|'' \<in> set (pad_int 3 (int i))"
    then have "is_digit (CHR ''|'')" by (rule pad_int_digits [rotated]) simp
    then show False by (simp add: is_digit_def)
  qed
  moreover have "CHR ''|'' \<notin> set c" if "c \<in> set (take 6 (cells_of row))" for c
    using that split_on_parts unfolding cells_of_def by (meson in_set_takeD)
  ultimately have bars: "\<forall>w \<in> set (['''', ?id] @ ?cs @ ['''']). CHR ''|'' \<notin> set w" by auto
  have "split_on (CHR ''|'') (''| HAZ-'' @ pad_int 3 (int i) @ '' | '' @ join_with '' | '' (take 6 (cells_of row)) @ '' |'') =
      ['''', ?id] @ ?cs @ ['''']" if "6 \<le> length (cells_of row)"
  proof -
    have ne: "take 6 (cells_of row) \<noteq> []" using that by auto
    then have j: "join_with ''|'' ?cs = '' '' @ join_with '' | '' (take 6 (cells_of row)) @ '' ''" by (rule join_padded)
    have "join_with ''|'' (['''', ?id] @ ?cs @ ['''']) = ''|'' @ ?id @ ''|'' @ join_with ''|'' (?cs @ [''''])"
      by (cases "?cs @ ['''']") simp_all
    also have "join_with ''|'' (?cs @ ['''']) = join_with ''|'' ?cs @ ''|'' @ ''''"
      using ne by (intro join_snoc) simp
    finally have "''| HAZ-'' @ pad_int 3 (int i) @ '' | '' @ join_with '' | '' (take 6 (cells_of row)) @ '' |'' =
        join_with ''|'' (['''', ?id] @ ?cs @ [''''])" using j by simp
    then show ?thesis by (metis (no_types, lifting) append_Cons list.discI split_join [OF _ bars])
  qed
  then show ?thesis by (simp add: hazop_row_def Let_def cells_of_def)
qed

lemma number_rows_cells:
  "map (split_on (CHR ''|'')) (List.map_filter (\<lambda>(i, row). hazop_row i row) (enumerate n rows)) =
     [['''', '' HAZ-'' @ pad_int 3 (int i) @ '' ''] @ map (\<lambda>c. '' '' @ c @ '' '') (take 6 (cells_of row)) @ [''''].
      (i, row) \<leftarrow> enumerate n rows, 6 \<le> length (cells_of row)]"
proof (induction rows arbitrary: n)
  case Nil
  then show ?case by (simp add: List.map_filter_simps)
next
  case (Cons row rows)
  from hazop_row_cells [of n row] Cons.IH [of "Suc n"] show ?case
    by (cases "hazop_row n row") (simp_all add: List.map_filter_simps split: if_splits)
qed

lemma table_lines:
  assumes "\<forall>row \<in> set rows. nl \<notin> set row"
  shows "split_on nl (join_with [nl] ([hazop_header, hazop_separator] @ number_rows rows)) =
      [hazop_header, hazop_separator] @ number_rows rows"
proof -
  have "\<forall>r \<in> set (number_rows rows). nl \<notin> set r"
    unfolding number_rows_def using number_rows_from(1) [OF assms] by blast
  moreover have "nl \<notin> set hazop_header" "nl \<notin> set hazop_separator" by code_simp+
  ultimately show ?thesis by (intro split_join) auto
qed


subsection \<open>Counting\<close>

lemma sum_update:
  "dict_ok d \<Longrightarrow> sum_list (map snd (count_key k d)) = Suc (sum_list (map snd d))"
proof (induction d)
  case Nil
  then show ?case by (simp add: count_key_def)
next
  case (Cons p d)
  then show ?case by (cases p) (auto simp: count_key_def split: if_splits)
qed

lemma count_key_ok: "dict_ok d \<Longrightarrow> dict_ok (count_key k d)"
  by (simp add: count_key_def)

lemma sum_fold_count:
  "dict_ok d \<Longrightarrow> sum_list (map snd (fold count_key ks d)) = length ks + sum_list (map snd d)"
  by (induction ks arbitrary: d) (auto simp: sum_update count_key_ok)

lemma length_map_filter: "length (List.map_filter f xs) = length (filter (\<lambda>x. f x \<noteq> None) xs)"
  by (induction xs) (auto simp: List.map_filter_simps split: option.splits)


subsection \<open>The workflow as steps\<close>

inductive hara_step :: "hara_wm \<Rightarrow> hara_wm \<Rightarrow> bool" where
  extraction: "extract_functions llm pdf folders tool_input wm = (reply, wm') \<Longrightarrow> hara_step wm wm'"
| hazop: "apply_hazop_analysis llm gw tool_input wm = (reply, wm') \<Longrightarrow> hara_step wm wm'"
| exposure: "assess_exposure_for_all_hazards llm db wm = (reply, wm') \<Longrightarrow> hara_step wm wm'"
| hara_table: "generate_hara_table llm wm = (reply, wm') \<Longrightarrow> hara_step wm wm'"
| goals: "derive_safety_goals llm wm = (reply, wm') \<Longrightarrow> hara_step wm wm'"

text \<open>Every result rests on the results of the steps before it, and the stage on its result.\<close>

definition hara_ok :: "hara_wm \<Rightarrow> bool" where
  "hara_ok wm \<longleftrightarrow>
     (hw_hazop wm \<noteq> None \<longrightarrow> hw_functions wm \<noteq> None) \<and>
     (hw_exposure wm \<noteq> None \<longrightarrow> hw_hazop wm \<noteq> None) \<and>
     (hw_table wm \<noteq> None \<longrightarrow> hw_exposure wm \<noteq> None) \<and>
     (hw_goals wm \<noteq> None \<longrightarrow> hw_table wm \<noteq> None) \<and>
     (case hw_stage wm of
        None \<Rightarrow> hw_functions wm = None
      | Some st \<Rightarrow>
          st = ''functions_extracted'' \<and> hw_functions wm \<noteq> None \<or> st = ''hazop_completed'' \<and> hw_hazop wm \<noteq> None \<or>
          st = ''exposure_assessed'' \<and> hw_exposure wm \<noteq> None \<or> st = ''table_generated'' \<and> hw_table wm \<noteq> None \<or>
          st = ''safety_goals_derived'' \<and> hw_goals wm \<noteq> None)"

lemma or_default_Some: "or_default v [] \<noteq> [] \<Longrightarrow> v \<noteq> None"
  by (cases v) (auto simp: or_default_def)

text \<open>A tool leaves the memory alone, or its prerequisites hold and it writes its own keys.\<close>

lemma extract_functions_effect:
  "snd (extract_functions llm pdf folders ti wm) = wm \<or>
   (\<exists>i f c. snd (extract_functions llm pdf folders ti wm) =
      wm\<lparr>hw_item_name := Some i, hw_functions := Some f, hw_item_def := Some c, hw_stage := Some ''functions_extracted''\<rparr>)"
  unfolding extract_functions_def Let_def
  by (simp split: option.split sum.split) blast

lemma apply_hazop_effect:
  "snd (apply_hazop_analysis llm gw ti wm) = wm \<or>
   hw_functions wm \<noteq> None \<and>
   (\<exists>t n. snd (apply_hazop_analysis llm gw ti wm) =
      wm\<lparr>hw_hazop := Some t, hw_stage := Some ''hazop_completed'', hw_system_name := Some n\<rparr>)"
proof (cases "or_default (hw_functions wm) [] = []")
  case True
  then show ?thesis by (simp add: apply_hazop_analysis_def)
next
  case False
  then have "hw_functions wm \<noteq> None" by (rule or_default_Some)
  then show ?thesis unfolding apply_hazop_analysis_def Let_def by (simp split: if_split del: not_None_eq) blast
qed

lemma assess_exposure_effect:
  "snd (assess_exposure_for_all_hazards llm db wm) = wm \<or>
   hw_hazop wm \<noteq> None \<and>
   (\<exists>t. snd (assess_exposure_for_all_hazards llm db wm) =
      wm\<lparr>hw_exposure := Some t, hw_stage := Some ''exposure_assessed''\<rparr>)"
proof (cases "or_default (hw_hazop wm) [] = []")
  case True
  then show ?thesis by (simp add: assess_exposure_for_all_hazards_def)
next
  case False
  then have "hw_hazop wm \<noteq> None" by (rule or_default_Some)
  then show ?thesis unfolding assess_exposure_for_all_hazards_def Let_def
    by (simp split: if_split option.split sum.split del: not_None_eq) blast
qed

lemma generate_table_effect:
  "snd (generate_hara_table llm wm) = wm \<or>
   hw_exposure wm \<noteq> None \<and>
   (\<exists>t n. snd (generate_hara_table llm wm) =
      wm\<lparr>hw_document_type := Some ''hara'', hw_table := Some t, hw_stage := Some ''table_generated'',
         hw_system_name := Some n\<rparr>)"
proof (cases "or_default (hw_exposure wm) [] = []")
  case True
  then show ?thesis by (simp add: generate_hara_table_def Let_def)
next
  case False
  then have "hw_exposure wm \<noteq> None" by (rule or_default_Some)
  then show ?thesis unfolding generate_hara_table_def Let_def
    by (simp split: if_split sum.split del: not_None_eq) blast
qed

lemma derive_goals_effect:
  "snd (derive_safety_goals llm wm) = wm \<or>
   hw_table wm \<noteq> None \<and>
   (\<exists>t. snd (derive_safety_goals llm wm) = wm\<lparr>hw_goals := Some t, hw_stage := Some ''safety_goals_derived''\<rparr>)"
proof (cases "or_default (hw_table wm) [] = []")
  case True
  then show ?thesis by (simp add: derive_safety_goals_def)
next
  case False
  then have "hw_table wm \<noteq> None" by (rule or_default_Some)
  then show ?thesis unfolding derive_safety_goals_def Let_def
    by (simp split: if_split sum.split del: not_None_eq) blast
qed

lemma hara_ok_empty: "hara_ok empty_wm"
  by (simp add: hara_ok_def empty_wm_def)

lemma hara_ok_updates:
  assumes "hara_ok wm"
  shows "hara_ok (wm\<lparr>hw_item_name := i, hw_functions := Some f, hw_item_def := c, hw_stage := Some ''functions_extracted''\<rparr>)"
    and "hw_functions wm \<noteq> None \<Longrightarrow>
         hara_ok (wm\<lparr>hw_hazop := Some t, hw_stage := Some ''hazop_completed'', hw_system_name := n\<rparr>)"
    and "hw_hazop wm \<noteq> None \<Longrightarrow> hara_ok (wm\<lparr>hw_exposure := Some t, hw_stage := Some ''exposure_assessed''\<rparr>)"
    and "hw_exposure wm \<noteq> None \<Longrightarrow>
         hara_ok (wm\<lparr>hw_document_type := y, hw_table := Some t, hw_stage := Some ''table_generated'', hw_system_name := n\<rparr>)"
    and "hw_table wm \<noteq> None \<Longrightarrow> hara_ok (wm\<lparr>hw_goals := Some t, hw_stage := Some ''safety_goals_derived''\<rparr>)"
  using assms by (simp_all add: hara_ok_def)

lemma hara_step_ok:
  assumes "hara_step wm wm'" and "hara_ok wm"
  shows "hara_ok wm'"
  using assms(1)
proof cases
  case extraction
  with extract_functions_effect hara_ok_updates(1) [OF assms(2)] assms(2) show ?thesis by (metis snd_conv)
next
  case hazop
  with apply_hazop_effect hara_ok_updates(2) [OF assms(2)] assms(2) show ?thesis by (metis snd_conv)
next
  case exposure
  with assess_exposure_effect hara_ok_updates(3) [OF assms(2)] assms(2) show ?thesis by (metis snd_conv)
next
  case hara_table
  with generate_table_effect hara_ok_updates(4) [OF assms(2)] assms(2) show ?thesis by (metis snd_conv)
next
  case goals
  with derive_goals_effect hara_ok_updates(5) [OF assms(2)] assms(2) show ?thesis by (metis snd_conv)
qed

lemma hara_reachable_ok: "hara_step\<^sup>*\<^sup>* empty_wm wm \<Longrightarrow> hara_ok wm"
  by (induction rule: rtranclp_induct) (auto intro: hara_ok_empty hara_step_ok)

subsection \<open>Code fences\<close>

lemma filter_outer:
  assumes "\<forall>x \<in> set (take i xs). \<not> P x" and "\<forall>x \<in> set (drop j xs). \<not> P x"
  shows "filter P (drop i (take j xs)) = filter P xs"
proof -
  have "filter P xs = filter P (take j xs @ drop j xs)" by simp
  also have "\<dots> = filter P (take j xs)" using assms(2) by (simp only: filter_append) (simp add: filter_empty_conv)
  also have "take j xs = take i (take j xs) @ drop i (take j xs)" by (rule append_take_drop_id [symmetric])
  also have "filter P \<dots> = filter P (drop i (take j xs))"
  proof -
    have "set (take i (take j xs)) \<subseteq> set (take i xs)" by (simp add: set_take_subset_set_take min_def)
    then show ?thesis using assms(1) unfolding filter_append by (simp add: filter_empty_conv subset_iff)
  qed
  finally show ?thesis ..
qed

lemma unfence_lines:
  "filter starts_bar (split_on nl (unfence t)) = filter starts_bar (split_on nl t)"
proof (cases "prefix (replicate 3 (CHR 0x60)) t")
  case False
  then show ?thesis by (simp add: unfence_def)
next
  case True
  define ls where "ls = split_on nl t"
  define i where "i = length (takeWhile (\<lambda>l. \<not> starts_bar l) ls)"
  define b where "b = length (takeWhile (\<lambda>l. \<not> starts_bar l) (rev ls))"
  define i' where "i' = (if i < length ls then i else 0)"
  define j' where "j' = (if b < length ls then length ls - 1 - b else length ls)"
  have u: "unfence t = join_with [nl] (drop i' (take (j' + 1) ls))"
    using True by (simp add: unfence_def Let_def ls_def i_def b_def i'_def j'_def)
  have pre: "\<forall>x \<in> set (take i' ls). \<not> starts_bar x"
  proof -
    have "take i ls = takeWhile (\<lambda>l. \<not> starts_bar l) ls" unfolding i_def by (rule takeWhile_eq_take [symmetric])
    then show ?thesis by (auto simp: i'_def dest: set_takeWhileD)
  qed
  have post: "\<forall>x \<in> set (drop (j' + 1) ls). \<not> starts_bar x"
  proof (cases "b < length ls")
    case True
    have "drop (length ls - b) ls = rev (take b (rev ls))" by (simp add: take_rev)
    then have "drop (j' + 1) ls = rev (takeWhile (\<lambda>l. \<not> starts_bar l) (rev ls))"
      using True by (simp add: j'_def b_def takeWhile_eq_take [symmetric] Suc_diff_Suc)
    then show ?thesis by (auto dest: set_takeWhileD)
  qed (simp add: j'_def)
  have "ls \<noteq> []" by (simp add: ls_def)
  have "drop i' (take (j' + 1) ls) \<noteq> []"
  proof (cases "\<exists>x \<in> set ls. starts_bar x")
    case True
    then have "filter starts_bar (drop i' (take (j' + 1) ls)) \<noteq> []"
      unfolding filter_outer [OF pre post] by (auto simp: filter_empty_conv)
    then show ?thesis by auto
  next
    case False
    then have "i = length ls" by (simp add: i_def takeWhile_eq_all_conv [THEN iffD2])
    with \<open>ls \<noteq> []\<close> show ?thesis by (simp add: i'_def)
  qed
  moreover have "\<forall>w \<in> set (drop i' (take (j' + 1) ls)). nl \<notin> set w"
    using split_on_parts by (metis in_set_dropD in_set_takeD ls_def)
  ultimately have "split_on nl (unfence t) = drop i' (take (j' + 1) ls)" unfolding u by (rule split_join)
  then show ?thesis using filter_outer [OF pre post] by (simp add: ls_def)
qed

lemma hazard_line_bar: "is_hazard_line l \<Longrightarrow> starts_bar l"
  by (auto simp: is_hazard_line_def starts_bar_def prefix_def)

lemma hazard_lines_filter: "hazard_lines t = filter is_hazard_line (filter starts_bar (split_on nl t))"
  by (auto simp: hazard_lines_def hazard_line_bar intro!: filter_cong)


section \<open>Properties\<close>

text \<open>
  C10. The stage the workflow reports is never ahead of its results: in every working memory
  the five tools can reach from an empty one, safety goals exist only with a HARA table, that
  only with an exposure assessment, that only with a HAZOP table, that only with extracted
  functions.  The stage is absent or one of the five names the tools write; without a stage no
  result of any step exists; and each of the five stages has the result of its own step, which
  a working memory at \<open>functions_extracted\<close> has in its functions.  The closing line of the
  explanation is defined for all of them.
\<close>

theorem hara_stage_sound:
  assumes "hara_step\<^sup>*\<^sup>* empty_wm wm"
  shows "(hw_goals wm \<noteq> None \<longrightarrow> hw_table wm \<noteq> None) \<and> (hw_table wm \<noteq> None \<longrightarrow> hw_exposure wm \<noteq> None) \<and>
         (hw_exposure wm \<noteq> None \<longrightarrow> hw_hazop wm \<noteq> None) \<and> (hw_hazop wm \<noteq> None \<longrightarrow> hw_functions wm \<noteq> None) \<and>
         (hw_stage wm = None \<longrightarrow>
            hw_functions wm = None \<and> hw_hazop wm = None \<and> hw_exposure wm = None \<and> hw_table wm = None \<and>
            hw_goals wm = None) \<and>
         (hw_stage wm = Some ''functions_extracted'' \<longrightarrow> hw_functions wm \<noteq> None) \<and>
         (hw_stage wm = Some ''hazop_completed'' \<longrightarrow> hw_hazop wm \<noteq> None) \<and>
         (hw_stage wm = Some ''exposure_assessed'' \<longrightarrow> hw_exposure wm \<noteq> None) \<and>
         (hw_stage wm = Some ''table_generated'' \<longrightarrow> hw_table wm \<noteq> None) \<and>
         (hw_stage wm = Some ''safety_goals_derived'' \<longrightarrow> hw_goals wm \<noteq> None) \<and>
         hw_stage wm \<in> set (None # map Some [''functions_extracted'', ''hazop_completed'', ''exposure_assessed'',
           ''table_generated'', ''safety_goals_derived'']) \<and>
         (\<exists>step. next_step (or_default (hw_stage wm) ''not_started'') = Some step)"
proof -
  have ok: "hara_ok wm" by (rule hara_reachable_ok [OF assms])
  have stages: "hw_stage wm \<in> set (None # map Some [''functions_extracted'', ''hazop_completed'',
      ''exposure_assessed'', ''table_generated'', ''safety_goals_derived''])"
    using ok by (cases "hw_stage wm") (auto simp: hara_ok_def)
  then have "\<exists>step. next_step (or_default (hw_stage wm) ''not_started'') = Some step"
    by (auto simp: next_step_def or_default_def)
  moreover have "(hw_stage wm = Some ''functions_extracted'' \<longrightarrow> hw_functions wm \<noteq> None) \<and>
      (hw_stage wm = Some ''hazop_completed'' \<longrightarrow> hw_hazop wm \<noteq> None) \<and>
      (hw_stage wm = Some ''exposure_assessed'' \<longrightarrow> hw_exposure wm \<noteq> None) \<and>
      (hw_stage wm = Some ''table_generated'' \<longrightarrow> hw_table wm \<noteq> None) \<and>
      (hw_stage wm = Some ''safety_goals_derived'' \<longrightarrow> hw_goals wm \<noteq> None)"
    using ok by (cases "hw_stage wm") (auto simp: hara_ok_def)
  moreover have "hw_stage wm = None \<longrightarrow> hw_functions wm = None \<and> hw_hazop wm = None \<and> hw_exposure wm = None \<and>
      hw_table wm = None \<and> hw_goals wm = None"
    using ok by (auto simp: hara_ok_def)
  ultimately show ?thesis using ok stages unfolding hara_ok_def by blast
qed

definition example_llm :: llm where
  "example_llm p =
     (case p of
        FunctionPrompt _ _ \<Rightarrow> Inr (''1. Brake: stops'' @ [nl] @ ''2. Hold: parks'')
      | HazopPrompt _ _ f \<Rightarrow> Inr (''|'' @ f @ ''|NO|no brake|crash|S3|bad|'')
      | _ \<Rightarrow> Inl (Exception ''off''))"

definition example_wm1 :: hara_wm where
  "example_wm1 =
     snd (extract_functions example_llm False [Some [(''brake.txt'', Some ''Brake item'')]] (PStr ''Brake'') empty_wm)"

definition example_wm2 :: hara_wm where
  "example_wm2 = snd (apply_hazop_analysis example_llm [(''NO'', ''none'', ''absent'')] PNone example_wm1)"

lemma example_wm_reachable: "hara_step\<^sup>*\<^sup>* empty_wm example_wm1" "hara_step\<^sup>*\<^sup>* empty_wm example_wm2"
proof -
  show 1: "hara_step\<^sup>*\<^sup>* empty_wm example_wm1"
    unfolding example_wm1_def by (intro r_into_rtranclp hara_step.extraction) (rule surjective_pairing)
  have "hara_step example_wm1 example_wm2"
    unfolding example_wm2_def by (rule hara_step.hazop) (rule surjective_pairing)
  with 1 show "hara_step\<^sup>*\<^sup>* empty_wm example_wm2" by simp
qed

theorem hara_stage_sound_witness:
  "hw_stage example_wm2 = Some ''hazop_completed'' \<and> hw_hazop example_wm2 \<noteq> None \<and> hw_functions example_wm2 \<noteq> None"
proof -
  have "hw_stage example_wm2 = Some ''hazop_completed''" by code_simp
  with hara_stage_sound [OF example_wm_reachable(2)] show ?thesis by simp
qed

text \<open>
  C28. The HAZOP table is read back as it was written.  The rows are the table lines of the
  model's answers, function after function: the lines that start with a bar and are neither a
  separator nor a header, none for a function whose call failed.  The table stored is two
  header lines and then exactly the lines the later steps recognise as hazards, whose number
  is the count reported.  Splitting a hazard line at its bars gives back its identifier and the
  first six cells of its row: the hazards are, in order, the rows that have at least six cells,
  each with its own cells and with its position among all rows (from 1) as its number, so that
  no two hazards have the same identifier.
\<close>

theorem hazop_rows_recovered:
  assumes "apply_hazop_analysis llm gw tool_input wm = (HazopDone item table hazards funcs, wm')"
  shows "\<exists>todo rows.
           todo = (case focus_of tool_input of Some f \<Rightarrow> [f]
                   | None \<Rightarrow> parse_functions_from_text (or_default (hw_functions wm) '''')) \<and>
           rows = concat (map (\<lambda>f. case llm (HazopPrompt item (guide_words_summary gw) f) of
               Inl e \<Rightarrow> []
             | Inr answer \<Rightarrow> [l \<leftarrow> split_on nl (strip answer). prefix ''|'' l \<and> \<not> contains ''---'' l \<and>
                 \<not> contains ''Function'' l \<and> \<not> contains ''Guideword'' l]) todo) \<and>
           item = or_default (hw_item_name wm) ''the system'' \<and> funcs = length todo \<and>
           hw_hazop wm' = Some table \<and>
           split_on nl table = [hazop_header, hazop_separator] @ hazard_lines table \<and>
           length (hazard_lines table) = hazards \<and>
           map (split_on (CHR ''|'')) (hazard_lines table) =
             [['''', '' HAZ-'' @ pad_int 3 (int i) @ '' ''] @ map (\<lambda>c. '' '' @ c @ '' '') (take 6 (cells_of row)) @ [''''].
              (i, row) \<leftarrow> enumerate 1 rows, 6 \<le> length (cells_of row)] \<and>
           distinct (map (\<lambda>r. takeWhile (\<lambda>c. c \<noteq> CHR '' '') (drop 2 r)) (hazard_lines table))"
proof -
  define todo where "todo = (case focus_of tool_input of Some f \<Rightarrow> [f]
    | None \<Rightarrow> parse_functions_from_text (or_default (hw_functions wm) []))"
  define rows where "rows = concat (map (hazop_rows llm (or_default (hw_item_name wm) ''the system'') gw) todo)"
  have t: "table = join_with [nl] ([hazop_header, hazop_separator] @ number_rows rows)"
    and n: "hazards = length (number_rows rows)" and w: "hw_hazop wm' = Some table"
    and i: "item = or_default (hw_item_name wm) ''the system''" and f: "funcs = length todo"
    using assms unfolding apply_hazop_analysis_def Let_def todo_def [symmetric] rows_def [symmetric]
    by (auto simp del: join_with.simps split: if_splits)
  have nn: "\<forall>row \<in> set rows. nl \<notin> set row" using hazop_rows_no_nl by (auto simp: rows_def)
  have h: "hazard_lines table = number_rows rows" unfolding t by (rule hazard_lines_table [OF nn])
  have r: "rows = concat (map (\<lambda>f. case llm (HazopPrompt item (guide_words_summary gw) f) of
      Inl e \<Rightarrow> []
    | Inr answer \<Rightarrow> [l \<leftarrow> split_on nl (strip answer). prefix ''|'' l \<and> \<not> contains ''---'' l \<and>
        \<not> contains ''Function'' l \<and> \<not> contains ''Guideword'' l]) todo)"
    unfolding rows_def i hazop_rows_def by (rule refl)
  show ?thesis
  proof (intro exI conjI)
    show "todo = (case focus_of tool_input of Some f \<Rightarrow> [f]
        | None \<Rightarrow> parse_functions_from_text (or_default (hw_functions wm) ''''))" by (simp only: todo_def)
    show "split_on nl table = [hazop_header, hazop_separator] @ hazard_lines table"
      unfolding h unfolding t by (rule table_lines [OF nn])
    show "length (hazard_lines table) = hazards" by (simp only: h n)
    show "map (split_on (CHR ''|'')) (hazard_lines table) =
        [['''', '' HAZ-'' @ pad_int 3 (int i) @ '' ''] @ map (\<lambda>c. '' '' @ c @ '' '') (take 6 (cells_of row)) @ [''''].
         (i, row) \<leftarrow> enumerate 1 rows, 6 \<le> length (cells_of row)]"
      unfolding h number_rows_def by (rule number_rows_cells)
    show "distinct (map (\<lambda>r. takeWhile (\<lambda>c. c \<noteq> CHR '' '') (drop 2 r)) (hazard_lines table))"
      unfolding h by (rule number_rows_ids [OF nn])
  qed (rule r i f w)+
qed

theorem hazop_rows_recovered_witness:
  "\<exists>table. hw_hazop example_wm2 = Some table \<and> length (hazard_lines table) = 2"
proof -
  have "case fst (apply_hazop_analysis example_llm [(''NO'', ''none'', ''absent'')] PNone example_wm1) of
      HazopDone i t h f \<Rightarrow> h = 2 | _ \<Rightarrow> False" by code_simp
  then obtain i t f where
    "apply_hazop_analysis example_llm [(''NO'', ''none'', ''absent'')] PNone example_wm1 = (HazopDone i t 2 f, example_wm2)"
    by (auto simp: example_wm2_def prod_eq_iff split: hara_reply.splits)
  from hazop_rows_recovered [OF this] show ?thesis by blast
qed

text \<open>
  The ASIL distribution counts each hazard row once: the counts add up to the number of
  rows that have an ASIL or QM cell, hence to at most the number of hazards.
\<close>

theorem asil_distribution_total:
  "sum_list (map snd (extract_asil_distribution table)) =
     length (filter (\<lambda>row. search asil_cell row \<noteq> None) (hazard_lines table)) \<and>
   sum_list (map snd (extract_asil_distribution table)) \<le> length (hazard_lines table)"
proof -
  have "sum_list (map snd (extract_asil_distribution table)) =
      length (filter (\<lambda>row. search asil_cell row \<noteq> None) (hazard_lines table))"
    using sum_fold_count [of "[]"] by (simp add: extract_asil_distribution_def length_map_filter)
  then show ?thesis by simp
qed

text \<open>
  Removing a code fence from the exposure table loses no line of the table: the hazard
  lines of the result are those of the model's answer, fenced or not.
\<close>

theorem unfence_keeps_hazards: "hazard_lines (unfence t) = hazard_lines t"
  by (simp add: hazard_lines_filter unfence_lines)

text \<open>
  Starting the analysis of a second item does not invalidate the first one's results: after
  functions are extracted for another item, the HARA table is still generated from the HAZOP and
  exposure tables of the previous item.
\<close>

theorem stale_analysis_used:
  assumes "hw_hazop wm = Some hazop" and "hazop \<noteq> []" and "hw_exposure wm = Some expo" and "expo \<noteq> []"
    and "extract_functions llm pdf folders (PStr item) wm = (FunctionsExtracted name fl, wm')"
    and "llm (TablePrompt name (take 5000 hazop) (take 5000 expo)) = Inr reply"
  shows "\<exists>n counts. fst (generate_hara_table llm wm') = TableDone name n (strip reply) counts"
proof -
  have "hw_hazop wm' = Some hazop" "hw_exposure wm' = Some expo" "hw_item_name wm' = Some name"
    using assms(1,3,5)
    by (auto simp: extract_functions_def Let_def split: option.splits if_splits sum.splits)
  with assms(2,4,6) show ?thesis by (simp add: generate_hara_table_def or_default_def Let_def)
qed

theorem stale_analysis_used_witness:
  "\<exists>n counts. fst (generate_hara_table (\<lambda>p. Inr ''x'')
     (snd (extract_functions (\<lambda>p. Inr ''x'') False [] (PStr ''Steering'')
        (empty_wm\<lparr>hw_item_name := Some ''Brake'', hw_item_def := Some ''doc'', hw_hazop := Some ''brake hazards'',
                  hw_exposure := Some ''brake exposure''\<rparr>)))) = TableDone ''Steering'' n (strip ''x'') counts"
proof (rule stale_analysis_used [where item = "''Steering''" and hazop = "''brake hazards''" and expo = "''brake exposure''"])
  show "extract_functions (\<lambda>p. Inr ''x'') False [] (PStr ''Steering'')
      (empty_wm\<lparr>hw_item_name := Some ''Brake'', hw_item_def := Some ''doc'', hw_hazop := Some ''brake hazards'',
                hw_exposure := Some ''brake exposure''\<rparr>) =
    (FunctionsExtracted ''Steering'' (strip ''x''), snd (extract_functions (\<lambda>p. Inr ''x'') False [] (PStr ''Steering'')
      (empty_wm\<lparr>hw_item_name := Some ''Brake'', hw_item_def := Some ''doc'', hw_hazop := Some ''brake hazards'',
                hw_exposure := Some ''brake exposure''\<rparr>)))"
    by (simp add: extract_functions_def find_item_definition_def input_item_name_def empty_wm_def Let_def
        strip_def strip_of_def is_space_def)
qed simp_all

text \<open>
  A text file in the item definition folder is taken for any item: when nothing is in the
  working memory, the first readable text or markdown file is returned whether or not it
  mentions the item.
\<close>

theorem item_definition_not_matched:
  assumes "hw_item_def wm = None" and "ends_with ''.txt'' (lower filename)"
  shows "find_item_definition pdf (Some ((filename, Some content) # files) # folders) item wm = Some content"
  using assms by (simp add: find_item_definition_eq scan_folders_def scan_file_def)

theorem item_definition_not_matched_witness:
  "find_item_definition False [Some [(''README.txt'', Some ''How to use this folder'')]] ''Brake'' empty_wm =
     Some ''How to use this folder''"
proof -
  have "ends_with ''.txt'' (lower ''README.txt'')" by code_simp
  then show ?thesis using item_definition_not_matched [of empty_wm "''README.txt''"] by (simp add: empty_wm_def)
qed

end
