(* ===== verification/Rabbit_Hole.thy ===== *)
theory Rabbit_Hole
  imports Floating Agents Complex_Main
begin

text \<open>
  Ingestion of documents (\<open>rabbit_hole.py\<close>) and its endpoints (\<open>routes/upload.py\<close>).

  The fields of \<open>burrow\<close> are what ingestion uses of other packages and of the machine: parsers and splitters of the
  library, the embedder for documents, the table of mime types, web requests, files, the JSON parser and the readings of the
  clock (in seconds), in the order in which a task takes them.  Bytes are strings.
\<close>


section \<open>Files, splitters, requests\<close>

record upload_file =
  uf_filename :: string
  uf_content_type :: "string option"
  uf_bytes :: string

text \<open>What \<open>ingest_file\<close> can be given; an object of another type is refused.\<close>

datatype source_file = Uploaded upload_file | Named string | OtherObject

text \<open>An answer to a HEAD request; \<open>NoAnswer\<close> is the error the code catches.\<close>

datatype head_answer = Status int | NoAnswer | HeadRaises py_exc

text \<open>An exported memory: a key that is missing in the file is None.\<close>

record 'e memory_entry =
  me_id :: "string option"
  me_content :: "string option"
  me_metadata :: "metadata option"
  me_vector :: "'e option"

record 'e memory_file =
  mf_embedder :: "string option"
  mf_collections :: "(string, 'e memory_entry list) dict option"

record ('e, 's, 'q) burrow =
  bu_env :: "('e, 's, 'q) env"
  bu_parse :: "(string, string) dict \<Rightarrow> string option \<Rightarrow> string \<Rightarrow> string \<Rightarrow> (string \<times> metadata) list result"
  bu_split :: "splitter \<Rightarrow> (string \<times> metadata) list \<Rightarrow> (string \<times> metadata) list result"
  bu_embed_documents :: "string \<Rightarrow> 'e result"
  bu_embedder_name :: string
  bu_embedder_size :: nat
  bu_vector_length :: "'e \<Rightarrow> nat"
  bu_mime :: "string \<Rightarrow> string option"
  bu_get :: "string \<Rightarrow> (string option \<times> string) result"
  bu_head :: "string \<Rightarrow> head_answer"
  bu_read :: "string \<Rightarrow> string result"
  bu_loads :: "string \<Rightarrow> pyval result"
  bu_load_memories :: "string \<Rightarrow> 'e memory_file result"
  bu_clock :: "nat \<Rightarrow> int"

text \<open>\<open>all([parsed.scheme, parsed.netloc])\<close>.\<close>

definition is_url :: "string \<Rightarrow> bool result" where
  "is_url s = map_sum id (\<lambda>(scheme, netloc, path). scheme \<noteq> [] \<and> netloc \<noteq> []) (urlparse s)"


section \<open>Parsers and splitters\<close>

definition hook_with ::
  "('e, 's, 'q) env \<Rightarrow> string \<Rightarrow> ('e, 's) tea list \<Rightarrow> (unit, ('e, 's, 'q) cat) act" where
  "hook_with E name args = (\<lambda>c. case execute_hook name args c (e_mad_hatter E) of (r, c) \<Rightarrow> (map_sum id (\<lambda>_. ()) r, c))"

definition default_file_handlers :: "(string, string) dict" where
  "default_file_handlers =
     [(''application/pdf'', ''PDFMinerParser''), (''text/plain'', ''TextParser''), (''text/markdown'', ''TextParser''),
      (''text/html'', ''BS4HTMLParser'')]"

definition file_handlers :: "('e, 's, 'q) burrow \<Rightarrow> (('e, 's) tea, ('e, 's, 'q) cat) act" where
  "file_handlers B = hook (bu_env B) ''rabbithole_instantiates_parsers'' (TParsers default_file_handlers)"

definition default_splitter :: splitter where
  "default_splitter = \<lparr>sp_class = ''RecursiveCharacterTextSplitter'', sp_chunk_size = 256, sp_chunk_overlap = 64\<rparr>"

definition text_splitter :: "('e, 's, 'q) burrow \<Rightarrow> (('e, 's) tea, ('e, 's, 'q) cat) act" where
  "text_splitter B = hook (bu_env B) ''rabbithole_instantiates_splitter'' (TSplitter default_splitter)"

text \<open>An option that is not given or 0 leaves the splitter as it is.\<close>

definition override_splitter :: "int option \<Rightarrow> int option \<Rightarrow> splitter \<Rightarrow> splitter" where
  "override_splitter chunk_size chunk_overlap S =
     (let S = (case chunk_size of Some n \<Rightarrow> if n \<noteq> 0 then S\<lparr>sp_chunk_size := n\<rparr> else S | None \<Rightarrow> S)
      in case chunk_overlap of Some n \<Rightarrow> if n \<noteq> 0 then S\<lparr>sp_chunk_overlap := n\<rparr> else S | None \<Rightarrow> S)"

definition docs_of :: "('e, 's) tea \<Rightarrow> (string \<times> metadata) list result" where
  "docs_of v = (case v of TDocs ds \<Rightarrow> Inr ds | _ \<Rightarrow> Inl TypeError)"

definition split_text ::
  "('e, 's, 'q) burrow \<Rightarrow> (string \<times> metadata) list \<Rightarrow> int option \<Rightarrow> int option \<Rightarrow> (('e, 's) tea, ('e, 's, 'q) cat) act" where
  "split_text B super_docs chunk_size chunk_overlap =
     bnd (hook (bu_env B) ''before_rabbithole_splits_text'' (TDocs super_docs)) (\<lambda>text.
     bnd (text_splitter B) (\<lambda>v.
       case v of
         TSplitter S \<Rightarrow>
           bnd (lift_result (docs_of text)) (\<lambda>text.
           bnd (lift_result (bu_split B (override_splitter chunk_size chunk_overlap S) text)) (\<lambda>docs.
           hook (bu_env B) ''after_rabbithole_splitted_text'' (TDocs (filter (\<lambda>d. length (fst d) > 10) docs))))
       | _ \<Rightarrow> raise (AttributeError ''split_documents'')))"

definition string_to_docs ::
  "('e, 's, 'q) burrow \<Rightarrow> string \<Rightarrow> string \<Rightarrow> string option \<Rightarrow> int option \<Rightarrow> int option \<Rightarrow> (('e, 's) tea, ('e, 's, 'q) cat) act" where
  "string_to_docs B file_bytes source content_type chunk_size chunk_overlap =
     bnd (file_handlers B) (\<lambda>handlers.
     bnd (send_notification (bu_env B) ''I'm parsing the content. Big content could require some minutes...'') (\<lambda>_.
       case handlers of
         TParsers h \<Rightarrow>
           bnd (lift_result (bu_parse B h content_type source file_bytes)) (\<lambda>super_docs.
           bnd (send_notification (bu_env B) ''Parsing completed. Now let's go with reading process...'') (\<lambda>_.
           split_text B super_docs chunk_size chunk_overlap))
       | _ \<Rightarrow> raise TypeError))"

definition file_to_docs ::
  "('e, 's, 'q) burrow \<Rightarrow> source_file \<Rightarrow> int option \<Rightarrow> int option \<Rightarrow> (('e, 's) tea, ('e, 's, 'q) cat) act" where
  "file_to_docs B file chunk_size chunk_overlap =
     (case file of
        Uploaded f \<Rightarrow> string_to_docs B (uf_bytes f) (uf_filename f) (bu_mime B (uf_filename f)) chunk_size chunk_overlap
      | Named s \<Rightarrow>
          bnd (lift_result (is_url s)) (\<lambda>url.
            if url
            then bnd (lift_result (bu_get B s)) (\<lambda>(content_type, file_bytes).
                   case content_type of
                     None \<Rightarrow> raise (KeyError ''Content-Type'')
                   | Some t \<Rightarrow> string_to_docs B file_bytes s (Some (hd (split_on CHR '';'' t))) chunk_size chunk_overlap)
            else bnd (lift_result (bu_read B s)) (\<lambda>file_bytes.
                   string_to_docs B file_bytes (basename s) (bu_mime B s) chunk_size chunk_overlap))
      | OtherObject \<Rightarrow> raise (ValueError ''is not a valid type.''))"

section \<open>Storing documents\<close>

text \<open>
  \<open>int(d / n * 100)\<close> in double precision, for \<open>d < n\<close>: quotient and product are rounded to 53 binary digits, ties to even.
\<close>

definition perc_read :: "nat \<Rightarrow> nat \<Rightarrow> nat" where
  "perc_read d n =
     (let k = binary_scale d n;
          m = round_div (d * 2 ^ k) n;
          j = (if 100 * m < 2 ^ 59 then 6 else 7 :: nat)
      in round_div (100 * m) (2 ^ j) * 2 ^ j div 2 ^ k)"

text \<open>Default metadata, then those of the request in their order; only a dictionary has \<open>items\<close>.\<close>

definition doc_metadata :: "string \<Rightarrow> int \<Rightarrow> pyval \<Rightarrow> metadata \<Rightarrow> metadata result" where
  "doc_metadata source now custom md =
     (case custom of
        PDict d \<Rightarrow> Inr (dict_merge (dict_set ''when'' (PInt now) (dict_set ''source'' (PStr source) md)) d)
      | _ \<Rightarrow> Inl (AttributeError ''items''))"

definition add_declarative ::
  "('e, 's, 'q) burrow \<Rightarrow> string \<Rightarrow> 'e \<Rightarrow> metadata \<Rightarrow> ('e point option, ('e, 's, 'q) cat) act" where
  "add_declarative B content v md = (\<lambda>c.
     case add_point (e_qdrant (bu_env B)) ''declarative'' content v md None (e_uuid (bu_env B) (c_points_made c)) (c_db c) of
       (p, db) \<Rightarrow> (Inr p, c\<lparr>c_db := db, c_points_made := Suc (c_points_made c)\<rparr>))"

definition insert_doc ::
  "('e, 's, 'q) burrow \<Rightarrow> ('e, 's) tea \<Rightarrow> 'e point option list \<Rightarrow> ('e point option list, ('e, 's, 'q) cat) act" where
  "insert_doc B doc stored_points =
     (case doc of
        TDoc (page_content, md) \<Rightarrow>
          if page_content \<noteq> []
          then bnd (lift_result (bu_embed_documents B page_content)) (\<lambda>v.
               bnd (add_declarative B page_content v md) (\<lambda>p. ret (stored_points @ [p])))
          else ret stored_points
      | _ \<Rightarrow> raise (AttributeError ''page_content''))"

text \<open>
  The notification when more than ten seconds went by since the last: yields when the last one was and how many readings
  of the clock were taken.
\<close>

definition notify_progress ::
  "('e, 's, 'q) burrow \<Rightarrow> string \<Rightarrow> nat \<Rightarrow> nat \<Rightarrow> int \<Rightarrow> nat \<Rightarrow> (int \<times> nat, ('e, 's, 'q) cat) act" where
  "notify_progress B source d len_docs last_notification n =
     (if bu_clock B n - last_notification > 10
      then bnd (send_notification (bu_env B) (''Read '' @ show_nat (perc_read d len_docs) @ ''% of '' @ source)) (\<lambda>_.
           ret (bu_clock B (Suc n), Suc (Suc n)))
      else ret (last_notification, Suc n))"

fun store_loop ::
  "('e, 's, 'q) burrow \<Rightarrow> string \<Rightarrow> pyval \<Rightarrow> nat \<Rightarrow> (string \<times> metadata) list \<Rightarrow> nat \<Rightarrow> int \<Rightarrow> nat \<Rightarrow> 'e point option list \<Rightarrow>
   ('e point option list, ('e, 's, 'q) cat) act" where
  "store_loop B source custom len_docs [] d last_notification n stored_points = ret stored_points"
| "store_loop B source custom len_docs (doc # docs) d last_notification n stored_points =
     bnd (notify_progress B source d len_docs last_notification n) (\<lambda>(last_notification, n).
     bnd (lift_result (doc_metadata source (bu_clock B n) custom (snd doc))) (\<lambda>md.
     bnd (hook (bu_env B) ''before_rabbithole_insert_memory'' (TDoc (fst doc, md))) (\<lambda>doc.
     bnd (insert_doc B doc stored_points) (\<lambda>stored_points.
     store_loop B source custom len_docs docs (Suc d) last_notification (Suc n) stored_points))))"

definition has_len :: "('e, 's) tea \<Rightarrow> bool" where
  "has_len v =
     (case v of TText _ \<Rightarrow> True | TDict _ \<Rightarrow> True | TInput _ \<Rightarrow> True | TNames _ \<Rightarrow> True | TParsers _ \<Rightarrow> True | TDocs _ \<Rightarrow> True
      | TPoints _ \<Rightarrow> True | _ \<Rightarrow> False)"

text \<open>
  The length of what was split is logged, and what the hook returns is iterated; the number of documents in the last
  message counts the empty ones, which are not stored.
\<close>

definition store_documents ::
  "('e, 's, 'q) burrow \<Rightarrow> ('e, 's) tea \<Rightarrow> string \<Rightarrow> pyval \<Rightarrow> (unit, ('e, 's, 'q) cat) act" where
  "store_documents B docs source custom =
     bnd (if has_len docs then ret () else raise TypeError) (\<lambda>_.
     bnd (hook (bu_env B) ''before_rabbithole_stores_documents'' docs) (\<lambda>v.
     bnd (lift_result (docs_of v)) (\<lambda>docs.
     bnd (store_loop B source custom (length docs) docs 0 (bu_clock B 0) 1 []) (\<lambda>stored_points.
     bnd (hook_with (bu_env B) ''after_rabbithole_stored_documents'' [TText source, TPoints stored_points]) (\<lambda>_.
     send_notification (bu_env B)
       (''Finished reading '' @ source @ '', I made '' @ show_nat (length docs) @ '' thoughts on it.''))))))"

definition ingest_file ::
  "('e, 's, 'q) burrow \<Rightarrow> source_file \<Rightarrow> int option \<Rightarrow> int option \<Rightarrow> pyval \<Rightarrow> (unit, ('e, 's, 'q) cat) act" where
  "ingest_file B file chunk_size chunk_overlap metadata =
     bnd (file_to_docs B file chunk_size chunk_overlap) (\<lambda>docs.
       case file of
         Uploaded f \<Rightarrow> store_documents B docs (uf_filename f) metadata
       | Named s \<Rightarrow> store_documents B docs s metadata
       | OtherObject \<Rightarrow> raise (AttributeError ''filename''))"

text \<open>\<open>memories[k]\<close> for the keys of an exported memory, in the order in which they are read.\<close>

definition field :: "string \<Rightarrow> 'a option \<Rightarrow> 'a result" where
  "field k v = (case v of None \<Rightarrow> Inl (KeyError k) | Some x \<Rightarrow> Inr x)"

fun all_fields :: "string \<Rightarrow> ('m \<Rightarrow> 'a option) \<Rightarrow> 'm list \<Rightarrow> 'a list result" where
  "all_fields k f [] = Inr []"
| "all_fields k f (m # ms) =
     (case field k (f m) of
        Inl e \<Rightarrow> Inl e
      | Inr x \<Rightarrow> (case all_fields k f ms of Inl e \<Rightarrow> Inl e | Inr xs \<Rightarrow> Inr (x # xs)))"

definition payload_of :: "'e memory_entry \<Rightarrow> (string \<times> metadata) result" where
  "payload_of m =
     (case field ''page_content'' (me_content m) of
        Inl e \<Rightarrow> Inl e
      | Inr t \<Rightarrow> (case field ''metadata'' (me_metadata m) of Inl e \<Rightarrow> Inl e | Inr md \<Rightarrow> Inr (t, md)))"

fun all_payloads :: "'e memory_entry list \<Rightarrow> (string \<times> metadata) list result" where
  "all_payloads [] = Inr []"
| "all_payloads (m # ms) =
     (case payload_of m of
        Inl e \<Rightarrow> Inl e
      | Inr x \<Rightarrow> (case all_payloads ms of Inl e \<Rightarrow> Inl e | Inr xs \<Rightarrow> Inr (x # xs)))"

definition batch :: "string list \<Rightarrow> (string \<times> metadata) list \<Rightarrow> 'e list \<Rightarrow> 'e point list" where
  "batch ids payloads vectors =
     map (\<lambda>(i, (t, md), v). \<lparr>pt_id = i, pt_content = t, pt_metadata = md, pt_vector = v\<rparr>) (zip ids (zip payloads vectors))"

definition ingest_memory :: "('e, 's, 'q) burrow \<Rightarrow> string \<Rightarrow> (unit, ('e, 's, 'q) cat) act" where
  "ingest_memory B file_bytes =
     bnd (lift_result (bu_load_memories B file_bytes)) (\<lambda>memories.
     bnd (lift_result (field ''embedder'' (mf_embedder memories))) (\<lambda>upload_embedder.
       if upload_embedder \<noteq> bu_embedder_name B
       then raise (Exception (''Embedder mismatch: file embedder '' @ upload_embedder @ '' is different from '' @ bu_embedder_name B))
       else
         bnd (lift_result (field ''collections'' (mf_collections memories))) (\<lambda>collections.
         bnd (lift_result (field ''declarative'' (dict_get collections ''declarative''))) (\<lambda>ms.
         bnd (lift_result (all_fields ''id'' me_id ms)) (\<lambda>ids.
         bnd (lift_result (all_payloads ms)) (\<lambda>payloads.
         bnd (lift_result (all_fields ''vector'' me_vector ms)) (\<lambda>vectors.
           if \<not> list_ex (\<lambda>v. bu_vector_length B v = bu_embedder_size B) vectors
           then raise (Exception (''Embedding size mismatch: vectors length should be '' @ show_nat (bu_embedder_size B)))
           else modify (\<lambda>c. c\<lparr>c_db := snd (q_upsert (e_qdrant (bu_env B)) ''declarative'' (batch ids payloads vectors) (c_db c))\<rparr>))))))))"

section \<open>Endpoints (routes/upload.py)\<close>

text \<open>
  An endpoint answers and leaves tasks that run after the answer, one after the other; when the endpoint raises, there is an error
  answer and no task is run.  A task that raises ends the others.  The session is that of an admitted caller.
\<close>

datatype task =
    IngestFile source_file "int option" "int option" pyval
  | IngestMemory string

text \<open>The \<open>k\<close>-th task reads the clock \<open>clocks k\<close>.\<close>

definition run_task :: "('e, 's, 'q) burrow \<Rightarrow> task \<Rightarrow> (unit, ('e, 's, 'q) cat) act" where
  "run_task B t =
     (case t of
        IngestFile file chunk_size chunk_overlap metadata \<Rightarrow> ingest_file B file chunk_size chunk_overlap metadata
      | IngestMemory bytes \<Rightarrow> ingest_memory B bytes)"

fun run_tasks :: "('e, 's, 'q) burrow \<Rightarrow> (nat \<Rightarrow> nat \<Rightarrow> int) \<Rightarrow> task list \<Rightarrow> nat \<Rightarrow> (unit, ('e, 's, 'q) cat) act" where
  "run_tasks B clocks [] k = ret ()"
| "run_tasks B clocks (t # ts) k = bnd (run_task (B\<lparr>bu_clock := clocks k\<rparr>) t) (\<lambda>_. run_tasks B clocks ts (Suc k))"

text \<open>\<open>file_handlers.keys()\<close>\<close>

definition admitted_types :: "('e, 's, 'q) burrow \<Rightarrow> (string list, ('e, 's, 'q) cat) act" where
  "admitted_types B =
     bnd (file_handlers B) (\<lambda>h. case h of TParsers d \<Rightarrow> ret (dict_keys d) | _ \<Rightarrow> raise (AttributeError ''keys''))"

definition is_admitted :: "string list \<Rightarrow> string option \<Rightarrow> bool" where
  "is_admitted types content_type = (case content_type of None \<Rightarrow> False | Some t \<Rightarrow> t \<in> set types)"

type_synonym upload_reply = "string \<times> string option"

definition upload_file_endpoint ::
  "('e, 's, 'q) burrow \<Rightarrow> upload_file \<Rightarrow> int option \<Rightarrow> int option \<Rightarrow> string \<Rightarrow>
   (upload_reply \<times> task list, ('e, 's, 'q) cat) act" where
  "upload_file_endpoint B file chunk_size chunk_overlap metadata =
     bnd (admitted_types B) (\<lambda>types.
       if \<not> is_admitted types (bu_mime B (uf_filename file)) then raise (HTTPException 400)
       else bnd (lift_result (bu_loads B metadata)) (\<lambda>md.
         ret ((uf_filename file, uf_content_type file), [IngestFile (Uploaded file) chunk_size chunk_overlap md])))"

text \<open>
  \<open>metadata_dict[filename] if filename in metadata_dict else {}\<close>: \<open>in\<close> also works on lists and texts, indexing by a
  text does not.
\<close>

definition metadata_for :: "string \<Rightarrow> pyval \<Rightarrow> pyval result" where
  "metadata_for filename md =
     (case md of
        PDict d \<Rightarrow> Inr (case dict_get d filename of Some v \<Rightarrow> v | None \<Rightarrow> PDict [])
      | PList xs \<Rightarrow> if PStr filename \<in> set xs then Inl TypeError else Inr (PDict [])
      | PStr t \<Rightarrow> if contains filename t then Inl TypeError else Inr (PDict [])
      | _ \<Rightarrow> Inl TypeError)"

fun upload_each ::
  "('e, 's, 'q) burrow \<Rightarrow> string list \<Rightarrow> int option \<Rightarrow> int option \<Rightarrow> pyval \<Rightarrow> upload_file list \<Rightarrow>
   (string, upload_reply) dict \<Rightarrow> task list \<Rightarrow> ((string, upload_reply) dict \<times> task list) result" where
  "upload_each B types chunk_size chunk_overlap md [] response tasks = Inr (response, tasks)"
| "upload_each B types chunk_size chunk_overlap md (file # files) response tasks =
     (if \<not> is_admitted types (bu_mime B (uf_filename file)) then Inl (HTTPException 400)
      else case metadata_for (uf_filename file) md of
        Inl e \<Rightarrow> Inl e
      | Inr m \<Rightarrow>
          upload_each B types chunk_size chunk_overlap md files
            (dict_set (uf_filename file) (uf_filename file, uf_content_type file) response)
            (tasks @ [IngestFile (Uploaded file) chunk_size chunk_overlap m]))"

definition upload_files ::
  "('e, 's, 'q) burrow \<Rightarrow> upload_file list \<Rightarrow> int option \<Rightarrow> int option \<Rightarrow> string \<Rightarrow>
   ((string, upload_reply) dict \<times> task list, ('e, 's, 'q) cat) act" where
  "upload_files B files chunk_size chunk_overlap metadata =
     bnd (admitted_types B) (\<lambda>types.
     bnd (lift_result (bu_loads B metadata)) (\<lambda>md.
     lift_result (upload_each B types chunk_size chunk_overlap md files [] [])))"

definition upload_url ::
  "('e, 's, 'q) burrow \<Rightarrow> string \<Rightarrow> int option \<Rightarrow> int option \<Rightarrow> metadata \<Rightarrow> (string \<times> task list, ('e, 's, 'q) cat) act" where
  "upload_url B url chunk_size chunk_overlap metadata =
     (case bu_head B url of
        Status n \<Rightarrow>
          if n = 200 then ret (url, [IngestFile (Named url) chunk_size chunk_overlap (PDict metadata)])
          else raise (HTTPException 400)
      | NoAnswer \<Rightarrow> raise (HTTPException 400)
      | HeadRaises e \<Rightarrow> raise e)"

definition upload_memory ::
  "('e, 's, 'q) burrow \<Rightarrow> upload_file \<Rightarrow> (upload_reply \<times> task list, ('e, 's, 'q) cat) act" where
  "upload_memory B file =
     (if bu_mime B (uf_filename file) \<noteq> Some ''application/json'' then raise (HTTPException 400)
      else ret ((uf_filename file, uf_content_type file), [IngestMemory (uf_bytes file)]))"

definition get_allowed_mimetypes :: "('e, 's, 'q) burrow \<Rightarrow> (string list, ('e, 's, 'q) cat) act" where
  "get_allowed_mimetypes B = admitted_types B"

section \<open>What ingestion promises\<close>

text \<open>The readings of the clock that become the \<open>when\<close> of \<open>k\<close> documents.\<close>

fun when_readings :: "(nat \<Rightarrow> int) \<Rightarrow> nat \<Rightarrow> int \<Rightarrow> nat \<Rightarrow> int list" where
  "when_readings clock 0 last_notification n = []"
| "when_readings clock (Suc k) last_notification n =
     (if clock n - last_notification > 10 then clock (n + 2) # when_readings clock k (clock (n + 1)) (n + 3)
      else clock (n + 1) # when_readings clock k last_notification (n + 2))"

definition stamped :: "string \<Rightarrow> metadata \<Rightarrow> int \<Rightarrow> string \<times> metadata \<Rightarrow> string \<times> metadata" where
  "stamped source custom now doc =
     (fst doc, dict_merge (dict_set ''when'' (PInt now) (dict_set ''source'' (PStr source) (snd doc))) custom)"

definition prepared ::
  "(string \<times> metadata \<Rightarrow> string \<times> metadata) \<Rightarrow> string \<Rightarrow> metadata \<Rightarrow> (string \<times> metadata) list \<Rightarrow> int list \<Rightarrow> (string \<times> metadata) list" where
  "prepared g source custom docs readings = map (\<lambda>(doc, now). g (stamped source custom now doc)) (zip docs readings)"

definition embeddable :: "('e, 's, 'q) burrow \<Rightarrow> string \<times> metadata \<Rightarrow> bool" where
  "embeddable B doc \<longleftrightarrow> fst doc = [] \<or> (case bu_embed_documents B (fst doc) of Inr _ \<Rightarrow> True | Inl _ \<Rightarrow> False)"

text \<open>The points of the documents that have a text, with the \<open>i\<close>-th and the next fresh identifiers.\<close>

fun new_points :: "('e, 's, 'q) burrow \<Rightarrow> nat \<Rightarrow> (string \<times> metadata) list \<Rightarrow> 'e point list" where
  "new_points B i [] = []"
| "new_points B i ((t, md) # docs) =
     (if t = [] then new_points B i docs
      else case bu_embed_documents B t of
        Inl e \<Rightarrow> []
      | Inr v \<Rightarrow> \<lparr>pt_id = e_uuid (bu_env B) i, pt_content = t, pt_metadata = md, pt_vector = v\<rparr> # new_points B (Suc i) docs)"

definition write_points :: "'e point list \<Rightarrow> 'e collection \<Rightarrow> 'e collection" where
  "write_points pts k = k\<lparr>co_points := fold (\<lambda>p m. m(pt_id p \<mapsto> p)) pts (co_points k)\<rparr>"

text \<open>A hook that computes \<open>f\<close> of the value it is given and leaves the cat alone.\<close>

definition pure_hook :: "('e, 's, 'q) env \<Rightarrow> string \<Rightarrow> (('e, 's) tea \<Rightarrow> ('e, 's) tea) \<Rightarrow> bool" where
  "pure_hook E name f \<longleftrightarrow> (\<forall>v c. hook E name v c = (Inr (f v), c))"

definition sockets_open :: "('e, 's, 'q) env \<Rightarrow> bool" where
  "sockets_open E \<longleftrightarrow> (\<forall>ws. e_socket E ws = None)"

lemma write_points_simps [simp]:
  "write_points [] k = k"
  "write_points (p # ps) k = write_points ps (k\<lparr>co_points := (co_points k)(pt_id p \<mapsto> p)\<rparr>)"
  by (simp_all add: write_points_def)

lemma takeWhile_embeddable_points: "new_points B i (takeWhile (embeddable B) docs) = new_points B i docs"
  by (induction B i docs rule: new_points.induct) (auto simp: embeddable_def split: sum.split)

lemma send_open:
  assumes "sockets_open E"
  shows "\<exists>sent. send_notification E t c = (Inr (), c\<lparr>c_sent := sent\<rparr>)"
proof (cases "get_connection (c_user_id c) c")
  case None
  then have "send_notification E t c = (Inr (), c\<lparr>c_sent := c_sent c\<rparr>)"
    by (simp add: send_notification_def send_ws_message_def msg_types_def send_ws_json_def)
  then show ?thesis by blast
next
  case (Some ws)
  with assms have "send_notification E t c = (Inr (), c\<lparr>c_sent := c_sent c @ [(ws, WsMessage ''notification'' t)]\<rparr>)"
    by (simp add: send_notification_def send_ws_message_def msg_types_def send_ws_json_def sockets_open_def)
  then show ?thesis by blast
qed

lemma notify_open:
  assumes "sockets_open (bu_env B)"
  shows "\<exists>sent. notify_progress B source d l since n c =
     (Inr (if bu_clock B n - since > 10 then bu_clock B (n + 1) else since, if bu_clock B n - since > 10 then n + 2 else n + 1),
      c\<lparr>c_sent := sent\<rparr>)"
proof (cases "bu_clock B n - since > 10")
  case True
  obtain sent where "send_notification (bu_env B) (''Read '' @ show_nat (perc_read d l) @ ''% of '' @ source) c = (Inr (), c\<lparr>c_sent := sent\<rparr>)"
    using send_open [OF assms] by blast
  with True show ?thesis by (auto simp: notify_progress_def bnd_def ret_def)
next
  case False
  then show ?thesis by (intro exI [of _ "c_sent c"]) (simp add: notify_progress_def ret_def)
qed

definition only_stored :: "('e, 's, 'q) cat \<Rightarrow> ('e, 's, 'q) cat \<Rightarrow> bool" where
  "only_stored c c' \<longleftrightarrow>
     c_user_id c' = c_user_id c \<and> c_wm c' = c_wm c \<and> c_heap c' = c_heap c \<and> c_cache c' = c_cache c \<and> c_now c' = c_now c \<and>
     c_connections c' = c_connections c"

lemma only_stored_intros:
  "only_stored c c" "only_stored c (c\<lparr>c_sent := s\<rparr>)" "only_stored c (c\<lparr>c_db := db, c_points_made := m\<rparr>)"
  by (simp_all add: only_stored_def)

lemma only_stored_trans: "only_stored a b \<Longrightarrow> only_stored b c \<Longrightarrow> only_stored a c"
  by (simp add: only_stored_def)

text \<open>The first document that cannot be embedded ends the loop with the error of the embedder.\<close>

definition failed_with :: "('e, 's, 'q) burrow \<Rightarrow> (string \<times> metadata) list \<Rightarrow> py_exc \<Rightarrow> bool" where
  "failed_with B docs e \<longleftrightarrow>
     (\<exists>pre t md post. docs = pre @ (t, md) # post \<and> list_all (embeddable B) pre \<and> t \<noteq> [] \<and> bu_embed_documents B t = Inl e)"

lemma failed_with_Cons: "embeddable B d \<Longrightarrow> failed_with B ds e \<Longrightarrow> failed_with B (d # ds) e"
  unfolding failed_with_def by (metis append_Cons list.pred_inject(2))

lemma insert_doc_effect:
  assumes "qdrant_laws (e_qdrant (bu_env B)) view" and "view (c_db c) ''declarative'' = Some k"
  shows "case bu_embed_documents B t of
     Inl e \<Rightarrow> t \<noteq> [] \<longrightarrow> insert_doc B (TDoc (t, md)) acc c = (Inl e, c)
   | Inr v \<Rightarrow> t \<noteq> [] \<longrightarrow> (\<exists>db p. p = \<lparr>pt_id = e_uuid (bu_env B) (c_points_made c), pt_content = t, pt_metadata = md, pt_vector = v\<rparr> \<and>
       insert_doc B (TDoc (t, md)) acc c = (Inr (acc @ [Some p]), c\<lparr>c_db := db, c_points_made := Suc (c_points_made c)\<rparr>) \<and>
       view db = (view (c_db c))(''declarative'' \<mapsto> k\<lparr>co_points := (co_points k)(pt_id p \<mapsto> p)\<rparr>))"
proof (cases "bu_embed_documents B t")
  case (Inl e)
  then show ?thesis by (simp add: insert_doc_def bnd_def lift_result_def)
next
  case (Inr v)
  let ?i = "e_uuid (bu_env B) (c_points_made c)"
  let ?p = "\<lparr>pt_id = ?i, pt_content = t, pt_metadata = md, pt_vector = v\<rparr>"
  obtain q' where q: "add_point (e_qdrant (bu_env B)) ''declarative'' t v md None ?i (c_db c) = (Some ?p, q')"
    "view q' = (view (c_db c))(''declarative'' \<mapsto> k\<lparr>co_points := (co_points k)(pt_id ?p \<mapsto> ?p)\<rparr>)"
    using add_point_view [OF assms(1), OF assms(2), of t v md None ?i] by auto
  from q(1) have "t \<noteq> [] \<longrightarrow> insert_doc B (TDoc (t, md)) acc c =
      (Inr (acc @ [Some ?p]), c\<lparr>c_db := q', c_points_made := Suc (c_points_made c)\<rparr>)"
    by (simp add: Inr insert_doc_def bnd_def lift_result_def add_declarative_def ret_def)
  with q(2) Inr show ?thesis by (simp only: sum.case) blast
qed

lemma store_loop_effect:
  assumes laws: "qdrant_laws (e_qdrant (bu_env B)) view" and "view (c_db c) ''declarative'' = Some k"
    and hk: "pure_hook (bu_env B) ''before_rabbithole_insert_memory'' G" "\<And>d. G (TDoc d) = TDoc (g d)"
    and so: "sockets_open (bu_env B)"
  shows "\<exists>r c'. store_loop B source (PDict custom) l docs d since n acc c = (r, c') \<and> only_stored c c' \<and>
     (let prep = prepared g source custom docs (when_readings (bu_clock B) (length docs) since n);
          pts = new_points B (c_points_made c) prep
      in view (c_db c') = (view (c_db c))(''declarative'' \<mapsto> write_points pts k) \<and>
         (if list_all (embeddable B) prep then r = Inr (acc @ map Some pts) else \<exists>e. r = Inl e \<and> failed_with B prep e))"
  using assms(2)
proof (induction docs arbitrary: d since n acc c k)
  case Nil
  then show ?case by (auto simp: ret_def prepared_def only_stored_intros)
next
  case (Cons doc docs)
  define since1 where "since1 = (if bu_clock B n - since > 10 then bu_clock B (n + 1) else since)"
  define n1 where "n1 = (if bu_clock B n - since > 10 then n + 2 else n + 1)"
  let ?d = "stamped source custom (bu_clock B n1) doc"
  let ?t = "fst (g ?d)" and ?md = "snd (g ?d)"
  let ?rest = "prepared g source custom docs (when_readings (bu_clock B) (length docs) since1 (Suc n1))"
  have prep: "prepared g source custom (doc # docs) (when_readings (bu_clock B) (length (doc # docs)) since n) = (?t, ?md) # ?rest"
    by (simp add: prepared_def since1_def n1_def numeral_eq_Suc)
  obtain sent where nt: "notify_progress B source d l since n c = (Inr (since1, n1), c\<lparr>c_sent := sent\<rparr>)"
    using notify_open [OF so, of source d l since n c] unfolding since1_def n1_def by blast
  let ?c = "c\<lparr>c_sent := sent\<rparr>"
  have md: "doc_metadata source (bu_clock B n1) (PDict custom) (snd doc) = Inr (snd ?d)" and f: "(fst doc, snd ?d) = ?d"
    by (simp_all add: doc_metadata_def stamped_def)
  have h: "hook (bu_env B) ''before_rabbithole_insert_memory'' (TDoc ?d) ?c = (Inr (TDoc (g ?d)), ?c)"
    using hk by (simp add: pure_hook_def)
  have step: "store_loop B source (PDict custom) l (doc # docs) d since n acc c =
      bnd (insert_doc B (TDoc (?t, ?md)) acc) (store_loop B source (PDict custom) l docs (Suc d) since1 (Suc n1)) ?c"
    by (simp add: bnd_Inr [where m = "notify_progress B source d l since n", OF nt] md lift_bnd f bnd_Inr [where m = "hook (bu_env B) ''before_rabbithole_insert_memory'' (TDoc ?d)", OF h])
  have v: "view (c_db ?c) ''declarative'' = Some k" using Cons.prems by simp
  note ins = insert_doc_effect [OF laws, OF v, of ?t ?md acc]
  consider (empty) "?t = []" | (fails) e where "?t \<noteq> []" "bu_embed_documents B ?t = Inl e"
    | (stored) w where "?t \<noteq> []" "bu_embed_documents B ?t = Inr w"
    by (cases "bu_embed_documents B ?t") auto
  then show ?case
  proof cases
    case empty
    then have "insert_doc B (TDoc (?t, ?md)) acc ?c = (Inr acc, ?c)" by (simp add: insert_doc_def ret_def)
    moreover have same: "c_db ?c = c_db c" "c_points_made ?c = c_points_made c" by simp_all
    moreover obtain r c' where "store_loop B source (PDict custom) l docs (Suc d) since1 (Suc n1) acc ?c = (r, c')" "only_stored ?c c'"
      "view (c_db c') = (view (c_db c))(''declarative'' \<mapsto> write_points (new_points B (c_points_made c) ?rest) k)"
      "if list_all (embeddable B) ?rest then r = Inr (acc @ map Some (new_points B (c_points_made c) ?rest))
       else \<exists>e. r = Inl e \<and> failed_with B ?rest e"
      using Cons.IH [OF v, of "Suc d" since1 "Suc n1" acc] unfolding Let_def same by blast
    moreover have "only_stored c ?c" by (rule only_stored_intros)
    moreover have em: "embeddable B (?t, ?md)" and "new_points B i ((?t, ?md) # ?rest) = new_points B i ?rest" for i
      using empty by (simp_all add: embeddable_def)
    moreover have "list_all (embeddable B) ((?t, ?md) # ?rest) = list_all (embeddable B) ?rest" using em by simp
    ultimately show ?thesis
      unfolding step prep Let_def
      by (intro exI [of _ r] exI [of _ c']) (auto simp only: bnd_def prod.case sum.case cat.simps intro: only_stored_trans failed_with_Cons [OF em] split: if_splits)
  next
    case fails
    with ins have "insert_doc B (TDoc (?t, ?md)) acc ?c = (Inl e, ?c)" by simp
    moreover have "failed_with B ((?t, ?md) # ?rest) e" using fails unfolding failed_with_def
      by (rule_tac x = "[]" in exI, rule_tac x = ?t in exI, rule_tac x = ?md in exI, rule_tac x = ?rest in exI) simp
    moreover have "new_points B i ((?t, ?md) # ?rest) = []" for i using fails by (simp only: new_points.simps if_False sum.case)
    ultimately show ?thesis
      using fails Cons.prems unfolding step prep Let_def
      by (auto simp: bnd_def embeddable_def only_stored_intros fun_upd_idem)
  next
    case stored
    then obtain db p where p: "p = \<lparr>pt_id = e_uuid (bu_env B) (c_points_made c), pt_content = ?t, pt_metadata = ?md, pt_vector = w\<rparr>"
      "insert_doc B (TDoc (?t, ?md)) acc ?c = (Inr (acc @ [Some p]), ?c\<lparr>c_db := db, c_points_made := Suc (c_points_made c)\<rparr>)"
      "view db = (view (c_db c))(''declarative'' \<mapsto> k\<lparr>co_points := (co_points k)(pt_id p \<mapsto> p)\<rparr>)"
      using ins by auto
    let ?c2 = "?c\<lparr>c_db := db, c_points_made := Suc (c_points_made c)\<rparr>"
    have v2: "view (c_db ?c2) ''declarative'' = Some (k\<lparr>co_points := (co_points k)(pt_id p \<mapsto> p)\<rparr>)" using p(3) by simp
    have o: "only_stored c ?c2" by (rule only_stored_trans) (rule only_stored_intros)+
    obtain r c' where "store_loop B source (PDict custom) l docs (Suc d) since1 (Suc n1) (acc @ [Some p]) ?c2 = (r, c')" "only_stored ?c2 c'"
      "view (c_db c') = (view (c_db ?c2))(''declarative'' \<mapsto>
         write_points (new_points B (c_points_made ?c2) ?rest) (k\<lparr>co_points := (co_points k)(pt_id p \<mapsto> p)\<rparr>))"
      "if list_all (embeddable B) ?rest then r = Inr ((acc @ [Some p]) @ map Some (new_points B (c_points_made ?c2) ?rest))
       else \<exists>e. r = Inl e \<and> failed_with B ?rest e"
      using Cons.IH [OF v2, of "Suc d" since1 "Suc n1" "acc @ [Some p]"] unfolding Let_def by blast
    moreover have em: "embeddable B (g ?d)" using stored by (simp add: embeddable_def)
    moreover have "new_points B i ((?t, ?md) # ?rest) = \<lparr>pt_id = e_uuid (bu_env B) i, pt_content = ?t, pt_metadata = ?md, pt_vector = w\<rparr> #
        new_points B (Suc i) ?rest" for i
      using stored by (simp only: new_points.simps if_False sum.case)
    ultimately show ?thesis
      using p o unfolding step prep Let_def
      by (intro exI [of _ r] exI [of _ c']) (auto simp: bnd_def intro: only_stored_trans failed_with_Cons [OF em] split: if_splits)
  qed
qed

subsection \<open>Storing and ingesting\<close>

definition after_stored_harmless :: "('e, 's, 'q) env \<Rightarrow> bool" where
  "after_stored_harmless E \<longleftrightarrow> (\<forall>args c. args \<noteq> [] \<longrightarrow> hook_with E ''after_rabbithole_stored_documents'' args c = (Inr (), c))"

text \<open>
  Storing documents, for plugins whose hooks only edit documents (\<open>g\<close> each one, \<open>F\<close> the list).  The documents are stamped with source,
  time and the metadata of the request, edited, and written one after the other until the first whose text cannot be embedded: its
  error is raised and what was written before stays.  Documents without text are skipped, other collections and the session keep their state.
\<close>
lemma store_documents_eff:
  assumes laws: "qdrant_laws (e_qdrant (bu_env B)) view" and v: "view (c_db c) ''declarative'' = Some k"
    and hs: "pure_hook (bu_env B) ''before_rabbithole_stores_documents'' F" "F (TDocs docs) = TDocs docs'"
    and hk: "pure_hook (bu_env B) ''before_rabbithole_insert_memory'' G" "\<And>d. G (TDoc d) = TDoc (g d)"
    and ha: "after_stored_harmless (bu_env B)" and so: "sockets_open (bu_env B)"
  shows "\<exists>r c'. store_documents B (TDocs docs) source (PDict custom) c = (r, c') \<and> only_stored c c' \<and>
     (let prep = prepared g source custom docs' (when_readings (bu_clock B) (length docs') (bu_clock B 0) 1);
          pts = new_points B (c_points_made c) prep
      in view (c_db c') = (view (c_db c))(''declarative'' \<mapsto> write_points pts k) \<and>
         (if list_all (embeddable B) prep then r = Inr () else \<exists>e. r = Inl e \<and> failed_with B prep e))"
proof -
  let ?l = "length docs'"
  let ?prep = "prepared g source custom docs' (when_readings (bu_clock B) ?l (bu_clock B 0) 1)"
  let ?pts = "new_points B (c_points_made c) ?prep"
  obtain r1 c1 where l: "store_loop B source (PDict custom) ?l docs' 0 (bu_clock B 0) 1 [] c = (r1, c1)" "only_stored c c1"
    "view (c_db c1) = (view (c_db c))(''declarative'' \<mapsto> write_points ?pts k)"
    "if list_all (embeddable B) ?prep then r1 = Inr ([] @ map Some ?pts) else \<exists>e. r1 = Inl e \<and> failed_with B ?prep e"
    using store_loop_effect [OF laws, OF v, OF hk so, of source custom ?l docs' 0 "bu_clock B 0" 1 "[]"] unfolding Let_def by blast
  have h: "hook (bu_env B) ''before_rabbithole_stores_documents'' (TDocs docs) c = (Inr (TDocs docs'), c)"
    using hs by (simp add: pure_hook_def)
  let ?done = "\<lambda>stored_points. bnd (hook_with (bu_env B) ''after_rabbithole_stored_documents'' [TText source, TPoints stored_points])
      (\<lambda>_. send_notification (bu_env B) (''Finished reading '' @ source @ '', I made '' @ show_nat ?l @ '' thoughts on it.''))"
  have s: "store_documents B (TDocs docs) source (PDict custom) c =
      bnd (store_loop B source (PDict custom) ?l docs' 0 (bu_clock B 0) 1 []) ?done c"
    by (simp add: store_documents_def has_len_def lift_bnd docs_of_def
        bnd_Inr [where m = "hook (bu_env B) ''before_rabbithole_stores_documents'' (TDocs docs)", OF h])
  show ?thesis
  proof (cases r1)
    case (Inl e)
    with l have "store_documents B (TDocs docs) source (PDict custom) c = (Inl e, c1)" by (simp add: s bnd_def)
    with l Inl show ?thesis unfolding Let_def by (auto split: if_splits)
  next
    case (Inr pts)
    obtain sent where "send_notification (bu_env B) (''Finished reading '' @ source @ '', I made '' @ show_nat ?l @ '' thoughts on it.'') c1
        = (Inr (), c1\<lparr>c_sent := sent\<rparr>)" using send_open [OF so] by blast
    then have "store_documents B (TDocs docs) source (PDict custom) c = (Inr (), c1\<lparr>c_sent := sent\<rparr>)"
      using l(1) Inr ha by (simp add: s bnd_def after_stored_harmless_def)
    with l Inr show ?thesis unfolding Let_def by (auto split: if_splits intro: only_stored_trans only_stored_intros)
  qed
qed

definition editing_hooks :: "string list" where
  "editing_hooks =
     [''rabbithole_instantiates_parsers'', ''rabbithole_instantiates_splitter'', ''before_rabbithole_splits_text'',
      ''after_rabbithole_splitted_text'', ''before_rabbithole_stores_documents'', ''before_rabbithole_insert_memory'']"

definition plain_hooks :: "('e, 's, 'q) env \<Rightarrow> bool" where
  "plain_hooks E \<longleftrightarrow> (\<forall>n \<in> set editing_hooks. pure_hook E n id) \<and> after_stored_harmless E"

lemma plain_hook: "plain_hooks E \<Longrightarrow> n \<in> set editing_hooks \<Longrightarrow> hook E n v c = (Inr v, c)"
  by (simp add: plain_hooks_def pure_hook_def)

text \<open>Chunks that make it into memory: those with more than ten characters.\<close>

definition kept_chunks :: "(string \<times> metadata) list \<Rightarrow> (string \<times> metadata) list" where
  "kept_chunks chunks = filter (\<lambda>d. length (fst d) > 10) chunks"

lemma split_text_plain:
  assumes "plain_hooks (bu_env B)"
  shows "split_text B docs chunk_size chunk_overlap c =
     (map_sum id (TDocs \<circ> kept_chunks) (bu_split B (override_splitter chunk_size chunk_overlap default_splitter) docs), c)"
proof -
  have "hook (bu_env B) ''before_rabbithole_splits_text'' (TDocs docs) c = (Inr (TDocs docs), c)"
    "text_splitter B c = (Inr (TSplitter default_splitter), c)"
    "hook (bu_env B) ''after_rabbithole_splitted_text'' (TDocs ds) c = (Inr (TDocs ds), c)" for ds
    unfolding text_splitter_def by (rule plain_hook [OF assms], simp add: editing_hooks_def)+
  then show ?thesis
    by (cases "bu_split B (override_splitter chunk_size chunk_overlap default_splitter) docs")
      (simp_all add: split_text_def bnd_def docs_of_def lift_result_def kept_chunks_def)
qed

lemma string_to_docs_plain:
  assumes "plain_hooks (bu_env B)" and so: "sockets_open (bu_env B)"
  shows "\<exists>sent. string_to_docs B bytes source mime chunk_size chunk_overlap c =
     (case bu_parse B default_file_handlers mime source bytes of
        Inl e \<Rightarrow> Inl e
      | Inr docs \<Rightarrow> map_sum id (TDocs \<circ> kept_chunks) (bu_split B (override_splitter chunk_size chunk_overlap default_splitter) docs),
      c\<lparr>c_sent := sent\<rparr>)"
proof -
  have f: "file_handlers B c = (Inr (TParsers default_file_handlers), c)" for c
    unfolding file_handlers_def by (rule plain_hook [OF assms(1)]) (simp add: editing_hooks_def)
  obtain s1 where 1: "send_notification (bu_env B) ''I'm parsing the content. Big content could require some minutes...'' c = (Inr (), c\<lparr>c_sent := s1\<rparr>)"
    using send_open [OF so] by blast
  obtain s2 where 2: "send_notification (bu_env B) ''Parsing completed. Now let's go with reading process...'' (c\<lparr>c_sent := s1\<rparr>) =
      (Inr (), c\<lparr>c_sent := s1\<rparr>\<lparr>c_sent := s2\<rparr>)"
    using send_open [OF so] by blast
  show ?thesis
  proof (cases "bu_parse B default_file_handlers mime source bytes")
    case (Inl e)
    with 1 show ?thesis
      by (intro exI [of _ s1]) (simp add: string_to_docs_def bnd_def f lift_result_def)
  next
    case (Inr docs)
    with 1 2 show ?thesis
      by (intro exI [of _ s2]) (simp add: string_to_docs_def bnd_def f lift_result_def split_text_plain [OF assms(1)])
  qed
qed

lemma new_points_full:
  assumes "list_all (\<lambda>d. fst d \<noteq> [] \<and> embeddable B d) docs"
  shows "length (new_points B i docs) = length docs \<and>
     (\<forall>j < length docs. \<exists>v. bu_embed_documents B (fst (docs ! j)) = Inr v \<and>
        new_points B i docs ! j = \<lparr>pt_id = e_uuid (bu_env B) (i + j), pt_content = fst (docs ! j), pt_metadata = snd (docs ! j), pt_vector = v\<rparr>)"
  using assms
proof (induction B i docs rule: new_points.induct)
  case (2 B i t md docs)
  then obtain v where v: "bu_embed_documents B t = Inr v" "t \<noteq> []" by (auto simp: embeddable_def split: sum.splits)
  with 2 have IH: "length (new_points B (Suc i) docs) = length docs"
    "\<And>j. j < length docs \<Longrightarrow> \<exists>w. bu_embed_documents B (fst (docs ! j)) = Inr w \<and>
        new_points B (Suc i) docs ! j = \<lparr>pt_id = e_uuid (bu_env B) (Suc i + j), pt_content = fst (docs ! j), pt_metadata = snd (docs ! j), pt_vector = w\<rparr>"
    by auto
  show ?case
  proof (intro conjI allI impI)
    show "length (new_points B i ((t, md) # docs)) = length ((t, md) # docs)" using v IH by simp
    fix j assume "j < length ((t, md) # docs)"
    then show "\<exists>w. bu_embed_documents B (fst (((t, md) # docs) ! j)) = Inr w \<and>
        new_points B i ((t, md) # docs) ! j = \<lparr>pt_id = e_uuid (bu_env B) (i + j), pt_content = fst (((t, md) # docs) ! j),
          pt_metadata = snd (((t, md) # docs) ! j), pt_vector = w\<rparr>"
      using v IH(2) [of "j - 1"] by (cases j) auto
  qed
qed simp

lemma write_points_lookup:
  assumes "distinct (map pt_id ps)"
  shows "co_points (write_points ps k) i = (case find (\<lambda>p. pt_id p = i) ps of Some p \<Rightarrow> Some p | None \<Rightarrow> co_points k i)"
  using assms
proof (induction ps arbitrary: k)
  case (Cons p ps)
  have "pt_id q \<noteq> pt_id p" if "q \<in> set ps" for q using Cons.prems image_eqI [OF refl that, of pt_id] by auto
  then have "find (\<lambda>q. pt_id q = pt_id p) ps = None" by (auto simp: find_None_iff)
  with Cons show ?case by (auto split: option.split)
qed simp

lemma when_readings_length [simp]: "length (when_readings clock k since n) = k"
  by (induction clock k since n rule: when_readings.induct) auto

lemma when_readings_clock: "t \<in> set (when_readings clock k since n) \<Longrightarrow> \<exists>i. t = clock i"
  by (induction clock k since n rule: when_readings.induct) (auto split: if_splits)

lemma write_points_nth:
  assumes "distinct (map pt_id ps)" and "j < length ps"
  shows "co_points (write_points ps k) (pt_id (ps ! j)) = Some (ps ! j)"
proof -
  have "find (\<lambda>p. pt_id p = pt_id (ps ! j)) ps = Some (ps ! j)"
    using assms by (auto simp: find_Some_iff distinct_conv_nth intro!: exI [of _ j])
  with write_points_lookup [OF assms(1)] show ?thesis by simp
qed

lemma write_points_other:
  assumes "distinct (map pt_id ps)" and "i \<notin> pt_id ` set ps"
  shows "co_points (write_points ps k) i = co_points k i"
proof -
  have "find (\<lambda>p. pt_id p = i) ps = None" using assms(2) by (auto simp: find_None_iff)
  with write_points_lookup [OF assms(1)] show ?thesis by simp
qed

lemma stamped_lookup:
  assumes "dict_ok custom"
  shows "dict_get (snd (stamped source custom now doc)) x =
     (case dict_get custom x of
        Some w \<Rightarrow> Some w
      | None \<Rightarrow> if x = ''when'' then Some (PInt now) else if x = ''source'' then Some (PStr source) else dict_get (snd doc) x)"
  by (auto simp: stamped_def dict_get_merge [OF assms] map_add_def split: option.split)

lemma prepared_texts: "length readings = length docs \<Longrightarrow> map fst (prepared id source custom docs readings) = map fst docs"
  by (induction readings docs rule: list_induct2) (simp_all add: prepared_def stamped_def)

text \<open>
  C12. From an uploaded file to memory, with the hooks of the core plugin alone and with sockets that take the notifications.  When parser, splitter and embedder succeed, each chunk of more than
  ten characters gets a point of its own in the declarative collection, in order and under fresh identifiers, with the vector of its text; the metadata of the
  request win over the source (the name of the file) and the time, which win over those of the chunk.  Shorter chunks are lost, points that
  were there before and other collections are kept.
\<close>
theorem ingest_upload:
  assumes laws: "qdrant_laws (e_qdrant (bu_env B)) view" and v: "view (c_db c) ''declarative'' = Some k"
    and ph: "plain_hooks (bu_env B)" and so: "sockets_open (bu_env B)" and cu: "dict_ok custom"
    and pa: "bu_parse B default_file_handlers (bu_mime B (uf_filename f)) (uf_filename f) (uf_bytes f) = Inr super"
    and sp: "bu_split B (override_splitter chunk_size chunk_overlap default_splitter) super = Inr chunks"
    and em: "list_all (embeddable B) chunks"
    and fresh: "inj (e_uuid (bu_env B))" "\<And>i. c_points_made c \<le> i \<Longrightarrow> co_points k (e_uuid (bu_env B) i) = None"
  shows "\<exists>c' k'. ingest_file B (Uploaded f) chunk_size chunk_overlap (PDict custom) c = (Inr (), c') \<and> only_stored c c' \<and>
     view (c_db c') = (view (c_db c))(''declarative'' \<mapsto> k') \<and> co_size k' = co_size k \<and>
     (\<forall>i p. co_points k i = Some p \<longrightarrow> co_points k' i = Some p) \<and>
     dom (co_points k') = dom (co_points k) \<union> e_uuid (bu_env B) ` {c_points_made c ..< c_points_made c + length (kept_chunks chunks)} \<and>
     (\<forall>j < length (kept_chunks chunks). \<exists>p now.
        co_points k' (e_uuid (bu_env B) (c_points_made c + j)) = Some p \<and> pt_content p = fst (kept_chunks chunks ! j) \<and>
        bu_embed_documents B (pt_content p) = Inr (pt_vector p) \<and>
        (\<forall>x. dict_get (pt_metadata p) x =
           (case dict_get custom x of
              Some w \<Rightarrow> Some w
            | None \<Rightarrow> if x = ''when'' then Some (PInt (bu_clock B now)) else if x = ''source'' then Some (PStr (uf_filename f))
                else dict_get (snd (kept_chunks chunks ! j)) x)))"
proof -
  let ?kept = "kept_chunks chunks" and ?i = "c_points_made c" and ?uuid = "e_uuid (bu_env B)"
  let ?times = "when_readings (bu_clock B) (length ?kept) (bu_clock B 0) 1"
  let ?prep = "prepared id (uf_filename f) custom ?kept ?times"
  let ?pts = "new_points B ?i ?prep"
  obtain sent where d: "file_to_docs B (Uploaded f) chunk_size chunk_overlap c = (Inr (TDocs ?kept), c\<lparr>c_sent := sent\<rparr>)"
    using string_to_docs_plain [OF ph so, of "uf_bytes f" "uf_filename f" "bu_mime B (uf_filename f)" chunk_size chunk_overlap c]
    by (auto simp: file_to_docs_def pa sp)
  let ?c = "c\<lparr>c_sent := sent\<rparr>"
  have prep: "length ?prep = length ?kept" "\<And>j. j < length ?kept \<Longrightarrow> ?prep ! j = stamped (uf_filename f) custom (?times ! j) (?kept ! j)"
    by (simp_all add: prepared_def)
  have full: "list_all (\<lambda>d. fst d \<noteq> [] \<and> embeddable B d) ?prep"
  proof (subst list_all_length, intro allI impI)
    fix j assume j: "j < length ?prep"
    then have "?kept ! j \<in> set ?kept" using prep(1) by simp
    then have "?kept ! j \<in> set chunks" "length (fst (?kept ! j)) > 10" unfolding kept_chunks_def by auto
    with em j prep show "fst (?prep ! j) \<noteq> [] \<and> embeddable B (?prep ! j)"
      by (auto simp: list_all_iff embeddable_def stamped_def)
  qed
  note pts = new_points_full [OF full, of ?i]
  have ids: "map pt_id ?pts = map ?uuid [?i ..< ?i + length ?kept]"
    using pts prep(1) by (auto intro!: nth_equalityI)
  then have dist: "distinct (map pt_id ?pts)" by (simp add: distinct_map inj_on_subset [OF fresh(1) subset_UNIV])
  have idset: "pt_id ` set ?pts = ?uuid ` {?i ..< ?i + length ?kept}"
    using arg_cong [OF ids, of set] by simp
  let ?k' = "write_points ?pts k"
  obtain r c' where st: "store_documents B (TDocs ?kept) (uf_filename f) (PDict custom) ?c = (r, c')" "only_stored ?c c'"
    "view (c_db c') = (view (c_db c))(''declarative'' \<mapsto> ?k')"
    "if list_all (embeddable B) ?prep then r = Inr () else \<exists>e. r = Inl e \<and> failed_with B ?prep e"
  proof -
    have h: "pure_hook (bu_env B) ''before_rabbithole_stores_documents'' id" "pure_hook (bu_env B) ''before_rabbithole_insert_memory'' id"
      "after_stored_harmless (bu_env B)"
      using ph by (simp_all add: plain_hooks_def editing_hooks_def)
    have "view (c_db ?c) ''declarative'' = Some k" using v by simp
    moreover have "id (TDocs ?kept) = TDocs ?kept" "\<And>d. id (TDoc d) = TDoc (id d)" by simp_all
    ultimately obtain r c' where "store_documents B (TDocs ?kept) (uf_filename f) (PDict custom) ?c = (r, c')" "only_stored ?c c'"
      "view (c_db c') = (view (c_db ?c))(''declarative'' \<mapsto> write_points (new_points B (c_points_made ?c) ?prep) k)"
      "if list_all (embeddable B) ?prep then r = Inr () else \<exists>e. r = Inl e \<and> failed_with B ?prep e"
      using store_documents_eff [OF laws _ h(1) _ h(2) _ h(3) so, where docs = ?kept and docs' = ?kept and g = id and c = ?c and k = k and
          source = "uf_filename f" and custom = custom] unfolding Let_def by blast
    moreover have "c_points_made ?c = ?i" "c_db ?c = c_db c" by simp_all
    ultimately show ?thesis using that by simp
  qed
  have ok: "list_all (embeddable B) ?prep" using full by (auto simp: list_all_iff)
  have run: "ingest_file B (Uploaded f) chunk_size chunk_overlap (PDict custom) c = (Inr (), c')"
    using d st(1,4) ok by (simp add: ingest_file_def bnd_def)
  have new: "co_points ?k' (?uuid (?i + j)) = Some (?pts ! j)" if "j < length ?kept" for j
    using write_points_nth [OF dist, of j k] pts prep(1) that by auto
  have old: "co_points ?k' i = co_points k i" if "i \<notin> ?uuid ` {?i ..< ?i + length ?kept}" for i
    by (rule write_points_other [OF dist]) (use that in \<open>unfold idset\<close>)
  have kept: "co_points ?k' i = Some p" if "co_points k i = Some p" for i p
  proof -
    from that fresh(2) have "i \<notin> ?uuid ` {?i ..< ?i + length ?kept}" by auto
    with old that show ?thesis by simp
  qed
  have dom: "dom (co_points ?k') = dom (co_points k) \<union> ?uuid ` {?i ..< ?i + length ?kept}"
  proof (intro equalityI subsetI)
    fix i assume "i \<in> dom (co_points ?k')"
    then show "i \<in> dom (co_points k) \<union> ?uuid ` {?i ..< ?i + length ?kept}" using old by (cases "i \<in> ?uuid ` {?i ..< ?i + length ?kept}") auto
  next
    fix i assume "i \<in> dom (co_points k) \<union> ?uuid ` {?i ..< ?i + length ?kept}"
    moreover have "?uuid j \<in> dom (co_points ?k')" if "j \<in> {?i ..< ?i + length ?kept}" for j
      using new [of "j - ?i"] that by auto
    ultimately show "i \<in> dom (co_points ?k')" using kept by blast
  qed
  have each: "\<exists>p now. co_points ?k' (?uuid (?i + j)) = Some p \<and> pt_content p = fst (?kept ! j) \<and>
      bu_embed_documents B (pt_content p) = Inr (pt_vector p) \<and>
      (\<forall>x. dict_get (pt_metadata p) x =
         (case dict_get custom x of
            Some w \<Rightarrow> Some w
          | None \<Rightarrow> if x = ''when'' then Some (PInt (bu_clock B now)) else if x = ''source'' then Some (PStr (uf_filename f))
              else dict_get (snd (?kept ! j)) x))" if j: "j < length ?kept" for j
  proof -
    obtain w where w: "bu_embed_documents B (fst (?prep ! j)) = Inr w"
      "?pts ! j = \<lparr>pt_id = ?uuid (?i + j), pt_content = fst (?prep ! j), pt_metadata = snd (?prep ! j), pt_vector = w\<rparr>"
      using pts prep(1) j by auto
    obtain now where "?times ! j = bu_clock B now"
      using when_readings_clock [of "?times ! j" "bu_clock B" "length ?kept" "bu_clock B 0" 1] nth_mem [of j ?times] j by auto
    with w new [OF j] prep(2) [OF j] stamped_lookup [OF cu] show ?thesis
      by (intro exI [of _ "?pts ! j"] exI [of _ now]) (simp add: stamped_def [THEN arg_cong [where f = fst]])
  qed
  have "only_stored c c'" by (rule only_stored_trans [OF only_stored_intros(2) st(2)])
  moreover have "co_size ?k' = co_size k" by (simp add: write_points_def)
  ultimately show ?thesis using run st(3) kept dom each by (intro exI [of _ c'] exI [of _ ?k'] conjI allI impI) auto
qed

subsection \<open>Uploads\<close>

lemma run_tasks_append: "run_tasks B clocks (ts @ us) k = bnd (run_tasks B clocks ts k) (\<lambda>_. run_tasks B clocks us (k + length ts))"
  by (induction ts arbitrary: k) (auto simp: bnd_def ret_def fun_eq_iff split: prod.split sum.split)

lemma upload_each_result:
  "upload_each B types chunk_size chunk_overlap (PDict d) files response tasks =
     (if \<forall>f \<in> set files. is_admitted types (bu_mime B (uf_filename f))
      then Inr (fold (\<lambda>f. dict_set (uf_filename f) (uf_filename f, uf_content_type f)) files response,
        tasks @ map (\<lambda>f. IngestFile (Uploaded f) chunk_size chunk_overlap
          (case dict_get d (uf_filename f) of Some m \<Rightarrow> m | None \<Rightarrow> PDict [])) files)
      else Inl (HTTPException 400))"
  by (induction files arbitrary: response tasks) (auto simp: metadata_for_def)

text \<open>
  A batch upload.  With metadata in a dictionary it is all or nothing as far as formats go: if one file has no admitted type the request fails and no file
  is ingested, not even those before it; otherwise there is one task for each file, in order, with the metadata filed under its name.  The tasks are not: after
  the client was told that all files are being ingested, the first that raises makes the remaining ones be dropped.
\<close>
theorem batch_upload_order:
  assumes "admitted_types B c = (Inr types, c1)" and "bu_loads B metadata = Inr (PDict d)"
  shows "((\<exists>f \<in> set files. \<not> is_admitted types (bu_mime B (uf_filename f))) \<longrightarrow>
      upload_files B files chunk_size chunk_overlap metadata c = (Inl (HTTPException 400), c1)) \<and>
    ((\<forall>f \<in> set files. is_admitted types (bu_mime B (uf_filename f))) \<longrightarrow>
      (\<exists>response. upload_files B files chunk_size chunk_overlap metadata c = (Inr (response, map (\<lambda>f. IngestFile (Uploaded f) chunk_size chunk_overlap
         (case dict_get d (uf_filename f) of Some m \<Rightarrow> m | None \<Rightarrow> PDict [])) files), c1))) \<and>
    (run_tasks B clocks ts k c2 = (Inr (), c3) \<and> run_task (B\<lparr>bu_clock := clocks (k + length ts)\<rparr>) t c3 = (Inl e, c4) \<longrightarrow>
      run_tasks B clocks (ts @ t # us) k c2 = (Inl e, c4))"
  using assms
  by (auto simp: upload_files_def bnd_Inr [of "admitted_types B" c types c1] lift_bnd upload_each_result lift_result_def run_tasks_append bnd_def)

definition memory_entry_of :: "'e point \<Rightarrow> 'e memory_entry" where
  "memory_entry_of p = \<lparr>me_id = Some (pt_id p), me_content = Some (pt_content p), me_metadata = Some (pt_metadata p), me_vector = Some (pt_vector p)\<rparr>"

lemma read_back:
  "all_fields ''id'' me_id (map memory_entry_of ps) = Inr (map pt_id ps)"
  "all_payloads (map memory_entry_of ps) = Inr (map (\<lambda>p. (pt_content p, pt_metadata p)) ps)"
  "all_fields ''vector'' me_vector (map memory_entry_of ps) = Inr (map pt_vector ps)"
  by (induction ps) (simp_all add: field_def payload_of_def memory_entry_of_def)

lemma batch_back: "batch (map pt_id ps) (map (\<lambda>p. (pt_content p, pt_metadata p)) ps) (map pt_vector ps) = ps"
  by (induction ps) (simp_all add: batch_def)

text \<open>
  C36. Import of an exported memory.  The points of the file are handed to the database as they were when they were made with an embedder of the same
  name and at least one has a vector of the present size: the other vectors are not looked at.  A file of another embedder, one without a vector of the
  right size and also an export without any point raise, and nothing is written.
\<close>
theorem ingest_memory_round_trip:
  assumes "bu_load_memories B bytes = Inr \<lparr>mf_embedder = Some name, mf_collections = Some collections\<rparr>"
    and "dict_get collections ''declarative'' = Some (map memory_entry_of ps)"
  shows "ingest_memory B bytes c =
     (if name = bu_embedder_name B \<and> (\<exists>p \<in> set ps. bu_vector_length B (pt_vector p) = bu_embedder_size B)
      then (Inr (), c\<lparr>c_db := snd (q_upsert (e_qdrant (bu_env B)) ''declarative'' ps (c_db c))\<rparr>)
      else (Inl (Exception (if name = bu_embedder_name B
              then ''Embedding size mismatch: vectors length should be '' @ show_nat (bu_embedder_size B)
              else ''Embedder mismatch: file embedder '' @ name @ '' is different from '' @ bu_embedder_name B)), c))"
  using assms
  by (auto simp: ingest_memory_def lift_bnd field_def read_back batch_back list_ex_iff raise_def modify_def)

subsection \<open>The progress shown\<close>

text \<open>
  The percentage of a progress notification is the integer part of the exact one or, by the rounding of floating point, one less; so it never claims
  more than was read, for up to \<open>2^40\<close> documents.
\<close>
theorem progress_never_ahead:
  assumes "d < n" and "n \<le> 2 ^ 40"
  shows "perc_read d n \<le> 100 * d div n \<and> 100 * d div n \<le> perc_read d n + 1 \<and> perc_read d n < 100"
proof (cases "d = 0")
  case True
  then show ?thesis by (simp add: perc_read_def round_div_def binary_scale.simps)
next
  case False
  define k where "k = binary_scale d n"
  define m where "m = round_div (d * 2 ^ k) n"
  define j where "j = (if 100 * m < 2 ^ 59 then 6 else 7 :: nat)"
  define e where "e = round_div (100 * m) (2 ^ j)"
  define X where "X = 100 * real d / real n"
  have n: "0 < real n" using assms by simp
  have "real n * 2 ^ 52 \<le> real d * 2 ^ k"
  proof -
    have "n * 2 ^ 52 \<le> d * 2 ^ k" using binary_scale_bound [of d n] False by (simp add: k_def)
    then have "real (n * 2 ^ 52) \<le> real (d * 2 ^ k)" by (simp only: of_nat_le_iff)
    then show ?thesis by simp
  qed
  also have "\<dots> < real n * 2 ^ k" using assms by simp
  finally have "(2::real) ^ 52 < 2 ^ k" using n by simp
  then have "52 < k" by (rule power_less_imp_less_exp [rotated]) simp
  then have k: "(2::real) ^ 53 \<le> 2 ^ k" by (intro power_increasing) simp_all
  have m: "\<bar>real m - real d * 2 ^ k / real n\<bar> \<le> 1 / 2"
    using round_div_error [of n "d * 2 ^ k"] n unfolding m_def by simp
  have e: "\<bar>real e - 100 * real m / 2 ^ j\<bar> \<le> 1 / 2"
    using round_div_error [of "2 ^ j" "100 * m"] unfolding e_def by simp
  have "\<bar>real e * 2 ^ j - 100 * real m\<bar> \<le> 64"
  proof -
    have "real e * 2 ^ j - 100 * real m = (real e - 100 * real m / 2 ^ j) * 2 ^ j" by (simp add: field_simps)
    then have "\<bar>real e * 2 ^ j - 100 * real m\<bar> = \<bar>real e - 100 * real m / 2 ^ j\<bar> * 2 ^ j" by (simp add: abs_mult)
    also have "\<dots> \<le> 1 / 2 * 2 ^ j" using e by (rule mult_right_mono) simp
    also have "\<dots> \<le> 64" by (simp add: j_def)
    finally show ?thesis .
  qed
  moreover have "X * 2 ^ k = 100 * (real d * 2 ^ k / real n)" by (simp add: X_def)
  then have "\<bar>100 * real m - X * 2 ^ k\<bar> \<le> 50" using m by linarith
  ultimately have err: "\<bar>real e * 2 ^ j - X * 2 ^ k\<bar> \<le> 114" by linarith
  define a N K :: nat where "a = e * 2 ^ j" and "N = 100 * d div n" and "K = 2 ^ k"
  have perc: "perc_read d n = a div K"
    by (simp add: perc_read_def Let_def a_def K_def e_def j_def m_def k_def)
  have err: "\<bar>real a - X * real K\<bar> \<le> 114" using err by (simp add: a_def K_def)
  have K: "2 ^ 53 \<le> real K" using k by (simp add: K_def)
  have nX: "X * real n = real (100 * d)" using n by (simp add: X_def)
  have "n * N \<le> 100 * d" "100 * d + 1 \<le> n * N + n"
    using assms mod_less_divisor [of n "100 * d"] mult_div_mod_eq [of n "100 * d"] unfolding N_def by linarith+
  then have "real n * real N \<le> X * real n" "X * real n + 1 \<le> real n * real N + real n"
    unfolding nX by (metis of_nat_le_iff of_nat_mult of_nat_add of_nat_1)+
  then have lo: "real N \<le> X" and hi: "X + 1 / real n \<le> real N + 1"
    using n by (simp_all add: field_simps)
  have "real n \<le> 2 ^ 40" using assms(2) by (metis of_nat_le_iff of_nat_numeral of_nat_power)
  then have "2 ^ 53 / 2 ^ 40 \<le> real K / real n" using K n by (intro frac_le) simp_all
  then have Kn: "8192 \<le> real K / real n" by simp
  have "(X + 1 / real n) * real K \<le> (real N + 1) * real K" using hi by (rule mult_right_mono) simp
  then have "X * real K + real K / real n \<le> (real N + 1) * real K" by (simp add: field_simps)
  with err Kn have "real a < (real N + 1) * real K" by linarith
  then have "real a < real ((N + 1) * K)" by (simp add: algebra_simps)
  then have up: "a div K < N + 1" by (metis of_nat_less_iff less_mult_imp_div_less)
  have "real N * real K \<le> X * real K" using lo by (rule mult_right_mono) simp
  moreover have "114 \<le> real K" using K by simp
  ultimately have "real N * real K \<le> real a + real K" using err by linarith
  then have "real (N * K) \<le> real (a + K)" by simp
  then have "N * K \<le> a + K" by (simp only: of_nat_le_iff)
  then have "N \<le> (a + K) div K" using div_le_mono [of "N * K" "a + K" K] by (simp add: K_def)
  then have down: "N \<le> a div K + 1" by (simp add: K_def)
  have "N < 100" using assms unfolding N_def by (simp add: div_less_iff_less_mult)
  with up down show ?thesis unfolding perc N_def by linarith
qed

lemma failed_with_first:
  assumes "failed_with B docs e"
  shows "takeWhile (embeddable B) docs \<noteq> docs \<and>
     bu_embed_documents B (fst (docs ! length (takeWhile (embeddable B) docs))) = Inl e"
proof -
  obtain pre t md post where d: "docs = pre @ (t, md) # post" "list_all (embeddable B) pre" "t \<noteq> []" "bu_embed_documents B t = Inl e"
    using assms unfolding failed_with_def by blast
  then have "takeWhile (embeddable B) docs = pre"
    by (auto simp: takeWhile_append2 list_all_iff embeddable_def)
  with d show ?thesis by simp
qed

text \<open>
  C35. Storing documents, for plugins whose hooks only edit documents (\<open>g\<close> each one, \<open>F\<close> the list)
  and sockets that take the notifications.  The documents are stamped with source,
  time and the metadata of the request, edited, and written one after the other up to the first whose text cannot be embedded: then the
  error of the embedder is raised and what was written before stays.  Documents without text are skipped; other collections and the session keep their state.
\<close>
theorem store_documents_effect:
  assumes "qdrant_laws (e_qdrant (bu_env B)) view" and "view (c_db c) ''declarative'' = Some k"
    and "pure_hook (bu_env B) ''before_rabbithole_stores_documents'' F" "F (TDocs docs) = TDocs docs'"
    and "pure_hook (bu_env B) ''before_rabbithole_insert_memory'' G" "\<And>d. G (TDoc d) = TDoc (g d)"
    and "after_stored_harmless (bu_env B)" and "sockets_open (bu_env B)"
  shows "\<exists>r c'. store_documents B (TDocs docs) source (PDict custom) c = (r, c') \<and> only_stored c c' \<and>
     (let prep = prepared g source custom docs' (when_readings (bu_clock B) (length docs') (bu_clock B 0) 1);
          written = takeWhile (embeddable B) prep
      in view (c_db c') = (view (c_db c))(''declarative'' \<mapsto> write_points (new_points B (c_points_made c) written) k) \<and>
         (if written = prep then r = Inr ()
          else \<exists>e. r = Inl e \<and> bu_embed_documents B (fst (prep ! length written)) = Inl e))"
proof -
  let ?prep = "prepared g source custom docs' (when_readings (bu_clock B) (length docs') (bu_clock B 0) 1)"
  obtain r c' where s: "store_documents B (TDocs docs) source (PDict custom) c = (r, c')" "only_stored c c'"
    "view (c_db c') = (view (c_db c))(''declarative'' \<mapsto> write_points (new_points B (c_points_made c) ?prep) k)"
    "if list_all (embeddable B) ?prep then r = Inr () else \<exists>e. r = Inl e \<and> failed_with B ?prep e"
    using store_documents_eff [OF assms(1) assms(2) assms(3) assms(4) assms(5) assms(6) assms(7) assms(8), of source custom]
    unfolding Let_def by blast
  have "list_all (embeddable B) ?prep \<longleftrightarrow> takeWhile (embeddable B) ?prep = ?prep"
    by (metis Ball_set takeWhile_eq_all_conv)
  with s failed_with_first [of B ?prep] show ?thesis
    unfolding Let_def takeWhile_embeddable_points by (intro exI [of _ r] exI [of _ c']) (auto split: if_splits)
qed


section \<open>Concrete instances\<close>

lemma core_only_plain:
  assumes "mh_hooks (e_mad_hatter E) = mh_hooks core_mad_hatter"
  shows "plain_hooks E"
proof -
  have "pure_hook E n id" if "n \<in> set editing_hooks" for n
  proof -
    let ?h = "returning_hook n :: (('a, 'b) tea, ('a, 'b, 'c) cat) cat_hook"
    have "?h \<in> set core_hooks" using that by (auto simp: editing_hooks_def core_hooks_def rabbithole_hooks_def)
    from core_lookup [OF this] assms have "dict_get (mh_hooks (e_mad_hatter E)) n = Some [clean_hook ''core_plugin'' ?h]"
      by (simp add: returning_hook_def)
    then show ?thesis by (simp add: pure_hook_def hook_def execute_hook_def clean_hook_def returning_hook_def)
  qed
  moreover have "after_stored_harmless E"
  proof -
    let ?h = "passing_hook ''after_rabbithole_stored_documents'' :: (('a, 'b) tea, ('a, 'b, 'c) cat) cat_hook"
    have "?h \<in> set core_hooks" by (simp add: core_hooks_def rabbithole_hooks_def)
    from core_lookup [OF this] assms
    have "dict_get (mh_hooks (e_mad_hatter E)) ''after_rabbithole_stored_documents'' = Some [clean_hook ''core_plugin'' ?h]"
      by (simp add: passing_hook_def)
    then show ?thesis
      by (auto simp: after_stored_harmless_def hook_with_def execute_hook_def clean_hook_def passing_hook_def split: list.split)
  qed
  ultimately show ?thesis by (simp add: plain_hooks_def)
qed

definition demo_burrow :: "(nat, unit, mem_db) burrow" where
  "demo_burrow =
     \<lparr>bu_env = demo_env, bu_parse = (\<lambda>h mime source bytes. Inr [(bytes, [])]),
      bu_split = (\<lambda>S docs. Inr (map (\<lambda>w. (w, [])) (split_on CHR '';'' (concat (map fst docs))))),
      bu_embed_documents = (\<lambda>t. if t = ''bad'' then Inl (ValueError ''no'') else Inr (length t)),
      bu_embedder_name = ''ada'', bu_embedder_size = 7, bu_vector_length = id,
      bu_mime = (\<lambda>name. if name = ''a.txt'' then Some ''text/plain'' else None),
      bu_get = (\<lambda>_. Inl TypeError), bu_head = (\<lambda>_. NoAnswer), bu_read = (\<lambda>_. Inl TypeError),
      bu_loads = (\<lambda>_. Inr (PDict [])),
      bu_load_memories = (\<lambda>_. Inr \<lparr>mf_embedder = Some ''ada'', mf_collections = Some [(''declarative'', map memory_entry_of [demo_point])]\<rparr>),
      bu_clock = int\<rparr>"

definition demo_upload :: upload_file where
  "demo_upload = \<lparr>uf_filename = ''a.txt'', uf_content_type = None, uf_bytes = ''a long enough chunk;short;another long chunk''\<rparr>"

lemma demo_burrow_facts:
  "plain_hooks (bu_env demo_burrow)" "sockets_open (bu_env demo_burrow)" "e_qdrant (bu_env demo_burrow) = mem_qdrant"
  "e_uuid (bu_env demo_burrow) = demo_uuid"
proof -
  show "plain_hooks (bu_env demo_burrow)"
    by (rule core_only_plain) (simp add: demo_burrow_def demo_env_def demo_hatter_hooks)
qed (simp_all add: demo_burrow_def demo_env_def sockets_open_def)

lemma inj_demo_uuid: "inj demo_uuid"
  by (rule injI) (simp add: demo_uuid_def, rule show_nat_inj)

lemma demo_chunks:
  "bu_parse demo_burrow default_file_handlers (bu_mime demo_burrow (uf_filename demo_upload)) (uf_filename demo_upload) (uf_bytes demo_upload) =
     Inr [(uf_bytes demo_upload, [])]"
  "bu_split demo_burrow S [(uf_bytes demo_upload, [])] = Inr [(''a long enough chunk'', []), (''short'', []), (''another long chunk'', [])]"
  by (simp_all add: demo_burrow_def demo_upload_def)

lemma demo_declarative: "mem_view (c_db demo_cat) ''declarative'' = Some \<lparr>co_size = 3, co_aliases = [''ada_declarative''], co_points = Map.empty\<rparr>"
  by (simp add: mem_view_def demo_cat_def)

theorem ingest_upload_witness:
  "\<exists>c' k' p. ingest_file demo_burrow (Uploaded demo_upload) None (Some 0) (PDict [(''source'', PStr ''mine'')]) demo_cat = (Inr (), c') \<and>
     mem_view (c_db c') ''declarative'' = Some k' \<and> dom (co_points k') = {demo_uuid 0, demo_uuid 1} \<and>
     co_points k' (demo_uuid 1) = Some p \<and> pt_content p = ''another long chunk'' \<and> dict_get (pt_metadata p) ''source'' = Some (PStr ''mine'')"
proof -
  let ?k = "\<lparr>co_size = 3, co_aliases = [''ada_declarative''], co_points = Map.empty :: string \<rightharpoonup> nat point\<rparr>"
  let ?chunks = "[(''a long enough chunk'', []), (''short'', []), (''another long chunk'', [])] :: (string \<times> metadata) list"
  have laws: "qdrant_laws (e_qdrant (bu_env demo_burrow)) mem_view" using mem_qdrant_laws by (simp add: demo_burrow_facts)
  have em: "list_all (embeddable demo_burrow) ?chunks" by (simp add: embeddable_def demo_burrow_def)
  have kept: "kept_chunks ?chunks = [(''a long enough chunk'', []), (''another long chunk'', [])]" by (simp add: kept_chunks_def)
  have made: "c_points_made demo_cat = 0" by (simp add: demo_cat_def)
  have inj: "inj (e_uuid (bu_env demo_burrow))" using inj_demo_uuid by (simp add: demo_burrow_facts)
  have fresh: "co_points ?k (e_uuid (bu_env demo_burrow) i) = None" for i by simp
  have cu: "dict_ok [(''source'', PStr ''mine'')]" by simp
  let ?ids = "e_uuid (bu_env demo_burrow)" and ?i = "c_points_made demo_cat" and ?n = "length (kept_chunks ?chunks)"
  obtain c' k' where r: "ingest_file demo_burrow (Uploaded demo_upload) None (Some 0) (PDict [(''source'', PStr ''mine'')]) demo_cat = (Inr (), c')"
    "mem_view (c_db c') = (mem_view (c_db demo_cat))(''declarative'' \<mapsto> k')"
    "dom (co_points k') = dom (co_points ?k) \<union> ?ids ` {?i ..< ?i + ?n}"
    "\<forall>j < ?n. \<exists>p now. co_points k' (?ids (?i + j)) = Some p \<and> pt_content p = fst (kept_chunks ?chunks ! j) \<and>
        bu_embed_documents demo_burrow (pt_content p) = Inr (pt_vector p) \<and>
        (\<forall>x. dict_get (pt_metadata p) x =
           (case dict_get [(''source'', PStr ''mine'')] x of
              Some w \<Rightarrow> Some w
            | None \<Rightarrow> if x = ''when'' then Some (PInt (bu_clock demo_burrow now)) else if x = ''source'' then Some (PStr (uf_filename demo_upload))
                else dict_get (snd (kept_chunks ?chunks ! j)) x))"
    using ingest_upload [OF laws demo_declarative demo_burrow_facts(1,2) cu demo_chunks(1) demo_chunks(2) em inj fresh, of None "Some 0"]
    by (elim exE conjE) (rule that; assumption)
  have "{0 ..< 2 :: nat} = {0, 1}" by auto
  with r(3) have d: "dom (co_points k') = {demo_uuid 0, demo_uuid 1}" by (simp add: kept made demo_burrow_facts numeral_2_eq_2 atLeast0_lessThan_Suc insert_commute)
  have "1 < ?n" by (simp add: kept)
  from r(4) [rule_format, OF this] obtain p now where p: "co_points k' (demo_uuid 1) = Some p" "pt_content p = ''another long chunk''"
    "dict_get (pt_metadata p) ''source'' = (case dict_get [(''source'', PStr ''mine'')] ''source'' of Some w \<Rightarrow> Some w | None \<Rightarrow> None)"
    by (auto simp: kept made demo_burrow_facts(4) split: option.splits)
  show ?thesis
    by (intro exI [of _ c'] exI [of _ k'] exI [of _ p] conjI) (use r(1,2) d p in simp_all)
qed

theorem store_documents_effect_witness:
  "\<exists>c'. store_documents demo_burrow (TDocs [(''one'', []), ([], []), (''bad'', []), (''two'', [])]) ''a.txt'' (PDict []) demo_cat
       = (Inl (ValueError ''no''), c') \<and>
     (\<exists>k p. mem_view (c_db c') ''declarative'' = Some k \<and> co_points k = [demo_uuid 0 \<mapsto> p] \<and> pt_content p = ''one'')"
proof -
  let ?docs = "[(''one'', []), ([], []), (''bad'', []), (''two'', [])] :: (string \<times> metadata) list"
  let ?k = "\<lparr>co_size = 3, co_aliases = [''ada_declarative''], co_points = Map.empty :: string \<rightharpoonup> nat point\<rparr>"
  let ?prep = "prepared id ''a.txt'' [] ?docs (when_readings (bu_clock demo_burrow) (length ?docs) (bu_clock demo_burrow 0) 1)"
  have laws: "qdrant_laws (e_qdrant (bu_env demo_burrow)) mem_view" using mem_qdrant_laws by (simp add: demo_burrow_facts)
  have h: "pure_hook (bu_env demo_burrow) ''before_rabbithole_stores_documents'' id"
    "pure_hook (bu_env demo_burrow) ''before_rabbithole_insert_memory'' id" "after_stored_harmless (bu_env demo_burrow)"
    using demo_burrow_facts(1) by (simp_all add: plain_hooks_def editing_hooks_def)
  have ids: "id (TDocs ?docs) = TDocs ?docs" "\<And>d. id (TDoc d) = TDoc (id d)" by simp_all
  have em: "embeddable demo_burrow (t, md) \<longleftrightarrow> t \<noteq> ''bad''" for t md by (simp add: embeddable_def demo_burrow_def)
  have "map fst ?prep = map fst ?docs" by (rule prepared_texts) (rule when_readings_length)
  then have "map fst ?prep = [''one'', [], ''bad'', ''two'']" by (simp only: list.map fst_conv)
  then obtain md1 md2 md3 md4 where prep: "?prep = [(''one'', md1), ([], md2), (''bad'', md3), (''two'', md4)]"
  proof -
    have "\<exists>m1 m2 m3 m4. xs = [(''one'', m1), ([], m2), (''bad'', m3), (''two'', m4)]" if "map fst xs = [''one'', [], ''bad'', ''two'']"
      for xs :: "(string \<times> metadata) list" using that by (auto simp: map_eq_Cons_conv)
    from this [OF \<open>map fst ?prep = [''one'', [], ''bad'', ''two'']\<close>] that show ?thesis by blast
  qed
  have w: "takeWhile (embeddable demo_burrow) ?prep = [(''one'', md1), ([], md2)]" "fst (?prep ! 2) = ''bad''"
    "takeWhile (embeddable demo_burrow) ?prep \<noteq> ?prep"
    unfolding prep by (simp_all add: em)
  have len: "length (takeWhile (embeddable demo_burrow) ?prep) = 2" unfolding w(1) by simp
  obtain r c' where s: "store_documents demo_burrow (TDocs ?docs) ''a.txt'' (PDict []) demo_cat = (r, c')"
    "mem_view (c_db c') = (mem_view (c_db demo_cat))(''declarative'' \<mapsto>
       write_points (new_points demo_burrow (c_points_made demo_cat) (takeWhile (embeddable demo_burrow) ?prep)) ?k)"
    "if takeWhile (embeddable demo_burrow) ?prep = ?prep then r = Inr ()
     else \<exists>e. r = Inl e \<and> bu_embed_documents demo_burrow (fst (?prep ! length (takeWhile (embeddable demo_burrow) ?prep))) = Inl e"
    using store_documents_effect [OF laws demo_declarative h(1) ids(1) h(2) ids(2) h(3) demo_burrow_facts(2), of "''a.txt''" "[]"]
    unfolding Let_def by blast
  have bad: "bu_embed_documents demo_burrow ''bad'' = Inl (ValueError ''no'')" by (simp add: demo_burrow_def)
  from s(3) have "r = Inl (ValueError ''no'')" unfolding len if_not_P [OF w(3)] w(2) bad by blast
  moreover have "new_points demo_burrow (c_points_made demo_cat) (takeWhile (embeddable demo_burrow) ?prep) =
      [\<lparr>pt_id = demo_uuid 0, pt_content = ''one'', pt_metadata = md1, pt_vector = 3\<rparr>]"
    unfolding w(1) by (simp add: demo_cat_def demo_burrow_def demo_env_def)
  ultimately show ?thesis
    using s(1,2) by (intro exI [of _ c']) (auto intro!: exI [of _ "\<lparr>pt_id = demo_uuid 0, pt_content = ''one'', pt_metadata = md1, pt_vector = 3\<rparr>"])
qed

theorem batch_upload_order_witness:
  "(\<exists>response. upload_files demo_burrow [demo_upload] None None ''{}'' demo_cat =
      (Inr (response, [IngestFile (Uploaded demo_upload) None None (PDict [])]), demo_cat)) \<and>
   upload_files demo_burrow [demo_upload, demo_upload\<lparr>uf_filename := ''b.exe''\<rparr>] None None ''{}'' demo_cat = (Inl (HTTPException 400), demo_cat) \<and>
   run_tasks demo_burrow (\<lambda>_. int) ([] @ IngestFile OtherObject None None PNone # [IngestMemory []]) 0 demo_cat =
      (Inl (ValueError ''is not a valid type.''), demo_cat)"
proof -
  have "file_handlers demo_burrow demo_cat = (Inr (TParsers default_file_handlers), demo_cat)"
    unfolding file_handlers_def by (rule plain_hook [OF demo_burrow_facts(1)]) (simp add: editing_hooks_def)
  then have t: "admitted_types demo_burrow demo_cat = (Inr (dict_keys default_file_handlers), demo_cat)"
    by (simp add: admitted_types_def bnd_def ret_def)
  have l: "bu_loads demo_burrow ''{}'' = Inr (PDict [])" by (simp add: demo_burrow_def)
  have m: "is_admitted (dict_keys default_file_handlers) (bu_mime demo_burrow (uf_filename demo_upload))"
    "\<not> is_admitted (dict_keys default_file_handlers) (bu_mime demo_burrow (uf_filename (demo_upload\<lparr>uf_filename := ''b.exe''\<rparr>)))"
    by (simp_all add: is_admitted_def demo_burrow_def demo_upload_def default_file_handlers_def)
  have r: "run_tasks demo_burrow (\<lambda>_. int) [] 0 demo_cat = (Inr (), demo_cat)"
    "run_task (demo_burrow\<lparr>bu_clock := int\<rparr>) (IngestFile OtherObject None None PNone) demo_cat = (Inl (ValueError ''is not a valid type.''), demo_cat)"
    by (simp_all add: ret_def run_task_def ingest_file_def file_to_docs_def bnd_def raise_def)
  note b = batch_upload_order [OF t l]
  show ?thesis
  proof (intro conjI)
    show "\<exists>response. upload_files demo_burrow [demo_upload] None None ''{}'' demo_cat =
      (Inr (response, [IngestFile (Uploaded demo_upload) None None (PDict [])]), demo_cat)"
      using b [THEN conjunct2, THEN conjunct1, of "[demo_upload]" None None] m by simp
    show "upload_files demo_burrow [demo_upload, demo_upload\<lparr>uf_filename := ''b.exe''\<rparr>] None None ''{}'' demo_cat = (Inl (HTTPException 400), demo_cat)"
      by (rule b [THEN conjunct1, THEN mp]) (use m in simp)
    show "run_tasks demo_burrow (\<lambda>_. int) ([] @ IngestFile OtherObject None None PNone # [IngestMemory []]) 0 demo_cat =
      (Inl (ValueError ''is not a valid type.''), demo_cat)"
      by (rule b [THEN conjunct2, THEN conjunct2, THEN mp]) (use r in simp)
  qed
qed

theorem ingest_memory_round_trip_witness:
  "\<exists>c'. ingest_memory demo_burrow [] demo_cat = (Inr (), c') \<and> mem_points ''declarative'' (c_db c') = [(''p1'', demo_point)]"
proof -
  have l: "bu_load_memories demo_burrow [] = Inr \<lparr>mf_embedder = Some ''ada'', mf_collections = Some [(''declarative'', map memory_entry_of [demo_point])]\<rparr>"
    "dict_get [(''declarative'', map memory_entry_of [demo_point])] ''declarative'' = Some (map memory_entry_of [demo_point])"
    by (simp_all add: demo_burrow_def)
  have "''ada'' = bu_embedder_name demo_burrow \<and> (\<exists>p \<in> set [demo_point]. bu_vector_length demo_burrow (pt_vector p) = bu_embedder_size demo_burrow)"
    by (simp add: demo_burrow_def demo_point_def)
  with ingest_memory_round_trip [OF l, of demo_cat] show ?thesis
    by (auto simp: demo_burrow_facts mem_qdrant_def mem_points_def set_points_def demo_cat_def demo_point_def)
qed

theorem progress_never_ahead_witness: "perc_read 29 50 \<le> 58 \<and> 57 \<le> perc_read 29 50"
  using progress_never_ahead [of 29 50] by simp

end
