(* ===== verification/White_Rabbit.thy ===== *)
theory White_Rabbit
  imports Session
begin

text \<open>
  The scheduler (\<open>looking_glass/white_rabbit.py\<close>): jobs are handed to a scheduler of the library APScheduler, which is the argument
  \<open>scheduler\<close>; \<open>scheduler_laws\<close> states its documented behaviour on the jobs \<open>view\<close> shows.  Times are microseconds since the start of
  year 1, as naive local times or, inside the scheduler, as times in UTC.
\<close>


section \<open>Dates (datetime)\<close>

definition second :: int where "second = 1000000"
definition day :: int where "day = 86400 * second"
definition max_time :: int where "max_time = 3652059 * day"

text \<open>\<open>timedelta(days, hours, minutes, seconds, milliseconds, microseconds)\<close> and its sum with a time; both may overflow.\<close>

record delay =
  dl_days :: int
  dl_hours :: int
  dl_minutes :: int
  dl_seconds :: int
  dl_milliseconds :: int
  dl_microseconds :: int

definition delay_span :: "delay \<Rightarrow> int" where
  "delay_span d =
     dl_days d * day + (dl_hours d * 3600 + dl_minutes d * 60 + dl_seconds d) * second + dl_milliseconds d * 1000 + dl_microseconds d"

definition overflow_error :: py_exc where
  "overflow_error = Exception ''OverflowError''"

definition add_delay :: "int \<Rightarrow> delay \<Rightarrow> int result" where
  "add_delay t d =
     (let span = delay_span d
      in if \<bar>span div day\<bar> > 999999999 then Inl overflow_error
         else if t + span < 0 \<or> max_time \<le> t + span then Inl overflow_error
         else Inr (t + span))"

text \<open>The date of the \<open>n\<close>-th day from the start of year 1, as the standard library computes it.\<close>

definition days_before_month :: "int list" where
  "days_before_month = [0, 0, 31, 59, 90, 120, 151, 181, 212, 243, 273, 304, 334]"

definition days_in_month :: "int list" where
  "days_in_month = [0, 31, 28, 31, 30, 31, 30, 31, 31, 30, 31, 30, 31]"

definition ymd :: "int \<Rightarrow> int \<times> int \<times> int" where
  "ymd n =
     (let n400 = n div 146097; n = n mod 146097;
          n100 = n div 36524; n = n mod 36524;
          n4 = n div 1461; n = n mod 1461;
          n1 = n div 365; n = n mod 365;
          year = n400 * 400 + 1 + n100 * 100 + n4 * 4 + n1
      in if n1 = 4 \<or> n100 = 4 then (year - 1, 12, 31)
         else
           (let leap = (n1 = 3 \<and> (n4 \<noteq> 24 \<or> n100 = 3));
                month = (n + 50) div 32;
                preceding = days_before_month ! nat month + (if month > 2 \<and> leap then 1 else 0)
            in if preceding > n
               then (year, month - 1, n - (preceding - (days_in_month ! nat (month - 1) + (if month - 1 = 2 \<and> leap then 1 else 0))) + 1)
               else (year, month, n - preceding + 1)))"

definition strftime :: "int \<Rightarrow> string" where
  "strftime t =
     (let (y, m, d) = ymd (t div day); s = t mod day div second
      in pad_int 2 m @ ''/'' @ pad_int 2 d @ ''/'' @ show_int y @ ''-'' @
         pad_int 2 (s div 3600) @ '':'' @ pad_int 2 (s div 60 mod 60) @ '':'' @ pad_int 2 (s mod 60))"


section \<open>Jobs and the scheduler\<close>

text \<open>A callable may have no name, as a partial application has none.\<close>

datatype 'f callable = Callable 'f "string option" | NotCallable

record interval =
  iv_start :: "int option"
  iv_end :: "int option"
  iv_days :: int
  iv_hours :: int
  iv_minutes :: int
  iv_seconds :: int

record cron =
  cr_start :: "int option"
  cr_end :: "int option"
  cr_fields :: "(string, pyval) dict"

datatype job_trigger = Date int | Interval interval | Cron cron

record 'f job =
  jb_name :: string
  jb_function :: 'f
  jb_kwargs :: "(string, pyval) dict"
  jb_trigger :: job_trigger
  jb_next_run :: "int option"

record ('f, 'j) scheduler =
  sc_start :: "'j \<Rightarrow> py_exc option \<times> 'j"
  sc_add_job :: "'f \<Rightarrow> job_trigger \<Rightarrow> string \<Rightarrow> (string, pyval) dict \<Rightarrow> 'j \<Rightarrow> py_exc option \<times> 'j"
  sc_get_job :: "string \<Rightarrow> 'j \<Rightarrow> 'f job option"
  sc_get_jobs :: "'j \<Rightarrow> (string \<times> 'f job) list"
  sc_pause_job :: "string \<Rightarrow> 'j \<Rightarrow> py_exc option \<times> 'j"
  sc_resume_job :: "string \<Rightarrow> 'j \<Rightarrow> py_exc option \<times> 'j"
  sc_remove_job :: "string \<Rightarrow> 'j \<Rightarrow> py_exc option \<times> 'j"

text \<open>
  What the code relies on, for the states of a scheduler that was started: an identifier is used once, operations on an unknown job raise and change nothing.
  A date job is due at its date, and again after it was paused and resumed; a paused job has no next run.  A function is first inspected and refused
  when it does not take the arguments by name (\<open>accepts\<close>).  When the start failed, which the code logs, jobs stay
  pending and nothing is stated about them.
\<close>

definition scheduler_laws :: "('f, 'j) scheduler \<Rightarrow> ('j \<Rightarrow> string \<rightharpoonup> 'f job) \<Rightarrow> ('f \<Rightarrow> (string, pyval) dict \<Rightarrow> bool) \<Rightarrow> bool" where
  "scheduler_laws S view accepts \<longleftrightarrow>
     (\<forall>s i. sc_get_job S i s = view s i) \<and>
     (\<forall>s. map_of (sc_get_jobs S s) = view s) \<and>
     (\<forall>s f tr i kw. \<not> accepts f kw \<longrightarrow> (\<exists>e s'. sc_add_job S f tr i kw s = (Some e, s') \<and> view s' = view s)) \<and>
     (\<forall>s f tr i kw. i \<in> dom (view s) \<longrightarrow> accepts f kw \<longrightarrow>
        (\<exists>s'. sc_add_job S f tr i kw s = (Some (Exception ''ConflictingIdError''), s') \<and> view s' = view s)) \<and>
     (\<forall>s f t i kw. i \<notin> dom (view s) \<longrightarrow> accepts f kw \<longrightarrow>
        (\<exists>s' n. sc_add_job S f (Date t) i kw s = (None, s') \<and>
           view s' = (view s)(i \<mapsto> \<lparr>jb_name = n, jb_function = f, jb_kwargs = kw, jb_trigger = Date t, jb_next_run = Some t\<rparr>))) \<and>
     (\<forall>s f tr i kw e s'. sc_add_job S f tr i kw s = (Some e, s') \<longrightarrow> view s' = view s) \<and>
     (\<forall>s i. case view s i of
        Some j \<Rightarrow>
          (\<exists>s'. sc_pause_job S i s = (None, s') \<and> view s' = (view s)(i \<mapsto> j\<lparr>jb_next_run := None\<rparr>)) \<and>
          (\<forall>t. jb_trigger j = Date t \<longrightarrow>
             (\<exists>s'. sc_resume_job S i s = (None, s') \<and> view s' = (view s)(i \<mapsto> j\<lparr>jb_next_run := Some t\<rparr>))) \<and>
          (\<exists>s'. sc_remove_job S i s = (None, s') \<and> view s' = (view s)(i := None))
      | None \<Rightarrow>
          (\<exists>e s'. sc_pause_job S i s = (Some e, s') \<and> view s' = view s) \<and>
          (\<exists>e s'. sc_resume_job S i s = (Some e, s') \<and> view s' = view s) \<and>
          (\<exists>e s'. sc_remove_job S i s = (Some e, s') \<and> view s' = view s))"


section \<open>white\_rabbit.py\<close>

text \<open>An error at the start is logged.\<close>

definition white_rabbit_init :: "('f, 'j) scheduler \<Rightarrow> 'j \<Rightarrow> 'j" where
  "white_rabbit_init S s = snd (sc_start S s)"

record job_info =
  ji_id :: string
  ji_name :: string
  ji_next_run :: "int option"

definition job_info_of :: "string \<Rightarrow> 'f job \<Rightarrow> job_info" where
  "job_info_of i j = \<lparr>ji_id = i, ji_name = jb_name j, ji_next_run = jb_next_run j\<rparr>"

definition get_job :: "('f, 'j) scheduler \<Rightarrow> string \<Rightarrow> 'j \<Rightarrow> job_info option" where
  "get_job S i s = (case sc_get_job S i s of None \<Rightarrow> None | Some j \<Rightarrow> Some (job_info_of i j))"

definition get_jobs :: "('f, 'j) scheduler \<Rightarrow> 'j \<Rightarrow> job_info list" where
  "get_jobs S s = map (\<lambda>(i, j). job_info_of i j) (sc_get_jobs S s)"

definition outcome :: "py_exc option \<times> 'j \<Rightarrow> bool \<times> 'j" where
  "outcome r = (case r of (None, s) \<Rightarrow> (True, s) | (Some e, s) \<Rightarrow> (False, s))"

definition pause_job :: "('f, 'j) scheduler \<Rightarrow> string \<Rightarrow> 'j \<Rightarrow> bool \<times> 'j" where
  "pause_job S i s = outcome (sc_pause_job S i s)"

definition resume_job :: "('f, 'j) scheduler \<Rightarrow> string \<Rightarrow> 'j \<Rightarrow> bool \<times> 'j" where
  "resume_job S i s = outcome (sc_resume_job S i s)"

definition remove_job :: "('f, 'j) scheduler \<Rightarrow> string \<Rightarrow> 'j \<Rightarrow> bool \<times> 'j" where
  "remove_job S i s = outcome (sc_remove_job S i s)"

definition add_job ::
  "('f, 'j) scheduler \<Rightarrow> 'f \<Rightarrow> job_trigger \<Rightarrow> string \<Rightarrow> (string, pyval) dict \<Rightarrow> 'j \<Rightarrow> string result \<times> 'j" where
  "add_job S f tr i kwargs s =
     (case sc_add_job S f tr i kwargs s of
        (Some e, s) \<Rightarrow> (Inl e, s)
      | (None, s) \<Rightarrow> (Inr i, s))"

text \<open>The identifier given, or one made from the name of the function, which a callable may lack.\<close>

definition job_id_or :: "string option \<Rightarrow> string option \<Rightarrow> string \<Rightarrow> string result" where
  "job_id_or job_id name ending =
     (case job_id of
        Some i \<Rightarrow> Inr i
      | None \<Rightarrow> (case name of Some n \<Rightarrow> Inr (n @ ending) | None \<Rightarrow> Inl (AttributeError ''__name__'')))"

definition schedule_with ::
  "('f, 'j) scheduler \<Rightarrow> 'f callable \<Rightarrow> string option \<Rightarrow> string \<Rightarrow> job_trigger \<Rightarrow> (string, pyval) dict \<Rightarrow> 'j \<Rightarrow> string result \<times> 'j" where
  "schedule_with S job job_id ending tr kwargs s =
     (case job of
        NotCallable \<Rightarrow> (Inl TypeError, s)
      | Callable f name \<Rightarrow>
          (case job_id_or job_id name ending of
             Inl e \<Rightarrow> (Inl e, s)
           | Inr i \<Rightarrow> add_job S f tr i kwargs s))"

text \<open>\<open>today\<close> is the local time of the server.\<close>

definition schedule_job ::
  "('f, 'j) scheduler \<Rightarrow> int \<Rightarrow> 'f callable \<Rightarrow> string option \<Rightarrow> delay \<Rightarrow> (string, pyval) dict \<Rightarrow> 'j \<Rightarrow> string result \<times> 'j" where
  "schedule_job S today job job_id d kwargs s =
     (case add_delay today d of
        Inl e \<Rightarrow> (Inl e, s)
      | Inr schedule \<Rightarrow> schedule_with S job job_id (''-'' @ strftime schedule) (Date schedule) kwargs s)"

definition schedule_interval_job ::
  "('f, 'j) scheduler \<Rightarrow> 'f callable \<Rightarrow> string option \<Rightarrow> interval \<Rightarrow> (string, pyval) dict \<Rightarrow> 'j \<Rightarrow> string result \<times> 'j" where
  "schedule_interval_job S job job_id iv kwargs s =
     schedule_with S job job_id
       (''-interval-'' @ show_int (iv_days iv) @ ''-'' @ show_int (iv_hours iv) @ ''-'' @ show_int (iv_minutes iv) @ ''-'' @ show_int (iv_seconds iv))
       (Interval iv) kwargs s"

definition schedule_cron_job ::
  "('f, 'j) scheduler \<Rightarrow> 'f callable \<Rightarrow> string option \<Rightarrow> cron \<Rightarrow> (string, pyval) dict \<Rightarrow> 'j \<Rightarrow> string result \<times> 'j" where
  "schedule_cron_job S job job_id cr kwargs s = schedule_with S job job_id ''-cron'' (Cron cr) kwargs s"

text \<open>The function is \<open>sender\<close>, the method \<open>send_ws_message\<close> of the session.\<close>

definition schedule_chat_message ::
  "('f, 'j) scheduler \<Rightarrow> int \<Rightarrow> string \<Rightarrow> 'f \<Rightarrow> delay \<Rightarrow> 'j \<Rightarrow> string result \<times> 'j" where
  "schedule_chat_message S today content sender d s =
     (case add_delay today d of
        Inl e \<Rightarrow> (Inl e, s)
      | Inr schedule \<Rightarrow>
          add_job S sender (Date schedule) (''send_ws_message-'' @ strftime schedule)
            [(''content'', PStr content), (''msg_type'', PStr ''chat'')] s)"

section \<open>Lemmas\<close>

lemma strftime_second: "t div second = t' div second \<Longrightarrow> strftime t = strftime t'"
proof -
  assume eq: "t div second = t' div second"
  have d: "x div day = x div second div 86400" for x
    using zdiv_zmult2_eq [of 86400 x 1000000] by (simp add: day_def second_def)
  have m: "x mod day div second = x div second mod 86400" for x
    using zmod_zmult2_eq [of 86400 x 1000000] by (simp add: day_def second_def)
  from eq show ?thesis by (simp add: strftime_def d m)
qed

lemmas scheduler_law = scheduler_laws_def [THEN iffD1]
lemmas law_get = scheduler_law [THEN conjunct1, rule_format]
lemmas law_refused = scheduler_law [THEN conjunct2, THEN conjunct2, THEN conjunct1, rule_format]
lemmas law_taken = scheduler_law [THEN conjunct2, THEN conjunct2, THEN conjunct2, THEN conjunct1, rule_format]
lemmas law_free = scheduler_law [THEN conjunct2, THEN conjunct2, THEN conjunct2, THEN conjunct2, THEN conjunct1, rule_format]
lemmas law_control =
  scheduler_law [THEN conjunct2, THEN conjunct2, THEN conjunct2, THEN conjunct2, THEN conjunct2, THEN conjunct2, THEN spec, THEN spec]

lemma add_law_refused:
  assumes "scheduler_laws S view accepts" and "\<not> accepts f kw"
  shows "\<exists>e s'. add_job S f tr i kw s = (Inl e, s') \<and> view s' = view s"
proof -
  obtain e s' where "sc_add_job S f tr i kw s = (Some e, s')" "view s' = view s"
    using law_refused [OF assms(1), OF assms(2), of tr i s] by (elim exE conjE) (rule that)
  then show ?thesis by (simp add: add_job_def)
qed

lemma add_law_taken:
  assumes "scheduler_laws S view accepts" and "i \<in> dom (view s)" and "accepts f kw"
  shows "\<exists>s'. add_job S f tr i kw s = (Inl (Exception ''ConflictingIdError''), s') \<and> view s' = view s"
proof -
  obtain s' where "sc_add_job S f tr i kw s = (Some (Exception ''ConflictingIdError''), s')" "view s' = view s"
    using law_taken [OF assms(1), OF assms(2), OF assms(3), of tr] by (elim exE conjE) (rule that)
  then show ?thesis by (simp add: add_job_def)
qed

lemma add_law_free:
  assumes "scheduler_laws S view accepts" and "i \<notin> dom (view s)" and "accepts f kw"
  shows "\<exists>s' n. add_job S f (Date t) i kw s = (Inr i, s') \<and>
     view s' = (view s)(i \<mapsto> \<lparr>jb_name = n, jb_function = f, jb_kwargs = kw, jb_trigger = Date t, jb_next_run = Some t\<rparr>)"
proof -
  obtain s' n where "sc_add_job S f (Date t) i kw s = (None, s')"
    "view s' = (view s)(i \<mapsto> \<lparr>jb_name = n, jb_function = f, jb_kwargs = kw, jb_trigger = Date t, jb_next_run = Some t\<rparr>)"
    using law_free [OF assms(1), OF assms(2), OF assms(3), of t] by (elim exE conjE) (rule that)
  then show ?thesis by (intro exI [of _ s'] exI [of _ n]) (simp add: add_job_def)
qed

lemma control_laws:
  assumes "scheduler_laws S view accepts"
  shows "view s i = Some j \<Longrightarrow> \<exists>s'. pause_job S i s = (True, s') \<and> view s' = (view s)(i \<mapsto> j\<lparr>jb_next_run := None\<rparr>)"
    and "view s i = Some j \<Longrightarrow> jb_trigger j = Date t \<Longrightarrow>
      \<exists>s'. resume_job S i s = (True, s') \<and> view s' = (view s)(i \<mapsto> j\<lparr>jb_next_run := Some t\<rparr>)"
    and "view s i = Some j \<Longrightarrow> \<exists>s'. remove_job S i s = (True, s') \<and> view s' = (view s)(i := None)"
    and "view s i = None \<Longrightarrow> \<exists>s'. pause_job S i s = (False, s') \<and> view s' = view s"
    and "view s i = None \<Longrightarrow> \<exists>s'. resume_job S i s = (False, s') \<and> view s' = view s"
    and "view s i = None \<Longrightarrow> \<exists>s'. remove_job S i s = (False, s') \<and> view s' = view s"
proof -
  have l: "case view s i of
        Some j \<Rightarrow>
          (\<exists>s'. sc_pause_job S i s = (None, s') \<and> view s' = (view s)(i \<mapsto> j\<lparr>jb_next_run := None\<rparr>)) \<and>
          (\<forall>t. jb_trigger j = Date t \<longrightarrow>
             (\<exists>s'. sc_resume_job S i s = (None, s') \<and> view s' = (view s)(i \<mapsto> j\<lparr>jb_next_run := Some t\<rparr>))) \<and>
          (\<exists>s'. sc_remove_job S i s = (None, s') \<and> view s' = (view s)(i := None))
      | None \<Rightarrow>
          (\<exists>e s'. sc_pause_job S i s = (Some e, s') \<and> view s' = view s) \<and>
          (\<exists>e s'. sc_resume_job S i s = (Some e, s') \<and> view s' = view s) \<and>
          (\<exists>e s'. sc_remove_job S i s = (Some e, s') \<and> view s' = view s)"
    by (rule law_control [OF assms])
  show "view s i = Some j \<Longrightarrow> \<exists>s'. pause_job S i s = (True, s') \<and> view s' = (view s)(i \<mapsto> j\<lparr>jb_next_run := None\<rparr>)"
    "view s i = Some j \<Longrightarrow> jb_trigger j = Date t \<Longrightarrow>
      \<exists>s'. resume_job S i s = (True, s') \<and> view s' = (view s)(i \<mapsto> j\<lparr>jb_next_run := Some t\<rparr>)"
    "view s i = Some j \<Longrightarrow> \<exists>s'. remove_job S i s = (True, s') \<and> view s' = (view s)(i := None)"
    "view s i = None \<Longrightarrow> \<exists>s'. pause_job S i s = (False, s') \<and> view s' = view s"
    "view s i = None \<Longrightarrow> \<exists>s'. resume_job S i s = (False, s') \<and> view s' = view s"
    "view s i = None \<Longrightarrow> \<exists>s'. remove_job S i s = (False, s') \<and> view s' = view s"
    using l by (auto simp: pause_job_def resume_job_def remove_job_def outcome_def)
qed


section \<open>Properties\<close>

text \<open>
  C31. When a scheduled job runs.  Let the scheduler accept the function with its arguments.  The date of the job is the local time of the server plus the delay,
  but the scheduler reads it as UTC, so the job waits for the delay plus the distance of local time from UTC: exactly the delay only on a server that runs in UTC.
  And a second job of a function of the same name whose date falls into the same second, scheduled without an identifier of its own, raises and is not
  scheduled.  A function that does not take the arguments is not scheduled, and scheduling it raises.
\<close>
theorem scheduled_job_waits:
  assumes laws: "scheduler_laws S view accepts" and today: "today = utc_now + utc_offset" and t: "add_delay today d = Inr t"
    and free: "n @ ''-'' @ strftime t \<notin> dom (view s)"
  shows "if accepts f kwargs then
    (\<exists>s' j. schedule_job S today (Callable f (Some n)) None d kwargs s = (Inr (n @ ''-'' @ strftime t), s') \<and>
      view s' = (view s)(n @ ''-'' @ strftime t \<mapsto> j) \<and> jb_function j = f \<and> jb_kwargs j = kwargs \<and>
      (\<exists>due. jb_next_run j = Some due \<and> due - utc_now = delay_span d + utc_offset) \<and>
      (\<forall>today' d' t' g kwargs'. add_delay today' d' = Inr t' \<and> t' div second = t div second \<longrightarrow>
         (\<exists>e s''. schedule_job S today' (Callable g (Some n)) None d' kwargs' s' = (Inl e, s'') \<and> view s'' = view s' \<and>
            (accepts g kwargs' \<longrightarrow> e = Exception ''ConflictingIdError''))))
    else (\<exists>e s'. schedule_job S today (Callable f (Some n)) None d kwargs s = (Inl e, s') \<and> view s' = view s)"
proof (cases "accepts f kwargs")
  case False
  then show ?thesis
    using add_law_refused [OF laws False] t by (simp add: schedule_job_def schedule_with_def job_id_or_def)
next
  case True
  let ?i = "n @ ''-'' @ strftime t"
  from add_law_free [OF laws free True] obtain s' m where
    a: "add_job S f (Date t) ?i kwargs s = (Inr ?i, s')" and
    v: "view s' = (view s)(?i \<mapsto> \<lparr>jb_name = m, jb_function = f, jb_kwargs = kwargs, jb_trigger = Date t, jb_next_run = Some t\<rparr>)" by blast
  have due: "t - utc_now = delay_span d + utc_offset"
    using t today by (auto simp: add_delay_def Let_def split: if_splits)
  have again: "\<exists>e s''. schedule_job S today' (Callable g (Some n)) None d' kwargs' s' = (Inl e, s'') \<and> view s'' = view s' \<and>
      (accepts g kwargs' \<longrightarrow> e = Exception ''ConflictingIdError'')"
    if "add_delay today' d' = Inr t'" "t' div second = t div second" for today' d' t' g kwargs'
  proof -
    have "strftime t' = strftime t" by (rule strftime_second) (rule that(2))
    moreover have "?i \<in> dom (view s')" using v by simp
    moreover have "\<exists>e s''. add_job S g (Date t') ?i kwargs' s' = (Inl e, s'') \<and> view s'' = view s' \<and>
        (accepts g kwargs' \<longrightarrow> e = Exception ''ConflictingIdError'')"
      using add_law_taken [OF laws calculation(2), of g kwargs' "Date t'"] add_law_refused [OF laws, of g kwargs' "Date t'" ?i s'] by blast
    ultimately show ?thesis
      using that(1) by (simp add: schedule_job_def schedule_with_def job_id_or_def)
  qed
  have "schedule_job S today (Callable f (Some n)) None d kwargs s = (Inr ?i, s')"
    using a t by (simp add: schedule_job_def schedule_with_def job_id_or_def)
  then show ?thesis
    unfolding if_P [OF True] using v due again
    by (intro exI [of _ s'] exI [of _ "\<lparr>jb_name = m, jb_function = f, jb_kwargs = kwargs, jb_trigger = Date t, jb_next_run = Some t\<rparr>"]) simp
qed

text \<open>
  Control of jobs.  Pausing, resuming and removing never raise: they answer whether the job is known and change nothing otherwise.  A date job that is paused
  and resumed is due as before, and a removed one is not found any more.
\<close>
theorem job_control:
  assumes laws: "scheduler_laws S view accepts"
  shows "(case view s i of
      None \<Rightarrow> \<exists>s1 s2 s3. pause_job S i s = (False, s1) \<and> resume_job S i s = (False, s2) \<and> remove_job S i s = (False, s3) \<and>
        view s1 = view s \<and> view s2 = view s \<and> view s3 = view s
    | Some j \<Rightarrow> \<exists>s1 s3. pause_job S i s = (True, s1) \<and> remove_job S i s = (True, s3) \<and>
        get_job S i s1 = Some ((job_info_of i j)\<lparr>ji_next_run := None\<rparr>) \<and> get_job S i s3 = None \<and> view s3 = (view s)(i := None) \<and>
        (\<forall>t. jb_trigger j = Date t \<and> jb_next_run j = Some t \<longrightarrow> (\<exists>s2. resume_job S i s1 = (True, s2) \<and> view s2 = view s)))"
proof (cases "view s i")
  case None
  with control_laws(4-6) [OF laws None] show ?thesis by auto
next
  case (Some j)
  from control_laws(1) [OF laws Some] obtain s1 where 1: "pause_job S i s = (True, s1)" "view s1 = (view s)(i \<mapsto> j\<lparr>jb_next_run := None\<rparr>)" by blast
  from control_laws(3) [OF laws Some] obtain s3 where 3: "remove_job S i s = (True, s3)" "view s3 = (view s)(i := None)" by blast
  have get: "sc_get_job S i s = view s i" for s i by (rule law_get [OF laws])
  have "\<exists>s2. resume_job S i s1 = (True, s2) \<and> view s2 = view s" if "jb_trigger j = Date t" "jb_next_run j = Some t" for t
  proof -
    from 1(2) have "view s1 i = Some (j\<lparr>jb_next_run := None\<rparr>)" by simp
    from control_laws(2) [OF laws this, of t] that(1)
    obtain s2 where "resume_job S i s1 = (True, s2)" "view s2 = (view s1)(i \<mapsto> j\<lparr>jb_next_run := Some t\<rparr>)" by auto
    moreover have "j\<lparr>jb_next_run := Some t\<rparr> = j" using that(2) by simp
    ultimately show ?thesis using 1(2) Some by (intro exI [of _ s2]) (simp add: fun_upd_idem)
  qed
  with Some 1 3 show ?thesis by (auto simp: get_job_def get job_info_of_def)
qed


section \<open>Concrete instances\<close>

text \<open>A scheduler that keeps its jobs in a dictionary.\<close>

definition dict_scheduler :: "(nat, (string, nat job) dict) scheduler" where
  "dict_scheduler =
     \<lparr>sc_start = (\<lambda>s. (None, s)),
      sc_add_job = (\<lambda>f tr i kw s.
        if i \<in> set (dict_keys s) then (Some (Exception ''ConflictingIdError''), s)
        else (None, dict_set i \<lparr>jb_name = ''job'', jb_function = f, jb_kwargs = kw, jb_trigger = tr,
          jb_next_run = (case tr of Date t \<Rightarrow> Some t | _ \<Rightarrow> Some 0)\<rparr> s)),
      sc_get_job = (\<lambda>i s. dict_get s i), sc_get_jobs = (\<lambda>s. s),
      sc_pause_job = (\<lambda>i s. case dict_get s i of None \<Rightarrow> (Some (KeyError i), s) | Some j \<Rightarrow> (None, dict_set i (j\<lparr>jb_next_run := None\<rparr>) s)),
      sc_resume_job = (\<lambda>i s. case dict_get s i of None \<Rightarrow> (Some (KeyError i), s)
        | Some j \<Rightarrow> (None, dict_set i (j\<lparr>jb_next_run := (case jb_trigger j of Date t \<Rightarrow> Some t | _ \<Rightarrow> Some 0)\<rparr>) s)),
      sc_remove_job = (\<lambda>i s. case dict_get s i of None \<Rightarrow> (Some (KeyError i), s) | Some j \<Rightarrow> (None, dict_del i s))\<rparr>"

lemma dict_scheduler_laws: "scheduler_laws dict_scheduler map_of (\<lambda>_ _. True)"
  unfolding scheduler_laws_def
proof (intro conjI allI impI)
  fix s :: "(string, nat job) dict" and i
  show "case map_of s i of
      None \<Rightarrow> (\<exists>e s'. sc_pause_job dict_scheduler i s = (Some e, s') \<and> map_of s' = map_of s) \<and>
        (\<exists>e s'. sc_resume_job dict_scheduler i s = (Some e, s') \<and> map_of s' = map_of s) \<and>
        (\<exists>e s'. sc_remove_job dict_scheduler i s = (Some e, s') \<and> map_of s' = map_of s)
    | Some j \<Rightarrow>
        (\<exists>s'. sc_pause_job dict_scheduler i s = (None, s') \<and> map_of s' = (map_of s)(i \<mapsto> j\<lparr>jb_next_run := None\<rparr>)) \<and>
        (\<forall>t. jb_trigger j = Date t \<longrightarrow>
           (\<exists>s'. sc_resume_job dict_scheduler i s = (None, s') \<and> map_of s' = (map_of s)(i \<mapsto> j\<lparr>jb_next_run := Some t\<rparr>))) \<and>
        (\<exists>s'. sc_remove_job dict_scheduler i s = (None, s') \<and> map_of s' = (map_of s)(i := None))"
    by (cases "map_of s i") (simp_all add: dict_scheduler_def update_conv' delete_conv')
next
  fix s :: "(string, nat job) dict" and f tr i kw
  assume "i \<in> dom (map_of s)"
  then show "\<exists>s'. sc_add_job dict_scheduler f tr i kw s = (Some (Exception ''ConflictingIdError''), s') \<and> map_of s' = map_of s"
    by (simp add: dict_scheduler_def dom_map_of_conv_image_fst)
next
  fix s :: "(string, nat job) dict" and f t i kw
  assume "i \<notin> dom (map_of s)"
  then show "\<exists>s' n. sc_add_job dict_scheduler f (Date t) i kw s = (None, s') \<and>
      map_of s' = (map_of s)(i \<mapsto> \<lparr>jb_name = n, jb_function = f, jb_kwargs = kw, jb_trigger = Date t, jb_next_run = Some t\<rparr>)"
    by (intro exI [of _ "dict_set i \<lparr>jb_name = ''job'', jb_function = f, jb_kwargs = kw, jb_trigger = Date t, jb_next_run = Some t\<rparr> s"] exI [of _ "''job''"])
      (simp add: dict_scheduler_def dom_map_of_conv_image_fst update_conv')
qed (auto simp: dict_scheduler_def split: if_splits)

definition ten_seconds :: delay where
  "ten_seconds = \<lparr>dl_days = 0, dl_hours = 0, dl_minutes = 0, dl_seconds = 10, dl_milliseconds = 0, dl_microseconds = 0\<rparr>"

text \<open>Noon of the first of March 2024.\<close>

definition noon :: int where
  "noon = 738945 * day + 43200 * second"

theorem scheduled_job_waits_witness:
  "\<exists>s' j due. schedule_job dict_scheduler noon (Callable 7 (Some ''purr'')) None ten_seconds [] [] = (Inr ''purr-03/01/2024-12:00:10'', s') \<and>
     map_of s' ''purr-03/01/2024-12:00:10'' = Some j \<and> jb_next_run j = Some due \<and> due - (noon - 7200 * second) = 10 * second + 7200 * second"
proof -
  let ?t = "noon + 10 * second"
  have t: "add_delay noon ten_seconds = Inr ?t" by code_simp
  have i: "''purr'' @ ''-'' @ strftime ?t = ''purr-03/01/2024-12:00:10''" by code_simp
  have span: "delay_span ten_seconds = 10 * second" by code_simp
  have today: "noon = (noon - 7200 * second) + 7200 * second" by simp
  have free: "''purr'' @ ''-'' @ strftime ?t \<notin> dom (map_of ([] :: (string, nat job) dict))" by simp
  from scheduled_job_waits [OF dict_scheduler_laws today t free, of 7 "[]"]
  obtain s' j due where "schedule_job dict_scheduler noon (Callable 7 (Some ''purr'')) None ten_seconds [] [] = (Inr (''purr'' @ ''-'' @ strftime ?t), s')"
    "map_of s' = (map_of [])(''purr'' @ ''-'' @ strftime ?t \<mapsto> j)" "jb_next_run j = Some due"
    "due - (noon - 7200 * second) = delay_span ten_seconds + 7200 * second" unfolding if_True by (elim exE conjE) (rule that)
  then show ?thesis unfolding i span by (intro exI [of _ s'] exI [of _ j] exI [of _ due]) simp
qed

definition demo_jobs :: "(string, nat job) dict" where
  "demo_jobs = [(''purr'', \<lparr>jb_name = ''job'', jb_function = 7, jb_kwargs = [], jb_trigger = Date 5, jb_next_run = Some 5\<rparr>)]"

theorem job_control_witness:
  "(\<exists>s1 s2. pause_job dict_scheduler ''purr'' demo_jobs = (True, s1) \<and> resume_job dict_scheduler ''purr'' s1 = (True, s2) \<and>
     map_of s2 = map_of demo_jobs) \<and>
   (\<exists>s1. pause_job dict_scheduler ''meow'' demo_jobs = (False, s1))"
proof -
  let ?j = "\<lparr>jb_name = ''job'', jb_function = 7, jb_kwargs = [], jb_trigger = Date 5, jb_next_run = Some 5\<rparr> :: nat job"
  have k: "map_of demo_jobs ''purr'' = Some ?j" "map_of demo_jobs ''meow'' = None" by (simp_all add: demo_jobs_def)
  have "jb_trigger ?j = Date 5 \<and> jb_next_run ?j = Some 5" by simp
  with job_control [OF dict_scheduler_laws, where s = demo_jobs and i = "''purr''"] have "\<exists>s1 s2. pause_job dict_scheduler ''purr'' demo_jobs = (True, s1) \<and>
      resume_job dict_scheduler ''purr'' s1 = (True, s2) \<and> map_of s2 = map_of demo_jobs"
    unfolding k option.case by blast
  with job_control [OF dict_scheduler_laws, where s = demo_jobs and i = "''meow''"] show ?thesis unfolding k option.case by blast
qed

end
