(* ===== verification/Plugin_Install.thy ===== *)
theory Plugin_Install
  imports Plugin_Store
begin

text \<open>
  Installation, activation and removal of plugins as clients ask for them (\<open>routes/plugins.py\<close>): extraction of an archive into
  the plugins folder (\<open>mad_hatter/plugin_extractor.py\<close>), download from the registry, and the calls of the plugin manager.

  A folder is a dictionary from names to trees of files.  Parameters: mime types, slugs, what unpacking an archive and importing a
  plugin's folder yield, and what the registry sends.  A slug is made of letters, digits and underscores, so the folder a
  plugin is extracted to is an entry of the plugins folder, or the plugins folder itself when the slug is empty.
\<close>


section \<open>plugin\_extractor.py\<close>

datatype tree = File string | Folder "(string \<times> tree) list"

type_synonym folder = "(string, tree) dict"

record ('v, 'c) packages =
  pk_guess_type :: "string \<Rightarrow> string option"
  pk_slugify :: "string \<Rightarrow> string"
  pk_unpack :: "string \<Rightarrow> string \<Rightarrow> folder result"
  pk_import :: "folder \<Rightarrow> ('v, 'c) source"

text \<open>\<open>os.path.splitext(...)[0]\<close> of a file name: leading dots belong to the root.\<close>

definition splitext_root :: "string \<Rightarrow> string" where
  "splitext_root s =
     (let n = length (takeWhile (\<lambda>c. c \<noteq> CHR ''.'') (rev s));
          root = take (length s - n - 1) s
      in if n = length s \<or> (\<forall>c \<in> set root. c = CHR ''.'') then s else root)"

definition create_plugin_id :: "('v, 'c) packages \<Rightarrow> string \<Rightarrow> string" where
  "create_plugin_id P path = pk_slugify P (splitext_root (basename path))"

definition admitted_mime_types :: "string list" where
  "admitted_mime_types = [''application/zip'', ''application/x-tar'']"

definition plugin_extractor :: "('v, 'c) packages \<Rightarrow> string \<Rightarrow> (string \<times> string) result" where
  "plugin_extractor P path =
     (if pk_guess_type P path = Some ''application/x-tar'' then Inr (''tar'', create_plugin_id P path)
      else if pk_guess_type P path = Some ''application/zip'' then Inr (''zip'', create_plugin_id P path)
      else Inl (Exception ''Invalid package extension''))"

text \<open>If the archive is just one folder, that is the plugin.\<close>

definition folder_to_copy :: "folder \<Rightarrow> folder" where
  "folder_to_copy contents = (case contents of [(n, Folder items)] \<Rightarrow> items | _ \<Rightarrow> contents)"

definition copy_settings :: "folder \<Rightarrow> folder \<Rightarrow> folder result" where
  "copy_settings old items =
     (case dict_get old ''settings.json'' of
        Some (File s) \<Rightarrow>
          (case dict_get items ''settings.json'' of
             Some (Folder _) \<Rightarrow> Inl (Exception ''IsADirectoryError'')
           | _ \<Rightarrow> Inr (dict_set ''settings.json'' (File s) items))
      | _ \<Rightarrow> Inr items)"

text \<open>The path is \<open>os.path.join(to, id)\<close>, which is the plugins folder itself for an empty identifier.\<close>

definition extracted_path :: "string \<Rightarrow> folder \<Rightarrow> tree option" where
  "extracted_path i plugins = (if i = [] then Some (Folder plugins) else dict_get plugins i)"

definition move_to :: "string \<Rightarrow> folder \<Rightarrow> folder \<Rightarrow> folder" where
  "move_to i items plugins = (if i = [] then items else dict_set i (Folder items) plugins)"

definition extract_plugin :: "string \<Rightarrow> folder \<Rightarrow> folder \<Rightarrow> folder result" where
  "extract_plugin i contents plugins =
     (let items = folder_to_copy contents
      in case extracted_path i plugins of
           None \<Rightarrow> Inr (move_to i items plugins)
         | Some (File _) \<Rightarrow> Inl (Exception ''NotADirectoryError'')
         | Some (Folder old) \<Rightarrow> map_sum id (\<lambda>items. move_to i items plugins) (copy_settings old items))"


section \<open>Installing a package (mad\_hatter.py)\<close>

record ('v, 'c) store =
  st_plugins :: folder
  st_mh :: "('v, 'c) mad_hatter"

fun imported :: "('v, 'c) packages \<Rightarrow> folder \<Rightarrow> (string, ('v, 'c) source) dict" where
  "imported P [] = []"
| "imported P ((n, t) # d) = (case t of File _ \<Rightarrow> imported P d | Folder items \<Rightarrow> (n, pk_import P items) # imported P d)"

definition items_of :: "tree option \<Rightarrow> folder" where
  "items_of t = (case t of Some (Folder items) \<Rightarrow> items | _ \<Rightarrow> [])"

text \<open>
  For an empty identifier the plugins folder has been replaced and is itself loaded as a plugin, under its name \<open>plugins\<close>;
  the plugin to toggle has the empty name.
\<close>

definition install_package ::
  "('v, 'c) packages \<Rightarrow> string \<Rightarrow> string \<Rightarrow> ('v, 'c) store \<Rightarrow> py_exc option \<times> ('v, 'c) store" where
  "install_package P path content S =
     (case plugin_extractor P path of
        Inl e \<Rightarrow> (Some e, S)
      | Inr (extension, i) \<Rightarrow>
          (case pk_unpack P content extension of
             Inl e \<Rightarrow> (Some e, S)
           | Inr contents \<Rightarrow>
               (case extract_plugin i contents (st_plugins S) of
                  Inl e \<Rightarrow> (Some e, S)
                | Inr plugins \<Rightarrow>
                    (let (err, mh) =
                       (if i = [] then
                          (let mh = (st_mh S)\<lparr>mh_disk := filter (\<lambda>x. fst x = ''core_plugin'') (mh_disk (st_mh S)) @ imported P plugins\<rparr>
                           in toggle_plugin [] (if src_valid (pk_import P plugins)
                                then mh\<lparr>mh_plugins := dict_set ''plugins'' (new_plugin ''plugins'') (mh_plugins mh)\<rparr> else mh))
                        else install_plugin i (pk_import P (items_of (dict_get plugins i))) (st_mh S))
                     in (err, \<lparr>st_plugins = plugins, st_mh = mh\<rparr>)))))"


section \<open>Endpoints (routes/plugins.py)\<close>

definition upload_plugin ::
  "('v, 'c) packages \<Rightarrow> string \<Rightarrow> string \<Rightarrow> ('v, 'c) store \<Rightarrow> string result \<times> ('v, 'c) store" where
  "upload_plugin P filename content S =
     (if pk_guess_type P filename \<notin> Some ` set admitted_mime_types then (Inl (HTTPException 400), S)
      else (case install_package P (''/tmp/'' @ filename) content S of
              (Some e, S) \<Rightarrow> (Inl e, S)
            | (None, S) \<Rightarrow> (Inr filename, S)))"

text \<open>The download is saved under the last segment of the address.\<close>

definition registry_download_plugin :: "(string \<Rightarrow> string result) \<Rightarrow> string \<Rightarrow> (string \<times> string) result" where
  "registry_download_plugin download url =
     (case download url of
        Inl e \<Rightarrow> Inl e
      | Inr content \<Rightarrow> Inr (''/tmp/'' @ last (split_on CHR ''/'' url) @ ''.zip'', content))"

definition install_plugin_from_registry ::
  "('v, 'c) packages \<Rightarrow> (string \<Rightarrow> string result) \<Rightarrow> (string, string) dict \<Rightarrow> ('v, 'c) store \<Rightarrow> string result \<times> ('v, 'c) store" where
  "install_plugin_from_registry P download payload S =
     (case dict_get payload ''url'' of
        None \<Rightarrow> (Inl (HTTPException 500), S)
      | Some url \<Rightarrow>
          (case registry_download_plugin download url of
             Inl _ \<Rightarrow> (Inl (HTTPException 500), S)
           | Inr (path, content) \<Rightarrow>
               (case install_package P path content S of
                  (Some _, S) \<Rightarrow> (Inl (HTTPException 500), S)
                | (None, S) \<Rightarrow> (Inr url, S))))"

definition toggle_plugin_endpoint :: "string \<Rightarrow> ('v, 'c) store \<Rightarrow> string result \<times> ('v, 'c) store" where
  "toggle_plugin_endpoint i S =
     (if \<not> plugin_exists i (st_mh S) then (Inl (HTTPException 404), S)
      else (case toggle_plugin i (st_mh S) of
              (Some _, mh) \<Rightarrow> (Inl (HTTPException 500), S\<lparr>st_mh := mh\<rparr>)
            | (None, mh) \<Rightarrow> (Inr i, S\<lparr>st_mh := mh\<rparr>)))"

definition delete_plugin :: "string \<Rightarrow> ('v, 'c) store \<Rightarrow> string result \<times> ('v, 'c) store" where
  "delete_plugin i S =
     (if \<not> plugin_exists i (st_mh S) then (Inl (HTTPException 404), S)
      else (case uninstall_plugin i (st_mh S) of
              (Some e, mh) \<Rightarrow> (Inl e, S\<lparr>st_mh := mh\<rparr>)
            | (None, mh) \<Rightarrow>
                (Inr i, S\<lparr>st_mh := mh, st_plugins := if i = ''core_plugin'' then st_plugins S else dict_del i (st_plugins S)\<rparr>)))"

section \<open>Lemmas\<close>

lemma copy_settings_get:
  assumes "copy_settings old items = Inr items'"
  shows "n \<noteq> ''settings.json'' \<Longrightarrow> dict_get items' n = dict_get items n"
    and "dict_get items' ''settings.json'' =
           (case dict_get old ''settings.json'' of Some (File s) \<Rightarrow> Some (File s) | _ \<Rightarrow> dict_get items ''settings.json'')"
  using assms by (auto simp: copy_settings_def split: option.splits tree.splits)

lemma extract_plugin_Inr:
  assumes "extract_plugin i contents plugins = Inr plugins'"
  obtains items where "copy_settings (if i = [] then plugins else items_of (dict_get plugins i)) (folder_to_copy contents) = Inr items"
    and "plugins' = move_to i items plugins"
proof -
  have c: "copy_settings [] x = Inr x" for x by (simp add: copy_settings_def)
  show ?thesis
  proof (cases "extracted_path i plugins")
    case None
    with assms that [of "folder_to_copy contents"] show ?thesis
      by (simp add: extract_plugin_def extracted_path_def items_of_def c split: if_splits)
  next
    case (Some t)
    with assms obtain old where t: "t = Folder old" by (cases t) (simp_all add: extract_plugin_def)
    with assms Some obtain items where "copy_settings old (folder_to_copy contents) = Inr items" "plugins' = move_to i items plugins"
      by (cases "copy_settings old (folder_to_copy contents)") (auto simp: extract_plugin_def)
    with that Some t show ?thesis by (auto simp: extracted_path_def items_of_def split: if_splits)
  qed
qed

lemma extractor_id: "plugin_extractor P path = Inr (ext, i) \<Longrightarrow> i = create_plugin_id P path"
  by (auto simp: plugin_extractor_def split: if_splits)

text \<open>An installation either stops before the folder changes or gets to the plugin manager.\<close>

lemma install_package_cases:
  assumes "install_package P path content S = (err, S')" and "create_plugin_id P path \<noteq> []"
  shows "(err \<noteq> None \<and> S' = S) \<or>
    (\<exists>ext contents items. plugin_extractor P path = Inr (ext, create_plugin_id P path) \<and> pk_unpack P content ext = Inr contents \<and>
       copy_settings (items_of (dict_get (st_plugins S) (create_plugin_id P path))) (folder_to_copy contents) = Inr items \<and>
       st_plugins S' = dict_set (create_plugin_id P path) (Folder items) (st_plugins S) \<and>
       install_plugin (create_plugin_id P path) (pk_import P items) (st_mh S) = (err, st_mh S'))"
proof (cases "plugin_extractor P path")
  case (Inl e)
  with assms show ?thesis by (auto simp: install_package_def)
next
  case (Inr x)
  let ?i = "create_plugin_id P path"
  obtain ext where e: "plugin_extractor P path = Inr (ext, ?i)"
    using Inr extractor_id [of P path] by (cases x) auto
  show ?thesis
  proof (cases "pk_unpack P content ext")
    case (Inl u)
    with e assms show ?thesis by (auto simp: install_package_def)
  next
    case u: (Inr contents)
    show ?thesis
    proof (cases "extract_plugin ?i contents (st_plugins S)")
      case (Inl y)
      with e u assms show ?thesis by (auto simp: install_package_def)
    next
      case x: (Inr plugins)
      obtain items where c: "copy_settings (items_of (dict_get (st_plugins S) ?i)) (folder_to_copy contents) = Inr items"
        and m: "plugins = dict_set ?i (Folder items) (st_plugins S)"
        using extract_plugin_Inr [OF x] assms(2) by (auto simp: move_to_def)
      have "items_of (dict_get plugins ?i) = items" by (simp add: m items_of_def)
      with e u x assms have "install_plugin ?i (pk_import P items) (st_mh S) = (err, st_mh S')" "st_plugins S' = plugins"
        by (auto simp: install_package_def Let_def split: prod.splits)
      with e u c m show ?thesis by blast
    qed
  qed
qed


section \<open>Properties\<close>

text \<open>
  C22. Updating a plugin keeps what the user set.  Installing an archive with a usable name changes no other plugin's folder, whether it
  succeeds or not; the settings file of an installed version survives, over the one in the archive; when the archive is extracted, every
  other file of the plugin's folder is the archive's, with a single top folder taken as the plugin itself.
\<close>
theorem update_keeps_settings:
  assumes "install_package P path content S = (err, S')" and "create_plugin_id P path = i" and "i \<noteq> []"
  shows "(\<forall>j. j \<noteq> i \<longrightarrow> dict_get (st_plugins S') j = dict_get (st_plugins S) j) \<and>
         (\<forall>s. dict_get (items_of (dict_get (st_plugins S) i)) ''settings.json'' = Some (File s) \<longrightarrow>
            dict_get (items_of (dict_get (st_plugins S') i)) ''settings.json'' = Some (File s)) \<and>
         (err = None \<longrightarrow>
            (\<exists>ext contents. plugin_extractor P path = Inr (ext, i) \<and> pk_unpack P content ext = Inr contents \<and>
               (\<forall>n. n \<noteq> ''settings.json'' \<longrightarrow>
                  dict_get (items_of (dict_get (st_plugins S') i)) n = dict_get (folder_to_copy contents) n)))"
proof -
  note c = install_package_cases [OF assms(1), unfolded assms(2), OF assms(3)]
  show ?thesis
  proof (cases "err \<noteq> None \<and> S' = S")
    case True
    then show ?thesis by auto
  next
    case False
    with c obtain ext contents items where e: "plugin_extractor P path = Inr (ext, i)" "pk_unpack P content ext = Inr contents"
      and cp: "copy_settings (items_of (dict_get (st_plugins S) i)) (folder_to_copy contents) = Inr items"
      and p: "st_plugins S' = dict_set i (Folder items) (st_plugins S)"
      by blast
    have "items_of (dict_get (st_plugins S') i) = items" by (simp add: p items_of_def)
    with e p copy_settings_get [OF cp] show ?thesis by simp
  qed
qed

definition demo_packages :: "(int, unit) packages" where
  "demo_packages =
     \<lparr>pk_guess_type = (\<lambda>f. if suffix ''.zip'' f then Some ''application/zip'' else None),
      pk_slugify = filter (\<lambda>c. c \<noteq> CHR ''_''),
      pk_unpack = (\<lambda>content ext. if content = ''zip'' then Inr [(''top'', Folder [(''main.py'', File ''new''), (''settings.json'', File ''{}'')])]
                     else Inl (Exception ''ReadError'')),
      pk_import = (\<lambda>items. demo_source [] [])\<rparr>"

definition demo_store :: "(int, unit) store" where
  "demo_store =
     \<lparr>st_plugins = [(''hara'', Folder [(''main.py'', File ''old''), (''settings.json'', File ''{k: 1}'')]), (''iso'', Folder [(''iso.py'', File [])])],
      st_mh = demo_mh\<rparr>"

lemma demo_ids: "create_plugin_id demo_packages ''/tmp/hara.zip'' = ''hara''" "create_plugin_id demo_packages ''/tmp/_.zip'' = []"
  by code_simp+

theorem update_keeps_settings_witness:
  "dict_get (items_of (dict_get (st_plugins (snd (install_package demo_packages ''/tmp/hara.zip'' ''zip'' demo_store))) ''hara'')) ''settings.json'' =
     Some (File ''{k: 1}'')"
proof -
  obtain err S' where r: "install_package demo_packages ''/tmp/hara.zip'' ''zip'' demo_store = (err, S')" by fastforce
  have "dict_get (items_of (dict_get (st_plugins demo_store) ''hara'')) ''settings.json'' = Some (File ''{k: 1}'')"
    by (simp add: demo_store_def items_of_def)
  then show ?thesis using update_keeps_settings [OF r demo_ids(1)] r by simp
qed

text \<open>
  C34. An archive whose name has an empty slug destroys the plugins folder.  The folder the plugin is extracted to is then the folder of all
  plugins: its contents are replaced by the archive's, so every installed plugin the archive does not contain is lost, while the
  manager still lists them as plugins and as active, and the client only gets an error.
\<close>
theorem nameless_archive_wipes_plugins:
  assumes "plugin_extractor P path = Inr (ext, [])" and "pk_unpack P content ext = Inr contents"
    and "dict_get (folder_to_copy contents) ''settings.json'' = None" and "dict_get (st_plugins S) ''settings.json'' = None"
    and "dict_get (mh_plugins (st_mh S)) [] = None"
    and "install_package P path content S = (err, S')"
  shows "err = Some (Exception ''Plugin {plugin_id} not present in plugins folder'') \<and>
         st_plugins S' = folder_to_copy contents \<and>
         mh_active (st_mh S') = mh_active (st_mh S) \<and>
         (\<forall>i. plugin_exists i (st_mh S) \<longrightarrow> plugin_exists i (st_mh S')) \<and>
         (\<forall>i. i \<noteq> ''core_plugin'' \<longrightarrow> dict_get (folder_to_copy contents) i = None \<longrightarrow>
            dict_get (st_plugins S') i = None \<and> dict_get (mh_disk (st_mh S')) i = None)"
proof -
  let ?items = "folder_to_copy contents"
  have "extract_plugin [] contents (st_plugins S) = Inr ?items"
    using assms(3,4) by (simp add: extract_plugin_def extracted_path_def move_to_def copy_settings_def)
  then have p: "install_package P path content S =
      (let (err, mh) = (let mh = (st_mh S)\<lparr>mh_disk := filter (\<lambda>x. fst x = ''core_plugin'') (mh_disk (st_mh S)) @ imported P ?items\<rparr>
         in toggle_plugin [] (if src_valid (pk_import P ?items)
              then mh\<lparr>mh_plugins := dict_set ''plugins'' (new_plugin ''plugins'') (mh_plugins mh)\<rparr> else mh))
       in (err, \<lparr>st_plugins = ?items, st_mh = mh\<rparr>))"
    by (simp only: install_package_def assms(1,2) sum.case prod.case if_True simp_thms)
  define mh where "mh = (st_mh S)\<lparr>mh_disk := filter (\<lambda>x. fst x = ''core_plugin'') (mh_disk (st_mh S)) @ imported P ?items\<rparr>"
  define mh' where "mh' = (if src_valid (pk_import P ?items)
      then mh\<lparr>mh_plugins := dict_set ''plugins'' (new_plugin ''plugins'') (mh_plugins mh)\<rparr> else mh)"
  have "toggle_plugin [] mh' = (Some (Exception ''Plugin {plugin_id} not present in plugins folder''), mh')"
    using assms(5) by (simp add: toggle_plugin_def mh_def mh'_def)
  then have r: "err = Some (Exception ''Plugin {plugin_id} not present in plugins folder'')" "S' = \<lparr>st_plugins = ?items, st_mh = mh'\<rparr>"
    using p [folded mh_def, unfolded Let_def, folded mh'_def] assms(6) by simp_all
  have im: "dict_get (imported P d) i = None" if "dict_get d i = None" for d i
    using that by (induction P d rule: imported.induct) (auto split: tree.splits if_splits)
  have "dict_get (filter (\<lambda>x. fst x = ''core_plugin'') d) i = None" if "i \<noteq> ''core_plugin''" for d :: "(string, ('a, 'b) source) dict" and i
    using that by (auto simp: map_of_eq_None_iff)
  then have "dict_get (mh_disk mh') i = None" if "i \<noteq> ''core_plugin''" "dict_get ?items i = None" for i
    using that im [of ?items i] by (simp add: mh'_def mh_def map_add_def)
  moreover have "mh_active mh' = mh_active (st_mh S)" "plugin_exists i mh'" if "plugin_exists i (st_mh S)" for i
    using that by (auto simp: mh'_def mh_def plugin_exists_def)
  moreover have "mh_active mh' = mh_active (st_mh S)" by (simp add: mh'_def mh_def)
  ultimately show ?thesis using r by simp
qed

theorem nameless_archive_wipes_plugins_witness:
  "dict_get (st_plugins (snd (install_package
      (demo_packages\<lparr>pk_unpack := \<lambda>content ext. Inr [(''main.py'', File [])]\<rparr>) ''/tmp/_.zip'' ''zip'' demo_store))) ''iso'' = None"
proof -
  let ?P = "demo_packages\<lparr>pk_unpack := \<lambda>content ext. Inr [(''main.py'', File [])]\<rparr>"
  obtain err S' where r: "install_package ?P ''/tmp/_.zip'' ''zip'' demo_store = (err, S')" by fastforce
  have e: "plugin_extractor ?P ''/tmp/_.zip'' = Inr (''zip'', [])" by code_simp
  have u: "pk_unpack ?P ''zip'' ''zip'' = Inr [(''main.py'', File [])]" by simp
  have f: "folder_to_copy [(''main.py'', File [])] = [(''main.py'', File [])]" by (simp add: folder_to_copy_def)
  have s: "dict_get (st_plugins demo_store) ''settings.json'' = None" by (simp add: demo_store_def)
  have "Option.is_none (dict_get (mh_plugins (st_mh demo_store)) [])" by code_simp
  then have m: "dict_get (mh_plugins (st_mh demo_store)) [] = None" by (simp add: Option.is_none_def)
  have "dict_get (st_plugins S') ''iso'' = None"
    using nameless_archive_wipes_plugins [OF e u _ s m r] by (simp add: f)
  with r show ?thesis by simp
qed

end
