(* ===== verification/Factory.thy ===== *)
theory Factory
  imports Complex_Main Settings_Db Mad_Hatter
begin

text \<open>
  The factories of language models, embedders and authentication handlers (\<open>factory/llm.py\<close>, \<open>factory/embedder.py\<close>,
  \<open>factory/auth_handler.py\<close>): the configuration classes the core allows, the hooks with which plugins change the lists, lookup by
  name, schemas and the construction of an object from a stored configuration.

  The classes that are constructed belong to other packages: construction is the argument \<open>fe_construct\<close>, by the name of the class.
  The JSON schema of a configuration class is computed by the validation library, the argument \<open>fe_schema\<close>.
\<close>


section \<open>Configuration classes\<close>

datatype field_type = StrField | IntField | FloatField | BoolField | EnumField string

datatype field_default = Required | DNone | DStr string | DInt int | DFloat rat | DBool bool

record config_class =
  cc_name :: string
  cc_pyclass :: "string option"
  cc_fields :: "(string \<times> field_type \<times> field_default) list"
  cc_human_name :: string
  cc_description :: string
  cc_link :: string

definition settings_class ::
  "string \<Rightarrow> string \<Rightarrow> (string \<times> field_type \<times> field_default) list \<Rightarrow> string \<Rightarrow> string \<Rightarrow> string \<Rightarrow> config_class" where
  "settings_class name pyclass flds human description link =
     \<lparr>cc_name = name, cc_pyclass = Some pyclass, cc_fields = flds, cc_human_name = human, cc_description = description, cc_link = link\<rparr>"

text \<open>Language models.\<close>

definition LLMDefaultConfig :: config_class where
  "LLMDefaultConfig =
     settings_class ''LLMDefaultConfig'' ''LLMDefault''
     []
     ''Default Language Model''
     ''A dumb LLM just telling that the Cat is not configured. There will be a nice LLM here once consumer hardware allows it.''
     ''''"

definition LLMCustomConfig :: config_class where
  "LLMCustomConfig =
     settings_class ''LLMCustomConfig'' ''LLMCustom''
     [(''url'', StrField, Required),
      (''auth_key'', StrField, DStr ''optional_auth_key''),
      (''options'', StrField, DStr ''{}'')]
     ''Custom LLM (Deprecated)''
     ''Legacy LLM adapter, you can now have it more custom in a plugin.''
     ''https://cheshirecat.ai/custom-large-language-model/''"

definition LLMOpenAICompatibleConfig :: config_class where
  "LLMOpenAICompatibleConfig =
     settings_class ''LLMOpenAICompatibleConfig'' ''CustomOpenAI''
     [(''url'', StrField, Required),
      (''temperature'', FloatField, DFloat (1 / 100)),
      (''model_name'', StrField, Required),
      (''api_key'', StrField, Required),
      (''streaming'', BoolField, DBool True)]
     ''OpenAI-compatible API''
     ''Configuration for OpenAI-compatible APIs, e.g. llama-cpp-python server, text-generation-webui, OpenRouter, TinyLLM, TogetherAI and many others.''
     ''''"

definition LLMOpenAIChatConfig :: config_class where
  "LLMOpenAIChatConfig =
     settings_class ''LLMOpenAIChatConfig'' ''ChatOpenAI''
     [(''openai_api_key'', StrField, Required),
      (''model_name'', StrField, DStr ''gpt-4o-mini''),
      (''temperature'', FloatField, DFloat (7 / 10)),
      (''streaming'', BoolField, DBool True)]
     ''OpenAI ChatGPT''
     ''Chat model from OpenAI''
     ''https://platform.openai.com/docs/models/overview''"

definition LLMOpenAIConfig :: config_class where
  "LLMOpenAIConfig =
     settings_class ''LLMOpenAIConfig'' ''OpenAI''
     [(''openai_api_key'', StrField, Required),
      (''model_name'', StrField, DStr ''gpt-3.5-turbo-instruct''),
      (''temperature'', FloatField, DFloat (7 / 10)),
      (''streaming'', BoolField, DBool True)]
     ''OpenAI GPT-3''
     ''OpenAI GPT-3. More expensive but also more flexible than ChatGPT.''
     ''https://platform.openai.com/docs/models/overview''"

definition LLMAzureChatOpenAIConfig :: config_class where
  "LLMAzureChatOpenAIConfig =
     settings_class ''LLMAzureChatOpenAIConfig'' ''AzureChatOpenAI''
     [(''openai_api_key'', StrField, Required),
      (''model_name'', StrField, DStr ''gpt-35-turbo''),
      (''azure_endpoint'', StrField, Required),
      (''max_tokens'', IntField, DInt 2048),
      (''openai_api_type'', StrField, DStr ''azure''),
      (''openai_api_version'', StrField, DStr ''2023-05-15''),
      (''azure_deployment'', StrField, Required),
      (''streaming'', BoolField, DBool True)]
     ''Azure OpenAI Chat Models''
     ''Chat model from Azure OpenAI''
     ''https://azure.microsoft.com/en-us/products/ai-services/openai-service''"

definition LLMAzureOpenAIConfig :: config_class where
  "LLMAzureOpenAIConfig =
     settings_class ''LLMAzureOpenAIConfig'' ''AzureOpenAI''
     [(''openai_api_key'', StrField, Required),
      (''azure_endpoint'', StrField, Required),
      (''max_tokens'', IntField, DInt 2048),
      (''api_type'', StrField, DStr ''azure''),
      (''api_version'', StrField, DStr ''2023-05-15''),
      (''azure_deployment'', StrField, DStr ''gpt-35-turbo-instruct''),
      (''model_name'', StrField, DStr ''gpt-35-turbo-instruct''),
      (''streaming'', BoolField, DBool True)]
     ''Azure OpenAI Completion models''
     ''Configuration for Cognitive Services Azure OpenAI''
     ''https://azure.microsoft.com/en-us/products/ai-services/openai-service''"

definition LLMCohereConfig :: config_class where
  "LLMCohereConfig =
     settings_class ''LLMCohereConfig'' ''ChatCohere''
     [(''cohere_api_key'', StrField, Required),
      (''model'', StrField, DStr ''command''),
      (''temperature'', FloatField, DFloat (7 / 10)),
      (''streaming'', BoolField, DBool True)]
     ''Cohere''
     ''Configuration for Cohere language model''
     ''https://docs.cohere.com/docs/models''"

definition LLMHuggingFaceTextGenInferenceConfig :: config_class where
  "LLMHuggingFaceTextGenInferenceConfig =
     settings_class ''LLMHuggingFaceTextGenInferenceConfig'' ''HuggingFaceTextGenInference''
     [(''inference_server_url'', StrField, Required),
      (''max_new_tokens'', IntField, DInt 512),
      (''top_k'', IntField, DInt 10),
      (''top_p'', FloatField, DFloat (19 / 20)),
      (''typical_p'', FloatField, DFloat (19 / 20)),
      (''temperature'', FloatField, DFloat (1 / 100)),
      (''repetition_penalty'', FloatField, DFloat (103 / 100))]
     ''HuggingFace TextGen Inference''
     ''Configuration for HuggingFace TextGen Inference''
     ''https://huggingface.co/text-generation-inference''"

definition LLMHuggingFaceEndpointConfig :: config_class where
  "LLMHuggingFaceEndpointConfig =
     settings_class ''LLMHuggingFaceEndpointConfig'' ''HuggingFaceEndpoint''
     [(''endpoint_url'', StrField, Required),
      (''huggingfacehub_api_token'', StrField, Required),
      (''task'', StrField, DStr ''text-generation''),
      (''max_new_tokens'', IntField, DInt 512),
      (''top_k'', IntField, DNone),
      (''top_p'', FloatField, DFloat (19 / 20)),
      (''temperature'', FloatField, DFloat (4 / 5)),
      (''return_full_text'', BoolField, DBool False)]
     ''HuggingFace Endpoint''
     ''Configuration for HuggingFace Endpoint language models''
     ''https://huggingface.co/inference-endpoints''"

definition LLMOllamaConfig :: config_class where
  "LLMOllamaConfig =
     settings_class ''LLMOllamaConfig'' ''CustomOllama''
     [(''base_url'', StrField, Required),
      (''model'', StrField, DStr ''llama3''),
      (''num_ctx'', IntField, DInt 2048),
      (''repeat_last_n'', IntField, DInt 64),
      (''repeat_penalty'', FloatField, DFloat (11 / 10)),
      (''temperature'', FloatField, DFloat (4 / 5))]
     ''Ollama''
     ''Configuration for Ollama''
     ''https://ollama.ai/library''"

definition LLMGeminiChatConfig :: config_class where
  "LLMGeminiChatConfig =
     settings_class ''LLMGeminiChatConfig'' ''ChatGoogleGenerativeAI''
     [(''google_api_key'', StrField, Required),
      (''model'', StrField, DStr ''gemini-1.5-pro-latest''),
      (''temperature'', FloatField, DFloat (1 / 10)),
      (''top_p'', IntField, DInt 1),
      (''top_k'', IntField, DInt 1),
      (''max_output_tokens'', IntField, DInt 29000)]
     ''Google Gemini''
     ''Configuration for Gemini''
     ''https://deepmind.google/technologies/gemini''"

definition LLMAnthropicChatConfig :: config_class where
  "LLMAnthropicChatConfig =
     settings_class ''LLMAnthropicChatConfig'' ''ChatAnthropic''
     [(''api_key'', StrField, Required),
      (''model'', StrField, DStr ''claude-3-5-sonnet-20241022''),
      (''temperature'', FloatField, DFloat (7 / 10)),
      (''max_tokens'', IntField, DInt 8192),
      (''max_retries'', IntField, DInt 2)]
     ''Anthropic''
     ''Configuration for Anthropic''
     ''https://www.anthropic.com/''"

text \<open>Embedders.\<close>

definition EmbedderFakeConfig :: config_class where
  "EmbedderFakeConfig =
     settings_class ''EmbedderFakeConfig'' ''FakeEmbeddings''
     [(''size'', IntField, DInt 128)]
     ''Default Embedder''
     ''Configuration for default embedder. It just outputs random numbers.''
     ''''"

definition EmbedderDumbConfig :: config_class where
  "EmbedderDumbConfig =
     settings_class ''EmbedderDumbConfig'' ''DumbEmbedder''
     []
     ''Dumb Embedder''
     ''Configuration for default embedder. It encodes the pairs of characters''
     ''''"

definition EmbedderOpenAICompatibleConfig :: config_class where
  "EmbedderOpenAICompatibleConfig =
     settings_class ''EmbedderOpenAICompatibleConfig'' ''CustomOpenAIEmbeddings''
     [(''url'', StrField, Required)]
     ''OpenAI-compatible API embedder''
     ''Configuration for OpenAI-compatible API embeddings''
     ''''"

definition EmbedderOllamaConfig :: config_class where
  "EmbedderOllamaConfig =
     settings_class ''EmbedderOllamaConfig'' ''CustomOllamaEmbeddings''
     [(''base_url'', StrField, Required),
      (''model'', StrField, DStr ''mxbai-embed-large'')]
     ''Ollama embeddding models''
     ''Configuration for Ollama embeddings API''
     ''''"

definition EmbedderOpenAIConfig :: config_class where
  "EmbedderOpenAIConfig =
     settings_class ''EmbedderOpenAIConfig'' ''OpenAIEmbeddings''
     [(''openai_api_key'', StrField, Required),
      (''model'', StrField, DStr ''text-embedding-ada-002'')]
     ''OpenAI Embedder''
     ''Configuration for OpenAI embeddings''
     ''https://platform.openai.com/docs/models/overview''"

definition EmbedderAzureOpenAIConfig :: config_class where
  "EmbedderAzureOpenAIConfig =
     settings_class ''EmbedderAzureOpenAIConfig'' ''AzureOpenAIEmbeddings''
     [(''openai_api_key'', StrField, Required),
      (''model'', StrField, Required),
      (''azure_endpoint'', StrField, Required),
      (''openai_api_type'', StrField, DStr ''azure''),
      (''openai_api_version'', StrField, Required),
      (''deployment'', StrField, Required)]
     ''Azure OpenAI Embedder''
     ''Configuration for Azure OpenAI embeddings''
     ''https://azure.microsoft.com/en-us/products/ai-services/openai-service''"

definition EmbedderCohereConfig :: config_class where
  "EmbedderCohereConfig =
     settings_class ''EmbedderCohereConfig'' ''CohereEmbeddings''
     [(''cohere_api_key'', StrField, Required),
      (''model'', StrField, DStr ''embed-multilingual-v2.0'')]
     ''Cohere Embedder''
     ''Configuration for Cohere embeddings''
     ''https://docs.cohere.com/docs/models''"

definition EmbedderQdrantFastEmbedConfig :: config_class where
  "EmbedderQdrantFastEmbedConfig =
     settings_class ''EmbedderQdrantFastEmbedConfig'' ''FastEmbedEmbeddings''
     [(''model_name'', EnumField ''FastEmbedModels'', DStr ''BAAI/bge-base-en''),
      (''max_length'', IntField, DInt 512),
      (''doc_embed_type'', StrField, DStr ''passage''),
      (''cache_dir'', StrField, DStr ''cat/data/models/fast_embed'')]
     ''Qdrant FastEmbed (Local)''
     ''Configuration for Qdrant FastEmbed''
     ''https://qdrant.github.io/fastembed/''"

definition EmbedderGeminiChatConfig :: config_class where
  "EmbedderGeminiChatConfig =
     settings_class ''EmbedderGeminiChatConfig'' ''GoogleGenerativeAIEmbeddings''
     [(''google_api_key'', StrField, Required),
      (''model'', StrField, DStr ''models/embedding-001'')]
     ''Google Gemini Embedder''
     ''Configuration for Gemini Embedder''
     ''https://cloud.google.com/vertex-ai/docs/generative-ai/model-reference/text-embeddings?hl=en''"

text \<open>Authentication handlers.\<close>

definition CoreOnlyAuthConfig :: config_class where
  "CoreOnlyAuthConfig =
     settings_class ''CoreOnlyAuthConfig'' ''CoreOnlyAuthHandler''
     []
     ''Standalone Core Auth Handler''
     ''Delegate auth to Cat core, without any additional auth systems. Do not change this if you don't know what you are doing!''
     ''''"


section \<open>Allowed classes\<close>

text \<open>The lists the core proposes; a hook of the plugins may change them and raises when no active plugin has it.\<close>

definition list_llms_default :: "config_class list" where
  "list_llms_default =
     [LLMOpenAIChatConfig, LLMOpenAIConfig, LLMOpenAICompatibleConfig, LLMOllamaConfig, LLMGeminiChatConfig, LLMCohereConfig,
      LLMAzureOpenAIConfig, LLMAzureChatOpenAIConfig, LLMHuggingFaceEndpointConfig, LLMHuggingFaceTextGenInferenceConfig,
      LLMAnthropicChatConfig, LLMCustomConfig, LLMDefaultConfig]"

definition list_embedder_default :: "config_class list" where
  "list_embedder_default =
     [EmbedderQdrantFastEmbedConfig, EmbedderOpenAIConfig, EmbedderAzureOpenAIConfig, EmbedderGeminiChatConfig,
      EmbedderOpenAICompatibleConfig, EmbedderCohereConfig, EmbedderDumbConfig, EmbedderFakeConfig, EmbedderOllamaConfig]"

definition list_auth_handler_default :: "config_class list" where
  "list_auth_handler_default = [CoreOnlyAuthConfig]"

type_synonym manager = "(config_class list, unit) mad_hatter"

definition allowed_classes :: "string \<Rightarrow> config_class list \<Rightarrow> manager \<Rightarrow> config_class list result" where
  "allowed_classes hook_name defaults mh =
     (case fst (execute_hook hook_name [defaults] () mh) of
        Inl e \<Rightarrow> Inl e
      | Inr None \<Rightarrow> Inl TypeError
      | Inr (Some l) \<Rightarrow> Inr l)"

definition get_allowed_language_models :: "manager \<Rightarrow> config_class list result" where
  "get_allowed_language_models mh = allowed_classes ''factory_allowed_llms'' list_llms_default mh"

definition get_allowed_embedder_models :: "manager \<Rightarrow> config_class list result" where
  "get_allowed_embedder_models mh = allowed_classes ''factory_allowed_embedders'' list_embedder_default mh"

definition get_allowed_auth_handler_strategies :: "manager \<Rightarrow> config_class list result" where
  "get_allowed_auth_handler_strategies mh = allowed_classes ''factory_allowed_auth_handlers'' list_auth_handler_default mh"

text \<open>The name comes from a stored setting and may be any value; only text can be the name of a class.\<close>

definition class_named :: "pyval \<Rightarrow> config_class list \<Rightarrow> config_class option" where
  "class_named name classes = List.find (\<lambda>c. PStr (cc_name c) = name) classes"

definition get_llm_from_name :: "pyval \<Rightarrow> manager \<Rightarrow> config_class option result" where
  "get_llm_from_name name mh = map_sum id (class_named name) (get_allowed_language_models mh)"

definition get_embedder_from_name :: "pyval \<Rightarrow> manager \<Rightarrow> config_class option result" where
  "get_embedder_from_name name mh = map_sum id (class_named name) (get_allowed_embedder_models mh)"

definition get_auth_handler_from_name :: "pyval \<Rightarrow> manager \<Rightarrow> config_class option result" where
  "get_auth_handler_from_name name mh = map_sum id (class_named name) (get_allowed_auth_handler_strategies mh)"


section \<open>Construction\<close>

type_synonym config = "(string, pyval) dict"

record 'm factory =
  fe_construct :: "string \<Rightarrow> config \<Rightarrow> 'm result"
  fe_is_auth_handler :: "string \<Rightarrow> bool"
  fe_json_loads :: "string \<Rightarrow> pyval result"
  fe_schema :: "config_class \<Rightarrow> config result"

definition from_config :: "'m factory \<Rightarrow> string \<Rightarrow> config_class \<Rightarrow> config \<Rightarrow> 'm result" where
  "from_config F message c config =
     (case cc_pyclass c of
        None \<Rightarrow> Inl (Exception message)
      | Some pyclass \<Rightarrow> fe_construct F pyclass config)"

definition get_embedder_from_config :: "'m factory \<Rightarrow> config_class \<Rightarrow> config \<Rightarrow> 'm result" where
  "get_embedder_from_config F =
     from_config F ''Embedder configuration class has self._pyclass==None. Should be a valid Embedder class''"

text \<open>\<open>LLMCustomConfig\<close> overrides the construction: its options are JSON text or already an object.\<close>

definition custom_options :: "'m factory \<Rightarrow> config \<Rightarrow> config result" where
  "custom_options F config =
     (case dict_get config ''options'' of
        None \<Rightarrow> Inl (KeyError ''options'')
      | Some (PStr s) \<Rightarrow>
          if s \<noteq> [] then map_sum id (\<lambda>v. dict_set ''options'' v config) (fe_json_loads F s)
          else Inr (dict_set ''options'' (PDict []) config)
      | Some _ \<Rightarrow> Inr config)"

definition get_llm_from_config :: "'m factory \<Rightarrow> config_class \<Rightarrow> config \<Rightarrow> 'm result" where
  "get_llm_from_config F c config =
     (let make = from_config F ''Language model configuration class has self._pyclass==None. Should be a valid LLM class'' c
      in if c = LLMCustomConfig
         then (case custom_options F config of Inl e \<Rightarrow> Inl e | Inr config \<Rightarrow> make config)
         else make config)"

definition get_auth_handler_from_config :: "'m factory \<Rightarrow> config_class \<Rightarrow> config \<Rightarrow> 'm result" where
  "get_auth_handler_from_config F c config =
     (case cc_pyclass c of
        None \<Rightarrow> Inl (Exception ''AuthHandler configuration class has self._pyclass==None. Should be a valid AuthHandler class'')
      | Some pyclass \<Rightarrow>
          if \<not> fe_is_auth_handler F pyclass
          then Inl (Exception ''AuthHandler configuration class has self._pyclass==None. Should be a valid AuthHandler class'')
          else fe_construct F pyclass config)"


section \<open>Schemas\<close>

text \<open>Schemas are listed by their title, under which a later class with the same title replaces an earlier one.\<close>

fun schemas_of :: "'m factory \<Rightarrow> string \<Rightarrow> config_class list \<Rightarrow> (string, config) dict \<Rightarrow> (string, config) dict result" where
  "schemas_of F key [] d = Inr d"
| "schemas_of F key (c # cs) d =
     (case fe_schema F c of
        Inl e \<Rightarrow> Inl e
      | Inr schema \<Rightarrow>
          (case dict_get schema ''title'' of
             Some (PStr title) \<Rightarrow> schemas_of F key cs (dict_set title (dict_set key (PStr title) schema) d)
           | _ \<Rightarrow> Inl (KeyError ''title'')))"

definition get_llms_schemas :: "'m factory \<Rightarrow> manager \<Rightarrow> (string, config) dict result" where
  "get_llms_schemas F mh =
     (case get_allowed_language_models mh of Inl e \<Rightarrow> Inl e | Inr l \<Rightarrow> schemas_of F ''languageModelName'' l [])"

definition get_embedders_schemas :: "'m factory \<Rightarrow> manager \<Rightarrow> (string, config) dict result" where
  "get_embedders_schemas F mh =
     (case get_allowed_embedder_models mh of Inl e \<Rightarrow> Inl e | Inr l \<Rightarrow> schemas_of F ''languageEmbedderName'' l [])"

definition get_auth_handlers_schemas :: "'m factory \<Rightarrow> manager \<Rightarrow> (string, config) dict result" where
  "get_auth_handlers_schemas F mh =
     (case get_allowed_auth_handler_strategies mh of Inl e \<Rightarrow> Inl e | Inr l \<Rightarrow> schemas_of F ''auhrizatorName'' l [])"


section \<open>Properties\<close>

definition default_typed :: "field_type \<Rightarrow> field_default \<Rightarrow> bool" where
  "default_typed t d \<longleftrightarrow>
     (case d of
        Required \<Rightarrow> True
      | DNone \<Rightarrow> False
      | DStr _ \<Rightarrow> t = StrField
      | DInt _ \<Rightarrow> t = IntField \<or> t = FloatField
      | DFloat _ \<Rightarrow> t = FloatField
      | DBool _ \<Rightarrow> t = BoolField)"

definition ill_typed_defaults :: "config_class list \<Rightarrow> (string \<times> string) list" where
  "ill_typed_defaults cs = concat (map (\<lambda>c. map (\<lambda>(n, _). (cc_name c, n)) (filter (\<lambda>(_, t, d). \<not> default_typed t d) (cc_fields c))) cs)"

text \<open>
  The configuration classes of the core are well formed: in each of the three lists the names differ, so that lookup by name finds exactly
  the class that was listed, field names of a class differ, every class has something to construct, and every default value has the type
  of its field but two: the \<open>top_k\<close> of the Hugging Face endpoint, an integer with default None, and the model of FastEmbed, an
  enumeration with a text as default.
\<close>
theorem core_config_classes_typed:
  "ill_typed_defaults (list_llms_default @ list_embedder_default @ list_auth_handler_default) =
     [(''LLMHuggingFaceEndpointConfig'', ''top_k''), (''EmbedderQdrantFastEmbedConfig'', ''model_name'')] \<and>
   list_all (\<lambda>c. cc_pyclass c \<noteq> None \<and> distinct (map fst (cc_fields c)))
     (list_llms_default @ list_embedder_default @ list_auth_handler_default) \<and>
   list_all (\<lambda>c. class_named (PStr (cc_name c)) list_llms_default = Some c) list_llms_default \<and>
   list_all (\<lambda>c. class_named (PStr (cc_name c)) list_embedder_default = Some c) list_embedder_default"
proof -
  have "ill_typed_defaults (list_llms_default @ list_embedder_default @ list_auth_handler_default) =
     [(''LLMHuggingFaceEndpointConfig'', ''top_k''), (''EmbedderQdrantFastEmbedConfig'', ''model_name'')]" by code_simp
  moreover have "list_all (\<lambda>c. cc_pyclass c \<noteq> None \<and> distinct (map fst (cc_fields c)))
     (list_llms_default @ list_embedder_default @ list_auth_handler_default)" by code_simp
  moreover have "class_named (PStr (cc_name c)) cs = Some c" if "distinct (map cc_name cs)" "c \<in> set cs" for c cs
    using that by (induction cs) (auto simp: class_named_def)
  moreover have "distinct (map cc_name list_llms_default)" "distinct (map cc_name list_embedder_default)" by code_simp+
  ultimately show ?thesis by (simp only: list_all_iff) blast
qed

end
