(* ===== verification/Endpoints.thy ===== *)
theory Endpoints
  imports Py_Text
begin

text \<open>
  Endpoints of plugins (\<open>mad_hatter/decorators/endpoint.py\<close>, \<open>activate_endpoints\<close> in \<open>looking_glass/cheshire_cat.py\<close> and
  \<open>_deactivate_endpoints\<close> in \<open>mad_hatter/plugin.py\<close>).  The web application is the list of its routes; adding a route is the library's
  \<open>include_router\<close>, which may refuse an endpoint and writes methods in upper case.
\<close>


section \<open>Routes and endpoints\<close>

text \<open>Sets of methods are lists compared as sets.\<close>

record route =
  rt_path :: string
  rt_methods :: "string list"
  rt_function :: nat

record custom_endpoint =
  ep_plugin_id :: string
  ep_prefix :: string
  ep_path :: string
  ep_methods :: "string list"
  ep_function :: nat
  ep_tags :: "string list"
  ep_attached :: bool

definition ep_name :: "custom_endpoint \<Rightarrow> string" where
  "ep_name e = ep_prefix e @ ep_path e"

definition new_endpoint :: "string \<Rightarrow> string \<Rightarrow> nat \<Rightarrow> string list \<Rightarrow> string list \<Rightarrow> custom_endpoint" where
  "new_endpoint pre path function methods tags =
     \<lparr>ep_plugin_id = [], ep_prefix = pre, ep_path = path, ep_methods = methods, ep_function = function, ep_tags = tags, ep_attached = False\<rparr>"

definition default_prefix :: string where "default_prefix = ''/custom''"
definition default_tags :: "string list" where "default_tags = [''Custom Endpoints'']"

text \<open>The decorators; the prefix and the tags have defaults.\<close>

definition endpoint ::
  "string \<Rightarrow> string list \<Rightarrow> string option \<Rightarrow> string list option \<Rightarrow> nat \<Rightarrow> custom_endpoint" where
  "endpoint path methods pre tags function =
     new_endpoint (case pre of Some p \<Rightarrow> p | None \<Rightarrow> default_prefix) path function methods
       (case tags of Some t \<Rightarrow> t | None \<Rightarrow> default_tags)"

definition endpoint_get :: "string \<Rightarrow> string option \<Rightarrow> string list option \<Rightarrow> nat \<Rightarrow> custom_endpoint" where
  "endpoint_get path pre tags function = endpoint path [''GET''] pre tags function"

definition endpoint_post :: "string \<Rightarrow> string option \<Rightarrow> string list option \<Rightarrow> nat \<Rightarrow> custom_endpoint" where
  "endpoint_post path pre tags function = endpoint path [''POST''] pre tags function"

definition endpoint_put :: "string \<Rightarrow> string option \<Rightarrow> string list option \<Rightarrow> nat \<Rightarrow> custom_endpoint" where
  "endpoint_put path pre tags function = endpoint path [''PUT''] pre tags function"

definition endpoint_delete :: "string \<Rightarrow> string option \<Rightarrow> string list option \<Rightarrow> nat \<Rightarrow> custom_endpoint" where
  "endpoint_delete path pre tags function = endpoint path [''DELETE''] pre tags function"


section \<open>Activation and deactivation\<close>

text \<open>What the library does with an endpoint: refuse it when the route is made, refuse it when it is included, write its methods.\<close>

record web =
  wb_add_api_route :: "custom_endpoint \<Rightarrow> py_exc option"
  wb_include_router :: "custom_endpoint \<Rightarrow> py_exc option"
  wb_methods :: "string list \<Rightarrow> string list"

definition same_route :: "custom_endpoint \<Rightarrow> route \<Rightarrow> bool" where
  "same_route e r \<longleftrightarrow> rt_path r = ep_name e \<and> set (rt_methods r) = set (ep_methods e)"

definition route_of :: "web \<Rightarrow> custom_endpoint \<Rightarrow> route" where
  "route_of W e = \<lparr>rt_path = ep_name e, rt_methods = wb_methods W (ep_methods e), rt_function = ep_function e\<rparr>"

definition endpoint_activate :: "web \<Rightarrow> custom_endpoint \<Rightarrow> route list \<Rightarrow> py_exc option \<times> custom_endpoint \<times> route list" where
  "endpoint_activate W e routes =
     (let e = e\<lparr>ep_attached := True\<rparr>
      in if list_ex (same_route e) routes then (None, e, routes)
         else case wb_add_api_route W e of
           Some x \<Rightarrow> (Some x, e, routes)
         | None \<Rightarrow>
             (case wb_include_router W e of
                Some x \<Rightarrow> (None, e, routes)
              | None \<Rightarrow> (None, e, routes @ [route_of W e])))"

fun remove_first :: "('a \<Rightarrow> bool) \<Rightarrow> 'a list \<Rightarrow> 'a list" where
  "remove_first P [] = []"
| "remove_first P (x # xs) = (if P x then xs else x # remove_first P xs)"

definition endpoint_deactivate :: "custom_endpoint \<Rightarrow> route list \<Rightarrow> route list" where
  "endpoint_deactivate e routes = (if ep_attached e then remove_first (same_route e) routes else routes)"

definition deactivate_endpoints :: "custom_endpoint list \<Rightarrow> route list \<Rightarrow> route list" where
  "deactivate_endpoints es routes = fold endpoint_deactivate es routes"

text \<open>After a synchronisation: the endpoints of the manager, in order; an endpoint that raises ends the loop.\<close>

fun activate_endpoints ::
  "web \<Rightarrow> string list \<Rightarrow> custom_endpoint list \<Rightarrow> route list \<Rightarrow> py_exc option \<times> custom_endpoint list \<times> route list" where
  "activate_endpoints W active [] routes = (None, [], routes)"
| "activate_endpoints W active (e # es) routes =
     (if ep_plugin_id e \<in> set active
      then (case endpoint_activate W e routes of
              (Some x, e, routes) \<Rightarrow> (Some x, e # es, routes)
            | (None, e, routes) \<Rightarrow>
                (case activate_endpoints W active es routes of (r, es, routes) \<Rightarrow> (r, e # es, routes)))
      else (case activate_endpoints W active es routes of (r, es, routes) \<Rightarrow> (r, e # es, routes)))"


section \<open>Properties\<close>

lemma same_route_attached [simp]: "same_route (e\<lparr>ep_attached := b\<rparr>) r = same_route e r"
  by (simp add: same_route_def ep_name_def)

lemma remove_first_none: "\<not> list_ex P xs \<Longrightarrow> remove_first P xs = xs"
  by (induction xs) auto

lemma remove_first_append: "\<not> list_ex P xs \<Longrightarrow> remove_first P (xs @ ys) = xs @ remove_first P ys"
  by (induction xs) auto

text \<open>
  C32. What activation and deactivation of an endpoint leave.  An endpoint whose path and methods are new gets its route, and deactivation restores the
  routes, if its methods are written as the library writes them; otherwise (lower case) the route is never found again and stays.  An endpoint
  that collides with a route gets none, but its deactivation removes the route of the other, be it one of the server.
\<close>
theorem endpoint_life_cycle:
  assumes "endpoint_activate W e routes = (None, e', routes')"
  shows "(if list_ex (same_route e) routes
      then routes' = routes \<and> endpoint_deactivate e' routes' = remove_first (same_route e) routes
      else if wb_include_router W (e\<lparr>ep_attached := True\<rparr>) \<noteq> None then routes' = routes \<and> endpoint_deactivate e' routes' = routes
      else routes' = routes @ [route_of W e] \<and>
        endpoint_deactivate e' routes' = (if set (wb_methods W (ep_methods e)) = set (ep_methods e) then routes else routes'))"
proof -
  have "same_route e (route_of W e) \<longleftrightarrow> set (wb_methods W (ep_methods e)) = set (ep_methods e)"
    and "route_of W (e\<lparr>ep_attached := True\<rparr>) = route_of W e"
    and eq: "same_route (e\<lparr>ep_attached := True\<rparr>) = same_route e"
    by (auto simp: same_route_def route_of_def ep_name_def fun_eq_iff)
  then show ?thesis
    using assms
    by (auto simp: endpoint_activate_def Let_def endpoint_deactivate_def remove_first_none remove_first_append
        split: if_splits option.splits)
qed

definition standard_methods :: "web \<Rightarrow> custom_endpoint \<Rightarrow> bool" where
  "standard_methods W e \<longleftrightarrow> set (wb_methods W (ep_methods e)) = set (ep_methods e)"

lemma activate_again:
  assumes "endpoint_activate W e routes = (None, e', routes')" and "standard_methods W e" and "set routes' \<subseteq> set later"
  shows "endpoint_activate W e' later = (None, e', later)"
proof -
  have "same_route e (route_of W e)" using assms(2) by (simp add: standard_methods_def same_route_def route_of_def ep_name_def)
  moreover have "route_of W (e\<lparr>ep_attached := True\<rparr>) = route_of W e" by (simp add: route_of_def ep_name_def)
  ultimately show ?thesis
    using assms(1,3) by (auto simp: endpoint_activate_def Let_def list_ex_iff split: if_splits option.splits)
qed

lemma activate_endpoints_grow: "activate_endpoints W active es routes = (r, es', routes') \<Longrightarrow> set routes \<subseteq> set routes'"
proof (induction W active es routes arbitrary: r es' routes' rule: activate_endpoints.induct)
  case (2 W active e es routes)
  have "set routes \<subseteq> set rs" if "endpoint_activate W e routes = (x, e', rs)" for x e' rs
    using that by (auto simp: endpoint_activate_def Let_def split: if_splits option.splits)
  with 2 show ?case by (auto split: if_splits prod.splits option.splits) blast+
qed simp

text \<open>Synchronising again adds nothing, when all methods are written as the library writes them.\<close>

theorem activate_endpoints_idempotent:
  assumes "activate_endpoints W active es routes = (None, es', routes')" and "list_all (standard_methods W) es" and "set routes' \<subseteq> set later"
  shows "activate_endpoints W active es' later = (None, es', later)"
  using assms
proof (induction W active es routes arbitrary: es' routes' rule: activate_endpoints.induct)
  case (2 W active e es routes)
  show ?case
  proof (cases "ep_plugin_id e \<in> set active")
    case True
    with "2.prems"(1) obtain e1 rs es1 where
      1: "endpoint_activate W e routes = (None, e1, rs)" "activate_endpoints W active es rs = (None, es1, routes')" "es' = e1 # es1"
      by (auto split: prod.splits option.splits)
    have "activate_endpoints W active es1 later = (None, es1, later)"
      using "2.IH"(1) [OF True 1(1) [symmetric] refl refl 1(2)] "2.prems"(2,3) by simp
    moreover have "set rs \<subseteq> set later" using activate_endpoints_grow [OF 1(2)] "2.prems"(3) by blast
    then have "endpoint_activate W e1 later = (None, e1, later)" using activate_again [OF 1(1)] "2.prems"(2) by simp
    moreover have "ep_plugin_id e1 = ep_plugin_id e"
      using 1(1) by (auto simp: endpoint_activate_def Let_def split: if_splits option.splits)
    ultimately show ?thesis using True 1(3) by simp
  next
    case False
    with "2.prems"(1) obtain es1 where 1: "activate_endpoints W active es routes = (None, es1, routes')" "es' = e # es1"
      by (auto split: prod.splits)
    have "activate_endpoints W active es1 later = (None, es1, later)"
      using "2.IH"(2) [OF False 1(1)] "2.prems"(2,3) by simp
    with False 1(2) show ?thesis by simp
  qed
qed simp

definition demo_web :: web where
  "demo_web = \<lparr>wb_add_api_route = (\<lambda>_. None), wb_include_router = (\<lambda>_. None), wb_methods = map (\<lambda>m. if m = ''post'' then ''POST'' else m)\<rparr>"

definition message_route :: route where
  "message_route = \<lparr>rt_path = ''/message'', rt_methods = [''POST''], rt_function = 0\<rparr>"

theorem endpoint_life_cycle_witness:
  "endpoint_deactivate ((endpoint ''/message'' [''POST''] (Some []) None 7)\<lparr>ep_attached := True\<rparr>) [message_route] = []"
proof -
  let ?e = "endpoint ''/message'' [''POST''] (Some []) None 7"
  have "endpoint_activate demo_web ?e [message_route] = (None, ?e\<lparr>ep_attached := True\<rparr>, [message_route])"
    and c: "list_ex (same_route ?e) [message_route]" "remove_first (same_route ?e) [message_route] = []"
    by (simp_all add: endpoint_activate_def endpoint_def new_endpoint_def same_route_def ep_name_def message_route_def)
  from endpoint_life_cycle [OF this(1)] c show ?thesis by simp
qed

end
