(* ===== verification/Cheshire_Cat.thy ===== *)
theory Cheshire_Cat
  imports Factory Vector_Memory Endpoints
begin

text \<open>
  The application object (\<open>looking_glass/cheshire_cat.py\<close>): its bootstrap, the selection of the language model, the embedder and the
  authentication handler from the metadata database, the opening of the long term memory, the callback after a synchronisation
  of plugins; and the endpoints that change a selection (\<open>routes/llm.py\<close>, \<open>routes/embedder.py\<close>, \<open>routes/auth_handler.py\<close>,
  \<open>routes/settings.py\<close>).  It composes \<open>Settings_Db\<close>, \<open>Factory\<close>, \<open>Mad_Hatter\<close>, \<open>Vector_Memory\<close> and \<open>Endpoints\<close>.

  Constructed objects are opaque: what the code asks of them (class, attributes, size of an embedding, embedding of a
  text) are arguments.  The manager names its tools, forms and endpoints; \<open>cn_procedure\<close> and \<open>cn_endpoint\<close> give the objects.
\<close>


section \<open>State and environment\<close>

record ('m, 'e, 's, 'q, 'db) connections =
  cn_db :: "(pyval, 'db) tinydb"
  cn_qdrant :: "('e, 's, 'q) qdrant"
  cn_factory :: "'m factory"
  cn_class :: "'m \<Rightarrow> string"
  cn_attr :: "'m \<Rightarrow> string \<Rightarrow> string option"
  cn_embed_size :: "'m \<Rightarrow> nat result"
  cn_embed :: "'m \<Rightarrow> string \<Rightarrow> 'e result"
  cn_procedure :: "string \<Rightarrow> procedure"
  cn_endpoint :: "string \<Rightarrow> custom_endpoint"
  cn_web :: web
  cn_uuid :: "nat \<Rightarrow> string"
  cn_setting_id :: "string \<Rightarrow> string"
  cn_now :: int

text \<open>\<open>ct_memory\<close> is the name and size of the embedder the open collections were made for.\<close>

record ('m, 'q, 'db) cheshire_cat =
  ct_db :: 'db
  ct_llm :: "'m option"
  ct_embedder :: "'m option"
  ct_auth :: "'m option"
  ct_memory :: "(string \<times> nat) option"
  ct_vectors :: 'q
  ct_mh :: manager
  ct_routes :: "route list"


section \<open>Stored selections\<close>

definition save_setting ::
  "('m, 'e, 's, 'q, 'db) connections \<Rightarrow> string \<Rightarrow> string \<Rightarrow> pyval setting_value \<Rightarrow> 'db \<Rightarrow> 'db" where
  "save_setting C name category value db =
     snd (upsert_setting_by_name (cn_db C) (new_setting name value (Some category) (cn_setting_id C name) (cn_now C)) db)"

definition name_value :: "string \<Rightarrow> pyval setting_value" where
  "name_value n = OtherValue (PDict [(''name'', PStr n)])"

text \<open>\<open>selected["value"]["name"]\<close>\<close>

definition selected_class :: "pyval setting \<Rightarrow> pyval result" where
  "selected_class s =
     (case s_value s of
        OtherValue (PDict d) \<Rightarrow> (case dict_get d ''name'' of None \<Rightarrow> Inl (KeyError ''name'') | Some v \<Rightarrow> Inr v)
      | _ \<Rightarrow> Inl TypeError)"

definition setting_of :: "('m, 'e, 's, 'q, 'db) connections \<Rightarrow> pyval \<Rightarrow> 'db \<Rightarrow> pyval setting option" where
  "setting_of C name db = (case name of PStr n \<Rightarrow> get_setting_by_name (cn_db C) n db | _ \<Rightarrow> None)"

text \<open>The configuration stored under the name of the class, given to the class, in the try block of the loaders.\<close>

definition instantiate ::
  "('m, 'e, 's, 'q, 'db) connections \<Rightarrow> (config_class \<Rightarrow> config \<Rightarrow> 'm result) \<Rightarrow> config_class option \<Rightarrow> pyval \<Rightarrow> 'db \<Rightarrow> 'm result" where
  "instantiate C build cls name db =
     (case cls of
        None \<Rightarrow> Inl (AttributeError ''from_config'')
      | Some c \<Rightarrow>
          (case setting_of C name db of
             None \<Rightarrow> Inl TypeError
           | Some s \<Rightarrow> (case s_value s of OtherValue (PDict config) \<Rightarrow> build c config | _ \<Rightarrow> Inl TypeError)))"


section \<open>Loading\<close>

definition load_language_model :: "('m, 'e, 's, 'q, 'db) connections \<Rightarrow> manager \<Rightarrow> 'db \<Rightarrow> 'm result" where
  "load_language_model C mh db =
     (case get_setting_by_name (cn_db C) ''llm_selected'' db of
        None \<Rightarrow> get_llm_from_config (cn_factory C) LLMDefaultConfig []
      | Some selected \<Rightarrow>
          (case selected_class selected of
             Inl e \<Rightarrow> Inl e
           | Inr name \<Rightarrow>
               (case get_llm_from_name name mh of
                  Inl e \<Rightarrow> Inl e
                | Inr cls \<Rightarrow>
                    (case instantiate C (get_llm_from_config (cn_factory C)) cls name db of
                       Inr llm \<Rightarrow> Inr llm
                     | Inl _ \<Rightarrow> get_llm_from_config (cn_factory C) LLMDefaultConfig []))))"

definition attr_str :: "('m, 'e, 's, 'q, 'db) connections \<Rightarrow> 'm \<Rightarrow> string \<Rightarrow> pyval result" where
  "attr_str C m a = (case cn_attr C m a of None \<Rightarrow> Inl (AttributeError a) | Some v \<Rightarrow> Inr (PStr v))"

text \<open>Without a selection the embedder follows the vendor of the language model.\<close>

definition vendor_embedder :: "('m, 'e, 's, 'q, 'db) connections \<Rightarrow> 'm \<Rightarrow> 'm result" where
  "vendor_embedder C llm =
     (if cn_class C llm \<in> {''langchain_openai.OpenAI'', ''langchain_openai.ChatOpenAI''} then
        (case attr_str C llm ''openai_api_key'' of
           Inl e \<Rightarrow> Inl e
         | Inr k \<Rightarrow> get_embedder_from_config (cn_factory C) EmbedderOpenAIConfig [(''openai_api_key'', k)])
      else if cn_class C llm = ''langchain_community.llms.Cohere'' then
        (case attr_str C llm ''cohere_api_key'' of
           Inl e \<Rightarrow> Inl e
         | Inr k \<Rightarrow>
             get_embedder_from_config (cn_factory C) EmbedderCohereConfig
               [(''cohere_api_key'', k), (''model'', PStr ''embed-multilingual-v2.0'')])
      else if cn_class C llm = ''langchain_google_genai.ChatGoogleGenerativeAI'' then
        (case attr_str C llm ''google_api_key'' of
           Inl e \<Rightarrow> Inl e
         | Inr k \<Rightarrow>
             get_embedder_from_config (cn_factory C) EmbedderGeminiChatConfig
               [(''model'', PStr ''models/embedding-001''), (''google_api_key'', k)])
      else get_embedder_from_config (cn_factory C) EmbedderDumbConfig [])"

definition load_language_embedder :: "('m, 'e, 's, 'q, 'db) connections \<Rightarrow> manager \<Rightarrow> 'm \<Rightarrow> 'db \<Rightarrow> 'm result" where
  "load_language_embedder C mh llm db =
     (case get_setting_by_name (cn_db C) ''embedder_selected'' db of
        None \<Rightarrow> vendor_embedder C llm
      | Some selected \<Rightarrow>
          (case selected_class selected of
             Inl e \<Rightarrow> Inl e
           | Inr name \<Rightarrow>
               (case get_embedder_from_name name mh of
                  Inl e \<Rightarrow> Inl e
                | Inr cls \<Rightarrow>
                    (case instantiate C (get_embedder_from_config (cn_factory C)) cls name db of
                       Inr embedder \<Rightarrow> Inr embedder
                     | Inl _ \<Rightarrow> get_embedder_from_config (cn_factory C) EmbedderDumbConfig []))))"

definition load_natural_language ::
  "('m, 'e, 's, 'q, 'db) connections \<Rightarrow> ('m, 'q, 'db) cheshire_cat \<Rightarrow> py_exc option \<times> ('m, 'q, 'db) cheshire_cat" where
  "load_natural_language C S =
     (case load_language_model C (ct_mh S) (ct_db S) of
        Inl e \<Rightarrow> (Some e, S)
      | Inr llm \<Rightarrow>
          (let S = S\<lparr>ct_llm := Some llm\<rparr>
           in case load_language_embedder C (ct_mh S) llm (ct_db S) of
                Inl e \<Rightarrow> (Some e, S)
              | Inr embedder \<Rightarrow> (None, S\<lparr>ct_embedder := Some embedder\<rparr>)))"

text \<open>The first start stores the core handler as the selected one.\<close>

definition init_auth_settings :: "('m, 'e, 's, 'q, 'db) connections \<Rightarrow> 'db \<Rightarrow> 'db" where
  "init_auth_settings C db =
     (if get_setting_by_name (cn_db C) ''auth_handler_selected'' db = None
      then save_setting C ''auth_handler_selected'' ''auth_handler_factory'' (name_value ''CoreOnlyAuthConfig'')
             (save_setting C ''CoreOnlyAuthConfig'' ''auth_handler_factory'' (OtherValue (PDict [])) db)
      else db)"

definition load_auth ::
  "('m, 'e, 's, 'q, 'db) connections \<Rightarrow> ('m, 'q, 'db) cheshire_cat \<Rightarrow> py_exc option \<times> ('m, 'q, 'db) cheshire_cat" where
  "load_auth C S =
     (let S = S\<lparr>ct_db := init_auth_settings C (ct_db S)\<rparr>
      in case get_setting_by_name (cn_db C) ''auth_handler_selected'' (ct_db S) of
           None \<Rightarrow> (Some TypeError, S)
         | Some selected \<Rightarrow>
             (case selected_class selected of
                Inl e \<Rightarrow> (Some e, S)
              | Inr name \<Rightarrow>
                  (case get_auth_handler_from_name name (ct_mh S) of
                     Inl e \<Rightarrow> (Some e, S)
                   | Inr cls \<Rightarrow>
                       (case (case instantiate C (get_auth_handler_from_config (cn_factory C)) cls name (ct_db S) of
                                Inr a \<Rightarrow> Inr a
                              | Inl _ \<Rightarrow> get_auth_handler_from_config (cn_factory C) CoreOnlyAuthConfig []) of
                          Inl e \<Rightarrow> (Some e, S)
                        | Inr a \<Rightarrow> (None, S\<lparr>ct_auth := Some a\<rparr>)))))"

definition embedder_name :: "('m, 'e, 's, 'q, 'db) connections \<Rightarrow> 'm \<Rightarrow> string" where
  "embedder_name C m =
     (case cn_attr C m ''model'' of
        Some n \<Rightarrow> n
      | None \<Rightarrow> (case cn_attr C m ''repo_id'' of Some n \<Rightarrow> n | None \<Rightarrow> ''default_embedder''))"

definition load_memory ::
  "('m, 'e, 's, 'q, 'db) connections \<Rightarrow> ('m, 'q, 'db) cheshire_cat \<Rightarrow> py_exc option \<times> ('m, 'q, 'db) cheshire_cat" where
  "load_memory C S =
     (case ct_embedder S of
        None \<Rightarrow> (Some (AttributeError ''embedder''), S)
      | Some m \<Rightarrow>
          (case cn_embed_size C m of
             Inl e \<Rightarrow> (Some e, S)
           | Inr n \<Rightarrow>
               (case vector_memory_init (cn_qdrant C) (embedder_name C m) n (ct_vectors S) of
                  (Some e, q) \<Rightarrow> (Some e, S\<lparr>ct_vectors := q\<rparr>)
                | (None, q) \<Rightarrow> (None, S\<lparr>ct_vectors := q, ct_memory := Some (embedder_name C m, n)\<rparr>))))"


section \<open>Plugins and their callback\<close>

text \<open>\<open>self.embed_procedures()\<close> and \<open>self.activate_endpoints()\<close> for a synchronised manager.\<close>

definition on_finish_plugins_sync_callback ::
  "('m, 'e, 's, 'q, 'db) connections \<Rightarrow> manager \<Rightarrow> ('m, 'q, 'db) cheshire_cat \<Rightarrow> py_exc option \<times> ('m, 'q, 'db) cheshire_cat" where
  "on_finish_plugins_sync_callback C mh S =
     (case activate_endpoints (cn_web C) (mh_active mh) (map (cn_endpoint C) (mh_endpoints mh)) (ct_routes S) of
        (Some e, _, routes) \<Rightarrow> (Some e, S\<lparr>ct_routes := routes\<rparr>)
      | (None, _, routes) \<Rightarrow>
          (let S = S\<lparr>ct_routes := routes\<rparr>
           in case ct_embedder S of
                None \<Rightarrow> (Some (AttributeError ''embedder''), S)
              | Some m \<Rightarrow>
                  (case embed_procedures (cn_qdrant C) (cn_embed C m) (cn_now C) (map (cn_procedure C) (procedures mh))
                          (cn_uuid C) (ct_vectors S) of
                     (err, q) \<Rightarrow> (err, S\<lparr>ct_vectors := q\<rparr>))))"

text \<open>The manager's operations end with a synchronisation, which runs the callback.\<close>

definition toggle_plugin_cb ::
  "(('v, 'c) mad_hatter \<Rightarrow> 'st \<Rightarrow> py_exc option \<times> 'st) \<Rightarrow> string \<Rightarrow> ('v, 'c) mad_hatter \<Rightarrow> 'st \<Rightarrow>
   py_exc option \<times> ('v, 'c) mad_hatter \<times> 'st" where
  "toggle_plugin_cb cb i mh s =
     (case toggle_plugin i mh of
        (Some e, mh) \<Rightarrow> (Some e, mh, s)
      | (None, mh) \<Rightarrow> (case cb mh s of (err, s) \<Rightarrow> (err, mh, s)))"

fun discover_cb ::
  "(('v, 'c) mad_hatter \<Rightarrow> 'st \<Rightarrow> py_exc option \<times> 'st) \<Rightarrow> string list \<Rightarrow> ('v, 'c) mad_hatter \<Rightarrow> 'st \<Rightarrow>
   py_exc option \<times> ('v, 'c) mad_hatter \<times> 'st" where
  "discover_cb cb [] mh s = (let mh = sync_hooks_tools_and_forms mh in case cb mh s of (err, s) \<Rightarrow> (err, mh, s))"
| "discover_cb cb (i # folders) mh s =
     (let mh = load_plugin i mh in
      if i \<in> set (mh_active mh) then
        (case dict_get (mh_plugins mh) i of
           None \<Rightarrow> toggle_plugin_cb cb i mh s
         | Some p \<Rightarrow>
             (case activate_obj i p mh of
                (None, mh) \<Rightarrow> discover_cb cb folders mh s
              | (Some e, mh) \<Rightarrow>
                  (case toggle_plugin_cb cb i mh s of
                     (Some e', mh, s) \<Rightarrow> (Some e', mh, s)
                   | (None, mh, s) \<Rightarrow> (Some e, mh, s))))
      else discover_cb cb folders mh s)"

definition find_plugins_cb ::
  "(('v, 'c) mad_hatter \<Rightarrow> 'st \<Rightarrow> py_exc option \<times> 'st) \<Rightarrow> ('v, 'c) mad_hatter \<Rightarrow> 'st \<Rightarrow>
   py_exc option \<times> ('v, 'c) mad_hatter \<times> 'st" where
  "find_plugins_cb cb mh s =
     discover_cb cb (''core_plugin'' # filter (\<lambda>i. i \<noteq> ''core_plugin'') (dict_keys (mh_disk mh)))
       (mh\<lparr>mh_plugins := [], mh_active := load_active_plugins_from_db mh\<rparr>) s"

definition refresh_plugins ::
  "('m, 'e, 's, 'q, 'db) connections \<Rightarrow> ('m, 'q, 'db) cheshire_cat \<Rightarrow> py_exc option \<times> ('m, 'q, 'db) cheshire_cat" where
  "refresh_plugins C S =
     (case find_plugins_cb (on_finish_plugins_sync_callback C) (ct_mh S) S of (err, mh, S) \<Rightarrow> (err, S\<lparr>ct_mh := mh\<rparr>))"

section \<open>Bootstrap\<close>

text \<open>
  The plugin manager is created the first time it is asked for, which is inside \<open>load_auth\<close>; \<open>disk\<close> and \<open>saved\<close> are the plugins
  folder and the saved list of active plugins.  Main agent, ingestion, cache and scheduler are made without a further step.
\<close>

definition execute_hook0 :: "string \<Rightarrow> ('m, 'q, 'db) cheshire_cat \<Rightarrow> py_exc option" where
  "execute_hook0 n S = (case fst (execute_hook n [] () (ct_mh S)) of Inl e \<Rightarrow> Some e | Inr _ \<Rightarrow> None)"

definition and_then :: "py_exc option \<times> 'st \<Rightarrow> ('st \<Rightarrow> py_exc option \<times> 'st) \<Rightarrow> py_exc option \<times> 'st" where
  "and_then r f = (case r of (Some e, s) \<Rightarrow> (Some e, s) | (None, s) \<Rightarrow> f s)"

definition cheshire_cat_init ::
  "('m, 'e, 's, 'q, 'db) connections \<Rightarrow> (string, (config_class list, unit) source) dict \<Rightarrow> string list option \<Rightarrow>
   'db \<Rightarrow> 'q \<Rightarrow> route list \<Rightarrow> py_exc option \<times> ('m, 'q, 'db) cheshire_cat" where
  "cheshire_cat_init C disk saved db q routes =
     (case boot disk saved of
        (err, mh) \<Rightarrow>
          (let S = \<lparr>ct_db = init_auth_settings C db, ct_llm = None, ct_embedder = None, ct_auth = None, ct_memory = None,
                    ct_vectors = q, ct_mh = mh, ct_routes = routes\<rparr>
           in and_then (and_then (and_then (and_then (and_then (and_then (err, S)
                (load_auth C))
                (\<lambda>S. (execute_hook0 ''before_cat_bootstrap'' S, S)))
                (load_natural_language C))
                (load_memory C))
                (\<lambda>S. on_finish_plugins_sync_callback C (ct_mh S) S))
                (\<lambda>S. (execute_hook0 ''after_cat_bootstrap'' S, S))))"


section \<open>Endpoints of the factories\<close>

type_synonym reply = "string \<times> config"

definition stored_value :: "pyval setting option \<Rightarrow> pyval" where
  "stored_value s = (case s of Some t \<Rightarrow> (case s_value t of OtherValue v \<Rightarrow> v | _ \<Rightarrow> PNone) | None \<Rightarrow> PDict [])"

text \<open>The settings of a category by name; a later setting with the same name replaces an earlier one.\<close>

definition saved_by_name ::
  "('m, 'e, 's, 'q, 'db) connections \<Rightarrow> string \<Rightarrow> 'db \<Rightarrow> (string, pyval setting) dict" where
  "saved_by_name C category db =
     fold (\<lambda>s d. dict_set (s_name s) s d) (get_settings_by_category (cn_db C) (Some category) db) []"

definition list_entries ::
  "('m, 'e, 's, 'q, 'db) connections \<Rightarrow> string \<Rightarrow> (string, config) dict \<Rightarrow> 'db \<Rightarrow> (string \<times> pyval \<times> config) list" where
  "list_entries C category schemas db =
     map (\<lambda>(n, schema). (n, stored_value (dict_get (saved_by_name C category db) n), schema)) schemas"

definition selected_name :: "('m, 'e, 's, 'q, 'db) connections \<Rightarrow> string \<Rightarrow> 'db \<Rightarrow> pyval result" where
  "selected_name C n db =
     (case get_setting_by_name (cn_db C) n db of None \<Rightarrow> Inr PNone | Some s \<Rightarrow> selected_class s)"

definition get_llms_settings ::
  "('m, 'e, 's, 'q, 'db) connections \<Rightarrow> ('m, 'q, 'db) cheshire_cat \<Rightarrow> ((string \<times> pyval \<times> config) list \<times> pyval) result" where
  "get_llms_settings C S =
     (case get_llms_schemas (cn_factory C) (ct_mh S) of
        Inl e \<Rightarrow> Inl e
      | Inr schemas \<Rightarrow>
          map_sum id (\<lambda>sel. (list_entries C ''llm_factory'' schemas (ct_db S), sel)) (selected_name C ''llm_selected'' (ct_db S)))"

text \<open>The selection shown without a stored one is the first class the embedder is an instance of; \<open>isinstance\<close> is a parameter.\<close>

definition get_embedders_settings ::
  "('m, 'e, 's, 'q, 'db) connections \<Rightarrow> ('m \<Rightarrow> string \<Rightarrow> bool) \<Rightarrow> ('m, 'q, 'db) cheshire_cat \<Rightarrow>
   ((string \<times> pyval \<times> config) list \<times> pyval) result" where
  "get_embedders_settings C isinstance S =
     (case get_allowed_embedder_models (ct_mh S) of
        Inl e \<Rightarrow> Inl e
      | Inr supported \<Rightarrow>
          (case (case get_setting_by_name (cn_db C) ''embedder_selected'' (ct_db S) of
                   Some s \<Rightarrow> selected_class s
                 | None \<Rightarrow>
                     Inr (case List.find (\<lambda>c. case (ct_embedder S, cc_pyclass c) of (Some m, Some k) \<Rightarrow> isinstance m k | _ \<Rightarrow> False) supported of
                            None \<Rightarrow> PNone
                          | Some c \<Rightarrow> PStr (cc_name c))) of
             Inl e \<Rightarrow> Inl e
           | Inr sel \<Rightarrow>
               map_sum id (\<lambda>schemas. (list_entries C ''embedder_factory'' schemas (ct_db S), sel))
                 (get_embedders_schemas (cn_factory C) (ct_mh S))))"

definition get_auth_handler_settings ::
  "('m, 'e, 's, 'q, 'db) connections \<Rightarrow> ('m, 'q, 'db) cheshire_cat \<Rightarrow> ((string \<times> pyval \<times> config) list \<times> pyval) result" where
  "get_auth_handler_settings C S =
     (case selected_name C ''auth_handler_selected'' (ct_db S) of
        Inl e \<Rightarrow> Inl e
      | Inr sel \<Rightarrow>
          map_sum id (\<lambda>schemas. (list_entries C ''auth_handler_factory'' schemas (ct_db S), sel))
            (get_auth_handlers_schemas (cn_factory C) (ct_mh S)))"

text \<open>One entry: 400 for a name that is not allowed.\<close>

definition one_entry ::
  "('m, 'e, 's, 'q, 'db) connections \<Rightarrow> (string, config) dict result \<Rightarrow> string \<Rightarrow> 'db \<Rightarrow> (string \<times> pyval \<times> config) result" where
  "one_entry C schemas name db =
     (case schemas of
        Inl e \<Rightarrow> Inl e
      | Inr schemas \<Rightarrow>
          (case dict_get schemas name of
             None \<Rightarrow> Inl (HTTPException 400)
           | Some schema \<Rightarrow> Inr (name, stored_value (get_setting_by_name (cn_db C) name db), schema)))"

definition get_llm_settings ::
  "('m, 'e, 's, 'q, 'db) connections \<Rightarrow> string \<Rightarrow> ('m, 'q, 'db) cheshire_cat \<Rightarrow> (string \<times> pyval \<times> config) result" where
  "get_llm_settings C name S = one_entry C (get_llms_schemas (cn_factory C) (ct_mh S)) name (ct_db S)"

definition get_embedder_settings ::
  "('m, 'e, 's, 'q, 'db) connections \<Rightarrow> string \<Rightarrow> ('m, 'q, 'db) cheshire_cat \<Rightarrow> (string \<times> pyval \<times> config) result" where
  "get_embedder_settings C name S = one_entry C (get_embedders_schemas (cn_factory C) (ct_mh S)) name (ct_db S)"

definition get_auth_handler_setting ::
  "('m, 'e, 's, 'q, 'db) connections \<Rightarrow> string \<Rightarrow> ('m, 'q, 'db) cheshire_cat \<Rightarrow> (string \<times> pyval \<times> config) result" where
  "get_auth_handler_setting C name S = one_entry C (get_auth_handlers_schemas (cn_factory C) (ct_mh S)) name (ct_db S)"

definition select_class ::
  "('m, 'e, 's, 'q, 'db) connections \<Rightarrow> string \<Rightarrow> string \<Rightarrow> string \<Rightarrow> string \<Rightarrow> pyval setting_value \<Rightarrow> 'db \<Rightarrow> 'db" where
  "select_class C selected_setting selected_category category name value db =
     save_setting C selected_setting selected_category (name_value name) (save_setting C name category value db)"

definition drop_category :: "('m, 'e, 's, 'q, 'db) connections \<Rightarrow> string \<Rightarrow> 'db \<Rightarrow> 'db" where
  "drop_category C category db = delete_settings_by_category (cn_db C) (Some category) db"

definition upsert_llm_setting ::
  "('m, 'e, 's, 'q, 'db) connections \<Rightarrow> string \<Rightarrow> config \<Rightarrow> ('m, 'q, 'db) cheshire_cat \<Rightarrow> reply result \<times> ('m, 'q, 'db) cheshire_cat" where
  "upsert_llm_setting C name payload S =
     (case get_llms_schemas (cn_factory C) (ct_mh S) of
        Inl e \<Rightarrow> (Inl e, S)
      | Inr schemas \<Rightarrow>
          if name \<notin> set (dict_keys schemas) then (Inl (HTTPException 400), S)
          else
            (case load_natural_language C (S\<lparr>ct_db := select_class C ''llm_selected'' ''llm'' ''llm_factory'' name (OtherValue (PDict payload)) (ct_db S)\<rparr>) of
               (Some e, S) \<Rightarrow> (Inl e, S)
             | (None, S) \<Rightarrow>
                 (case load_memory C S of
                    (Some e, S) \<Rightarrow>
                      (Inl (HTTPException 400), S\<lparr>ct_db := drop_category C ''llm_factory'' (drop_category C ''llm'' (ct_db S))\<rparr>)
                  | (None, S) \<Rightarrow>
                      (case refresh_plugins C S of
                         (Some e, S) \<Rightarrow> (Inl e, S)
                       | (None, S) \<Rightarrow> (Inr (name, payload), S)))))"

text \<open>The configuration in use before the change is put back when the new embedder fails.\<close>

definition restore_embedder ::
  "('m, 'e, 's, 'q, 'db) connections \<Rightarrow> (pyval \<times> pyval setting option) option \<Rightarrow> ('m, 'q, 'db) cheshire_cat \<Rightarrow>
   py_exc option \<times> ('m, 'q, 'db) cheshire_cat" where
  "restore_embedder C selected S =
     (case selected of
        None \<Rightarrow> (None, S)
      | Some (PStr old, Some current) \<Rightarrow>
          load_natural_language C
            (S\<lparr>ct_db := select_class C ''embedder_selected'' ''embedder'' ''embedder_factory'' old (s_value current) (ct_db S)\<rparr>)
      | Some _ \<Rightarrow> (Some TypeError, S))"

definition upsert_embedder_setting ::
  "('m, 'e, 's, 'q, 'db) connections \<Rightarrow> string \<Rightarrow> config \<Rightarrow> ('m, 'q, 'db) cheshire_cat \<Rightarrow> reply result \<times> ('m, 'q, 'db) cheshire_cat" where
  "upsert_embedder_setting C name payload S =
     (case get_embedders_schemas (cn_factory C) (ct_mh S) of
        Inl e \<Rightarrow> (Inl e, S)
      | Inr schemas \<Rightarrow>
          if name \<notin> set (dict_keys schemas) then (Inl (HTTPException 400), S)
          else
            (case (case get_setting_by_name (cn_db C) ''embedder_selected'' (ct_db S) of
                     None \<Rightarrow> Inr None
                   | Some s \<Rightarrow> map_sum id (\<lambda>old. Some (old, setting_of C old (ct_db S))) (selected_class s)) of
               Inl e \<Rightarrow> (Inl e, S)
             | Inr selected \<Rightarrow>
                 (case load_natural_language C
                         (S\<lparr>ct_db := select_class C ''embedder_selected'' ''embedder'' ''embedder_factory'' name (OtherValue (PDict payload)) (ct_db S)\<rparr>) of
                    (Some e, S) \<Rightarrow> (Inl e, S)
                  | (None, S) \<Rightarrow>
                      (case load_memory C S of
                         (Some e, S) \<Rightarrow>
                           (case restore_embedder C selected
                                   (S\<lparr>ct_db := drop_category C ''embedder_factory'' (drop_category C ''embedder'' (ct_db S))\<rparr>) of
                              (Some e, S) \<Rightarrow> (Inl e, S)
                            | (None, S) \<Rightarrow> (Inl (HTTPException 400), S))
                       | (None, S) \<Rightarrow>
                           (case refresh_plugins C S of
                              (Some e, S) \<Rightarrow> (Inl e, S)
                            | (None, S) \<Rightarrow> (Inr (name, payload), S))))))"

definition upsert_authenticator_setting ::
  "('m, 'e, 's, 'q, 'db) connections \<Rightarrow> string \<Rightarrow> config \<Rightarrow> ('m, 'q, 'db) cheshire_cat \<Rightarrow> reply result \<times> ('m, 'q, 'db) cheshire_cat" where
  "upsert_authenticator_setting C name payload S =
     (case get_auth_handlers_schemas (cn_factory C) (ct_mh S) of
        Inl e \<Rightarrow> (Inl e, S)
      | Inr schemas \<Rightarrow>
          if name \<notin> set (dict_keys schemas) then (Inl (HTTPException 400), S)
          else
            (case load_auth C (S\<lparr>ct_db := select_class C ''auth_handler_selected'' ''auth_handler_factory'' ''auth_handler_factory'' name (OtherValue (PDict payload)) (ct_db S)\<rparr>) of
               (Some e, S) \<Rightarrow> (Inl e, S)
             | (None, S) \<Rightarrow> (Inr (name, payload), S)))"


section \<open>Endpoints of the settings (routes/settings.py)\<close>

definition get_settings_endpoint ::
  "('x, 'db) tinydb \<Rightarrow> (string \<Rightarrow> string \<Rightarrow> bool) \<Rightarrow> string \<Rightarrow> 'db \<Rightarrow> 'x setting list" where
  "get_settings_endpoint T matches search db = get_settings T matches search db"

definition create_setting_endpoint ::
  "('x, 'db) tinydb \<Rightarrow> string \<Rightarrow> 'x setting_value \<Rightarrow> string option \<Rightarrow> string \<Rightarrow> int \<Rightarrow> 'db \<Rightarrow> 'x setting option \<times> 'db" where
  "create_setting_endpoint T name value category uuid now db = create_setting T (new_setting name value category uuid now) db"

definition get_setting_endpoint :: "('x, 'db) tinydb \<Rightarrow> string \<Rightarrow> 'db \<Rightarrow> 'x setting result" where
  "get_setting_endpoint T i db = (case get_setting_by_id T i db of None \<Rightarrow> Inl (HTTPException 404) | Some s \<Rightarrow> Inr s)"

definition update_setting_endpoint ::
  "('x, 'db) tinydb \<Rightarrow> string \<Rightarrow> string \<Rightarrow> 'x setting_value \<Rightarrow> string option \<Rightarrow> int \<Rightarrow> 'db \<Rightarrow> 'x setting option result \<times> 'db" where
  "update_setting_endpoint T i name value category now db =
     (case get_setting_by_id T i db of
        None \<Rightarrow> (Inl (HTTPException 404), db)
      | Some _ \<Rightarrow> (case update_setting_by_id T (new_setting name value category i now) db of (s, db) \<Rightarrow> (Inr s, db)))"

definition delete_setting_endpoint :: "('x, 'db) tinydb \<Rightarrow> string \<Rightarrow> 'db \<Rightarrow> string result \<times> 'db" where
  "delete_setting_endpoint T i db =
     (case get_setting_by_id T i db of
        None \<Rightarrow> (Inl (HTTPException 404), db)
      | Some _ \<Rightarrow> (Inr i, delete_setting_by_id T i db))"

section \<open>Lemmas\<close>

subsection \<open>The database\<close>

abbreviation saved_as ::
  "('m, 'e, 's, 'q, 'db) connections \<Rightarrow> string \<Rightarrow> string \<Rightarrow> pyval setting_value \<Rightarrow> pyval setting" where
  "saved_as C name category v \<equiv> new_setting name v (Some category) (cn_setting_id C name) (cn_now C)"

lemma save_setting_get:
  assumes "tinydb_laws (cn_db C) docs"
  shows "get_setting_by_name (cn_db C) n (save_setting C name category v db) =
           (if n = name then Some (saved_as C name category v) else get_setting_by_name (cn_db C) n db)"
  by (simp add: save_setting_def upsert_get [OF assms])

lemma select_class_get:
  assumes "tinydb_laws (cn_db C) docs"
  shows "get_setting_by_name (cn_db C) n (select_class C sel cat_sel category name v db) =
           (if n = sel then Some (saved_as C sel cat_sel (name_value name))
            else if n = name then Some (saved_as C name category v) else get_setting_by_name (cn_db C) n db)"
  by (simp add: select_class_def save_setting_get [OF assms])

text \<open>What a category keeps.\<close>

definition names_ok :: "('db \<Rightarrow> pyval setting list) \<Rightarrow> 'db \<Rightarrow> bool" where
  "names_ok docs db \<longleftrightarrow> distinct (map s_name (docs db))"

lemma save_setting_names:
  assumes "tinydb_laws (cn_db C) docs" and "names_ok docs db"
  shows "names_ok docs (save_setting C name category v db)"
proof -
  let ?d = "saved_as C name category v"
  have "map s_name (map (\<lambda>x. if s_name x = s_name ?d then ?d else x) (docs db)) = map s_name (docs db)" by simp
  with assms(2) show ?thesis
    unfolding names_ok_def save_setting_def upsert_docs [OF assms(1)] by (simp del: map_map)
qed

lemma drop_category_docs:
  assumes "tinydb_laws (cn_db C) docs"
  shows "docs (drop_category C category db) = filter (\<lambda>s. s_category s \<noteq> Some category) (docs db)"
  by (simp add: drop_category_def delete_settings_by_category_def lawsD [OF assms])

lemma drop_category_names:
  "tinydb_laws (cn_db C) docs \<Longrightarrow> names_ok docs db \<Longrightarrow> names_ok docs (drop_category C category db)"
  by (simp add: names_ok_def drop_category_docs distinct_map_filter)

lemma find_filter_name:
  "distinct (map s_name xs) \<Longrightarrow>
   List.find (\<lambda>s. s_name s = n) (filter P xs) =
     (case List.find (\<lambda>s. s_name s = n) xs of None \<Rightarrow> None | Some s \<Rightarrow> if P s then Some s else None)"
proof (induction xs)
  case (Cons a xs)
  show ?case
  proof (cases "s_name a = n")
    case True
    with Cons.prems have "List.find (\<lambda>s. s_name s = n) xs = None" by (auto simp: find_None_key)
    with Cons True show ?thesis by simp
  next
    case False
    with Cons show ?thesis by simp
  qed
qed simp

lemma drop_category_get:
  assumes "tinydb_laws (cn_db C) docs" and "names_ok docs db"
  shows "get_setting_by_name (cn_db C) n (drop_category C category db) =
           (case get_setting_by_name (cn_db C) n db of
              None \<Rightarrow> None | Some s \<Rightarrow> if s_category s = Some category then None else Some s)"
  using assms(2)
  by (simp add: get_setting_docs [OF assms(1)] drop_category_docs [OF assms(1)] names_ok_def find_filter_name split: option.split)

lemma select_class_names:
  "tinydb_laws (cn_db C) docs \<Longrightarrow> names_ok docs db \<Longrightarrow> names_ok docs (select_class C sel cat_sel category name v db)"
  by (simp add: select_class_def save_setting_names)

lemma saved_as_simps [simp]:
  "s_category (saved_as C n c v) = Some c" "selected_class (saved_as C n c (name_value m)) = Inr (PStr m)"
  by (simp_all add: new_setting_def selected_class_def name_value_def)


subsection \<open>What the loaders change\<close>

lemma load_natural_language_keeps:
  assumes "load_natural_language C S = (err, S')"
  shows "ct_db S' = ct_db S" "ct_mh S' = ct_mh S" "ct_vectors S' = ct_vectors S" "ct_memory S' = ct_memory S"
    "ct_auth S' = ct_auth S" "ct_routes S' = ct_routes S"
  using assms by (auto simp: load_natural_language_def Let_def split: sum.splits)

lemma load_natural_language_loaded:
  assumes "load_natural_language C S = (None, S')"
  obtains llm m where "load_language_model C (ct_mh S) (ct_db S) = Inr llm" "load_language_embedder C (ct_mh S) llm (ct_db S) = Inr m"
    "ct_llm S' = Some llm" "ct_embedder S' = Some m"
  using assms by (auto simp: load_natural_language_def Let_def split: sum.splits)

lemma load_memory_keeps:
  assumes "load_memory C S = (err, S')"
  shows "ct_db S' = ct_db S" "ct_mh S' = ct_mh S" "ct_llm S' = ct_llm S" "ct_embedder S' = ct_embedder S"
    "ct_auth S' = ct_auth S" "ct_routes S' = ct_routes S" "err \<noteq> None \<Longrightarrow> ct_memory S' = ct_memory S"
  using assms by (auto simp: load_memory_def split: option.splits sum.splits prod.splits)

text \<open>A selection that can be read never prevents loading: what cannot be built is replaced by the default.\<close>

lemma load_language_model_total:
  assumes "get_allowed_language_models mh = Inr l"
    and "case get_setting_by_name (cn_db C) ''llm_selected'' db of None \<Rightarrow> True | Some s \<Rightarrow> selected_class s = Inr name"
    and "get_llm_from_config (cn_factory C) LLMDefaultConfig [] = Inr d"
  shows "\<exists>llm. load_language_model C mh db = Inr llm \<and>
     (llm = d \<or> (\<exists>s cls. get_setting_by_name (cn_db C) ''llm_selected'' db = Some s \<and> class_named name l = Some cls \<and>
        instantiate C (get_llm_from_config (cn_factory C)) (Some cls) name db = Inr llm))"
  using assms
  by (cases "class_named name l")
     (auto simp: load_language_model_def get_llm_from_name_def instantiate_def split: option.splits sum.splits)

lemma load_language_embedder_total:
  assumes "get_allowed_embedder_models mh = Inr l"
    and "case get_setting_by_name (cn_db C) ''embedder_selected'' db of None \<Rightarrow> \<exists>m. vendor_embedder C llm = Inr m | Some s \<Rightarrow> \<exists>name. selected_class s = Inr name"
    and "get_embedder_from_config (cn_factory C) EmbedderDumbConfig [] = Inr d"
  shows "\<exists>m. load_language_embedder C mh llm db = Inr m"
  using assms
  by (auto simp: load_language_embedder_def get_embedder_from_name_def split: option.splits sum.splits)

section \<open>Properties\<close>

text \<open>
  C24. Changing the embedder is undone when the memory cannot be opened for the new one.  The client gets 400; the old class is selected again
  with its old configuration, and llm and embedder are those this selection gives; settings outside the two categories of
  embedders are as before.  But every other stored embedder configuration is lost, and the collections are left as
  the failed opening left them: they are not opened again for the restored embedder.
\<close>
theorem embedder_change_rolled_back:
  assumes "tinydb_laws (cn_db C) docs" and "names_ok docs (ct_db S)"
    and "get_embedders_schemas (cn_factory C) (ct_mh S) = Inr schemas" and "name \<in> set (dict_keys schemas)"
    and "get_setting_by_name (cn_db C) ''embedder_selected'' (ct_db S) = Some sel" and "selected_class sel = Inr (PStr old)"
    and "get_setting_by_name (cn_db C) old (ct_db S) = Some cur" and "old \<noteq> ''embedder_selected''"
    and "load_natural_language C (S\<lparr>ct_db := select_class C ''embedder_selected'' ''embedder'' ''embedder_factory'' name (OtherValue (PDict payload)) (ct_db S)\<rparr>) = (None, S1)"
    and "load_memory C S1 = (Some e, S2)"
    and "upsert_embedder_setting C name payload S = (r, S')"
  shows "(let db' = ct_db S'; get = get_setting_by_name (cn_db C) in
         (\<exists>s. get ''embedder_selected'' db' = Some s \<and> selected_class s = Inr (PStr old)) \<and>
         (\<exists>s. get old db' = Some s \<and> s_value s = s_value cur) \<and>
         (\<forall>s \<in> set (docs db'). s_category s = Some ''embedder_factory'' \<longrightarrow> s_name s = old) \<and>
         (\<forall>n s. n \<notin> {''embedder_selected'', old, name} \<longrightarrow> get n (ct_db S) = Some s \<longrightarrow>
            s_category s \<notin> {Some ''embedder'', Some ''embedder_factory''} \<longrightarrow> get n db' = Some s) \<and>
         ct_vectors S' = ct_vectors S2 \<and> ct_memory S' = ct_memory S \<and>
         (case r of
            Inr _ \<Rightarrow> False
          | Inl err \<Rightarrow> err = HTTPException 400 \<and> (\<exists>llm m. ct_llm S' = Some llm \<and> ct_embedder S' = Some m \<and>
                load_language_model C (ct_mh S) db' = Inr llm \<and> load_language_embedder C (ct_mh S) llm db' = Inr m)
              \<or> fst (load_natural_language C (S2\<lparr>ct_db := db'\<rparr>)) = Some err))"
proof -
  note laws = assms(1)
  let ?sel = "select_class C ''embedder_selected'' ''embedder'' ''embedder_factory''"
  let ?db1 = "?sel name (OtherValue (PDict payload)) (ct_db S)"
  let ?db2 = "drop_category C ''embedder_factory'' (drop_category C ''embedder'' ?db1)"
  let ?db3 = "?sel old (s_value cur) ?db2"
  have db: "ct_db S2 = ?db1" "ct_mh S2 = ct_mh S" "ct_memory S2 = ct_memory S"
    using load_memory_keeps [OF assms(10)] load_natural_language_keeps [OF assms(9)] by simp_all
  obtain err S3 where l: "load_natural_language C (S2\<lparr>ct_db := ?db3\<rparr>) = (err, S3)" by fastforce
  have res: "(r, S') = (case err of Some e \<Rightarrow> (Inl e, S3) | None \<Rightarrow> (Inl (HTTPException 400), S3))"
    using assms(3-7,9,10) l db(1)
    by (simp add: upsert_embedder_setting_def setting_of_def restore_embedder_def flip: assms(11) split: option.split)
  note k = load_natural_language_keeps [OF l]
  have S': "S' = S3" using res by (simp split: option.splits)
  then have db': "ct_db S' = ?db3" "ct_vectors S' = ct_vectors S2" "ct_memory S' = ct_memory S" using k db by simp_all
  have names: "names_ok docs ?db1" "names_ok docs (drop_category C ''embedder'' ?db1)" "names_ok docs ?db2" "names_ok docs ?db3"
    by (intro select_class_names [OF laws] drop_category_names [OF laws] assms(2))+
  have sel: "\<exists>s. get_setting_by_name (cn_db C) ''embedder_selected'' ?db3 = Some s \<and> selected_class s = Inr (PStr old)"
    by (simp add: select_class_get [OF laws])
  have cfg: "\<exists>s. get_setting_by_name (cn_db C) old ?db3 = Some s \<and> s_value s = s_value cur"
    using assms(8) by (simp add: select_class_get [OF laws])
  have get2: "get_setting_by_name (cn_db C) n ?db2 = (case get_setting_by_name (cn_db C) n ?db1 of
      None \<Rightarrow> None | Some s \<Rightarrow> if s_category s \<in> {Some ''embedder'', Some ''embedder_factory''} then None else Some s)" for n
    by (simp add: drop_category_get [OF laws] names split: option.split)
  have lost: "s_name s = old" if s: "s \<in> set (docs ?db3)" "s_category s = Some ''embedder_factory''" for s
  proof (rule ccontr)
    assume n: "s_name s \<noteq> old"
    have "List.find (\<lambda>t. s_name t = s_name s) (docs ?db3) = Some s"
    proof -
      have "distinct (map s_name xs) \<Longrightarrow> t \<in> set xs \<Longrightarrow> List.find (\<lambda>u. s_name u = s_name t) xs = Some t" for t :: "pyval setting" and xs
        by (induction xs) (auto simp: image_iff)
      with names(4) s(1) show ?thesis by (simp add: names_ok_def)
    qed
    then have "get_setting_by_name (cn_db C) (s_name s) ?db3 = Some s" by (simp add: get_setting_docs [OF laws])
    with n s(2) get2 [of "s_name s"] show False
      by (auto simp: select_class_get [OF laws, of _ _ _ _ old] split: if_splits option.splits)
  qed
  have other: "get_setting_by_name (cn_db C) n ?db3 = Some s"
    if "n \<notin> {''embedder_selected'', old, name}" "get_setting_by_name (cn_db C) n (ct_db S) = Some s"
      "s_category s \<notin> {Some ''embedder'', Some ''embedder_factory''}" for n s
    using that get2 [of n] by (simp add: select_class_get [OF laws])
  have out: "case r of
            Inr _ \<Rightarrow> False
          | Inl err \<Rightarrow> err = HTTPException 400 \<and> (\<exists>llm m. ct_llm S' = Some llm \<and> ct_embedder S' = Some m \<and>
                load_language_model C (ct_mh S) ?db3 = Inr llm \<and> load_language_embedder C (ct_mh S) llm ?db3 = Inr m)
              \<or> fst (load_natural_language C (S2\<lparr>ct_db := ?db3\<rparr>)) = Some err"
  proof (cases err)
    case None
    with l have "load_natural_language C (S2\<lparr>ct_db := ?db3\<rparr>) = (None, S3)" by simp
    then obtain llm m where "load_language_model C (ct_mh S) ?db3 = Inr llm" "load_language_embedder C (ct_mh S) llm ?db3 = Inr m"
      "ct_llm S3 = Some llm" "ct_embedder S3 = Some m" by (rule load_natural_language_loaded) (simp add: db(2))
    with res None S' show ?thesis by simp
  next
    case (Some x)
    with res l show ?thesis by simp
  qed
  show ?thesis
    unfolding Let_def db' using sel cfg lost other out by (intro conjI allI impI ballI) simp_all
qed

text \<open>A core plugin whose hooks change nothing, and a factory whose objects are the names of their classes.\<close>

definition quiet :: "string \<Rightarrow> (config_class list, unit) cat_hook" where
  "quiet n = \<lparr>h_name = n, h_plugin_id = [], h_priority = 0, h_function = (\<lambda>vs c. (Inr None, c))\<rparr>"

definition bootstrap_hooks :: "string list" where
  "bootstrap_hooks =
     [''factory_allowed_llms'', ''factory_allowed_embedders'', ''factory_allowed_auth_handlers'', ''before_cat_bootstrap'', ''after_cat_bootstrap'']"

definition quiet_disk :: "(string, (config_class list, unit) source) dict" where
  "quiet_disk =
     [(''core_plugin'', \<lparr>src_valid = True, src_install = None, src_settings = None, src_hooks = map quiet bootstrap_hooks,
         src_tools = [''clock''], src_forms = [], src_endpoints = [], src_activated = None, src_deactivated = None\<rparr>)]"

definition quiet_mh :: manager where
  "quiet_mh = snd (boot quiet_disk None)"

definition name_factory :: "string factory" where
  "name_factory =
     \<lparr>fe_construct = (\<lambda>k config. Inr k), fe_is_auth_handler = (\<lambda>k. True), fe_json_loads = (\<lambda>s. Inl (ValueError ''json'')),
      fe_schema = (\<lambda>c. Inr [(''title'', PStr (cc_name c))])\<rparr>"

definition demo_connections :: "(string, nat, unit, mem_db, pyval setting list) connections" where
  "demo_connections =
     \<lparr>cn_db = list_db, cn_qdrant = mem_qdrant, cn_factory = name_factory, cn_class = (\<lambda>m. m), cn_attr = (\<lambda>m a. None),
      cn_embed_size = (\<lambda>m. if m = ''OpenAIEmbeddings'' then Inl (Exception ''invalid key'') else Inr 3), cn_embed = (\<lambda>m s. Inr (length s)),
      cn_procedure = (\<lambda>n. demo_tool), cn_endpoint = (\<lambda>n. new_endpoint [] n 0 [''GET''] []),
      cn_web = \<lparr>wb_add_api_route = (\<lambda>e. None), wb_include_router = (\<lambda>e. None), wb_methods = (\<lambda>ms. ms)\<rparr>,
      cn_uuid = (\<lambda>n. replicate n CHR ''i''), cn_setting_id = (\<lambda>n. n), cn_now = 0\<rparr>"

definition demo_ccat :: "(string, mem_db, pyval setting list) cheshire_cat" where
  "demo_ccat =
     \<lparr>ct_db = select_class demo_connections ''embedder_selected'' ''embedder'' ''embedder_factory'' ''EmbedderDumbConfig''
        (OtherValue (PDict [])) [], ct_llm = None, ct_embedder = Some ''DumbEmbedder'', ct_auth = None,
      ct_memory = None, ct_vectors = [], ct_mh = quiet_mh, ct_routes = []\<rparr>"

lemma demo_db_laws: "tinydb_laws (cn_db demo_connections) id"
  by (simp add: demo_connections_def list_db_laws)

theorem embedder_change_rolled_back_witness:
  "\<exists>s. get_setting_by_name list_db ''embedder_selected''
         (ct_db (snd (upsert_embedder_setting demo_connections ''EmbedderOpenAIConfig'' [] demo_ccat))) = Some s \<and>
       selected_class s = Inr (PStr ''EmbedderDumbConfig'')"
proof -
  let ?C = demo_connections and ?old = "''EmbedderDumbConfig''"
  let ?sel = "saved_as ?C ''embedder_selected'' ''embedder'' (name_value ?old)"
  let ?S = "demo_ccat\<lparr>ct_db := select_class ?C ''embedder_selected'' ''embedder'' ''embedder_factory'' ''EmbedderOpenAIConfig'' (OtherValue (PDict [])) (ct_db demo_ccat)\<rparr>"
  have n: "names_ok id (ct_db demo_ccat)" by code_simp
  have "\<not> isl (get_embedders_schemas (cn_factory ?C) (ct_mh demo_ccat)) \<and>
      ''EmbedderOpenAIConfig'' \<in> set (dict_keys (projr (get_embedders_schemas (cn_factory ?C) (ct_mh demo_ccat))))" by code_simp
  then obtain schemas where sc: "get_embedders_schemas (cn_factory ?C) (ct_mh demo_ccat) = Inr schemas"
    "''EmbedderOpenAIConfig'' \<in> set (dict_keys schemas)"
    by (cases "get_embedders_schemas (cn_factory ?C) (ct_mh demo_ccat)") auto
  have db: "ct_db demo_ccat = select_class ?C ''embedder_selected'' ''embedder'' ''embedder_factory'' ?old (OtherValue (PDict [])) []"
    by (simp add: demo_ccat_def)
  have s: "get_setting_by_name (cn_db ?C) ''embedder_selected'' (ct_db demo_ccat) = Some ?sel"
    "get_setting_by_name (cn_db ?C) ?old (ct_db demo_ccat) = Some (saved_as ?C ?old ''embedder_factory'' (OtherValue (PDict [])))"
    unfolding db by (simp_all add: select_class_get [OF demo_db_laws])
  have "fst (load_natural_language ?C ?S) = None" by code_simp
  then obtain S1 where l: "load_natural_language ?C ?S = (None, S1)" by (metis prod.collapse)
  have "fst (load_memory ?C (snd (load_natural_language ?C ?S))) = Some (Exception ''invalid key'')" by code_simp
  then obtain S2 where m: "load_memory ?C S1 = (Some (Exception ''invalid key''), S2)" using l by (metis prod.collapse snd_conv)
  obtain r S' where u: "upsert_embedder_setting ?C ''EmbedderOpenAIConfig'' [] demo_ccat = (r, S')" by fastforce
  have "?old \<noteq> ''embedder_selected''" by simp
  from embedder_change_rolled_back [OF demo_db_laws n sc s(1) saved_as_simps(2) s(2) this l m u, unfolded Let_def, THEN conjunct1]
  show ?thesis using u by (simp add: demo_connections_def)
qed

text \<open>
  A language model whose change fails stays in use.  When the memory cannot be opened after the change the client gets 400, no language
  model is selected any more and every stored configuration of one is deleted, those of earlier models included, while the object that answers
  messages is still the one built from the refused configuration; a restart would load the default one.  Other settings are as before.
\<close>
theorem failed_llm_stays_loaded:
  assumes "tinydb_laws (cn_db C) docs" and "names_ok docs (ct_db S)"
    and "get_llms_schemas (cn_factory C) (ct_mh S) = Inr schemas" and "name \<in> set (dict_keys schemas)"
    and "load_natural_language C (S\<lparr>ct_db := select_class C ''llm_selected'' ''llm'' ''llm_factory'' name (OtherValue (PDict payload)) (ct_db S)\<rparr>) = (None, S1)"
    and "load_memory C S1 = (Some e, S2)"
    and "upsert_llm_setting C name payload S = (r, S')"
  shows "r = Inl (HTTPException 400) \<and>
         get_setting_by_name (cn_db C) ''llm_selected'' (ct_db S') = None \<and>
         (\<forall>s \<in> set (docs (ct_db S')). s_category s \<notin> {Some ''llm'', Some ''llm_factory''}) \<and>
         (\<forall>n s. n \<notin> {''llm_selected'', name} \<longrightarrow> get_setting_by_name (cn_db C) n (ct_db S) = Some s \<longrightarrow>
            s_category s \<notin> {Some ''llm'', Some ''llm_factory''} \<longrightarrow> get_setting_by_name (cn_db C) n (ct_db S') = Some s) \<and>
         (\<exists>llm. ct_llm S' = Some llm \<and>
            load_language_model C (ct_mh S) (select_class C ''llm_selected'' ''llm'' ''llm_factory'' name (OtherValue (PDict payload)) (ct_db S)) = Inr llm) \<and>
         load_language_model C (ct_mh S) (ct_db S') = get_llm_from_config (cn_factory C) LLMDefaultConfig []"
proof -
  note laws = assms(1)
  let ?db1 = "select_class C ''llm_selected'' ''llm'' ''llm_factory'' name (OtherValue (PDict payload)) (ct_db S)"
  let ?db2 = "drop_category C ''llm_factory'' (drop_category C ''llm'' ?db1)"
  obtain llm m where l: "load_language_model C (ct_mh S) ?db1 = Inr llm" "ct_llm S1 = Some llm"
    by (rule load_natural_language_loaded [OF assms(5)]) simp
  note k = load_memory_keeps [OF assms(6)]
  have db: "ct_db S2 = ?db1" using k(1) load_natural_language_keeps(1) [OF assms(5)] by simp
  have "r = Inl (HTTPException 400)" and S': "S' = S2\<lparr>ct_db := ?db2\<rparr>"
    using assms(3-7) db by (simp_all add: upsert_llm_setting_def)
  moreover have db': "ct_db S' = ?db2" "ct_llm S' = Some llm" using S' k(3) l(2) by simp_all
  have names: "names_ok docs ?db1" "names_ok docs (drop_category C ''llm'' ?db1)" "names_ok docs ?db2"
    by (intro select_class_names [OF laws] drop_category_names [OF laws] assms(2))+
  have get2: "get_setting_by_name (cn_db C) n ?db2 = (case get_setting_by_name (cn_db C) n ?db1 of
      None \<Rightarrow> None | Some s \<Rightarrow> if s_category s \<in> {Some ''llm'', Some ''llm_factory''} then None else Some s)" for n
    by (simp add: drop_category_get [OF laws] names split: option.split)
  have none: "get_setting_by_name (cn_db C) ''llm_selected'' ?db2 = None"
    by (simp add: get2 select_class_get [OF laws])
  moreover have "\<forall>s \<in> set (docs ?db2). s_category s \<notin> {Some ''llm'', Some ''llm_factory''}"
    by (simp add: drop_category_docs [OF laws])
  moreover have "get_setting_by_name (cn_db C) n ?db2 = Some s"
    if "n \<notin> {''llm_selected'', name}" "get_setting_by_name (cn_db C) n (ct_db S) = Some s"
      "s_category s \<notin> {Some ''llm'', Some ''llm_factory''}" for n s
    using that get2 [of n] by (simp add: select_class_get [OF laws])
  moreover have "load_language_model C (ct_mh S) ?db2 = get_llm_from_config (cn_factory C) LLMDefaultConfig []"
    using none by (simp add: load_language_model_def)
  ultimately show ?thesis unfolding db' using l(1) by (intro conjI allI impI) simp_all
qed

theorem failed_llm_stays_loaded_witness:
  "get_setting_by_name list_db ''llm_selected''
     (ct_db (snd (upsert_llm_setting (demo_connections\<lparr>cn_embed_size := \<lambda>m. Inl (Exception ''down'')\<rparr>) ''LLMCohereConfig'' [] demo_ccat))) = None"
proof -
  let ?C = "demo_connections\<lparr>cn_embed_size := \<lambda>m. Inl (Exception ''down'')\<rparr>"
  let ?S = "demo_ccat\<lparr>ct_db := select_class ?C ''llm_selected'' ''llm'' ''llm_factory'' ''LLMCohereConfig'' (OtherValue (PDict [])) (ct_db demo_ccat)\<rparr>"
  have laws: "tinydb_laws (cn_db ?C) id" using demo_db_laws by simp
  have n: "names_ok id (ct_db demo_ccat)" by code_simp
  have "\<not> isl (get_llms_schemas (cn_factory ?C) (ct_mh demo_ccat)) \<and>
      ''LLMCohereConfig'' \<in> set (dict_keys (projr (get_llms_schemas (cn_factory ?C) (ct_mh demo_ccat))))" by code_simp
  then obtain schemas where sc: "get_llms_schemas (cn_factory ?C) (ct_mh demo_ccat) = Inr schemas"
    "''LLMCohereConfig'' \<in> set (dict_keys schemas)"
    by (cases "get_llms_schemas (cn_factory ?C) (ct_mh demo_ccat)") auto
  have "fst (load_natural_language ?C ?S) = None" by code_simp
  then obtain S1 where l: "load_natural_language ?C ?S = (None, S1)" by (metis prod.collapse)
  have "fst (load_memory ?C (snd (load_natural_language ?C ?S))) = Some (Exception ''down'')" by code_simp
  then obtain S2 where m: "load_memory ?C S1 = (Some (Exception ''down''), S2)" using l by (metis prod.collapse snd_conv)
  obtain r S' where u: "upsert_llm_setting ?C ''LLMCohereConfig'' [] demo_ccat = (r, S')" by fastforce
  from failed_llm_stays_loaded [OF laws n sc l m u] have "get_setting_by_name (cn_db ?C) ''llm_selected'' (ct_db S') = None" by simp
  with u show ?thesis by (simp add: demo_connections_def)
qed


subsection \<open>Plugins with the callback\<close>

text \<open>Without the callback the operations are those of the manager.\<close>

lemma discover_cb_discover:
  "discover_cb cb folders mh s = (None, mh', s') \<Longrightarrow> discover folders mh = (None, mh') \<and> cb mh' s = (None, s')"
proof (induction folders arbitrary: mh s)
  case Nil
  then show ?case by (auto simp: Let_def split: prod.splits)
next
  case (Cons i fs)
  let ?m = "load_plugin i mh"
  show ?case
  proof (cases "i \<in> set (mh_active ?m)")
    case False
    with Cons.prems Cons.IH [of ?m s] show ?thesis by simp
  next
    case True
    show ?thesis
    proof (cases "dict_get (mh_plugins ?m) i")
      case None
      with True Cons.prems show ?thesis by (simp add: toggle_plugin_cb_def toggle_plugin_def)
    next
      case (Some p)
      obtain err m1 where a: "activate_obj i p ?m = (err, m1)" by fastforce
      with True Some Cons.prems Cons.IH [of m1 s] show ?thesis by (auto split: option.splits prod.splits)
    qed
  qed
qed

text \<open>
  Finding the plugins again runs the callback once, on the result.  A discovery with the callback of the application that raises nothing is the
  plain discovery of the plugin manager followed by one run of the callback on the manager it found, whose caches are synchronised.
\<close>
theorem find_plugins_then_callback:
  assumes "find_plugins_cb cb mh s = (None, mh', s')" and "case mh_saved mh of None \<Rightarrow> True | Some l \<Rightarrow> distinct l"
  shows "find_plugins mh = (None, mh') \<and> cb mh' s = (None, s') \<and> mh_ok mh'"
proof -
  have f: "find_plugins mh = (None, mh') \<and> cb mh' s = (None, s')"
    using discover_cb_discover [OF assms(1) [unfolded find_plugins_cb_def]] by (simp only: find_plugins_def)
  with find_plugins_ok(1) [OF assms(2)] show ?thesis by blast
qed

theorem find_plugins_then_callback_witness:
  "snd (snd (find_plugins_cb (\<lambda>mh n. (None, n + length (mh_tools mh))) demo_mh 0)) = 2"
proof -
  let ?f = "find_plugins_cb (\<lambda>mh n. (None, n + length (mh_tools mh))) demo_mh (0 :: nat)"
  have "fst ?f = None" by code_simp
  then have f: "?f = (None, fst (snd ?f), snd (snd ?f))" by (simp add: prod_eq_iff)
  have "case mh_saved demo_mh of None \<Rightarrow> True | Some l \<Rightarrow> distinct l" by code_simp
  from find_plugins_then_callback [OF f this]
  have "find_plugins demo_mh = (None, fst (snd ?f))" "snd (snd ?f) = length (mh_tools (fst (snd ?f)))" by simp_all
  moreover have "length (mh_tools (snd (find_plugins demo_mh))) = 2" by code_simp
  ultimately show ?thesis by simp
qed

subsection \<open>The bootstrap\<close>

lemma allowed_classes_total:
  assumes "mh_reach mh" and "dict_get (mh_hooks mh) n \<noteq> None"
  shows "\<exists>l. allowed_classes n d mh = Inr l"
proof -
  obtain hs where hs: "dict_get (mh_hooks mh) n = Some hs" using assms(2) by blast
  then have known: "\<forall>h \<in> set hs. plugin_exists (h_plugin_id h) mh"
    using cached_hook_known(1) [OF reach_ok [OF assms(1)]] by blast
  show ?thesis
    by (simp add: allowed_classes_def execute_hook_def hs pipe_fold [OF known] split: prod.split)
qed

lemma execute_hook0_total:
  assumes "mh_reach (ct_mh S)" and "dict_get (mh_hooks (ct_mh S)) n \<noteq> None"
  shows "execute_hook0 n S = None"
proof -
  obtain hs where hs: "dict_get (mh_hooks (ct_mh S)) n = Some hs" using assms(2) by blast
  then have known: "\<forall>h \<in> set hs. plugin_exists (h_plugin_id h) (ct_mh S)"
    using cached_hook_known(1) [OF reach_ok [OF assms(1)]] by blast
  show ?thesis by (simp add: execute_hook0_def execute_hook_def hs run_all_fold [OF known])
qed

text \<open>The vector database answers.\<close>

definition qdrant_up :: "('e, 's, 'q) qdrant \<Rightarrow> bool" where
  "qdrant_up Q \<longleftrightarrow>
     (\<forall>c n q. fst (q_create_collection Q c n q) = None) \<and> (\<forall>c a q. fst (q_create_alias Q c a q) = None)"

lemma create_collection_up:
  assumes "qdrant_up Q"
  shows "fst (create_collection Q c n sz q) = None"
proof -
  obtain q1 where 1: "q_create_collection Q c sz q = (None, q1)" using assms by (metis prod.collapse qdrant_up_def)
  obtain q2 where 2: "q_create_alias Q c (n @ ''_'' @ c) q1 = (None, q2)" using assms by (metis prod.collapse qdrant_up_def)
  show ?thesis unfolding create_collection_def 1 prod.case option.case 2 by simp
qed

lemma open_collections_up: "qdrant_up Q \<Longrightarrow> fst (open_collections Q n sz cs q) = None"
proof (induction cs arbitrary: q)
  case (Cons c cs)
  have "fst (create_db_collection_if_not_exists Q c n sz q) = None" for q
    using create_collection_up [OF Cons.prems] by (simp add: create_db_collection_if_not_exists_def)
  moreover have "fst (check_embedding_size Q c n sz q) = None" for q
    using create_collection_up [OF Cons.prems] by (simp add: check_embedding_size_def Let_def)
  ultimately have "fst (open_collection Q c n sz q) = None"
    by (cases "create_db_collection_if_not_exists Q c n sz q") (metis (mono_tags, lifting) fst_conv open_collection_def option.simps(4) prod.simps(2))
  then obtain q' where "open_collection Q c n sz q = (None, q')" by (metis prod.collapse)
  with Cons show ?case by simp
qed simp

lemma activate_endpoints_up:
  assumes "\<forall>e. wb_add_api_route W e = None"
  shows "fst (activate_endpoints W active es routes) = None"
proof (induction es arbitrary: routes)
  case (Cons e es)
  have "fst (endpoint_activate W e routes) = None" for routes
    using assms by (simp add: endpoint_activate_def Let_def split: option.split)
  then obtain e' routes' where a: "endpoint_activate W e routes = (None, e', routes')" by (metis prod.collapse)
  show ?case
    by (cases "activate_endpoints W active es routes'"; cases "activate_endpoints W active es routes")
       (use Cons.IH [of routes'] Cons.IH [of routes] a in \<open>auto split: prod.splits\<close>)
qed simp

lemma scroll_subset:
  assumes "qdrant_laws Q view" and "view q c = Some k"
  shows "set (fst (q_scroll Q c n None q)) \<subseteq> ran (co_points k)"
proof -
  note L = assms(1) [unfolded qdrant_laws_def]
  note l = L [THEN conjunct2, THEN conjunct2, THEN conjunct2, THEN conjunct2, THEN conjunct2, THEN conjunct2, THEN conjunct2, THEN conjunct2, THEN conjunct2, THEN conjunct2]
  from l [rule_format, OF assms(2), of n] show ?thesis by (simp add: case_prod_unfold)
qed

text \<open>Embedding procedures raises only what the embedder raised, and keeps sizes and aliases, also then.\<close>

definition shape :: "'e collection option \<Rightarrow> (nat \<times> string list) option" where
  "shape k = map_option (\<lambda>k. (co_size k, co_aliases k)) k"

lemma shape_upd: "view q c = Some k \<Longrightarrow> view q' = (view q)(c \<mapsto> k\<lparr>co_points := ps\<rparr>) \<Longrightarrow> shape (view q' d) = shape (view q d)"
  by (auto simp: shape_def)

lemma shape_matches:
  "shape k' = shape (Some (opened e n c k)) \<Longrightarrow> \<exists>k''. k' = Some k'' \<and> matches_embedder e n c k''"
  using opened_matches [of e n c k] by (cases k') (auto simp: shape_def matches_embedder_def)

lemma embed_triggers_up:
  assumes "qdrant_laws Q view"
  shows "view q ''procedural'' \<noteq> None \<Longrightarrow>
    (case fst (embed_triggers Q emb now ts uuid n q) of None \<Rightarrow> True | Some e \<Rightarrow> \<exists>s. emb s = Inl e) \<and>
    (\<forall>c. shape (view (snd (embed_triggers Q emb now ts uuid n q)) c) = shape (view q c))"
proof (induction ts arbitrary: n q)
  case (Cons t ts)
  obtain k where k: "view q ''procedural'' = Some k" using Cons.prems by blast
  show ?case
  proof (cases "emb (tr_content t)")
    case (Inl e)
    then show ?thesis by auto
  next
    case (Inr v)
    obtain q1 p where a: "add_point Q ''procedural'' (tr_content t) v (trigger_metadata t now) None (uuid n) q = (Some p, q1)"
      and v1: "view q1 = (view q)(''procedural'' \<mapsto> k\<lparr>co_points := (co_points k)(pt_id p \<mapsto> p)\<rparr>)"
      using add_point_view [OF assms(1), OF k] by blast
    then have "view q1 ''procedural'' \<noteq> None" by simp
    from Cons.IH [OF this, of "Suc n"] show ?thesis
      unfolding embed_triggers.simps Inr sum.case a snd_conv using shape_upd [OF k v1] by simp
  qed
qed simp

lemma embedded_hashes_up:
  "\<forall>p \<in> set eps. dict_get (pt_metadata p) ''source'' \<noteq> None \<Longrightarrow> \<exists>d'. build_embedded_procedures_hashes eps d = Inr d'"
proof (induction eps arbitrary: d)
  case (Cons p eps)
  then obtain h where "point_hash p = Inr h" by (auto simp: point_hash_def)
  with Cons show ?case by simp
qed simp

lemma embed_procedures_up:
  assumes "qdrant_laws Q view" and "view q ''procedural'' = Some k"
    and "\<forall>p \<in> ran (co_points k). dict_get (pt_metadata p) ''source'' \<noteq> None"
  shows "(case fst (embed_procedures Q emb now procs uuid q) of None \<Rightarrow> True | Some e \<Rightarrow> \<exists>s. emb s = Inl e) \<and>
    (\<forall>c. shape (view (snd (embed_procedures Q emb now procs uuid q)) c) = shape (view q c))"
proof -
  have "\<forall>p \<in> set (fst (get_all_points Q ''procedural'' 10000 None q)). dict_get (pt_metadata p) ''source'' \<noteq> None"
    using scroll_subset [OF assms(1), OF assms(2)] assms(3) unfolding get_all_points_def by blast
  from embedded_hashes_up [OF this] obtain d where d: "build_embedded_procedures_hashes (fst (get_all_points Q ''procedural'' 10000 None q)) [] = Inr d"
    by blast
  define ids where "ids = map snd (filter (\<lambda>(h, i). h \<notin> set (dict_keys (build_active_procedures_hashes procs))) d)"
  define q1 where "q1 = (if ids = [] then q else delete_points Q ''procedural'' ids q)"
  have "shape (view (delete_points Q ''procedural'' ids q) c) = shape (view q c)" for c
    unfolding delete_points_def by (rule shape_upd [OF assms(2) qlaws(7) [OF assms(1), OF assms(2)]])
  then have 1: "shape (view q1 c) = shape (view q c)" for c
    by (cases "ids = []") (simp_all add: q1_def)
  have "shape (view q1 ''procedural'') \<noteq> None" unfolding 1 by (simp add: assms(2) shape_def)
  then have "view q1 ''procedural'' \<noteq> None" by (auto simp: shape_def)
  from embed_triggers_up [OF assms(1), OF this] 1 show ?thesis
    unfolding embed_procedures_def d sum.case Let_def ids_def [symmetric] q1_def [symmetric] by simp
qed

definition readable :: "('m, 'e, 's, 'q, 'db) connections \<Rightarrow> string \<Rightarrow> 'db \<Rightarrow> bool" where
  "readable C n db \<longleftrightarrow>
     (case get_setting_by_name (cn_db C) n db of None \<Rightarrow> True | Some s \<Rightarrow> \<not> isl (selected_class s))"

text \<open>The default objects can be built, whatever the configured ones do.\<close>

definition defaults_work :: "('m, 'e, 's, 'q, 'db) connections \<Rightarrow> bool" where
  "defaults_work C \<longleftrightarrow>
     \<not> isl (get_llm_from_config (cn_factory C) LLMDefaultConfig []) \<and>
     \<not> isl (get_embedder_from_config (cn_factory C) EmbedderDumbConfig []) \<and>
     \<not> isl (get_auth_handler_from_config (cn_factory C) CoreOnlyAuthConfig [])"

lemma not_isl: "\<not> isl r \<longleftrightarrow> (\<exists>x. r = Inr x)"
  by (cases r) auto

lemma init_auth_get:
  assumes "tinydb_laws (cn_db C) docs"
  shows "n \<notin> {''auth_handler_selected'', ''CoreOnlyAuthConfig''} \<Longrightarrow>
           get_setting_by_name (cn_db C) n (init_auth_settings C db) = get_setting_by_name (cn_db C) n db"
    and "readable C ''auth_handler_selected'' db \<Longrightarrow>
           \<exists>s. get_setting_by_name (cn_db C) ''auth_handler_selected'' (init_auth_settings C db) = Some s \<and> \<not> isl (selected_class s)"
  by (auto simp: init_auth_settings_def save_setting_get [OF assms] readable_def split: option.splits)

lemma init_auth_idem:
  assumes "tinydb_laws (cn_db C) docs"
  shows "init_auth_settings C (init_auth_settings C db) = init_auth_settings C db"
proof (cases "get_setting_by_name (cn_db C) ''auth_handler_selected'' db")
  case None
  then have "get_setting_by_name (cn_db C) ''auth_handler_selected'' (init_auth_settings C db) \<noteq> None"
    by (simp add: init_auth_settings_def save_setting_get [OF assms])
  then show ?thesis unfolding init_auth_settings_def [of C "init_auth_settings C db"] by (simp only: if_False)
next
  case (Some s)
  then show ?thesis by (simp add: init_auth_settings_def)
qed

lemma load_auth_up:
  assumes "tinydb_laws (cn_db C) docs" and "readable C ''auth_handler_selected'' db" and "ct_db S = init_auth_settings C db"
    and "get_allowed_auth_handler_strategies (ct_mh S) = Inr l" and "defaults_work C"
  shows "\<exists>a. load_auth C S = (None, S\<lparr>ct_auth := Some a\<rparr>)"
proof -
  obtain s name where s: "get_setting_by_name (cn_db C) ''auth_handler_selected'' (ct_db S) = Some s" "selected_class s = Inr name"
    using init_auth_get(2) [OF assms(1,2)] assms(3) by (auto simp: not_isl)
  obtain d where d: "get_auth_handler_from_config (cn_factory C) CoreOnlyAuthConfig [] = Inr d"
    using assms(5) by (auto simp: defaults_work_def not_isl)
  have db: "init_auth_settings C (ct_db S) = ct_db S" using init_auth_idem [OF assms(1)] assms(3) by simp
  have "S\<lparr>ct_db := ct_db S\<rparr> = S" by simp
  with s d assms(4) show ?thesis
    unfolding load_auth_def db by (auto simp: get_auth_handler_from_name_def split: sum.split)
qed

text \<open>
  Model and embedder are loaded, unless no embedder is selected and the one of the model's vendor cannot be built.
\<close>

lemma load_natural_language_up:
  assumes "get_allowed_language_models (ct_mh S) = Inr l" and "get_allowed_embedder_models (ct_mh S) = Inr l'"
    and "readable C ''llm_selected'' (ct_db S)" and "readable C ''embedder_selected'' (ct_db S)" and "defaults_work C"
  obtains llm where "load_language_model C (ct_mh S) (ct_db S) = Inr llm"
    "case load_language_embedder C (ct_mh S) llm (ct_db S) of
       Inl e \<Rightarrow> get_setting_by_name (cn_db C) ''embedder_selected'' (ct_db S) = None \<and> vendor_embedder C llm = Inl e \<and>
         load_natural_language C S = (Some e, S\<lparr>ct_llm := Some llm\<rparr>)
     | Inr m \<Rightarrow> load_natural_language C S = (None, S\<lparr>ct_llm := Some llm, ct_embedder := Some m\<rparr>)"
proof -
  obtain d d' where d: "get_llm_from_config (cn_factory C) LLMDefaultConfig [] = Inr d" "get_embedder_from_config (cn_factory C) EmbedderDumbConfig [] = Inr d'"
    using assms(5) by (auto simp: defaults_work_def not_isl)
  obtain name where "case get_setting_by_name (cn_db C) ''llm_selected'' (ct_db S) of None \<Rightarrow> True | Some s \<Rightarrow> selected_class s = Inr name"
    using assms(3) by (cases "get_setting_by_name (cn_db C) ''llm_selected'' (ct_db S)") (auto simp: readable_def not_isl)
  from load_language_model_total [OF assms(1) this d(1)] obtain llm where llm: "load_language_model C (ct_mh S) (ct_db S) = Inr llm" by blast
  have "get_setting_by_name (cn_db C) ''embedder_selected'' (ct_db S) = None \<and> vendor_embedder C llm = Inl e"
    if "load_language_embedder C (ct_mh S) llm (ct_db S) = Inl e" for e
  proof (cases "get_setting_by_name (cn_db C) ''embedder_selected'' (ct_db S)")
    case None
    with that show ?thesis by (simp add: load_language_embedder_def)
  next
    case (Some s)
    then have "case get_setting_by_name (cn_db C) ''embedder_selected'' (ct_db S) of
        None \<Rightarrow> \<exists>m. vendor_embedder C llm = Inr m | Some s \<Rightarrow> \<exists>name. selected_class s = Inr name"
      using assms(4) by (simp add: readable_def not_isl)
    from load_language_embedder_total [OF assms(2) this d(2)] that show ?thesis by simp
  qed
  with llm show ?thesis
    by (intro that [of llm]) (auto simp: load_natural_language_def split: sum.split)
qed

lemma memory_opened:
  assumes "qdrant_laws (cn_qdrant C) view" and "qdrant_up (cn_qdrant C)" and "ct_embedder S = Some m" and "cn_embed_size C m = Inr n"
  obtains q1 where "load_memory C S = (None, S\<lparr>ct_vectors := q1, ct_memory := Some (embedder_name C m, n)\<rparr>)"
    "\<forall>c \<in> set memory_collections. view q1 c = Some (opened (embedder_name C m) n c (view (ct_vectors S) c))"
proof -
  obtain q1 where q1: "vector_memory_init (cn_qdrant C) (embedder_name C m) n (ct_vectors S) = (None, q1)"
    using open_collections_up [OF assms(2)] by (metis prod.collapse vector_memory_init_def)
  have "distinct memory_collections" by (simp add: memory_collections_def)
  note v1 = open_collections_view [OF assms(1) this q1 [unfolded vector_memory_init_def]]
  show ?thesis by (rule that [of q1]) (use assms(3,4) q1 v1 in \<open>simp_all add: load_memory_def\<close>)
qed

lemma callback_embeds:
  assumes "qdrant_laws (cn_qdrant C) view" and "\<forall>e. wb_add_api_route (cn_web C) e = None" and "ct_embedder S = Some m"
    and "view (ct_vectors S) ''procedural'' = Some k" and "\<forall>p \<in> ran (co_points k). dict_get (pt_metadata p) ''source'' \<noteq> None"
  obtains err rs q2 where "on_finish_plugins_sync_callback C mh S = (err, S\<lparr>ct_routes := rs, ct_vectors := q2\<rparr>)"
    "case err of None \<Rightarrow> True | Some e \<Rightarrow> \<exists>s. cn_embed C m s = Inl e" "\<forall>c. shape (view q2 c) = shape (view (ct_vectors S) c)"
proof -
  obtain es rs where act: "activate_endpoints (cn_web C) (mh_active mh) (map (cn_endpoint C) (mh_endpoints mh)) (ct_routes S) = (None, es, rs)"
    using activate_endpoints_up [OF assms(2)] by (metis prod.collapse)
  let ?emb = "embed_procedures (cn_qdrant C) (cn_embed C m) (cn_now C) (map (cn_procedure C) (procedures mh)) (cn_uuid C) (ct_vectors S)"
  note up = embed_procedures_up [OF assms(1), OF assms(4,5)]
  have "on_finish_plugins_sync_callback C mh S = (fst ?emb, S\<lparr>ct_routes := rs, ct_vectors := snd ?emb\<rparr>)"
    using act assms(3) by (simp add: on_finish_plugins_sync_callback_def Let_def case_prod_unfold)
  from that [OF this] up show ?thesis by blast
qed

text \<open>
  C11. How far the application starts, whatever is configured.  Let the plugins be found, every hook of the bootstrap have a plugin, the stored selections be
  readable, the default model, embedder and authentication handler buildable, the vector database up with readable procedures and the
  endpoints accepted.  Then an authentication handler is made and selected in the database, and a language model is loaded, for every behaviour of the configured
  classes.  The bootstrap raises at most what the embedder raises, at one of three places.  With no embedder selected, the embedder of the
  model's vendor may fail to be built: then neither embedder nor memory exist and the vector database is untouched.  The embedder that was loaded may fail to embed
  the text that measures it: then there is no memory and the vector database is untouched.  Otherwise the memory is kept and the three
  collections have the size and the alias of that embedder, and the bootstrap runs to its end unless the embedder fails on a trigger of a procedure.
\<close>
theorem bootstrap_completes:
  fixes C :: "('m, 'e, 's, 'q, 'db) connections"
  assumes "tinydb_laws (cn_db C) docs" and "qdrant_laws (cn_qdrant C) view" and "qdrant_up (cn_qdrant C)" and "defaults_work C"
    and "boot disk saved = (None, mh)" and "case saved of None \<Rightarrow> True | Some l \<Rightarrow> distinct l"
    and "\<forall>n \<in> set bootstrap_hooks. dict_get (mh_hooks mh) n \<noteq> None"
    and "\<forall>n \<in> {''llm_selected'', ''embedder_selected'', ''auth_handler_selected''}. readable C n db"
    and "\<forall>e. wb_add_api_route (cn_web C) e = None"
    and "\<forall>k. view q ''procedural'' = Some k \<longrightarrow> (\<forall>p \<in> ran (co_points k). dict_get (pt_metadata p) ''source'' \<noteq> None)"
    and "cheshire_cat_init C disk saved db q routes = (err, S)"
  shows "ct_mh S = mh \<and> ct_auth S \<noteq> None \<and> ct_db S = init_auth_settings C db \<and>
         get_setting_by_name (cn_db C) ''auth_handler_selected'' (ct_db S) \<noteq> None \<and>
         (\<exists>llm. load_language_model C mh (ct_db S) = Inr llm \<and> ct_llm S = Some llm \<and>
            (case load_language_embedder C mh llm (ct_db S) of
               Inl e \<Rightarrow> get_setting_by_name (cn_db C) ''embedder_selected'' db = None \<and> vendor_embedder C llm = Inl e \<and>
                 err = Some e \<and> ct_embedder S = None \<and> ct_memory S = None \<and> ct_vectors S = q
             | Inr m \<Rightarrow> ct_embedder S = Some m \<and>
                 (case cn_embed_size C m of
                    Inl e \<Rightarrow> err = Some e \<and> ct_memory S = None \<and> ct_vectors S = q
                  | Inr n \<Rightarrow> ct_memory S = Some (embedder_name C m, n) \<and>
                      (\<forall>c \<in> set memory_collections. \<exists>k. view (ct_vectors S) c = Some k \<and> matches_embedder (embedder_name C m) n c k) \<and>
                      (case err of None \<Rightarrow> True | Some e \<Rightarrow> \<exists>s. cn_embed C m s = Inl e))))"
proof -
  note laws = assms(1) and ql = assms(2)
  have reach: "mh_reach mh" by (rule booted [OF assms(5,6)])
  have hooks: "dict_get (mh_hooks mh) ''factory_allowed_llms'' \<noteq> None" "dict_get (mh_hooks mh) ''factory_allowed_embedders'' \<noteq> None"
    "dict_get (mh_hooks mh) ''factory_allowed_auth_handlers'' \<noteq> None" "dict_get (mh_hooks mh) ''before_cat_bootstrap'' \<noteq> None"
    "dict_get (mh_hooks mh) ''after_cat_bootstrap'' \<noteq> None"
    using assms(7) by (simp_all add: bootstrap_hooks_def)
  obtain ll le la where ll: "get_allowed_language_models mh = Inr ll" and le: "get_allowed_embedder_models mh = Inr le"
    and la: "get_allowed_auth_handler_strategies mh = Inr la"
    using allowed_classes_total [OF reach] hooks(1-3)
    unfolding get_allowed_language_models_def get_allowed_embedder_models_def get_allowed_auth_handler_strategies_def by meson
  let ?db = "init_auth_settings C db"
  define S0 :: "('m, 'q, 'db) cheshire_cat" where "S0 = \<lparr>ct_db = ?db, ct_llm = None, ct_embedder = None, ct_auth = None, ct_memory = None,
      ct_vectors = q, ct_mh = mh, ct_routes = routes\<rparr>"
  have la0: "get_allowed_auth_handler_strategies (ct_mh S0) = Inr la" "ct_db S0 = ?db" using la by (simp_all add: S0_def)
  have "readable C ''auth_handler_selected'' db" using assms(8) by blast
  from load_auth_up [OF laws this la0(2) la0(1) assms(4)] obtain a where s1: "load_auth C S0 = (None, S0\<lparr>ct_auth := Some a\<rparr>)" by blast
  let ?S1 = "S0\<lparr>ct_auth := Some a\<rparr>"
  have h1: "execute_hook0 ''before_cat_bootstrap'' ?S1 = None" using execute_hook0_total [of ?S1] reach hooks(4) by (simp add: S0_def)
  have es: "get_setting_by_name (cn_db C) ''embedder_selected'' ?db = get_setting_by_name (cn_db C) ''embedder_selected'' db"
    by (rule init_auth_get(1) [OF laws]) simp
  have rd: "readable C ''llm_selected'' ?db" "readable C ''embedder_selected'' ?db"
    using assms(8) init_auth_get(1) [OF laws, of "''llm_selected''" db] es by (simp_all add: readable_def)
  have au: "get_setting_by_name (cn_db C) ''auth_handler_selected'' ?db \<noteq> None"
    using init_auth_get(2) [OF laws] assms(8) by blast
  have f1: "ct_mh ?S1 = mh" "ct_db ?S1 = ?db" by (simp_all add: S0_def)
  have allowed: "get_allowed_language_models (ct_mh ?S1) = Inr ll" "get_allowed_embedder_models (ct_mh ?S1) = Inr le"
    "readable C ''llm_selected'' (ct_db ?S1)" "readable C ''embedder_selected'' (ct_db ?S1)"
    using ll le rd by (simp_all add: S0_def)
  obtain llm where llm: "load_language_model C mh ?db = Inr llm" and
    s2: "case load_language_embedder C mh llm ?db of
       Inl e \<Rightarrow> get_setting_by_name (cn_db C) ''embedder_selected'' ?db = None \<and> vendor_embedder C llm = Inl e \<and>
         load_natural_language C ?S1 = (Some e, ?S1\<lparr>ct_llm := Some llm\<rparr>)
     | Inr m \<Rightarrow> load_natural_language C ?S1 = (None, ?S1\<lparr>ct_llm := Some llm, ct_embedder := Some m\<rparr>)"
    by (rule load_natural_language_up [OF allowed assms(4), unfolded f1])
  note run = assms(11) [unfolded cheshire_cat_init_def assms(5) prod.case Let_def S0_def [symmetric] and_then_def option.case s1 h1]
  show ?thesis
  proof (cases "load_language_embedder C mh llm ?db")
    case (Inl e)
    with s2 run have "err = Some e" "S = ?S1\<lparr>ct_llm := Some llm\<rparr>" by simp_all
    with Inl s2 es llm au show ?thesis by (simp add: S0_def)
  next
    case m: (Inr m)
    let ?S2 = "?S1\<lparr>ct_llm := Some llm, ct_embedder := Some m\<rparr>"
    have s2': "load_natural_language C ?S1 = (None, ?S2)" using s2 m by simp
    show ?thesis
    proof (cases "cn_embed_size C m")
      case (Inl e)
      then have "load_memory C ?S2 = (Some e, ?S2)" by (simp add: load_memory_def)
      with run s2' have "err = Some e" "S = ?S2" by simp_all
      with m Inl llm au show ?thesis by (simp add: S0_def)
    next
      case (Inr n)
      have "ct_embedder ?S2 = Some m" by simp
      from memory_opened [OF ql assms(3) this Inr] obtain q1 where
        s3: "load_memory C ?S2 = (None, ?S2\<lparr>ct_vectors := q1, ct_memory := Some (embedder_name C m, n)\<rparr>)" and
        v1: "\<forall>c \<in> set memory_collections. view q1 c = Some (opened (embedder_name C m) n c (view q c))"
        by (auto simp: S0_def)
      let ?S3 = "?S2\<lparr>ct_vectors := q1, ct_memory := Some (embedder_name C m, n)\<rparr>"
      let ?k = "opened (embedder_name C m) n ''procedural'' (view q ''procedural'')"
      have k: "ct_embedder ?S3 = Some m" "view (ct_vectors ?S3) ''procedural'' = Some ?k"
        using v1 by (simp_all add: memory_collections_def)
      have src: "\<forall>p \<in> ran (co_points ?k). dict_get (pt_metadata p) ''source'' \<noteq> None"
        using assms(10) by (auto simp: opened_def fresh_collection_def split: option.splits if_splits)
      obtain err' rs q2 where s4: "on_finish_plugins_sync_callback C mh ?S3 = (err', ?S3\<lparr>ct_routes := rs, ct_vectors := q2\<rparr>)"
        and e: "case err' of None \<Rightarrow> True | Some e \<Rightarrow> \<exists>s. cn_embed C m s = Inl e" and sh: "\<forall>c. shape (view q2 c) = shape (view (ct_vectors ?S3) c)"
        by (rule callback_embeds [OF ql assms(9) k src])
      let ?S4 = "?S3\<lparr>ct_routes := rs, ct_vectors := q2\<rparr>"
      have h4: "execute_hook0 ''after_cat_bootstrap'' ?S4 = None" using execute_hook0_total [of ?S4] reach hooks(5) by (simp add: S0_def)
      have mh: "ct_mh ?S3 = mh" by (simp add: S0_def)
      have r: "err = err'" "S = ?S4"
        using run [unfolded s2' prod.case option.case s3 mh s4] h4 by (cases err'; simp)+
      have "\<exists>k'. view q2 c = Some k' \<and> matches_embedder (embedder_name C m) n c k'" if "c \<in> set memory_collections" for c
        by (rule shape_matches [of _ _ _ _ "view q c"]) (use sh v1 that in simp)
      with r e m Inr llm au show ?thesis by (simp add: S0_def)
    qed
  qed
qed

theorem bootstrap_completes_witness:
  "fst (cheshire_cat_init (demo_connections\<lparr>cn_embed_size := \<lambda>m. Inr 3, cn_attr := \<lambda>m a. Some ''k''\<rparr>) quiet_disk None
     (ct_db demo_ccat) demo_q []) = None"
proof -
  let ?C = "demo_connections\<lparr>cn_embed_size := \<lambda>m. Inr 3, cn_attr := \<lambda>m a. Some ''k''\<rparr>"
  have laws: "tinydb_laws (cn_db ?C) id" using demo_db_laws by simp
  have ql: "qdrant_laws (cn_qdrant ?C) mem_view" using mem_qdrant_laws by (simp add: demo_connections_def)
  have up: "qdrant_up (cn_qdrant ?C)" by (simp add: qdrant_up_def demo_connections_def mem_qdrant_def)
  have d: "defaults_work ?C" by code_simp
  have "fst (boot quiet_disk None) = None" by code_simp
  then have b: "boot quiet_disk None = (None, quiet_mh)" by (simp add: quiet_mh_def prod_eq_iff)
  have "list_all (\<lambda>n. \<not> Option.is_none (dict_get (mh_hooks quiet_mh) n)) bootstrap_hooks" by code_simp
  then have h: "\<forall>n \<in> set bootstrap_hooks. dict_get (mh_hooks quiet_mh) n \<noteq> None" by (simp add: list_all_iff Option.is_none_def)
  have "list_all (\<lambda>n. readable ?C n (ct_db demo_ccat)) [''llm_selected'', ''embedder_selected'', ''auth_handler_selected'']" by code_simp
  then have r: "\<forall>n \<in> {''llm_selected'', ''embedder_selected'', ''auth_handler_selected''}. readable ?C n (ct_db demo_ccat)" by simp
  have w: "wb_add_api_route (cn_web ?C) e = None" for e by (simp add: demo_connections_def)
  have p: "mem_view demo_q ''procedural'' = None" by (simp add: mem_view_def demo_q_def)
  have m: "vendor_embedder ?C m \<noteq> Inl e" "cn_embed_size ?C m = Inr 3" "cn_embed ?C m s \<noteq> Inl e" for m e s
    by (simp_all add: vendor_embedder_def attr_str_def get_embedder_from_config_def from_config_def demo_connections_def name_factory_def
        EmbedderOpenAIConfig_def EmbedderCohereConfig_def EmbedderGeminiChatConfig_def EmbedderDumbConfig_def settings_class_def)
  obtain err S where i: "cheshire_cat_init ?C quiet_disk None (ct_db demo_ccat) demo_q [] = (err, S)" by fastforce
  have e: "case None of None \<Rightarrow> True | Some l \<Rightarrow> distinct (l :: string list)" "\<forall>e. wb_add_api_route (cn_web ?C) e = None"
    "\<forall>k. mem_view demo_q ''procedural'' = Some k \<longrightarrow> (\<forall>p \<in> ran (co_points k). dict_get (pt_metadata p) ''source'' \<noteq> None)"
    using w p by simp_all
  have "err = None"
  proof (rule ccontr)
    assume "err \<noteq> None"
    then obtain e' where "err = Some e'" by blast
    with bootstrap_completes [OF laws ql up d b e(1) h r e(2,3) i] m show False
      by (simp split: sum.splits) (metis sum.exhaust)
  qed
  with i show ?thesis by simp
qed

lemma callback_keeps:
  assumes "on_finish_plugins_sync_callback C mh S = (err, S')"
  shows "ct_db S' = ct_db S" "ct_llm S' = ct_llm S" "ct_embedder S' = ct_embedder S" "ct_memory S' = ct_memory S" "ct_auth S' = ct_auth S"
  using assms by (auto simp: on_finish_plugins_sync_callback_def Let_def split: prod.splits option.splits)

text \<open>
  C23. What an answer of success to a change of embedder says.  The class is selected and its configuration stored, the embedder in use is the
  one this selection loads, the open collections are for its name and size, and the plugins were found again.  It does not say that the class
  asked for is in use: when it accepts the configuration, the object it makes is; when it refuses it, or no allowed class has the name, the default embedder is
  in use, under the selection of the class that was asked for.  (The exception is a class with the name of the selection itself, whose
  configuration the selection overwrites.)
\<close>
theorem embedder_change_takes_effect:
  assumes "tinydb_laws (cn_db C) docs" and "upsert_embedder_setting C name payload S = (Inr reply, S')"
  shows "reply = (name, payload) \<and>
         (\<exists>s. get_setting_by_name (cn_db C) ''embedder_selected'' (ct_db S') = Some s \<and> selected_class s = Inr (PStr name)) \<and>
         (name \<noteq> ''embedder_selected'' \<longrightarrow>
            (\<exists>s. get_setting_by_name (cn_db C) name (ct_db S') = Some s \<and> s_value s = OtherValue (PDict payload))) \<and>
         (\<exists>llm m n. ct_llm S' = Some llm \<and> ct_embedder S' = Some m \<and> load_language_embedder C (ct_mh S) llm (ct_db S') = Inr m \<and>
            (name \<noteq> ''embedder_selected'' \<longrightarrow>
               (case get_embedder_from_name (PStr name) (ct_mh S) of
                  Inr (Some cls) \<Rightarrow>
                    (case get_embedder_from_config (cn_factory C) cls payload of
                       Inr m' \<Rightarrow> m = m'
                     | Inl e \<Rightarrow> get_embedder_from_config (cn_factory C) EmbedderDumbConfig [] = Inr m)
                | Inr None \<Rightarrow> get_embedder_from_config (cn_factory C) EmbedderDumbConfig [] = Inr m
                | Inl e \<Rightarrow> False)) \<and>
            cn_embed_size C m = Inr n \<and> ct_memory S' = Some (embedder_name C m, n)) \<and>
         find_plugins (ct_mh S) = (None, ct_mh S')"
proof -
  let ?db = "select_class C ''embedder_selected'' ''embedder'' ''embedder_factory'' name (OtherValue (PDict payload)) (ct_db S)"
  from assms(2) obtain S1 S2 where l: "load_natural_language C (S\<lparr>ct_db := ?db\<rparr>) = (None, S1)" and m: "load_memory C S1 = (None, S2)"
    and p: "refresh_plugins C S2 = (None, S')" and reply: "reply = (name, payload)"
    by (auto simp: upsert_embedder_setting_def split: sum.splits if_splits prod.splits option.splits)
  obtain llm e where e: "load_language_embedder C (ct_mh S) llm ?db = Inr e" "ct_llm S1 = Some llm" "ct_embedder S1 = Some e"
    by (rule load_natural_language_loaded [OF l]) simp
  obtain n where n: "cn_embed_size C e = Inr n" "ct_memory S2 = Some (embedder_name C e, n)"
    using m e(3) by (auto simp: load_memory_def split: sum.splits prod.splits option.splits)
  have k: "ct_db S2 = ?db" "ct_mh S2 = ct_mh S" "ct_llm S2 = Some llm" "ct_embedder S2 = Some e"
    using load_natural_language_keeps [OF l] load_memory_keeps [OF m] e by simp_all
  obtain mh S3 where f: "find_plugins_cb (on_finish_plugins_sync_callback C) (ct_mh S2) S2 = (None, mh, S3)" and S': "S' = S3\<lparr>ct_mh := mh\<rparr>"
    using p by (auto simp: refresh_plugins_def split: prod.splits)
  have d: "find_plugins (ct_mh S2) = (None, mh) \<and> on_finish_plugins_sync_callback C mh S2 = (None, S3)"
    using discover_cb_discover [OF f [unfolded find_plugins_cb_def]] by (simp only: find_plugins_def)
  note c = callback_keeps [OF d [THEN conjunct2]]
  have "ct_db S' = ?db" "ct_llm S' = Some llm" "ct_embedder S' = Some e" "ct_memory S' = Some (embedder_name C e, n)" "ct_mh S' = mh"
    using S' c k n(2) by simp_all
  moreover have "case get_embedder_from_name (PStr name) (ct_mh S) of
      Inr (Some cls) \<Rightarrow> (case get_embedder_from_config (cn_factory C) cls payload of
         Inr m' \<Rightarrow> e = m' | Inl e' \<Rightarrow> get_embedder_from_config (cn_factory C) EmbedderDumbConfig [] = Inr e)
    | Inr None \<Rightarrow> get_embedder_from_config (cn_factory C) EmbedderDumbConfig [] = Inr e
    | Inl e' \<Rightarrow> False" if "name \<noteq> ''embedder_selected''"
    using e(1) that
    by (auto simp: load_language_embedder_def select_class_get [OF assms(1)] instantiate_def setting_of_def
        split: sum.splits option.splits)
  ultimately show ?thesis using reply e n(1) d k(2) by (simp add: select_class_get [OF assms(1)])
qed

text \<open>A class that refuses its configuration.\<close>

definition refusing_connections :: "(string, nat, unit, mem_db, pyval setting list) connections" where
  "refusing_connections = demo_connections\<lparr>cn_factory :=
     name_factory\<lparr>fe_construct := (\<lambda>k config. if k = ''FakeEmbeddings'' then Inl ValidationError else Inr k)\<rparr>\<rparr>"

theorem embedder_change_takes_effect_witness:
  "ct_embedder (snd (upsert_embedder_setting demo_connections ''EmbedderFakeConfig'' [] demo_ccat)) = Some ''FakeEmbeddings'' \<and>
   fst (upsert_embedder_setting refusing_connections ''EmbedderFakeConfig'' [] demo_ccat) = Inr (''EmbedderFakeConfig'', []) \<and>
   ct_embedder (snd (upsert_embedder_setting refusing_connections ''EmbedderFakeConfig'' [] demo_ccat)) = Some ''DumbEmbedder''"
proof -
  let ?u = "upsert_embedder_setting demo_connections ''EmbedderFakeConfig'' [] demo_ccat"
    and ?v = "upsert_embedder_setting refusing_connections ''EmbedderFakeConfig'' [] demo_ccat"
  have laws: "tinydb_laws (cn_db refusing_connections) id" using demo_db_laws by (simp add: refusing_connections_def)
  have cls: "get_embedder_from_name (PStr ''EmbedderFakeConfig'') (ct_mh demo_ccat) = Inr (Some EmbedderFakeConfig)" by code_simp
  have new: "get_embedder_from_config (cn_factory demo_connections) EmbedderFakeConfig [] = Inr ''FakeEmbeddings''"
    "get_embedder_from_config (cn_factory refusing_connections) EmbedderFakeConfig [] = Inl ValidationError"
    "get_embedder_from_config (cn_factory refusing_connections) EmbedderDumbConfig [] = Inr ''DumbEmbedder''"
    by code_simp+
  have "\<not> isl (fst ?u)" "\<not> isl (fst ?v)" by code_simp+
  then obtain reply reply' where u: "?u = (Inr reply, snd ?u)" and v: "?v = (Inr reply', snd ?v)" by (metis not_isl prod.collapse)
  have "ct_embedder (snd ?u) = Some ''FakeEmbeddings''"
    using embedder_change_takes_effect [OF demo_db_laws u] by (auto simp: cls new)
  moreover have "reply' = (''EmbedderFakeConfig'', []) \<and> ct_embedder (snd ?v) = Some ''DumbEmbedder''"
    using embedder_change_takes_effect [OF laws v] by (auto simp: cls new)
  ultimately show ?thesis using v by (metis fst_conv)
qed

end
