(* ===== verification/Spec2Isabelle.thy ===== *)
theory Spec2Isabelle
  imports Login Paging Environment Interactions Custom_Models History_Routes Decorators
    Snapshots Plugin_Imports Console Cache Assistants Hara_Workflow Auth Stray_Cat Rabbit_Hole White_Rabbit Plugin_Install Cheshire_Cat
begin

text \<open>
  A verification development for the Cheshire Cat core and the ISO 26262 assistants of this repository.

  The program.  The core (\<open>src/core/cat\<close>) is a server that answers chat messages: a plugin manager (the mad hatter) pipes values through the
  hooks of active plugins, a session (the stray cat) holds the working memory of a user and runs a conversation turn with the help of agents,
  a language model and a vector database, caches keep sessions between requests, and a settings database holds users and options.  The plugins of the
  repository (\<open>src/core/cat/plugins\<close>) are assistants for functional safety: a core library stores versioned work products and moves
  them through review, seven assistants generate the work products of a phase from approved ones, and the HARA assistant leads through a hazard analysis.

  Theories and sources.
  \<^item> \<open>Prelude\<close>: exceptions and results, ordered dictionaries, lists.  \<open>Py_Text\<close>: Python strings, values and
    addresses.  \<open>Floating\<close>: products and quotients as binary fractions, where the code takes a whole number of them.
  \<^item> \<open>Cache\<close>: \<open>cache/*\<close>.  Both caches interpret the locale \<open>base_cache\<close> and refine a map that never loses an item.
  \<^item> \<open>Iso_Text\<close>, \<open>Artifact_Store\<close>, \<open>Template_Renderer\<close>, \<open>Review_Workflow\<close>, \<open>Iso_Tools\<close>:
    \<open>plugins/AI_Agent-Core_Assistant\<close>.  The workspace is a map from paths to files; workflow steps are an inductive relation, and reachable
    stores have one chain of versions for each artifact and lose nothing.
  \<^item> \<open>Assistants\<close>: the generators and workflow tools of the seven assistants, as instances of one generator; each tool refines at most
    one step of the workflow.
  \<^item> \<open>Hara_Risk\<close>, \<open>Hara_Workflow\<close>: \<open>plugins/AI_Agent-HARA_Assistant\<close>, risk classification and the five steps of the analysis, with the
    invariant that ties the stage to the results.
  \<^item> \<open>Mad_Hatter\<close>: \<open>mad_hatter/mad_hatter.py\<close>, \<open>mad_hatter/plugin.py\<close>; reachable managers have caches that match the active plugins.
    \<open>Core_Plugin\<close>: \<open>mad_hatter/core_plugin\<close>, whose hooks are neutral.
    \<open>Decorators\<close>: \<open>mad_hatter/decorators/*\<close>, the objects a plugin file is made of.  \<open>Endpoints\<close>:
    \<open>decorators/endpoint.py\<close>, the life of a route.  \<open>Plugin_Store\<close>: manifests, settings files and listings of plugins,
    \<open>routes/plugins.py\<close>.  \<open>Plugin_Install\<close>: archives, the registry and installation.  \<open>Plugin_Imports\<close>:
    requirements and imports.
  \<^item> \<open>Settings_Db\<close>, \<open>Auth\<close>, \<open>Login\<close>: \<open>db/*\<close>, \<open>auth/*\<close>, \<open>factory/custom_auth_handler.py\<close>,
    \<open>routes/users.py\<close>, \<open>routes/auth.py\<close>.  The handlers interpret the locales \<open>token_handler\<close> and \<open>handler_pair\<close>.
  \<^item> \<open>Conversation\<close>: \<open>experimental/form/cat_form.py\<close>, \<open>agents/form_agent.py\<close> and the chat history.
  \<^item> \<open>Vector_Memory\<close>, \<open>Paging\<close>: \<open>memory/*\<close>, \<open>routes/memory/*\<close> and the embedding of procedures in
    \<open>looking_glass/cheshire_cat.py\<close>; reading a collection page by page ends and is complete.  \<open>Snapshots\<close>: the dump
    before a collection is made anew.
  \<^item> \<open>Rabbit_Hole\<close>: \<open>rabbit_hole.py\<close> and \<open>routes/upload.py\<close>, from an upload to the stored points.
  \<^item> \<open>Session\<close>: messages, working memory, cache and sockets of a session.  \<open>Agents\<close>: \<open>agents/*\<close> with prompts and output parser.
    \<open>Stray_Cat\<close>: \<open>looking_glass/stray_cat.py\<close> and the message and websocket endpoints.  \<open>Interactions\<close>:
    \<open>looking_glass/callbacks.py\<close>, the record of model calls.  \<open>History_Routes\<close>: reading and wiping the history.
  \<^item> \<open>White_Rabbit\<close>: \<open>looking_glass/white_rabbit.py\<close>, jobs of the scheduler.
  \<^item> \<open>Factory\<close>, \<open>Custom_Models\<close>: \<open>factory/*\<close>, configuration classes of models and the model classes of the core.
  \<^item> \<open>Cheshire_Cat\<close>: the application object of \<open>looking_glass/cheshire_cat.py\<close> with its start, and the routes that change models.
    \<open>Environment\<close>: \<open>env.py\<close>, \<open>main.py\<close> and what else reads the environment, with the folders made at import.
    \<open>Console\<close>: \<open>log.py\<close> and the names of callers in \<open>utils.py\<close>.

  How code becomes definitions.  A function is a HOL function of the same name where it is free; an exception is the left side of a sum or
  the first component of a pair with the state, so that what was changed before the exception stays changed.  Sessions use a small exception and state
  monad (\<open>bnd\<close>, \<open>catching\<close>).  Dictionaries are association lists in insertion order with the invariant \<open>dict_ok\<close>.
  Where objects are shared and it matters, as with working memories in the in-memory cache, there is an explicit store.  Python integers are
  \<open>int\<close>.  Nearly every loop runs over a finite list or shortens its text, which the \<open>termination\<close> proofs show.  Whether the loop over the pages
  of a collection ends depends on the database; it is a \<open>partial_function\<close>, and \<open>paging_terminates\<close> proves that it returns.  No definition has fuel.

  Parameters.  Third-party code is an argument, and what the code relies on is a named hypothesis: the document database (\<open>tinydb_laws\<close>), the
  vector database (\<open>qdrant_laws\<close>), tokens (\<open>jwt_laws\<close>), password hashing, language model, embedder, tokenizer, JSON parser and prompt templates,
  clock and fresh identifiers, the scheduler (\<open>scheduler_laws\<close>), the listing order of points
  (\<open>scroll_laws\<close>), its snapshots (\<open>remote_laws\<close>), pip with the environment markers of requirements (\<open>pip_laws\<close>), the vectorizer (\<open>vectorizer_law\<close>), parsers of documents, unpacking of archives, the registry, the classes that the
  factories construct and the transport of requests.  Each set of laws has an instance in the development, and the witnesses use it.  Prompts and fixed wording, which partly
  is not ASCII, are constructors or the interpolated values.  \<open>calm\<close> says that plugins and the language model do not rewrite the conversation,
  the database or the cache behind the turn; with other plugins only the properties without that hypothesis hold.
  The laws leave room for failure where the code meets it: the scheduler accepts only functions that take their arguments, a server of snapshots
  may refuse the download, counting tokens, building and embedding may raise.  They leave out failures of the machine: a full disk, items that
  cannot be pickled, a vector database that is there and does not answer.

  What is shown.  Safety and lineage of work products, the gate on approved upstream work products, refinement of the workflow by the tools; cache hits are
  the latest insert (on disk for keys without a slash); consistency of the plugin manager and the meaning of a hook execution; access follows the user database and the keys; forms submit only valid data;
  the procedures in memory follow the active plugins, recall is confined to the user; what a turn does to history and memory, that sessions survive
  requests, and which errors reach the client; what an upload stores and that an exported memory is read back; when jobs run; that updates of plugins and
  payloads keep settings, and a manifest is well formed; how far the application starts with whatever is configured, and that a change of the embedder takes
  effect, falls back to the default embedder or is rolled back, with the memory following; where settings of the process come from; how a login leads back to the page asked for; that the memory of a remote
  database is dumped before it is lost and requirements are there before a plugin is active.  Some
  theorems state behaviour that is not what the code means to do; the manifest lists them as findings.

  As committed, the files of the seven assistants do not parse, because the \<open>examples\<close> of a decorator are misquoted; they are
  modelled as they would run with that string quoted properly.

  Not modelled.  The mounting of static files and templates, the API description and the registration of routers in \<open>startup.py\<close>, which are calls
  of the web framework; the script that installs the requirements of all plugins; printing prompts for debugging; the wording of prompts and of the guidance texts,
  and the prompt builder of \<open>exposure_assessment_tool.py\<close> that nothing calls; the dictionary access of \<open>BaseModelDict\<close>, which records stand for.  Concurrency
  of requests is modelled only as the order of whole operations, and of callbacks where calls of a model overlap.
\<close>

end
